(* ===== verification/Prelude.thy ===== *)
theory Prelude
  imports Complex_Main "HOL-Library.Char_ord" "HOL-Library.List_Lexorder"
begin

text \<open>
  Shared vocabulary of the development: the types that stand for JavaScript values, the result
  and command monads in which the engine's fallible and stateful code is written, the row-table
  contract that every repository of the engine satisfies, a locale for status machines, and the
  generic list lemmas the components share.

  Conventions.
  \<^item> A \<^verbatim>\<open>Date\<close> is its \<^verbatim>\<open>getTime()\<close>, an integer number of milliseconds (\<open>time\<close>).
  \<^item> A \<^verbatim>\<open>number\<close> is a rational (\<open>jsnum\<close>): arithmetic is exact and every value is finite.
  \<^item> A \<^verbatim>\<open>string\<close> is a HOL \<open>string\<close>, a list of 8-bit code units.
  \<^item> A field that is \<^verbatim>\<open>T | null\<close> or \<^verbatim>\<open>T | undefined\<close> is an \<open>option\<close>; null and undefined coincide.
\<close>

section \<open>Collections of facts\<close>

named_theorems cmd_iff \<open>when a command of the engine succeeds or fails\<close>
named_theorems cmd_run \<open>executing a command on a store\<close>
named_theorems store_simps \<open>reading a table after writing a table\<close>
named_theorems guard_defs \<open>definitions of the boolean guards of the engine\<close>

section \<open>Types\<close>

type_synonym time = int
type_synonym jsnum = rat
type_synonym ident = string

text \<open>A JSON value as the engine receives it in fields of type \<^verbatim>\<open>unknown\<close>. Objects keep the order
  of their entries.\<close>

datatype json =
    JNull
  | JBool bool
  | JNum jsnum
  | JStr string
  | JArr "json list"
  | JObj "(string \<times> json) list"

text \<open>The \<^verbatim>\<open>===\<close> operator between two values that were parsed separately: primitives are compared
  by value, two arrays or objects are distinct references.\<close>

fun strict_eq :: "json \<Rightarrow> json \<Rightarrow> bool" where
  "strict_eq JNull JNull = True"
| "strict_eq (JBool a) (JBool b) = (a = b)"
| "strict_eq (JNum a) (JNum b) = (a = b)"
| "strict_eq (JStr a) (JStr b) = (a = b)"
| "strict_eq _ _ = False"

lemma strict_eq_imp_eq: "strict_eq a b \<Longrightarrow> a = b"
  by (induction a b rule: strict_eq.induct) simp_all

text \<open>\<^verbatim>\<open>Number.isInteger\<close>\<close>

definition is_integer :: "jsnum \<Rightarrow> bool" where
  "is_integer x \<longleftrightarrow> of_int \<lfloor>x\<rfloor> = x"

lemma is_integer_of_int [simp]: "is_integer (of_int n)"
  by (simp add: is_integer_def)

lemma is_integer_numeral [simp]: "is_integer (numeral n)" "is_integer 0" "is_integer 1"
  by (simp_all add: is_integer_def)

text \<open>Truthiness of an optional string: \<^verbatim>\<open>!x\<close> holds for null, undefined and the empty string.\<close>

fun falsy :: "string option \<Rightarrow> bool" where
  "falsy None = True"
| "falsy (Some s) = (s = [])"

section \<open>The result monad\<close>

text \<open>A synchronous function that may throw returns \<open>Inl\<close> of the error or \<open>Inr\<close> of its value.\<close>

definition bindR :: "'e + 'a \<Rightarrow> ('a \<Rightarrow> 'e + 'b) \<Rightarrow> 'e + 'b" where
  "bindR m f = (case m of Inl e \<Rightarrow> Inl e | Inr x \<Rightarrow> f x)"

definition guardR :: "bool \<Rightarrow> 'e \<Rightarrow> 'e + unit" where
  "guardR b e = (if b then Inr () else Inl e)"

lemma bindR_simps [simp]: "bindR (Inl e) f = Inl e" "bindR (Inr x) f = f x"
  by (simp_all add: bindR_def)

lemma bindR_Inr_iff [cmd_iff]: "bindR m f = Inr y \<longleftrightarrow> (\<exists>x. m = Inr x \<and> f x = Inr y)"
  by (cases m) simp_all

lemma bindR_Inl_iff [cmd_iff]:
  "bindR m f = Inl e \<longleftrightarrow> m = Inl e \<or> (\<exists>x. m = Inr x \<and> f x = Inl e)"
  by (cases m) simp_all

lemma guardR_iff [simp]: "guardR b e = Inr u \<longleftrightarrow> b" "guardR b e = Inl e' \<longleftrightarrow> \<not> b \<and> e' = e"
  by (auto simp: guardR_def)

lemma guardR_simps [simp]: "guardR True e = Inr ()" "guardR False e = Inl e"
  by (simp_all add: guardR_def)

text \<open>A loop \<^verbatim>\<open>for (const x of xs)\<close> whose body only throws.\<close>

fun forR :: "'a list \<Rightarrow> ('a \<Rightarrow> 'e + unit) \<Rightarrow> 'e + unit" where
  "forR [] f = Inr ()"
| "forR (x # xs) f = bindR (f x) (\<lambda>_. forR xs f)"

lemma forR_Inr_iff [cmd_iff]: "forR xs f = Inr u \<longleftrightarrow> (\<forall>x\<in>set xs. f x = Inr ())"
  by (induction xs) (auto simp: bindR_Inr_iff)

lemma forR_Inl_D: "forR xs f = Inl e \<Longrightarrow> \<exists>x\<in>set xs. f x = Inl e"
  by (induction xs) (auto simp: bindR_Inl_iff)

text \<open>\<^verbatim>\<open>xs.map(f)\<close> where the callback may throw.\<close>

fun mapR :: "('a \<Rightarrow> 'e + 'b) \<Rightarrow> 'a list \<Rightarrow> 'e + 'b list" where
  "mapR f [] = Inr []"
| "mapR f (x # xs) = bindR (f x) (\<lambda>y. bindR (mapR f xs) (\<lambda>ys. Inr (y # ys)))"

lemma mapR_Inr_D: "mapR f xs = Inr ys \<Longrightarrow> list_all2 (\<lambda>x y. f x = Inr y) xs ys"
  by (induction xs arbitrary: ys) (auto simp: bindR_Inr_iff)

lemma mapR_Inr_length: "mapR f xs = Inr ys \<Longrightarrow> length ys = length xs"
  by (simp add: mapR_Inr_D [THEN list_all2_lengthD, symmetric])

section \<open>The command monad\<close>

text \<open>
  An engine command runs inside one database transaction: it reads and writes a store of type
  \<open>'s\<close> and either returns a value with the new store or throws. A throw rolls the transaction
  back, so \<open>Inl\<close> carries no store: the caller goes on from the store it had.
\<close>

type_synonym ('s, 'e, 'a) cmd = "'s \<Rightarrow> 'e + 'a \<times> 's"

definition returnC :: "'a \<Rightarrow> ('s, 'e, 'a) cmd" where
  "returnC x s = Inr (x, s)"

definition throwC :: "'e \<Rightarrow> ('s, 'e, 'a) cmd" where
  "throwC e s = Inl e"

definition bindC :: "('s, 'e, 'a) cmd \<Rightarrow> ('a \<Rightarrow> ('s, 'e, 'b) cmd) \<Rightarrow> ('s, 'e, 'b) cmd" where
  "bindC m f s = (case m s of Inl e \<Rightarrow> Inl e | Inr (x, s') \<Rightarrow> f x s')"

definition getsC :: "('s \<Rightarrow> 'a) \<Rightarrow> ('s, 'e, 'a) cmd" where
  "getsC f s = Inr (f s, s)"

definition modifyC :: "('s \<Rightarrow> 's) \<Rightarrow> ('s, 'e, unit) cmd" where
  "modifyC f s = Inr ((), f s)"

definition guardC :: "bool \<Rightarrow> 'e \<Rightarrow> ('s, 'e, unit) cmd" where
  "guardC b e s = (if b then Inr ((), s) else Inl e)"

definition liftC :: "'e + 'a \<Rightarrow> ('s, 'e, 'a) cmd" where
  "liftC r s = (case r of Inl e \<Rightarrow> Inl e | Inr x \<Rightarrow> Inr (x, s))"

text \<open>\<^verbatim>\<open>const x = await f(); if (!x) throw e;\<close>\<close>

definition someC :: "('s \<Rightarrow> 'a option) \<Rightarrow> 'e \<Rightarrow> ('s, 'e, 'a) cmd" where
  "someC f e s = (case f s of None \<Rightarrow> Inl e | Some x \<Rightarrow> Inr (x, s))"

lemmas cmd_defs = returnC_def throwC_def bindC_def getsC_def modifyC_def guardC_def liftC_def
  someC_def

lemma returnC_iff [cmd_iff]:
  "returnC x s = Inr (y, s') \<longleftrightarrow> y = x \<and> s' = s" "returnC x s = Inl e \<longleftrightarrow> False"
  by (auto simp: returnC_def)

lemma throwC_iff [cmd_iff]:
  "throwC e s = Inr r \<longleftrightarrow> False" "throwC e s = Inl e' \<longleftrightarrow> e' = e"
  by (auto simp: throwC_def)

lemma bindC_Inr_iff [cmd_iff]:
  "bindC m f s = Inr r \<longleftrightarrow> (\<exists>x s1. m s = Inr (x, s1) \<and> f x s1 = Inr r)"
  by (auto simp: bindC_def split: sum.splits)

lemma bindC_Inl_iff [cmd_iff]:
  "bindC m f s = Inl e \<longleftrightarrow> m s = Inl e \<or> (\<exists>x s1. m s = Inr (x, s1) \<and> f x s1 = Inl e)"
  by (auto simp: bindC_def split: sum.splits)

lemma getsC_iff [cmd_iff]:
  "getsC f s = Inr (y, s') \<longleftrightarrow> y = f s \<and> s' = s" "getsC f s = Inl e \<longleftrightarrow> False"
  by (auto simp: getsC_def)

lemma modifyC_iff [cmd_iff]:
  "modifyC f s = Inr (u, s') \<longleftrightarrow> s' = f s" "modifyC f s = Inl e \<longleftrightarrow> False"
  by (auto simp: modifyC_def)

lemma guardC_iff [cmd_iff]:
  "guardC b e s = Inr (u, s') \<longleftrightarrow> b \<and> s' = s" "guardC b e s = Inl e' \<longleftrightarrow> \<not> b \<and> e' = e"
  by (auto simp: guardC_def)

lemma liftC_iff [cmd_iff]:
  "liftC r s = Inr (x, s') \<longleftrightarrow> r = Inr x \<and> s' = s" "liftC r s = Inl e \<longleftrightarrow> r = Inl e"
  by (auto simp: liftC_def split: sum.splits)

lemma someC_iff [cmd_iff]:
  "someC f e s = Inr (x, s') \<longleftrightarrow> f s = Some x \<and> s' = s"
  "someC f e s = Inl e' \<longleftrightarrow> f s = None \<and> e' = e"
  by (auto simp: someC_def split: option.splits)

text \<open>\<^verbatim>\<open>if (!x) throw e;\<close> on a value already read.\<close>

definition requireC :: "'a option \<Rightarrow> 'e \<Rightarrow> ('s, 'e, 'a) cmd" where
  "requireC x e = (case x of None \<Rightarrow> throwC e | Some y \<Rightarrow> returnC y)"

lemma requireC_iff [cmd_iff]:
  "requireC x e s = Inr (y, s') \<longleftrightarrow> x = Some y \<and> s' = s"
  "requireC x e s = Inl e' \<longleftrightarrow> x = None \<and> e' = e"
  by (auto simp: requireC_def cmd_iff split: option.splits)

lemma bindC_run [cmd_run]:
  "bindC (returnC x) f s = f x s"
  "bindC (throwC e) f s = Inl e"
  "bindC (guardC b e) g s = (if b then g () s else Inl e)"
  "bindC (getsC h) f s = f (h s) s"
  "bindC (modifyC m) g s = g () (m s)"
  "bindC (someC k e) f s = (case k s of None \<Rightarrow> Inl e | Some x \<Rightarrow> f x s)"
  "bindC (liftC r) f s = (case r of Inl e \<Rightarrow> Inl e | Inr x \<Rightarrow> f x s)"
  "bindC (requireC o1 e) f s = (case o1 of None \<Rightarrow> Inl e | Some x \<Rightarrow> f x s)"
  by (auto simp: cmd_defs requireC_def split: option.splits sum.splits)

text \<open>\<^verbatim>\<open>try { m } catch (err) { handler }\<close>: the handler runs from the store before the failed call.\<close>

definition catchC :: "('s, 'e, 'a) cmd \<Rightarrow> ('e \<Rightarrow> ('s, 'e, 'a) cmd) \<Rightarrow> ('s, 'e, 'a) cmd" where
  "catchC m handler s = (case m s of Inl e \<Rightarrow> handler e s | Inr r \<Rightarrow> Inr r)"

lemma catchC_iff [cmd_iff]:
  "catchC m h s = Inr r \<longleftrightarrow> m s = Inr r \<or> (\<exists>e. m s = Inl e \<and> h e s = Inr r)"
  by (cases "m s") (simp_all add: catchC_def)

lemma catch_rethrow:
  "catchC m (\<lambda>err. if p err then throwC (f err) else throwC err) s = Inr r \<longleftrightarrow> m s = Inr r"
  by (auto simp: catchC_iff throwC_def)

text \<open>\<^verbatim>\<open>repo.update(id, data)\<close>: writes the row and answers with what \<^verbatim>\<open>findById\<close> then finds.\<close>

definition updateC ::
  "(ident \<Rightarrow> ('r \<Rightarrow> 'r) \<Rightarrow> 's \<Rightarrow> 's) \<Rightarrow> (ident \<Rightarrow> 's \<Rightarrow> 'r option) \<Rightarrow> ident \<Rightarrow> ('r \<Rightarrow> 'r) \<Rightarrow>
     ('s, 'e, 'r option) cmd" where
  "updateC update_row find_row k f = bindC (modifyC (update_row k f)) (\<lambda>_. getsC (find_row k))"

lemma updateC_no_error [cmd_iff]: "updateC u g k f s = Inl e \<longleftrightarrow> False"
  by (auto simp: updateC_def cmd_iff)

text \<open>A command that only reads.\<close>

definition read_only :: "('s, 'e, 'a) cmd \<Rightarrow> bool" where
  "read_only m \<longleftrightarrow> (\<forall>s x s'. m s = Inr (x, s') \<longrightarrow> s' = s)"

lemma read_only_bindC:
  "read_only m \<Longrightarrow> (\<And>x. read_only (f x)) \<Longrightarrow> read_only (bindC m f)"
  by (fastforce simp: read_only_def cmd_iff)

lemma read_only_basic [simp]:
  "read_only (returnC x)" "read_only (throwC e)" "read_only (getsC g)" "read_only (guardC b e)"
  "read_only (liftC r)" "read_only (someC h e)"
  by (auto simp: read_only_def cmd_iff)

section \<open>Tables\<close>

text \<open>A database table of one tenant: its rows, each with a unique identifier.\<close>

definition tbl_find :: "('r \<Rightarrow> ident) \<Rightarrow> ident \<Rightarrow> 'r list \<Rightarrow> 'r option" where
  "tbl_find key k rows = find (\<lambda>r. key r = k) rows"

definition tbl_update :: "('r \<Rightarrow> ident) \<Rightarrow> ident \<Rightarrow> ('r \<Rightarrow> 'r) \<Rightarrow> 'r list \<Rightarrow> 'r list" where
  "tbl_update key k f rows = map (\<lambda>r. if key r = k then f r else r) rows"

definition tbl_keys_ok :: "('r \<Rightarrow> ident) \<Rightarrow> 'r list \<Rightarrow> bool" where
  "tbl_keys_ok key rows \<longleftrightarrow> distinct (map key rows)"

lemma tbl_find_Nil [simp]: "tbl_find key k [] = None"
  by (simp add: tbl_find_def)

lemma tbl_find_Cons [simp]:
  "tbl_find key k (r # rs) = (if key r = k then Some r else tbl_find key k rs)"
  by (simp add: tbl_find_def)

lemma tbl_find_key: "tbl_find key k rows = Some r \<Longrightarrow> key r = k \<and> r \<in> set rows"
  by (induction rows) (auto split: if_splits)

lemma tbl_find_None: "tbl_find key k rows = None \<longleftrightarrow> k \<notin> key ` set rows"
  by (induction rows) auto

lemma tbl_find_append:
  "tbl_find key k (xs @ ys) = (case tbl_find key k xs of None \<Rightarrow> tbl_find key k ys | Some r \<Rightarrow> Some r)"
  by (induction xs) auto

lemma tbl_find_update:
  assumes "\<And>r. key (f r) = key r"
  shows "tbl_find key k (tbl_update key k' f rows) =
    (if k = k' then map_option f (tbl_find key k rows) else tbl_find key k rows)"
  by (induction rows) (auto simp: tbl_update_def assms)

lemma tbl_update_keys:
  assumes "\<And>r. key (f r) = key r"
  shows "map key (tbl_update key k f rows) = map key rows"
  by (induction rows) (auto simp: tbl_update_def assms)

lemma set_tbl_update: "set (tbl_update key k f rows) \<subseteq> set rows \<union> f ` {r \<in> set rows. key r = k}"
  by (auto simp: tbl_update_def)

lemma tbl_find_unique:
  "tbl_keys_ok key rows \<Longrightarrow> r \<in> set rows \<Longrightarrow> tbl_find key (key r) rows = Some r"
  by (induction rows) (auto simp: tbl_keys_ok_def)

text \<open>
  What the engine relies on of a repository: \<^verbatim>\<open>findById\<close> answers with the row of that identifier,
  and \<^verbatim>\<open>update\<close> changes that row and no other. Every \<^verbatim>\<open>...Repository\<close> port of the engine is
  interpreted as an instance on the store.
\<close>

locale row_table =
  fixes key :: "'r \<Rightarrow> ident"
    and find_row :: "ident \<Rightarrow> 's \<Rightarrow> 'r option"
    and update_row :: "ident \<Rightarrow> ('r \<Rightarrow> 'r) \<Rightarrow> 's \<Rightarrow> 's"
  assumes find_key: "find_row k s = Some r \<Longrightarrow> key r = k"
    and find_update: "(\<And>r. key (f r) = key r) \<Longrightarrow>
      find_row k (update_row k' f s) =
        (if k = k' then map_option f (find_row k s) else find_row k s)"
begin

lemma updateC_Inr_iff:
  assumes "\<And>r. key (f r) = key r"
  shows "updateC update_row find_row k f s = Inr (r, s') \<longleftrightarrow>
    s' = update_row k f s \<and> r = map_option f (find_row k s)"
  using find_update [OF assms, of k k s] by (auto simp: updateC_def cmd_iff)

lemma find_update_same:
  "(\<And>r. key (f r) = key r) \<Longrightarrow> find_row k (update_row k f s) = map_option f (find_row k s)"
  by (simp add: find_update)

lemma find_update_other:
  "(\<And>r. key (f r) = key r) \<Longrightarrow> k \<noteq> k' \<Longrightarrow> find_row k (update_row k' f s) = find_row k s"
  by (simp add: find_update)

lemma find_update_twice:
  assumes "\<And>r. key (f r) = key r" and "\<And>r. key (g r) = key r"
  shows "find_row k (update_row k g (update_row k f s)) = map_option (g \<circ> f) (find_row k s)"
  by (simp add: find_update assms option.map_comp)

lemma update_missing:
  "(\<And>r. key (f r) = key r) \<Longrightarrow> find_row k (update_row k f s) = None \<longleftrightarrow> find_row k s = None"
  by (simp add: find_update)

lemma update_keeps_rows:
  "(\<And>r. key (f r) = key r) \<Longrightarrow>
    (find_row k (update_row k' f s) = None) = (find_row k s = None)"
  by (simp add: find_update)

end

text \<open>Every list of rows is such a table.\<close>

interpretation list_table: row_table key "tbl_find key" "tbl_update key" for key
  by unfold_locales (auto simp: tbl_find_update dest: tbl_find_key)

section \<open>Status machines\<close>

text \<open>
  The exam, enrollment, incident and assignment lifecycles are all given by a table of allowed
  targets per status. A rank that every allowed move increases excludes cycles.
\<close>

locale status_machine =
  fixes targets :: "'st \<Rightarrow> 'st list"
    and terminal :: "'st \<Rightarrow> bool"
  assumes terminal_iff: "terminal x \<longleftrightarrow> targets x = []"
begin

definition move :: "'st \<Rightarrow> 'st \<Rightarrow> bool" where
  "move x y \<longleftrightarrow> y \<in> set (targets x)"

lemma terminal_stuck: "terminal x \<Longrightarrow> \<not> move x y"
  by (simp add: move_def terminal_iff)

lemma terminal_reach: "move\<^sup>*\<^sup>* x y \<Longrightarrow> terminal x \<Longrightarrow> y = x"
  by (induction rule: converse_rtranclp_induct) (auto dest: terminal_stuck)

lemma closed_set_reach:
  assumes closed: "\<And>x y. x \<in> S \<Longrightarrow> move x y \<Longrightarrow> y \<in> S"
    and reach: "move\<^sup>*\<^sup>* x y" and "x \<in> S"
  shows "y \<in> S"
  using reach \<open>x \<in> S\<close> by (induction rule: rtranclp_induct) (auto intro: closed)

end

section \<open>Invariants of step relations\<close>

locale invariant_step =
  fixes step :: "'s \<Rightarrow> 's \<Rightarrow> bool"
    and inv :: "'s \<Rightarrow> bool"
  assumes step_inv: "step s t \<Longrightarrow> inv s \<Longrightarrow> inv t"
begin

lemma reach_inv: "step\<^sup>*\<^sup>* s t \<Longrightarrow> inv s \<Longrightarrow> inv t"
  by (induction rule: rtranclp_induct) (auto intro: step_inv)

end

section \<open>Lists\<close>

text \<open>\<^verbatim>\<open>new Map(entries).get(k)\<close>: the last entry with the key wins.\<close>

definition js_map_get :: "('k \<times> 'v) list \<Rightarrow> 'k \<Rightarrow> 'v option" where
  "js_map_get ps k = map_of (rev ps) k"

lemma js_map_get_distinct: "distinct (map fst ps) \<Longrightarrow> js_map_get ps k = map_of ps k"
proof (cases "map_of ps k")
  case None
  then have "map_of (rev ps) k = None" by (simp add: map_of_eq_None_iff)
  with None show ?thesis by (simp add: js_map_get_def)
next
  case (Some v)
  assume d: "distinct (map fst ps)"
  with Some have "(k, v) \<in> set (rev ps)" by (auto dest: map_of_SomeD)
  with d have "map_of (rev ps) k = Some v"
    by (intro map_of_is_SomeI) (simp_all add: rev_map [symmetric])
  with Some show ?thesis by (simp add: js_map_get_def)
qed

end
