(* ===== verification/Domain.thy ===== *)
theory Domain
  imports Prelude
begin

text \<open>
  The data of the platform: the enumerations of \<^verbatim>\<open>packages/domain/src/enums.ts\<close>, the row types of
  \<^verbatim>\<open>packages/domain/src/types.ts\<close> as records (field names carry a two-letter prefix per row type,
  since HOL record fields share one name space) and the error classes of
  \<^verbatim>\<open>packages/domain/src/errors.ts\<close> as one datatype. The audit columns \<^verbatim>\<open>createdAt\<close> and
  \<^verbatim>\<open>updatedAt\<close>, which the repositories stamp and no engine decision reads, are left out.
\<close>

section \<open>Enumerations\<close>

datatype QuestionType = SingleChoice | MultipleChoice | FillBlank | TrueFalse | TextResponse

datatype AttemptStatus =
  NotStarted | Queued | InProgress | Disrupted | Submitted | Graded | Voided

datatype GradingStatus = AutoGraded | PendingManual | FullyGraded

datatype ResultPublicationMode = Immediate | AfterGrading | Manual

datatype EnrollmentStatus = Assigned | Started | Completed | Blocked

datatype ExamStatus = Draft | Published | Open | Closed | Canceled | Archived

datatype TimingMode = TimedSync | TimedWindow | Deadline | Untimed

datatype QuestionSelectionMode = ManualSelection | RandomSelection

datatype ScoreStrategy = Highest | Latest | First

datatype RetakePolicy = Unlimited | MaxAttempts | DailyLimit | WeeklyLimit | PassThenStop

datatype MultiSelectScoring = AllCorrectFull | PartialHalf

datatype FillBlankMatchMode = Exact | Keyword

datatype ConflictReason =
    STALE_VERSION | FUTURE_VERSION | ATTEMPT_ALREADY_SUBMITTED | ATTEMPT_CLOSED
  | DEADLINE_EXCEEDED | CONFLICTING_PAYLOAD | INVALID_ANSWER

datatype SubmitSource = SrcCandidate | SrcDeadlineScanner | SrcProctor | SrcSystem

datatype SubmissionReason = ReasonManual | ReasonDeadline

datatype InterruptionTimePolicy = Strict | BoundedGrace | OperatorIncident

datatype InterruptionEventType = Detected | Restored | Terminalized

datatype InterruptionDetectionSource = HeartbeatTimeout | MigrationBackfill

datatype TimeAdjustmentSource =
  SrcBoundedGrace | SrcOperator | SrcSystemIncident | SrcAdministrativeCorrection

datatype GradingEntryMode = AutoMode | ManualMode

datatype GradingEntryStatus = CompletedAuto | EntryPendingManual | CompletedManual

datatype ContentMode = PlainMode | RichMode

text \<open>The wire spelling of the statuses, as the error messages interpolate them.\<close>

fun exam_status_str :: "ExamStatus \<Rightarrow> string" where
  "exam_status_str Draft = ''draft''"
| "exam_status_str Published = ''published''"
| "exam_status_str Open = ''open''"
| "exam_status_str Closed = ''closed''"
| "exam_status_str Canceled = ''canceled''"
| "exam_status_str Archived = ''archived''"

fun enrollment_status_str :: "EnrollmentStatus \<Rightarrow> string" where
  "enrollment_status_str Assigned = ''assigned''"
| "enrollment_status_str Started = ''started''"
| "enrollment_status_str Completed = ''completed''"
| "enrollment_status_str Blocked = ''blocked''"

fun attempt_status_str :: "AttemptStatus \<Rightarrow> string" where
  "attempt_status_str NotStarted = ''not_started''"
| "attempt_status_str Queued = ''queued''"
| "attempt_status_str InProgress = ''in_progress''"
| "attempt_status_str Disrupted = ''disrupted''"
| "attempt_status_str Submitted = ''submitted''"
| "attempt_status_str Graded = ''graded''"
| "attempt_status_str Voided = ''voided''"

section \<open>Rows\<close>

record GradingRule =
  gr_multiSelectScoring :: MultiSelectScoring
  gr_fillBlankMatchMode :: FillBlankMatchMode
  gr_fillBlankCaseSensitive :: "bool option"

record OptionRow =
  op_id :: ident
  op_content :: string
  op_contentDocument :: "json option"

record QuestionRow =
  qn_id :: ident
  qn_courseId :: ident
  qn_type :: QuestionType
  qn_content :: string
  qn_contentDocument :: "json option"
  qn_answerMode :: "ContentMode option"
  qn_options :: "OptionRow list"
  qn_standardAnswer :: "json option"
  qn_attachments :: "json list"
  qn_score :: jsnum
  qn_gradingRule :: GradingRule
  qn_rubric :: "string option"

record QuestionSnapshot =
  qs_originalQuestionId :: ident
  qs_type :: QuestionType
  qs_content :: string
  qs_contentDocument :: "json option"
  qs_answerMode :: "ContentMode option"
  qs_attachments :: "json list"
  qs_options :: "OptionRow list"
  qs_standardAnswer :: "json option"
  qs_score :: jsnum
  qs_gradingRule :: GradingRule
  qs_order :: int
  qs_rubric :: "string option"

record ControlFlags =
  cf_shuffleQuestions :: bool
  cf_shuffleOptions :: bool
  cf_detectTabSwitch :: bool
  cf_disableCopyPaste :: bool
  cf_requireQueue :: bool
  cf_batchSize :: int
  cf_batchInterval :: int
  cf_restrictIp :: bool
  cf_requireLockdown :: bool
  cf_showResultImmediately :: bool

record Exam =
  ex_id :: ident
  ex_organizationId :: ident
  ex_courseId :: ident
  ex_status :: ExamStatus
  ex_timingMode :: TimingMode
  ex_durationMinutes :: "int option"
  ex_openAt :: time
  ex_closeAt :: "time option"
  ex_passingScore :: jsnum
  ex_totalScore :: jsnum
  ex_questionSelectionMode :: QuestionSelectionMode
  ex_questionIds :: "ident list"
  ex_questionSnapshot :: "QuestionSnapshot list"
  ex_controlFlags :: ControlFlags
  ex_retakePolicy :: RetakePolicy
  ex_scoreStrategy :: ScoreStrategy
  ex_maxAttempts :: int
  ex_latestStartOffsetMinutes :: "int option"
  ex_minSubmitAfterStartMinutes :: "int option"
  ex_resultPublicationMode :: ResultPublicationMode
  ex_resultsPublishedAt :: "time option"
  ex_syncStartedAt :: "time option"
  ex_interruptionTimePolicy :: "InterruptionTimePolicy option"
  ex_interruptionGracePerIncidentSeconds :: "jsnum option"
  ex_interruptionGracePerAttemptSeconds :: "jsnum option"

record ExamEnrollment =
  en_id :: ident
  en_examId :: ident
  en_candidateId :: ident
  en_status :: EnrollmentStatus
  en_attemptCount :: int
  en_finalScore :: "jsnum option"
  en_finalPassed :: "bool option"
  en_finalAttemptId :: "ident option"

record AttemptTimingPolicySnapshot =
  tp_policy :: InterruptionTimePolicy
  tp_perIncidentCapSeconds :: "jsnum option"
  tp_perAttemptAggregateCapSeconds :: "jsnum option"

record AnswerRecord =
  an_questionId :: ident
  an_answer :: "json option"
  an_version :: int
  an_savedAt :: time

text \<open>\<^verbatim>\<open>SubmittedAnswersSnapshot\<close>: the list of \<^verbatim>\<open>{ questionId, value }\<close>, in order.\<close>

type_synonym SubmittedAnswersSnapshot = "(ident \<times> json option) list"

record QuestionScoreResult =
  qr_questionId :: ident
  qr_score :: jsnum
  qr_maxScore :: jsnum
  qr_correct :: bool
  qr_candidateAnswer :: "json option"
  qr_standardAnswer :: "json option"

record ScoreResult =
  sr_attemptId :: ident
  sr_totalScore :: jsnum
  sr_passed :: bool
  sr_questionResults :: "QuestionScoreResult list"
  sr_gradedAt :: time

record ExamAttempt =
  at_id :: ident
  at_organizationId :: ident
  at_examId :: ident
  at_enrollmentId :: ident
  at_candidateId :: ident
  at_attemptNo :: int
  at_status :: AttemptStatus
  at_questionSnapshot :: "QuestionSnapshot list"
  at_answers :: "AnswerRecord list"
  at_gradingResult :: "QuestionScoreResult list option"
  at_score :: "jsnum option"
  at_passed :: "bool option"
  at_startedAt :: "time option"
  at_submittedAt :: "time option"
  at_gradedAt :: "time option"
  at_deadlineAt :: "time option"
  at_lastActivityAt :: "time option"
  at_interruptionTimingPolicySnapshot :: "AttemptTimingPolicySnapshot option"
  at_currentInterruptionId :: "ident option"
  at_interruptedAt :: "time option"
  at_gradingStatus :: "GradingStatus option"
  at_submittedAnswers :: "SubmittedAnswersSnapshot option"
  at_submissionReason :: "SubmissionReason option"

record AttemptInterruption =
  ai_id :: ident
  ai_attemptId :: ident

record AttemptInterruptionEvent =
  ie_id :: ident
  ie_attemptId :: ident
  ie_interruptionId :: ident
  ie_eventType :: InterruptionEventType
  ie_occurredAt :: time
  ie_observedLastActivityAt :: "time option"
  ie_detectionSource :: "InterruptionDetectionSource option"
  ie_timeoutSeconds :: "int option"
  ie_policy :: InterruptionTimePolicy
  ie_eligibleSeconds :: "int option"
  ie_timeAdjustmentId :: "ident option"
  ie_actorId :: "ident option"
  ie_reasonCode :: string

record AttemptTimeAdjustment =
  ta_id :: ident
  ta_operationId :: "ident option"
  ta_attemptId :: ident
  ta_interruptionId :: "ident option"
  ta_incidentId :: "ident option"
  ta_policy :: InterruptionTimePolicy
  ta_source :: TimeAdjustmentSource
  ta_beforeDeadline :: time
  ta_afterDeadline :: time
  ta_addedSeconds :: int
  ta_eligibleSeconds :: "int option"
  ta_reasonCode :: string
  ta_reasonText :: "string option"
  ta_actorId :: "ident option"

record AttemptGradingEntry =
  ge_attemptId :: ident
  ge_questionId :: ident
  ge_gradingMode :: GradingEntryMode
  ge_status :: GradingEntryStatus
  ge_maxScore :: jsnum
  ge_earnedScore :: "jsnum option"
  ge_candidateAnswer :: "json option"
  ge_standardAnswer :: "json option"
  ge_correct :: "bool option"
  ge_comment :: string
  ge_gradedBy :: "ident option"
  ge_gradedAt :: "time option"

text \<open>\<^verbatim>\<open>AnswerReceipt\<close> of \<^verbatim>\<open>attemptCommands.ts\<close>, with the attempt it belongs to.\<close>

record AnswerReceipt =
  rc_attemptId :: ident
  rc_questionId :: ident
  rc_clientSeq :: int
  rc_answerIdentity :: string
  rc_version :: int
  rc_savedAt :: time

record SaveAnswerRequest =
  rq_attemptId :: ident
  rq_questionId :: ident
  rq_answer :: "json option"
  rq_clientSeq :: int
  rq_baseVersion :: int

text \<open>A durable membership row of the admission queue.\<close>

record ExamAdmissionRecord =
  ad_id :: ident
  ad_organizationId :: ident
  ad_examId :: ident
  ad_candidateId :: ident
  ad_joinedAt :: time
  ad_admittedAt :: "time option"
  ad_consumedAt :: "time option"
  ad_consumedAttemptId :: "ident option"

section \<open>Errors\<close>

text \<open>One field entry of the \<^verbatim>\<open>details.fields\<close> of a \<^verbatim>\<open>ValidationError\<close>: field, code, message.\<close>

type_synonym field_error = "string \<times> string \<times> string"

datatype (plugins only: code) app_error =
    ValidationErrorD string "field_error list"
  | NotFoundError string
  | InvalidStateTransitionError string
  | PermissionDeniedError string
  | TenantAccessDeniedError string
  | AttemptAlreadyStartedError string
  | AttemptClosedError string
  | AnswerVersionConflictError string
  | ExamNotOpenError string
  | AttemptDeadlineExceededError string
  | ConflictError string
  | IdempotencyConflictError string
  | UserAlreadyExistsError string
  | AdminAlreadyExistsError string
  | CandidateIdentityConflictError string
  | ExamAlreadyPublishedError string
  | ExamNotDraftError string
  | ExamCloseNotAllowedError "int option"
  | ExamArchiveNotAllowedError string
  | ExamUnpublishNotAllowedError string
  | ExamExtendNotAllowedError "string option"
  | ExamUpdateNotAllowedError string
  | ExamCancelNotAllowedError "int option"
  | ExamCanceledResultsUnavailableError string
  | AttemptSubmitTooEarlyError time int
  | AttemptLateEntryClosedError time time
  | AttemptStartSubmitInfeasibleError time time
  | MaxAttemptsReachedError string
  | ExamAlreadyPassedError string
  | RetakeDeferredError
  | QueueAdmissionRequiredError
  | RuntimeConfigError string
  | AttemptDeadlineExceedsExamCloseError time time
  | ExamPublishResultsNotAllowedError string
  | IncidentVersionConflictError int int
  | IncidentActionAlreadyLinkedError string
  | AuthzUnavailableError string
  | PasswordResetCooldownError string
  | EngineError string \<comment> \<open>a plain \<^verbatim>\<open>Error\<close>: an internal invariant violation\<close>

abbreviation ValidationError :: "string \<Rightarrow> app_error" where
  "ValidationError m \<equiv> ValidationErrorD m []"

primrec error_code :: "app_error \<Rightarrow> string" where
  "error_code (ValidationErrorD _ _) = ''VALIDATION_ERROR''"
| "error_code (NotFoundError _) = ''NOT_FOUND''"
| "error_code (InvalidStateTransitionError _) = ''INVALID_STATE_TRANSITION''"
| "error_code (PermissionDeniedError _) = ''PERMISSION_DENIED''"
| "error_code (TenantAccessDeniedError _) = ''TENANT_ACCESS_DENIED''"
| "error_code (AttemptAlreadyStartedError _) = ''ATTEMPT_ALREADY_STARTED''"
| "error_code (AttemptClosedError _) = ''ATTEMPT_CLOSED''"
| "error_code (AnswerVersionConflictError _) = ''ANSWER_VERSION_CONFLICT''"
| "error_code (ExamNotOpenError _) = ''EXAM_NOT_OPEN''"
| "error_code (AttemptDeadlineExceededError _) = ''ATTEMPT_DEADLINE_EXCEEDED''"
| "error_code (ConflictError _) = ''CONFLICT''"
| "error_code (IdempotencyConflictError _) = ''IDEMPOTENCY_CONFLICT''"
| "error_code (UserAlreadyExistsError _) = ''USER_ALREADY_EXISTS''"
| "error_code (AdminAlreadyExistsError _) = ''ADMIN_ALREADY_EXISTS''"
| "error_code (CandidateIdentityConflictError _) = ''CANDIDATE_IDENTITY_CONFLICT''"
| "error_code (ExamAlreadyPublishedError _) = ''EXAM_ALREADY_PUBLISHED''"
| "error_code (ExamNotDraftError _) = ''EXAM_NOT_DRAFT''"
| "error_code (ExamCloseNotAllowedError _) = ''EXAM_CLOSE_NOT_ALLOWED''"
| "error_code (ExamArchiveNotAllowedError _) = ''EXAM_ARCHIVE_NOT_ALLOWED''"
| "error_code (ExamUnpublishNotAllowedError _) = ''EXAM_UNPUBLISH_NOT_ALLOWED''"
| "error_code (ExamExtendNotAllowedError _) = ''EXAM_EXTEND_NOT_ALLOWED''"
| "error_code (ExamUpdateNotAllowedError _) = ''EXAM_UPDATE_NOT_ALLOWED''"
| "error_code (ExamCancelNotAllowedError _) = ''EXAM_CANCEL_NOT_ALLOWED''"
| "error_code (ExamCanceledResultsUnavailableError _) = ''EXAM_CANCELED_RESULTS_UNAVAILABLE''"
| "error_code (AttemptSubmitTooEarlyError _ _) = ''ATTEMPT_SUBMIT_TOO_EARLY''"
| "error_code (AttemptLateEntryClosedError _ _) = ''ATTEMPT_LATE_ENTRY_CLOSED''"
| "error_code (AttemptStartSubmitInfeasibleError _ _) = ''ATTEMPT_START_SUBMIT_INFEASIBLE''"
| "error_code (MaxAttemptsReachedError _) = ''MAX_ATTEMPTS_REACHED''"
| "error_code (ExamAlreadyPassedError _) = ''EXAM_ALREADY_PASSED''"
| "error_code RetakeDeferredError = ''RETAKE_DEFERRED''"
| "error_code QueueAdmissionRequiredError = ''QUEUE_ADMISSION_REQUIRED''"
| "error_code (RuntimeConfigError _) = ''RUNTIME_CONFIG_ERROR''"
| "error_code (AttemptDeadlineExceedsExamCloseError _ _) = ''DEADLINE_EXCEEDS_EXAM_CLOSE''"
| "error_code (ExamPublishResultsNotAllowedError _) = ''EXAM_PUBLISH_RESULTS_NOT_ALLOWED''"
| "error_code (IncidentVersionConflictError _ _) = ''INCIDENT_VERSION_CONFLICT''"
| "error_code (IncidentActionAlreadyLinkedError _) = ''INCIDENT_ACTION_ALREADY_LINKED''"
| "error_code (AuthzUnavailableError _) = ''AUTHZ_UNAVAILABLE''"
| "error_code (PasswordResetCooldownError _) = ''PASSWORD_RESET_COOLDOWN''"
| "error_code (EngineError _) = ''''"

text \<open>The HTTP status; an error that is not an \<^verbatim>\<open>AppError\<close> surfaces as 500.\<close>

definition status_code :: "app_error \<Rightarrow> nat" where
  "status_code e =
     (case e of
        ValidationErrorD _ _ \<Rightarrow> 400
      | NotFoundError _ \<Rightarrow> 404
      | PermissionDeniedError _ \<Rightarrow> 403
      | TenantAccessDeniedError _ \<Rightarrow> 403
      | RuntimeConfigError _ \<Rightarrow> 500
      | AuthzUnavailableError _ \<Rightarrow> 503
      | EngineError _ \<Rightarrow> 500
      | _ \<Rightarrow> 409)"

end
