(* ===== verification/Lifecycles.thy ===== *)
theory Lifecycles
  imports Domain
begin

text \<open>
  The three status machines of the engine: \<^verbatim>\<open>examStateMachine.ts\<close>, \<^verbatim>\<open>enrollmentStateMachine.ts\<close>
  and \<^verbatim>\<open>attemptStateMachine.ts\<close>, each with its table, its check and its assertion. The exam and
  enrollment tables are interpretations of the status-machine contract; the attempt machine, which
  is driven by commands, has a step relation of its own.
\<close>

section \<open>Exams\<close>

fun EXAM_VALID_TRANSITIONS :: "ExamStatus \<Rightarrow> ExamStatus list" where
  "EXAM_VALID_TRANSITIONS Draft = [Published]"
| "EXAM_VALID_TRANSITIONS Published = [Draft, Open, Canceled, Archived]"
| "EXAM_VALID_TRANSITIONS Open = [Closed, Canceled]"
| "EXAM_VALID_TRANSITIONS Closed = [Archived]"
| "EXAM_VALID_TRANSITIONS Canceled = [Archived]"
| "EXAM_VALID_TRANSITIONS Archived = []"

definition exam_canTransition :: "ExamStatus \<Rightarrow> ExamStatus \<Rightarrow> bool" where
  "exam_canTransition current target \<longleftrightarrow> List.member (EXAM_VALID_TRANSITIONS current) target"

definition exam_assertTransition :: "ExamStatus \<Rightarrow> ExamStatus \<Rightarrow> app_error + unit" where
  "exam_assertTransition current target =
     guardR (exam_canTransition current target)
       (InvalidStateTransitionError
         (''Cannot transition exam from '' @ exam_status_str current @ '' to '' @
          exam_status_str target))"

interpretation exam_machine: status_machine EXAM_VALID_TRANSITIONS "\<lambda>s. s = Archived"
proof
  fix x
  show "x = Archived \<longleftrightarrow> EXAM_VALID_TRANSITIONS x = []"
    by (cases x) simp_all
qed

lemma exam_canTransition_move: "exam_canTransition x y = exam_machine.move x y"
  by (simp add: exam_canTransition_def exam_machine.move_def)

lemma exam_assertTransition_ok [cmd_iff]:
  "exam_assertTransition x y = Inr u \<longleftrightarrow> y \<in> set (EXAM_VALID_TRANSITIONS x)"
  by (simp add: exam_assertTransition_def exam_canTransition_def)

section \<open>Enrollments\<close>

fun ENROLLMENT_VALID_TRANSITIONS :: "EnrollmentStatus \<Rightarrow> EnrollmentStatus list" where
  "ENROLLMENT_VALID_TRANSITIONS Assigned = [Started, Blocked]"
| "ENROLLMENT_VALID_TRANSITIONS Started = [Completed, Blocked]"
| "ENROLLMENT_VALID_TRANSITIONS Blocked = [Started]"
| "ENROLLMENT_VALID_TRANSITIONS Completed = []"

definition enrollment_canTransition :: "EnrollmentStatus \<Rightarrow> EnrollmentStatus \<Rightarrow> bool" where
  "enrollment_canTransition current target \<longleftrightarrow>
     List.member (ENROLLMENT_VALID_TRANSITIONS current) target"

definition enrollment_assertTransition :: "EnrollmentStatus \<Rightarrow> EnrollmentStatus \<Rightarrow> app_error + unit"
  where
  "enrollment_assertTransition current target =
     guardR (enrollment_canTransition current target)
       (InvalidStateTransitionError
         (''Cannot transition enrollment from '' @ enrollment_status_str current @ '' to '' @
          enrollment_status_str target))"

interpretation enrollment_machine: status_machine ENROLLMENT_VALID_TRANSITIONS "\<lambda>s. s = Completed"
proof
  fix x
  show "x = Completed \<longleftrightarrow> ENROLLMENT_VALID_TRANSITIONS x = []"
    by (cases x) simp_all
qed

lemma enrollment_canTransition_move: "enrollment_canTransition x y = enrollment_machine.move x y"
  by (simp add: enrollment_canTransition_def enrollment_machine.move_def)

lemma enrollment_assertTransition_ok [cmd_iff]:
  "enrollment_assertTransition x y = Inr u \<longleftrightarrow> y \<in> set (ENROLLMENT_VALID_TRANSITIONS x)"
  by (simp add: enrollment_assertTransition_def enrollment_canTransition_def)

section \<open>Attempts\<close>

datatype AttemptCommand = CmdSubmit | CmdDisrupt | CmdRestore | CmdGrade

datatype TransitionRejectionReason = INVALID_SOURCE_STATUS | TR_DEADLINE_EXCEEDED

datatype TransitionResult = TransitionOk AttemptStatus | TransitionFail TransitionRejectionReason

definition TRANSITION_TABLE :: "((AttemptStatus \<times> AttemptCommand) \<times> AttemptStatus) list" where
  "TRANSITION_TABLE =
     [((InProgress, CmdSubmit), Submitted),
      ((InProgress, CmdDisrupt), Disrupted),
      ((Disrupted, CmdSubmit), Submitted),
      ((Disrupted, CmdRestore), InProgress),
      ((Submitted, CmdGrade), Graded)]"

definition transition :: "AttemptStatus \<Rightarrow> AttemptCommand \<Rightarrow> TransitionResult" where
  "transition current command =
     (case map_of TRANSITION_TABLE (current, command) of
        None \<Rightarrow> TransitionFail INVALID_SOURCE_STATUS
      | Some next \<Rightarrow> TransitionOk next)"

fun isTransitionOk :: "TransitionResult \<Rightarrow> bool" where
  "isTransitionOk (TransitionOk _) = True"
| "isTransitionOk (TransitionFail _) = False"

text \<open>One step of the attempt machine, and the statuses it reaches.\<close>

inductive attempt_step :: "AttemptStatus \<Rightarrow> AttemptStatus \<Rightarrow> bool" where
  "transition s c = TransitionOk s' \<Longrightarrow> attempt_step s s'"

inductive_simps attempt_step_iff: "attempt_step s s'"

lemma transition_simps [simp]:
  "transition InProgress CmdSubmit = TransitionOk Submitted"
  "transition InProgress CmdDisrupt = TransitionOk Disrupted"
  "transition Disrupted CmdSubmit = TransitionOk Submitted"
  "transition Disrupted CmdRestore = TransitionOk InProgress"
  "transition Submitted CmdGrade = TransitionOk Graded"
  by (simp_all add: transition_def TRANSITION_TABLE_def)

lemma transition_submit_iff: "isTransitionOk (transition s CmdSubmit) \<longleftrightarrow> s = InProgress \<or> s = Disrupted"
  by (cases s) (simp_all add: transition_def TRANSITION_TABLE_def)

lemma transition_grade_iff: "isTransitionOk (transition s CmdGrade) \<longleftrightarrow> s = Submitted"
  by (cases s) (simp_all add: transition_def TRANSITION_TABLE_def)

lemma attempt_step_cases:
  "attempt_step s s' \<longleftrightarrow>
     s = InProgress \<and> (s' = Submitted \<or> s' = Disrupted) \<or>
     s = Disrupted \<and> (s' = Submitted \<or> s' = InProgress) \<or>
     s = Submitted \<and> s' = Graded"
  unfolding attempt_step_iff transition_def TRANSITION_TABLE_def
  by (cases s) (auto split: if_splits option.splits)

definition attempt_frozen :: "AttemptStatus \<Rightarrow> bool" where
  "attempt_frozen s \<longleftrightarrow> s = Submitted \<or> s = Graded"

interpretation frozen_step: invariant_step attempt_step attempt_frozen
  by unfold_locales (auto simp: attempt_step_cases attempt_frozen_def)

text \<open>A measure that every step of the attempt machine decreases, once disruption episodes are
  counted out: after the freeze at most one step is left.\<close>

lemma graded_stuck: "\<not> attempt_step Graded s"
  by (simp add: attempt_step_cases)

lemma submitted_reach: "attempt_step\<^sup>*\<^sup>* Submitted s \<Longrightarrow> s = Submitted \<or> s = Graded"
  using frozen_step.reach_inv [of Submitted s] by (simp add: attempt_frozen_def)

section \<open>Properties\<close>

text \<open>The freeze is one-way. From the moment an attempt is submitted or graded, no sequence of
  commands of the attempt machine brings it back to a status in which answers may be written:
  every status reached is again submitted or graded, and a graded attempt never moves.\<close>

lemma attempt_freeze_irreversible:
  assumes "attempt_step\<^sup>*\<^sup>* s s'" and "s = Submitted \<or> s = Graded"
  shows "(s' = Submitted \<or> s' = Graded) \<and> (s = Graded \<longrightarrow> s' = Graded)"
proof -
  have "s' = Submitted \<or> s' = Graded"
    using frozen_step.reach_inv [OF assms(1)] assms(2) by (simp add: attempt_frozen_def)
  moreover have "s' = Graded" if "s = Graded"
    using assms(1) that by (induction rule: converse_rtranclp_induct) (auto simp: graded_stuck)
  ultimately show ?thesis by blast
qed

lemma attempt_freeze_irreversible_witness:
  "attempt_step\<^sup>*\<^sup>* Submitted Graded \<and> (Graded = Submitted \<or> Graded = Graded)"
proof -
  have "attempt_step\<^sup>*\<^sup>* Submitted Graded"
    by (intro r_into_rtranclp) (simp add: attempt_step_cases)
  with attempt_freeze_irreversible [OF this] show ?thesis by simp
qed

text \<open>The exam lifecycle is safe. Archived is terminal; an exam that was ever opened never
  returns to draft or published; and the assertion used by the exam commands succeeds exactly on
  the moves of the table, throwing an invalid-state-transition error otherwise.\<close>

lemma exam_lifecycle_safe:
  "(exam_assertTransition x y = Inr () \<longleftrightarrow> exam_canTransition x y) \<and>
   (\<not> exam_canTransition x y \<longrightarrow> error_code (projl (exam_assertTransition x y)) = ''INVALID_STATE_TRANSITION'') \<and>
   (exam_canTransition\<^sup>*\<^sup>* Archived z \<longrightarrow> z = Archived) \<and>
   (exam_canTransition\<^sup>*\<^sup>* Open z \<longrightarrow> z \<noteq> Draft \<and> z \<noteq> Published)"
proof -
  have mv: "exam_canTransition = exam_machine.move"
    by (intro ext) (rule exam_canTransition_move)
  have "z \<in> {Open, Closed, Canceled, Archived}" if "exam_canTransition\<^sup>*\<^sup>* Open z"
    using that unfolding mv
    by (rule exam_machine.closed_set_reach [rotated]) (auto simp: exam_machine.move_def)
  moreover have "z = Archived" if "exam_canTransition\<^sup>*\<^sup>* Archived z"
    using that unfolding mv by (rule exam_machine.terminal_reach) simp
  ultimately show ?thesis
    by (auto simp: exam_assertTransition_def guardR_def)
qed

lemma exam_lifecycle_safe_witness:
  "exam_canTransition Draft Published \<and> \<not> exam_canTransition Open Draft \<and>
   error_code (projl (exam_assertTransition Open Draft)) = ''INVALID_STATE_TRANSITION''"
  using exam_lifecycle_safe [of Open Draft Archived]
  by (simp add: exam_canTransition_def)

end
