(* ===== verification/Timing.thy ===== *)
theory Timing
  imports Domain
begin

text \<open>
  \<^verbatim>\<open>packages/exam-engine/src/timer.ts\<close>: the deadline kernel. Every deadline decision of the engine
  (save, submit, reconciliation, start) goes through \<open>computeEffectiveDeadline\<close> and
  \<open>isAttemptDeadlineExpired\<close>.
\<close>

definition calculateDeadlineAt :: "time \<Rightarrow> int \<Rightarrow> time" where
  "calculateDeadlineAt startedAt durationMinutes = startedAt + durationMinutes * 60 * 1000"

definition computeEffectiveDeadline :: "time option \<Rightarrow> time option \<Rightarrow> app_error + time option" where
  "computeEffectiveDeadline closeAt deadlineAt =
     (case closeAt of
        None \<Rightarrow>
          (if deadlineAt \<noteq> None
           then Inl (ValidationError ''Exam closeAt is required when an attempt deadline exists'')
           else Inr None)
      | Some examClose \<Rightarrow>
          (case deadlineAt of
             None \<Rightarrow> Inr (Some examClose)
           | Some attemptDeadline \<Rightarrow>
               Inr (Some (if attemptDeadline < examClose then attemptDeadline else examClose))))"

definition isAttemptDeadlineExpired :: "time option \<Rightarrow> time option \<Rightarrow> time \<Rightarrow> app_error + bool" where
  "isAttemptDeadlineExpired closeAt deadlineAt now =
     bindR (computeEffectiveDeadline closeAt deadlineAt) (\<lambda>effectiveDeadline.
       Inr (case effectiveDeadline of None \<Rightarrow> False | Some d \<Rightarrow> now \<ge> d))"

definition computeSyncDeadline :: "time option \<Rightarrow> int option \<Rightarrow> time option \<Rightarrow> app_error + time option" where
  "computeSyncDeadline syncStartedAt durationMinutes closeAt =
     (case syncStartedAt of
        None \<Rightarrow> Inr None
      | Some t0 \<Rightarrow>
          (case durationMinutes of
             None \<Rightarrow> Inl (ValidationError ''timed_sync exams require a positive durationMinutes'')
           | Some dur \<Rightarrow>
               (let durationBound = calculateDeadlineAt t0 dur
                in case closeAt of
                     None \<Rightarrow> Inr (Some durationBound)
                   | Some hardCap \<Rightarrow>
                       Inr (Some (if durationBound < hardCap then durationBound else hardCap)))))"

text \<open>\<^verbatim>\<open>Math.floor(diff / 1000)\<close> on a positive difference.\<close>

definition getRemainingSeconds :: "time \<Rightarrow> time \<Rightarrow> int" where
  "getRemainingSeconds deadlineAt now =
     (let diff = deadlineAt - now in if diff \<le> 0 then 0 else diff div 1000)"

section \<open>Lemmas\<close>

lemma computeEffectiveDeadline_simps [simp]:
  "computeEffectiveDeadline None None = Inr None"
  "computeEffectiveDeadline (Some c) None = Inr (Some c)"
  "computeEffectiveDeadline (Some c) (Some d) = Inr (Some (min c d))"
  "computeEffectiveDeadline None (Some d) =
     Inl (ValidationError ''Exam closeAt is required when an attempt deadline exists'')"
  by (simp_all add: computeEffectiveDeadline_def min_def)

lemma effective_deadline_ok_iff:
  "(\<exists>r. computeEffectiveDeadline c d = Inr r) \<longleftrightarrow> c \<noteq> None \<or> d = None"
  by (cases c; cases d) simp_all

lemma effective_deadline_le:
  "computeEffectiveDeadline c d = Inr (Some e) \<Longrightarrow>
     (\<forall>x. c = Some x \<longrightarrow> e \<le> x) \<and> (\<forall>x. d = Some x \<longrightarrow> e \<le> x)"
  by (cases c; cases d) auto

lemma expired_iff:
  "isAttemptDeadlineExpired c d now = Inr b \<longleftrightarrow>
     (\<exists>e. computeEffectiveDeadline c d = Inr e \<and> (b \<longleftrightarrow> (\<exists>t. e = Some t \<and> t \<le> now)))"
  by (auto simp: isAttemptDeadlineExpired_def bindR_Inr_iff split: option.splits)

lemma expired_mono:
  "isAttemptDeadlineExpired c d now = Inr True \<Longrightarrow> now \<le> now' \<Longrightarrow>
     isAttemptDeadlineExpired c d now' = Inr True"
  by (fastforce simp: expired_iff)

section \<open>Properties\<close>

text \<open>The deadline kernel is the minimum of the bounds that exist. With an exam close the
  effective deadline is the least of the close and the personal deadline, without either there is
  none and nothing ever expires, and a personal deadline without an exam close is refused. An
  attempt counts as expired exactly from the instant of that minimum on, so moving the close
  earlier never un-expires an attempt.\<close>

lemma effective_deadline_is_minimum:
  "(case (closeAt, deadlineAt) of
      (None, None) \<Rightarrow> computeEffectiveDeadline closeAt deadlineAt = Inr None \<and>
        isAttemptDeadlineExpired closeAt deadlineAt now = Inr False
    | (None, Some d) \<Rightarrow> \<exists>m. computeEffectiveDeadline closeAt deadlineAt = Inl (ValidationError m)
    | (Some c, d) \<Rightarrow>
        (let m = (case d of None \<Rightarrow> c | Some d' \<Rightarrow> min c d')
         in computeEffectiveDeadline closeAt deadlineAt = Inr (Some m) \<and>
            isAttemptDeadlineExpired closeAt deadlineAt now = Inr (m \<le> now)))"
  by (auto simp: isAttemptDeadlineExpired_def split: option.splits)

text \<open>The shared deadline of a synchronized sitting never exceeds the exam close nor the
  sitting start plus its duration, and equals one of the two; an untriggered sitting has none. Two
  candidates therefore read the same deadline, whenever they start.\<close>

lemma sync_deadline_bound:
  assumes "computeSyncDeadline (Some t0) (Some dur) closeAt = Inr (Some d)"
  shows "d \<le> t0 + dur * 60000 \<and> (\<forall>c. closeAt = Some c \<longrightarrow> d \<le> c) \<and>
    (d = t0 + dur * 60000 \<or> closeAt = Some d)"
  using assms
  by (auto simp: computeSyncDeadline_def calculateDeadlineAt_def Let_def
      split: option.splits if_splits)

lemma sync_deadline_bound_witness:
  "computeSyncDeadline (Some 0) (Some 90) (Some 3600000) = Inr (Some 3600000) \<and>
   (3600000::int) \<le> 0 + 90 * 60000"
proof -
  have h: "computeSyncDeadline (Some 0) (Some 90) (Some 3600000) = Inr (Some 3600000)"
    by (simp add: computeSyncDeadline_def calculateDeadlineAt_def)
  from sync_deadline_bound [OF h] h show ?thesis by blast
qed

lemma getRemainingSeconds_bounds:
  "0 \<le> getRemainingSeconds d now \<and>
   (now < d \<longrightarrow> getRemainingSeconds d now * 1000 \<le> d - now \<and>
      d - now < (getRemainingSeconds d now + 1) * 1000)"
proof (cases "d - now \<le> 0")
  case False
  define q r where "q = (d - now) div 1000" and "r = (d - now) mod 1000"
  have "getRemainingSeconds d now = q"
    using False by (simp add: getRemainingSeconds_def q_def)
  moreover have "d - now = q * 1000 + r" "0 \<le> r" "r < 1000"
    by (simp_all add: q_def r_def)
  moreover have "0 \<le> q"
    using False by (simp add: q_def pos_imp_zdiv_nonneg_iff)
  ultimately show ?thesis by simp
qed (simp add: getRemainingSeconds_def)

end
