(* ===== verification/Grading_Engine.thy ===== *)
theory Grading_Engine
  imports Domain
begin

text \<open>
  \<^verbatim>\<open>packages/domain/src/gradingEngine.ts\<close>: automatic scoring of one question and of a whole
  attempt. Lower-casing is locale dependent in the source (\<^verbatim>\<open>toLocaleLowerCase\<close>), so it is the
  argument \<open>lower\<close> of the definitions that use it; every theorem holds for every such function.
\<close>

section \<open>String operations of the standard library\<close>

text \<open>The white space that \<^verbatim>\<open>trim\<close> removes, among 8-bit code units.\<close>

definition js_space :: "char \<Rightarrow> bool" where
  "js_space c \<longleftrightarrow> of_char c \<in> {9, 10, 11, 12, 13, 32, 160 :: nat}"

definition js_trim :: "string \<Rightarrow> string" where
  "js_trim s = rev (dropWhile js_space (rev (dropWhile js_space s)))"

text \<open>\<^verbatim>\<open>s.split("|")\<close>: always at least one part.\<close>

fun js_split :: "char \<Rightarrow> string \<Rightarrow> string list" where
  "js_split d [] = [[]]"
| "js_split d (c # cs) =
     (if c = d then [] # js_split d cs
      else (case js_split d cs of [] \<Rightarrow> [[c]] | p # ps \<Rightarrow> (c # p) # ps))"

text \<open>\<^verbatim>\<open>s.includes(t)\<close>\<close>

fun js_starts_with :: "string \<Rightarrow> string \<Rightarrow> bool" where
  "js_starts_with s [] = True"
| "js_starts_with [] (t # ts) = False"
| "js_starts_with (c # s) (t # ts) = (c = t \<and> js_starts_with s ts)"

fun js_includes :: "string \<Rightarrow> string \<Rightarrow> bool" where
  "js_includes [] t = (t = [])"
| "js_includes (c # s) t = (js_starts_with (c # s) t \<or> js_includes s t)"

text \<open>\<^verbatim>\<open>[...new Set(xs)]\<close>: the first occurrence of every element, in order.\<close>

definition js_set :: "'a list \<Rightarrow> 'a list" where
  "js_set xs = rev (remdups (rev xs))"

lemma js_split_nonempty [simp]: "js_split d s \<noteq> []"
  by (induction s) (auto split: list.splits)

lemma js_starts_with_iff: "js_starts_with s t \<longleftrightarrow> (\<exists>u. s = t @ u)"
  by (induction s t rule: js_starts_with.induct) auto

lemma js_includes_iff: "js_includes s t \<longleftrightarrow> (\<exists>u v. s = u @ t @ v)"
proof (induction s)
  case (Cons c s)
  have "js_includes (c # s) t \<longleftrightarrow> (\<exists>v. c # s = [] @ t @ v) \<or> (\<exists>u v. s = u @ t @ v)"
    by (simp add: Cons js_starts_with_iff)
  also have "\<dots> \<longleftrightarrow> (\<exists>u v. c # s = u @ t @ v)"
  proof
    assume "\<exists>u v. c # s = u @ t @ v"
    then obtain u v where uv: "c # s = u @ t @ v" by blast
    then show "(\<exists>v. c # s = [] @ t @ v) \<or> (\<exists>u v. s = u @ t @ v)"
      by (cases u) auto
  next
    assume "(\<exists>v. c # s = [] @ t @ v) \<or> (\<exists>u v. s = u @ t @ v)"
    then show "\<exists>u v. c # s = u @ t @ v"
      by (metis append_Cons)
  qed
  finally show ?case .
qed simp

lemma set_js_set [simp]: "set (js_set xs) = set xs"
  by (simp add: js_set_def)

lemma distinct_js_set [simp]: "distinct (js_set xs)"
  by (simp add: js_set_def)

section \<open>Definitions\<close>

definition makeResult :: "QuestionSnapshot \<Rightarrow> json option \<Rightarrow> jsnum \<Rightarrow> QuestionScoreResult" where
  "makeResult question candidateAnswer score =
     \<lparr>qr_questionId = qs_originalQuestionId question,
      qr_score = score,
      qr_maxScore = qs_score question,
      qr_correct = (score = qs_score question),
      qr_candidateAnswer = candidateAnswer,
      qr_standardAnswer = qs_standardAnswer question\<rparr>"

text \<open>An answer that is undefined or null is \<open>None\<close> or \<open>Some JNull\<close>.\<close>

definition gradePrecise :: "QuestionSnapshot \<Rightarrow> json option \<Rightarrow> QuestionScoreResult" where
  "gradePrecise question candidateAnswer =
     (let score =
        (case (candidateAnswer, qs_standardAnswer question) of
           (Some a, Some std) \<Rightarrow>
             if a \<noteq> JNull \<and> strict_eq a std then qs_score question else 0
         | _ \<Rightarrow> 0)
      in makeResult question candidateAnswer score)"

fun toStringArray :: "json option \<Rightarrow> string list" where
  "toStringArray (Some (JArr xs)) = List.map_filter (\<lambda>x. case x of JStr s \<Rightarrow> Some s | _ \<Rightarrow> None) xs"
| "toStringArray _ = []"

definition gradeMultipleChoice :: "QuestionSnapshot \<Rightarrow> json option \<Rightarrow> QuestionScoreResult" where
  "gradeMultipleChoice question candidateAnswer =
     (let candidate = sort (js_set (toStringArray candidateAnswer));
          standard = sort (js_set (toStringArray (qs_standardAnswer question)));
          hasWrongSelection = list_ex (\<lambda>a. \<not> List.member standard a) candidate;
          isComplete = (length standard > 0 \<and> length candidate = length standard \<and>
             list_all (\<lambda>(index, a). a = standard ! index) (List.enumerate 0 candidate));
          isPartial = (length candidate > 0 \<and> length candidate < length standard \<and>
             \<not> hasWrongSelection);
          score = (if isComplete then qs_score question
                   else if isPartial \<and>
                     gr_multiSelectScoring (qs_gradingRule question) = PartialHalf
                   then qs_score question / 2
                   else 0)
      in makeResult question candidateAnswer score)"

definition normalizeBlank :: "(string \<Rightarrow> string) \<Rightarrow> string \<Rightarrow> bool \<Rightarrow> string" where
  "normalizeBlank lower value caseSensitive =
     (let trimmed = js_trim value in if caseSensitive then trimmed else lower trimmed)"

definition matchesBlank ::
  "(string \<Rightarrow> string) \<Rightarrow> json option \<Rightarrow> json option \<Rightarrow> QuestionSnapshot \<Rightarrow> bool" where
  "matchesBlank lower candidate standard question =
     (case (candidate, standard) of
        (Some (JStr c), Some (JStr std)) \<Rightarrow>
          (let caseSensitive = (case gr_fillBlankCaseSensitive (qs_gradingRule question) of
                 None \<Rightarrow> False | Some b \<Rightarrow> b);
               normalizedCandidate = normalizeBlank lower c caseSensitive
           in list_ex (\<lambda>accepted.
                let normalizedAccepted = normalizeBlank lower accepted caseSensitive
                in if length normalizedAccepted = 0 then False
                   else if gr_fillBlankMatchMode (qs_gradingRule question) = Keyword
                   then js_includes normalizedCandidate normalizedAccepted
                   else normalizedCandidate = normalizedAccepted)
                (js_split (CHR ''|'') std))
      | _ \<Rightarrow> False)"

text \<open>\<^verbatim>\<open>candidateAnswer[key]\<close> on a parsed object: undefined when the key is absent.\<close>

definition gradeFillBlank ::
  "(string \<Rightarrow> string) \<Rightarrow> QuestionSnapshot \<Rightarrow> json option \<Rightarrow> QuestionScoreResult" where
  "gradeFillBlank lower question candidateAnswer =
     (let correct =
        (case (qs_standardAnswer question, candidateAnswer) of
           (Some (JObj entries), Some (JObj cand)) \<Rightarrow>
             length entries > 0 \<and>
             list_all (\<lambda>(key, answer). matchesBlank lower (map_of cand key) (Some answer) question)
               entries
         | (std, c) \<Rightarrow> matchesBlank lower c std question)
      in makeResult question candidateAnswer (if correct then qs_score question else 0))"

fun gradeQuestion_auto ::
  "(string \<Rightarrow> string) \<Rightarrow> QuestionSnapshot \<Rightarrow> json option \<Rightarrow> QuestionScoreResult" where
  "gradeQuestion_auto lower question candidateAnswer =
     (case qs_type question of
        SingleChoice \<Rightarrow> gradePrecise question candidateAnswer
      | TrueFalse \<Rightarrow> gradePrecise question candidateAnswer
      | MultipleChoice \<Rightarrow> gradeMultipleChoice question candidateAnswer
      | FillBlank \<Rightarrow> gradeFillBlank lower question candidateAnswer
      | TextResponse \<Rightarrow> makeResult question candidateAnswer 0)"

text \<open>\<^verbatim>\<open>q.standardAnswer == null\<close>\<close>

definition hasSubjectiveQuestions :: "QuestionSnapshot list \<Rightarrow> bool" where
  "hasSubjectiveQuestions questions =
     list_ex (\<lambda>q. qs_standardAnswer q = None \<or> qs_standardAnswer q = Some JNull) questions"

definition requiresManualGrading :: "QuestionSnapshot list \<Rightarrow> bool" where
  "requiresManualGrading questions = list_ex (\<lambda>q. qs_type q = TextResponse) questions"

definition isManualGradedQuestion :: "QuestionSnapshot \<Rightarrow> bool" where
  "isManualGradedQuestion question \<longleftrightarrow> qs_type question = TextResponse"

definition gradeAnswers ::
  "(string \<Rightarrow> string) \<Rightarrow> ident \<Rightarrow> QuestionSnapshot list \<Rightarrow> AnswerRecord list \<Rightarrow> jsnum \<Rightarrow> time \<Rightarrow> ScoreResult"
  where
  "gradeAnswers lower attemptId questions answers passingScore gradedAt =
     (let answerMap = map (\<lambda>a. (an_questionId a, an_answer a)) answers;
          questionResults = map (\<lambda>q. gradeQuestion_auto lower q
            (case js_map_get answerMap (qs_originalQuestionId q) of
               None \<Rightarrow> None | Some a \<Rightarrow> a)) questions;
          totalScore = foldl (\<lambda>sum r. sum + qr_score r) 0 questionResults
      in \<lparr>sr_attemptId = attemptId,
          sr_totalScore = totalScore,
          sr_passed = (totalScore \<ge> passingScore),
          sr_questionResults = questionResults,
          sr_gradedAt = gradedAt\<rparr>)"

section \<open>Lemmas\<close>

lemma makeResult_simps [simp]:
  "qr_questionId (makeResult q a s) = qs_originalQuestionId q"
  "qr_score (makeResult q a s) = s"
  "qr_maxScore (makeResult q a s) = qs_score q"
  "qr_correct (makeResult q a s) = (s = qs_score q)"
  "qr_candidateAnswer (makeResult q a s) = a"
  "qr_standardAnswer (makeResult q a s) = qs_standardAnswer q"
  by (simp_all add: makeResult_def)

lemma gradeQuestion_auto_shape:
  obtains s where "gradeQuestion_auto lower q a = makeResult q a s"
    and "s = 0 \<or> s = qs_score q \<or> s = qs_score q / 2"
  by (cases "qs_type q")
    (auto simp: gradePrecise_def gradeMultipleChoice_def gradeFillBlank_def Let_def
      split: option.splits)

lemma gradeQuestion_auto_id [simp]:
  "qr_questionId (gradeQuestion_auto lower q a) = qs_originalQuestionId q"
proof -
  obtain s where "gradeQuestion_auto lower q a = makeResult q a s"
    by (rule gradeQuestion_auto_shape)
  then show ?thesis by (simp del: gradeQuestion_auto.simps)
qed

lemma score_bounds:
  assumes "0 \<le> qs_score q"
  shows "0 \<le> qr_score (gradeQuestion_auto lower q a) \<and>
    qr_score (gradeQuestion_auto lower q a) \<le> qs_score q"
  by (rule gradeQuestion_auto_shape [of lower q a]) (use assms in auto)

lemma foldl_sum: "foldl (\<lambda>sum r. sum + f r) (z::rat) rs = z + sum_list (map f rs)"
  by (induction rs arbitrary: z) (simp_all add: algebra_simps)

lemma sum_list_between:
  assumes "\<And>x. x \<in> set xs \<Longrightarrow> 0 \<le> f x \<and> f x \<le> (g x :: rat)"
  shows "0 \<le> sum_list (map f xs) \<and> sum_list (map f xs) \<le> sum_list (map g xs)"
  using assms by (induction xs) (auto intro: add_mono)

text \<open>Comparing two sorted duplicate-free lists position by position compares the sets.\<close>

lemma enumerate_all_nth:
  "length xs = length ys \<Longrightarrow>
     list_all (\<lambda>(i, a). a = ys ! i) (List.enumerate 0 xs) \<longleftrightarrow> xs = ys"
  by (auto simp: list_all_iff in_set_enumerate_eq list_eq_iff_nth_eq)

lemma sorted_js_set_eq_iff:
  fixes xs ys :: "string list"
  shows "sort (js_set xs) = sort (js_set ys) \<longleftrightarrow> set xs = set ys"
proof
  assume "sort (js_set xs) = sort (js_set ys)"
  then have "set (sort (js_set xs)) = set (sort (js_set ys))" by simp
  then show "set xs = set ys" by simp
next
  assume "set xs = set ys"
  then show "sort (js_set xs) = sort (js_set ys)"
    by (intro sorted_distinct_set_unique) simp_all
qed

lemma length_js_set: "length (js_set xs) = card (set xs)"
  using distinct_card [OF distinct_js_set, of xs] by simp

lemma js_set_Nil_iff [simp]: "js_set xs = [] \<longleftrightarrow> xs = []"
  using set_js_set [of xs] by (metis set_empty)

lemma multiple_choice_complete_iff:
  fixes c s :: "string list"
  shows "(0 < length (sort (js_set s)) \<and> length (sort (js_set c)) = length (sort (js_set s)) \<and>
      list_all (\<lambda>(index, a). a = sort (js_set s) ! index) (List.enumerate 0 (sort (js_set c))))
    \<longleftrightarrow> set s \<noteq> {} \<and> set c = set s"
proof -
  have "(length (sort (js_set c)) = length (sort (js_set s)) \<and>
      list_all (\<lambda>(index, a). a = sort (js_set s) ! index) (List.enumerate 0 (sort (js_set c))))
    \<longleftrightarrow> sort (js_set c) = sort (js_set s)"
    using enumerate_all_nth [of "sort (js_set c)" "sort (js_set s)"] by metis
  moreover have "0 < length (sort (js_set s)) \<longleftrightarrow> set s \<noteq> {}"
    by simp
  ultimately show ?thesis
    unfolding sorted_js_set_eq_iff by blast
qed

lemma multiple_choice_partial_iff:
  fixes c s :: "string list"
  shows "(0 < length (sort (js_set c)) \<and> length (sort (js_set c)) < length (sort (js_set s)) \<and>
      \<not> list_ex (\<lambda>a. \<not> List.member (sort (js_set s)) a) (sort (js_set c)))
    \<longleftrightarrow> set c \<noteq> {} \<and> set c \<subset> set s"
proof -
  have "\<not> list_ex (\<lambda>a. \<not> List.member (sort (js_set s)) a) (sort (js_set c)) \<longleftrightarrow> set c \<subseteq> set s"
    by (auto simp: list_ex_iff)
  moreover have "card (set c) < card (set s) \<longleftrightarrow> set c \<subset> set s" if "set c \<subseteq> set s"
    using that psubset_card_mono [of "set s" "set c"] by (auto simp: psubset_eq)
  ultimately show ?thesis
    unfolding length_sort length_js_set card_gt_0_iff by auto
qed

lemma js_trim_space:
  assumes "list_all js_space w"
  shows "js_trim w = []"
proof -
  have "dropWhile js_space w = []" using assms by (induction w) simp_all
  then show ?thesis unfolding js_trim_def by (simp only: rev.simps dropWhile.simps)
qed

lemma dropWhile_space_append: "list_all js_space w \<Longrightarrow> dropWhile js_space (w @ x) = dropWhile js_space x"
  by (simp add: list_all_iff)

lemma js_trim_pad:
  assumes u: "list_all js_space u" and v: "list_all js_space v"
  shows "js_trim (u @ s @ v) = js_trim s"
proof (cases "list_all js_space s")
  case True
  with u v have "list_all js_space (u @ s @ v)" by simp
  with True show ?thesis by (metis js_trim_space)
next
  case False
  then have "dropWhile js_space (s @ v) = dropWhile js_space s @ v"
    by (auto simp: list_all_iff dropWhile_append)
  moreover have "dropWhile js_space (rev v @ x) = dropWhile js_space x" for x
    using v by (intro dropWhile_space_append) (simp add: list_all_iff)
  ultimately show ?thesis
    using dropWhile_space_append [OF u, of "s @ v"] by (simp add: js_trim_def)
qed

section \<open>Properties\<close>

text \<open>Auto-grading stays within the question. For a question with a non-negative score, the
  awarded score of any answer of any shape lies between zero and that score, the recorded maximum
  is that score, and the question counts as correct exactly when the full score was awarded; a
  text response is never scored automatically.\<close>

lemma gradeQuestion_bounds:
  assumes "0 \<le> qs_score q"
  shows "let r = gradeQuestion_auto lower q a in
    0 \<le> qr_score r \<and> qr_score r \<le> qr_maxScore r \<and> qr_maxScore r = qs_score q \<and>
    (qr_correct r \<longleftrightarrow> qr_score r = qr_maxScore r) \<and>
    (qs_type q = TextResponse \<longrightarrow> qr_score r = 0)"
proof -
  obtain s where s: "gradeQuestion_auto lower q a = makeResult q a s"
    by (rule gradeQuestion_auto_shape)
  have "qs_type q = TextResponse \<Longrightarrow> qr_score (gradeQuestion_auto lower q a) = 0" by simp
  with score_bounds [OF assms, of lower a] s show ?thesis
    by (simp del: gradeQuestion_auto.simps add: Let_def)
qed

abbreviation sample_rule :: GradingRule where
  "sample_rule \<equiv> \<lparr>gr_multiSelectScoring = PartialHalf, gr_fillBlankMatchMode = Exact,
     gr_fillBlankCaseSensitive = None\<rparr>"

text \<open>A sample multiple-choice question, used as a concrete input.\<close>

definition sample_mc :: QuestionSnapshot where
  "sample_mc = \<lparr>qs_originalQuestionId = ''q1'', qs_type = MultipleChoice, qs_content = ''pick'',
     qs_contentDocument = None, qs_answerMode = None, qs_attachments = [], qs_options = [],
     qs_standardAnswer = Some (JArr [JStr ''a'', JStr ''b'']), qs_score = 4,
     qs_gradingRule = sample_rule, qs_order = 0, qs_rubric = None\<rparr>"

lemma gradeQuestion_bounds_witness:
  "qr_score (gradeQuestion_auto id sample_mc (Some (JArr [JStr ''b'']))) \<le> 4"
  using gradeQuestion_bounds [of sample_mc id "Some (JArr [JStr ''b''])"]
  by (simp add: sample_mc_def Let_def)

text \<open>Multiple choice is graded by set comparison. Whatever the order and repetition of the
  selected options, the full score is awarded exactly when the selected set is the non-empty set of
  standard answers, half the score exactly when partial scoring is on and the selection is a
  non-empty proper subset of them, and nothing otherwise.\<close>

lemma multiple_choice_by_sets:
  "qr_score (gradeMultipleChoice q a) =
     (let C = set (toStringArray a); S = set (toStringArray (qs_standardAnswer q))
      in if S \<noteq> {} \<and> C = S then qs_score q
         else if C \<noteq> {} \<and> C \<subset> S \<and> gr_multiSelectScoring (qs_gradingRule q) = PartialHalf
         then qs_score q / 2
         else 0)"
  unfolding gradeMultipleChoice_def Let_def makeResult_simps
    multiple_choice_complete_iff multiple_choice_partial_iff
  by simp

text \<open>The attempt total is the sum of the question scores, one result per question in paper
  order, bounded by the paper's total; passing is decided against that total; an attempt with no
  saved answer scores zero.\<close>

lemma gradeAnswers_total:
  assumes "\<forall>q\<in>set questions. 0 \<le> qs_score q"
  shows "let r = gradeAnswers lower aid questions answers passing now in
    sr_totalScore r = sum_list (map qr_score (sr_questionResults r)) \<and>
    map qr_questionId (sr_questionResults r) = map qs_originalQuestionId questions \<and>
    0 \<le> sr_totalScore r \<and> sr_totalScore r \<le> sum_list (map qs_score questions) \<and>
    (sr_passed r \<longleftrightarrow> passing \<le> sr_totalScore r)"
proof -
  define f where "f q = gradeQuestion_auto lower q
      (case js_map_get (map (\<lambda>a. (an_questionId a, an_answer a)) answers)
         (qs_originalQuestionId q) of None \<Rightarrow> None | Some a \<Rightarrow> a)" for q
  have id: "qr_questionId (f q) = qs_originalQuestionId q" for q
    unfolding f_def by (rule gradeQuestion_auto_id)
  have "0 \<le> sum_list (map (\<lambda>q. qr_score (f q)) questions) \<and>
      sum_list (map (\<lambda>q. qr_score (f q)) questions) \<le> sum_list (map qs_score questions)"
    by (rule sum_list_between) (use assms score_bounds in \<open>simp add: f_def del: gradeQuestion_auto.simps\<close>)
  then show ?thesis
    by (simp add: gradeAnswers_def Let_def foldl_sum f_def [symmetric] id comp_def
        del: gradeQuestion_auto.simps)
qed

lemma gradeAnswers_total_witness:
  "sr_totalScore (gradeAnswers id ''a1'' [sample_mc]
     [\<lparr>an_questionId = ''q1'', an_answer = Some (JArr [JStr ''b'', JStr ''a'']), an_version = 1,
       an_savedAt = 0\<rparr>] 3 7) \<le> 4"
  using gradeAnswers_total [of "[sample_mc]" id "''a1''"
     "[\<lparr>an_questionId = ''q1'', an_answer = Some (JArr [JStr ''b'', JStr ''a'']), an_version = 1,
       an_savedAt = 0\<rparr>]" 3 7]
  by (simp add: Let_def sample_mc_def del: gradeQuestion_auto.simps)

text \<open>White space around a blank never changes its grade: padding the candidate's text on
  either side leaves the match of every fill-in-the-blank question unchanged.\<close>

lemma blank_padding_irrelevant:
  assumes "list_all js_space u" and "list_all js_space v"
  shows "matchesBlank lower (Some (JStr (u @ s @ v))) std q = matchesBlank lower (Some (JStr s)) std q"
  using js_trim_pad [OF assms, of s]
  by (simp add: matchesBlank_def normalizeBlank_def Let_def split: option.splits json.splits)

lemma blank_padding_irrelevant_witness:
  "matchesBlank id (Some (JStr ('' '' @ ''paris'' @ ''  ''))) (Some (JStr ''london|paris'')) sample_mc =
   matchesBlank id (Some (JStr ''paris'')) (Some (JStr ''london|paris'')) sample_mc"
  by (rule blank_padding_irrelevant) (simp_all add: js_space_def)

end
