(* ===== verification/Presentation.thy ===== *)
theory Presentation
  imports Domain "HOL-Library.Multiset"
begin

text \<open>
  \<^verbatim>\<open>packages/exam-engine/src/attemptPresentation.ts\<close>: the per-attempt order of questions and
  options. The injectable random source is the argument \<open>rng\<close>, the sequence of numbers it returns;
  the second component of a result is the number of draws made so far. Its contract (each draw lies
  in the half-open unit interval) is the hypothesis \<open>rng_ok\<close>.
\<close>

type_synonym RandomSource = "nat \<Rightarrow> jsnum"

definition rng_ok :: "RandomSource \<Rightarrow> bool" where
  "rng_ok rng \<longleftrightarrow> (\<forall>n. 0 \<le> rng n \<and> rng n < 1)"

text \<open>The loop of \<^verbatim>\<open>shuffledCopy\<close> from index \<open>i\<close> down to 1: Fisher-Yates.\<close>

fun shuffle_loop :: "nat \<Rightarrow> 'a list \<Rightarrow> RandomSource \<Rightarrow> nat \<Rightarrow> 'a list \<times> nat" where
  "shuffle_loop 0 result rng n = (result, n)"
| "shuffle_loop (Suc i) result rng n =
     (let j = nat \<lfloor>rng n * of_nat (Suc i + 1)\<rfloor>;
          tmp = result ! Suc i
      in shuffle_loop i (result[Suc i := result ! j, j := tmp]) rng (Suc n))"

definition shuffledCopy :: "'a list \<Rightarrow> RandomSource \<Rightarrow> nat \<Rightarrow> 'a list \<times> nat" where
  "shuffledCopy items rng n = shuffle_loop (length items - 1) items rng n"

definition CHOICE_TYPES :: "QuestionType list" where
  "CHOICE_TYPES = [SingleChoice, MultipleChoice]"

text \<open>The second pass: option lists of choice questions, left to right, sharing one source.\<close>

fun shuffle_options :: "QuestionSnapshot list \<Rightarrow> RandomSource \<Rightarrow> nat \<Rightarrow> QuestionSnapshot list \<times> nat" where
  "shuffle_options [] rng n = ([], n)"
| "shuffle_options (q # qs) rng n =
     (if List.member CHOICE_TYPES (qs_type q)
      then (let (os, n') = shuffledCopy (qs_options q) rng n;
                (rest, n'') = shuffle_options qs rng n'
            in (q\<lparr>qs_options := os\<rparr> # rest, n''))
      else (let (rest, n') = shuffle_options qs rng n in (q # rest, n')))"

definition materializeAttemptPresentation ::
  "QuestionSnapshot list \<Rightarrow> ControlFlags \<Rightarrow> RandomSource \<Rightarrow> QuestionSnapshot list" where
  "materializeAttemptPresentation publishedSnapshot controlFlags rng =
     (let (questions, n) =
        (if cf_shuffleQuestions controlFlags
         then (let (sh, n) = shuffledCopy publishedSnapshot rng 0
               in (map (\<lambda>(index, q). q\<lparr>qs_order := int index\<rparr>) (List.enumerate 0 sh), n))
         else (publishedSnapshot, 0))
      in if cf_shuffleOptions controlFlags then fst (shuffle_options questions rng n) else questions)"

section \<open>Lemmas\<close>

lemma draw_bound:
  assumes "rng_ok rng"
  shows "nat \<lfloor>rng n * of_nat (i + 1)\<rfloor> \<le> i"
proof -
  have r: "0 \<le> rng n" "rng n < 1" using assms by (simp_all add: rng_ok_def)
  then have "rng n * of_nat (i + 1) < of_nat (i + 1)"
    by (simp add: mult_less_cancel_right1)
  then have "\<lfloor>rng n * of_nat (i + 1)\<rfloor> < int (i + 1)"
    by (simp add: floor_less_iff)
  then show ?thesis by linarith
qed

lemma shuffle_loop_mset:
  "rng_ok rng \<Longrightarrow> i < length xs \<or> i = 0 \<Longrightarrow> mset (fst (shuffle_loop i xs rng n)) = mset xs"
proof (induction i xs rng n rule: shuffle_loop.induct)
  case (2 i result rng n)
  define j where "j = nat \<lfloor>rng n * of_nat (Suc i + 1)\<rfloor>"
  have "j \<le> Suc i" unfolding j_def using draw_bound [OF 2(2)] by blast
  with 2(3) have "mset (result[Suc i := result ! j, j := result ! Suc i]) = mset result"
    by (intro mset_swap) simp_all
  moreover have "mset (fst (shuffle_loop i (result[Suc i := result ! j, j := result ! Suc i]) rng (Suc n)))
      = mset (result[Suc i := result ! j, j := result ! Suc i])"
    using 2(1) [of j "result ! Suc i"] 2(2,3) by (auto simp: j_def)
  ultimately show ?case by (simp add: Let_def j_def)
qed simp

lemma shuffledCopy_mset: "rng_ok rng \<Longrightarrow> mset (fst (shuffledCopy xs rng n)) = mset xs"
  unfolding shuffledCopy_def by (rule shuffle_loop_mset) auto

lemma shuffledCopy_length: "rng_ok rng \<Longrightarrow> length (fst (shuffledCopy xs rng n)) = length xs"
  using shuffledCopy_mset [THEN mset_eq_length] .

text \<open>What a presentation may change of one question: its order number, and the order of the options
  of a choice question.\<close>

definition same_question :: "QuestionSnapshot \<Rightarrow> QuestionSnapshot \<Rightarrow> bool" where
  "same_question q r \<longleftrightarrow>
     r = q\<lparr>qs_order := qs_order r, qs_options := qs_options r\<rparr> \<and>
     mset (qs_options r) = mset (qs_options q) \<and>
     (qs_type q \<notin> {SingleChoice, MultipleChoice} \<longrightarrow> qs_options r = qs_options q)"

lemma same_question_refl [simp]: "same_question q q"
  by (simp add: same_question_def)

lemma same_question_trans: "same_question p q \<Longrightarrow> same_question q r \<Longrightarrow> same_question p r"
  unfolding same_question_def
  by (metis (no_types, lifting) QuestionSnapshot.select_convs(2) QuestionSnapshot.surjective
      QuestionSnapshot.update_convs(11,7))

lemma shuffle_options_same:
  "rng_ok rng \<Longrightarrow>
     list_all2 (\<lambda>q r. same_question q r \<and> qs_order r = qs_order q) qs (fst (shuffle_options qs rng n))"
proof (induction qs rng n rule: shuffle_options.induct)
  case (2 q qs rng n)
  have "mset (fst (shuffledCopy (qs_options q) rng n)) = mset (qs_options q)"
    using 2(3) by (rule shuffledCopy_mset)
  with 2 show ?case
    by (auto simp: same_question_def CHOICE_TYPES_def split: prod.splits)
qed simp

lemma renumbered_orders:
  "map qs_order (map (\<lambda>(index, q). q\<lparr>qs_order := int index\<rparr>) (List.enumerate n qs)) =
     map int [n..<n + length qs]"
  by (induction qs arbitrary: n) (simp_all add: upt_conv_Cons del: upt_Suc)

section \<open>Properties\<close>

text \<open>Shuffling moves presentation, never identity. For every source of draws within the unit
  interval, the presented paper is a permutation of the published one, question by question equal
  to it in everything but the order number and the order of choice options, which is itself a
  permutation; with question shuffling on, the order numbers are renumbered from zero in paper
  order; with both flags off the paper is the published one.\<close>

lemma presentation_is_permutation:
  assumes "rng_ok rng"
  shows "\<exists>perm. mset perm = mset snapshot \<and>
    list_all2 same_question perm (materializeAttemptPresentation snapshot flags rng) \<and>
    (cf_shuffleQuestions flags \<longrightarrow>
       map qs_order (materializeAttemptPresentation snapshot flags rng) = map int [0..<length snapshot]) \<and>
    (\<not> cf_shuffleQuestions flags \<longrightarrow> perm = snapshot) \<and>
    (\<not> cf_shuffleQuestions flags \<and> \<not> cf_shuffleOptions flags \<longrightarrow>
       materializeAttemptPresentation snapshot flags rng = snapshot)"
proof -
  define sh where "sh = fst (shuffledCopy snapshot rng 0)"
  define perm where "perm = (if cf_shuffleQuestions flags then sh else snapshot)"
  define qs where "qs = (if cf_shuffleQuestions flags
      then map (\<lambda>(index, q). q\<lparr>qs_order := int index\<rparr>) (List.enumerate 0 sh) else snapshot)"
  define n where "n = (if cf_shuffleQuestions flags then snd (shuffledCopy snapshot rng 0) else 0)"
  have len: "length sh = length snapshot"
    unfolding sh_def by (rule shuffledCopy_length [OF assms])
  have m: "materializeAttemptPresentation snapshot flags rng =
      (if cf_shuffleOptions flags then fst (shuffle_options qs rng n) else qs)"
    by (simp add: materializeAttemptPresentation_def qs_def n_def sh_def split: prod.splits)
  have ms: "mset perm = mset snapshot"
    unfolding perm_def sh_def by (simp add: shuffledCopy_mset assms)
  have qs1: "list_all2 same_question perm qs"
    by (auto simp: perm_def qs_def list_all2_conv_all_nth nth_enumerate_eq same_question_def)
  have opt: "list_all2 (\<lambda>q r. same_question q r \<and> qs_order r = qs_order q) qs
      (materializeAttemptPresentation snapshot flags rng)"
    unfolding m using shuffle_options_same [OF assms, of qs n] by (simp add: list.rel_refl)
  have same: "list_all2 same_question perm (materializeAttemptPresentation snapshot flags rng)"
    by (rule list_all2_trans [OF _ qs1 opt]) (blast intro: same_question_trans)
  have ord: "map qs_order (materializeAttemptPresentation snapshot flags rng) = map qs_order qs"
    using opt by (auto simp: list_all2_conv_all_nth list_eq_iff_nth_eq)
  have num: "map qs_order qs = map int [0..<length snapshot]" if "cf_shuffleQuestions flags"
    using that renumbered_orders [of 0 sh] by (simp add: qs_def len)
  have off: "materializeAttemptPresentation snapshot flags rng = snapshot"
    if "\<not> cf_shuffleQuestions flags" "\<not> cf_shuffleOptions flags"
    unfolding m using that by (simp add: qs_def)
  have id: "perm = snapshot" if "\<not> cf_shuffleQuestions flags"
    using that by (simp add: perm_def)
  show ?thesis
    using ms same ord num off id by metis
qed

abbreviation shuffle_flags :: "bool \<Rightarrow> bool \<Rightarrow> ControlFlags" where
  "shuffle_flags sq so \<equiv> \<lparr>cf_shuffleQuestions = sq, cf_shuffleOptions = so,
     cf_detectTabSwitch = False, cf_disableCopyPaste = False, cf_requireQueue = False,
     cf_batchSize = 0, cf_batchInterval = 0, cf_restrictIp = False, cf_requireLockdown = False,
     cf_showResultImmediately = False\<rparr>"

abbreviation sample_paper :: "QuestionSnapshot list" where
  "sample_paper \<equiv> map (\<lambda>k. \<lparr>qs_originalQuestionId = k, qs_type = SingleChoice, qs_content = k,
     qs_contentDocument = None, qs_answerMode = None, qs_attachments = [],
     qs_options = [\<lparr>op_id = ''a'', op_content = ''A'', op_contentDocument = None\<rparr>,
       \<lparr>op_id = ''b'', op_content = ''B'', op_contentDocument = None\<rparr>],
     qs_standardAnswer = Some (JStr ''a''), qs_score = 5,
     qs_gradingRule = \<lparr>gr_multiSelectScoring = AllCorrectFull, gr_fillBlankMatchMode = Exact,
       gr_fillBlankCaseSensitive = None\<rparr>, qs_order = 0, qs_rubric = None\<rparr>) [''q1'', ''q2'', ''q3'']"

lemma presentation_is_permutation_witness:
  "rng_ok (\<lambda>_. 1 / 2) \<and> cf_shuffleQuestions (shuffle_flags True True) \<and>
   map qs_order (materializeAttemptPresentation sample_paper (shuffle_flags True True) (\<lambda>_. 1 / 2)) = [0, 1, 2]"
proof -
  have h: "rng_ok (\<lambda>_. 1 / 2)" by (simp add: rng_ok_def)
  have f: "cf_shuffleQuestions (shuffle_flags True True)" by simp
  have "map qs_order (materializeAttemptPresentation sample_paper (shuffle_flags True True) (\<lambda>_. 1 / 2))
      = map int [0..<length sample_paper]"
    using presentation_is_permutation [OF h, of sample_paper "shuffle_flags True True"] f by blast
  also have "\<dots> = [0, 1, 2]"
    by (simp add: upt_rec)
  finally show ?thesis using h f by blast
qed

end
