(* ===== verification/Exam_Policy.thy ===== *)
theory Exam_Policy
  imports Timing
begin

text \<open>
  The exam policy: the resolved policy value and the interruption-caps leaf rule of
  \<^verbatim>\<open>packages/domain/src/examPolicy.ts\<close>, and the resolver and conflict validator of
  \<^verbatim>\<open>packages/exam-engine/src/examPolicy.ts\<close>. \<open>policy_ok\<close> is the declarative specification that the
  validator decides.
\<close>

section \<open>The resolved policy\<close>

record TimingPolicy =
  tm_timingMode :: TimingMode
  tm_durationMinutes :: "int option"
  tm_openAt :: time
  tm_closeAt :: "time option"
  tm_latestStartOffsetMinutes :: "int option"
  tm_minSubmitAfterStartMinutes :: "int option"

record QuestionSelectionPolicy =
  sp_questionSelectionMode :: QuestionSelectionMode
  sp_questionIds :: "ident list"

record AttemptPolicy =
  ap_retakePolicy :: RetakePolicy
  ap_maxAttempts :: int
  ap_scoreStrategy :: ScoreStrategy

record GradingPolicy =
  gp_passingScore :: jsnum
  gp_totalScore :: jsnum

record InterruptionPolicy =
  ip_interruptionTimePolicy :: InterruptionTimePolicy
  ip_interruptionGracePerIncidentSeconds :: "jsnum option"
  ip_interruptionGracePerAttemptSeconds :: "jsnum option"

record ResolvedExamPolicy =
  rp_timing :: TimingPolicy
  rp_questions :: QuestionSelectionPolicy
  rp_attempt :: AttemptPolicy
  rp_grading :: GradingPolicy
  rp_results :: ResultPublicationMode
  rp_interruption :: InterruptionPolicy
  rp_control :: ControlFlags

datatype ExamPolicyConflictCode =
    ExamWindowInvalid | ExamTimingModeInvalid | PassingScoreExceedsTotal
  | RetakeMaxAttemptsInvalid | InterruptionPolicyCapsInvalid | UnsupportedExamControl

fun conflict_code_str :: "ExamPolicyConflictCode \<Rightarrow> string" where
  "conflict_code_str ExamWindowInvalid = ''EXAM_WINDOW_INVALID''"
| "conflict_code_str ExamTimingModeInvalid = ''EXAM_TIMING_MODE_INVALID''"
| "conflict_code_str PassingScoreExceedsTotal = ''PASSING_SCORE_EXCEEDS_TOTAL''"
| "conflict_code_str RetakeMaxAttemptsInvalid = ''RETAKE_MAX_ATTEMPTS_INVALID''"
| "conflict_code_str InterruptionPolicyCapsInvalid = ''INVALID_INTERRUPTION_POLICY''"
| "conflict_code_str UnsupportedExamControl = ''UNSUPPORTED_EXAM_CONTROL''"

record ExamPolicyConflict =
  pc_code :: ExamPolicyConflictCode
  pc_fields :: "string list"
  pc_message :: string

datatype CapField = PerIncidentCapSeconds | PerAttemptAggregateCapSeconds

record InterruptionCapConflict =
  cc_capField :: "CapField option"
  cc_message :: string

section \<open>Validation\<close>

definition validateInterruptionPolicyCaps ::
  "InterruptionTimePolicy \<Rightarrow> jsnum option \<Rightarrow> jsnum option \<Rightarrow> InterruptionCapConflict list" where
  "validateInterruptionPolicyCaps policy perIncidentCapSeconds perAttemptAggregateCapSeconds =
     (if policy \<noteq> BoundedGrace
      then (if perIncidentCapSeconds \<noteq> None \<or> perAttemptAggregateCapSeconds \<noteq> None
            then [\<lparr>cc_capField = None,
                   cc_message = ''strict and operator_incident policies require null caps''\<rparr>]
            else [])
      else case (perIncidentCapSeconds, perAttemptAggregateCapSeconds) of
             (Some perIncident, Some perAttempt) \<Rightarrow>
               (if perIncident \<le> 0 \<or> perAttempt \<le> 0
                then [\<lparr>cc_capField = None, cc_message = ''bounded_grace caps must be positive''\<rparr>]
                else if perIncident > perAttempt
                then [\<lparr>cc_capField = Some PerIncidentCapSeconds,
                       cc_message = ''per-incident cap cannot exceed the aggregate cap''\<rparr>]
                else [])
           | _ \<Rightarrow> [\<lparr>cc_capField = None, cc_message = ''bounded_grace requires both caps''\<rparr>])"

text \<open>The flags by name, in the normative order of the findings.\<close>

definition UNSUPPORTED_CONTROL_FLAGS :: "(string \<times> (ControlFlags \<Rightarrow> bool)) list" where
  "UNSUPPORTED_CONTROL_FLAGS =
     [(''detectTabSwitch'', cf_detectTabSwitch), (''disableCopyPaste'', cf_disableCopyPaste),
      (''restrictIp'', cf_restrictIp), (''requireLockdown'', cf_requireLockdown)]"

definition resolveExamPolicy :: "Exam \<Rightarrow> ResolvedExamPolicy" where
  "resolveExamPolicy exam =
     \<lparr>rp_timing =
        \<lparr>tm_timingMode = ex_timingMode exam, tm_durationMinutes = ex_durationMinutes exam,
         tm_openAt = ex_openAt exam, tm_closeAt = ex_closeAt exam,
         tm_latestStartOffsetMinutes = ex_latestStartOffsetMinutes exam,
         tm_minSubmitAfterStartMinutes = ex_minSubmitAfterStartMinutes exam\<rparr>,
      rp_questions =
        \<lparr>sp_questionSelectionMode = ex_questionSelectionMode exam,
         sp_questionIds = ex_questionIds exam\<rparr>,
      rp_attempt =
        \<lparr>ap_retakePolicy = ex_retakePolicy exam, ap_maxAttempts = ex_maxAttempts exam,
         ap_scoreStrategy = ex_scoreStrategy exam\<rparr>,
      rp_grading =
        \<lparr>gp_passingScore = ex_passingScore exam, gp_totalScore = ex_totalScore exam\<rparr>,
      rp_results = ex_resultPublicationMode exam,
      rp_interruption =
        \<lparr>ip_interruptionTimePolicy =
           (case ex_interruptionTimePolicy exam of None \<Rightarrow> Strict | Some p \<Rightarrow> p),
         ip_interruptionGracePerIncidentSeconds = ex_interruptionGracePerIncidentSeconds exam,
         ip_interruptionGracePerAttemptSeconds = ex_interruptionGracePerAttemptSeconds exam\<rparr>,
      rp_control = ex_controlFlags exam\<rparr>"

definition timing_invalid :: "string list \<Rightarrow> string \<Rightarrow> ExamPolicyConflict list" where
  "timing_invalid flds message =
     [\<lparr>pc_code = ExamTimingModeInvalid, pc_fields = flds, pc_message = message\<rparr>]"

fun validateTimingModeMatrix :: "TimingPolicy \<Rightarrow> InterruptionTimePolicy \<Rightarrow> ExamPolicyConflict list" where
  "validateTimingModeMatrix timing interruptionTimePolicy =
     (case tm_timingMode timing of
        TimedWindow \<Rightarrow>
          (if tm_durationMinutes timing = None
           then timing_invalid [''timingMode'', ''durationMinutes'']
             ''timed_window exams require a positive durationMinutes''
           else if tm_closeAt timing = None
           then timing_invalid [''timingMode'', ''closeAt''] ''timed_window exams require closeAt''
           else [])
      | Deadline \<Rightarrow>
          (if tm_durationMinutes timing \<noteq> None
           then timing_invalid [''timingMode'', ''durationMinutes'']
             ''deadline exams must not set durationMinutes''
           else if tm_closeAt timing = None
           then timing_invalid [''timingMode'', ''closeAt''] ''deadline exams require closeAt''
           else if interruptionTimePolicy \<noteq> Strict
           then timing_invalid [''timingMode'', ''interruptionTimePolicy'']
             ''deadline exams only support the strict interruption policy''
           else [])
      | Untimed \<Rightarrow>
          (if tm_durationMinutes timing \<noteq> None
           then timing_invalid [''timingMode'', ''durationMinutes'']
             ''untimed exams must not set durationMinutes''
           else if tm_closeAt timing \<noteq> None
           then timing_invalid [''timingMode'', ''closeAt''] ''untimed exams must not set closeAt''
           else if interruptionTimePolicy \<noteq> Strict
           then timing_invalid [''timingMode'', ''interruptionTimePolicy'']
             ''untimed exams only support the strict interruption policy''
           else [])
      | TimedSync \<Rightarrow> timing_invalid [''timingMode''] ''timed_sync is not supported yet'')"

definition cap_conflict :: "InterruptionCapConflict \<Rightarrow> ExamPolicyConflict" where
  "cap_conflict finding =
     \<lparr>pc_code = InterruptionPolicyCapsInvalid,
      pc_fields =
        (if cc_capField finding = Some PerIncidentCapSeconds
         then [''interruptionGracePerIncidentSeconds'']
         else [''interruptionTimePolicy'', ''interruptionGracePerIncidentSeconds'',
               ''interruptionGracePerAttemptSeconds'']),
      pc_message = cc_message finding\<rparr>"

definition validateExamPolicy :: "ResolvedExamPolicy \<Rightarrow> ExamPolicyConflict list" where
  "validateExamPolicy policy =
     (case tm_closeAt (rp_timing policy) of
        None \<Rightarrow> []
      | Some closeAt \<Rightarrow>
          (if tm_openAt (rp_timing policy) \<ge> closeAt
           then [\<lparr>pc_code = ExamWindowInvalid, pc_fields = [''openAt'', ''closeAt''],
                  pc_message = ''Exam openAt must be before closeAt''\<rparr>]
           else [])) @
     validateTimingModeMatrix (rp_timing policy)
       (ip_interruptionTimePolicy (rp_interruption policy)) @
     (if gp_passingScore (rp_grading policy) > gp_totalScore (rp_grading policy)
      then [\<lparr>pc_code = PassingScoreExceedsTotal, pc_fields = [''passingScore'', ''totalScore''],
             pc_message = ''Passing score cannot exceed total score''\<rparr>]
      else []) @
     (if ap_retakePolicy (rp_attempt policy) = MaxAttempts \<and>
         \<not> ap_maxAttempts (rp_attempt policy) \<ge> 1
      then [\<lparr>pc_code = RetakeMaxAttemptsInvalid, pc_fields = [''retakePolicy'', ''maxAttempts''],
             pc_message = ''retakePolicy 'max_attempts' requires maxAttempts >= 1''\<rparr>]
      else []) @
     map cap_conflict
       (validateInterruptionPolicyCaps
         (ip_interruptionTimePolicy (rp_interruption policy))
         (ip_interruptionGracePerIncidentSeconds (rp_interruption policy))
         (ip_interruptionGracePerAttemptSeconds (rp_interruption policy))) @
     List.map_filter
       (\<lambda>(flag, read).
          if read (rp_control policy)
          then Some \<lparr>pc_code = UnsupportedExamControl, pc_fields = [flag],
                     pc_message = flag @ '' is not currently supported by runtime enforcement''\<rparr>
          else None)
       UNSUPPORTED_CONTROL_FLAGS"

definition validateExamPolicyForExam :: "Exam \<Rightarrow> ExamPolicyConflict list" where
  "validateExamPolicyForExam exam = validateExamPolicy (resolveExamPolicy exam)"

definition conflict_field :: "ExamPolicyConflict \<Rightarrow> field_error" where
  "conflict_field c =
     ((case pc_fields c of [] \<Rightarrow> ''exam'' | f # _ \<Rightarrow> f), conflict_code_str (pc_code c), pc_message c)"

definition throw_conflicts :: "ExamPolicyConflict list \<Rightarrow> app_error + unit" where
  "throw_conflicts conflicts =
     (case conflicts of
        [] \<Rightarrow> Inr ()
      | first # _ \<Rightarrow> Inl (ValidationErrorD (pc_message first) (map conflict_field conflicts)))"

definition assertExamPolicyValid :: "Exam \<Rightarrow> app_error + unit" where
  "assertExamPolicyValid exam = throw_conflicts (validateExamPolicyForExam exam)"

record ExamPolicyInput =
  pi_timingMode :: TimingMode
  pi_durationMinutes :: "int option"
  pi_openAt :: time
  pi_closeAt :: "time option"
  pi_latestStartOffsetMinutes :: "int option"
  pi_minSubmitAfterStartMinutes :: "int option"
  pi_questionSelectionMode :: QuestionSelectionMode
  pi_questionIds :: "ident list"
  pi_retakePolicy :: RetakePolicy
  pi_maxAttempts :: int
  pi_scoreStrategy :: ScoreStrategy
  pi_passingScore :: jsnum
  pi_totalScore :: jsnum
  pi_resultPublicationMode :: ResultPublicationMode
  pi_interruptionTimePolicy :: InterruptionTimePolicy
  pi_interruptionGracePerIncidentSeconds :: "jsnum option"
  pi_interruptionGracePerAttemptSeconds :: "jsnum option"
  pi_controlFlags :: ControlFlags

definition validateExamPolicyInput :: "ExamPolicyInput \<Rightarrow> ExamPolicyConflict list" where
  "validateExamPolicyInput input =
     validateExamPolicy
       \<lparr>rp_timing =
          \<lparr>tm_timingMode = pi_timingMode input, tm_durationMinutes = pi_durationMinutes input,
           tm_openAt = pi_openAt input, tm_closeAt = pi_closeAt input,
           tm_latestStartOffsetMinutes = pi_latestStartOffsetMinutes input,
           tm_minSubmitAfterStartMinutes = pi_minSubmitAfterStartMinutes input\<rparr>,
        rp_questions =
          \<lparr>sp_questionSelectionMode = pi_questionSelectionMode input,
           sp_questionIds = pi_questionIds input\<rparr>,
        rp_attempt =
          \<lparr>ap_retakePolicy = pi_retakePolicy input, ap_maxAttempts = pi_maxAttempts input,
           ap_scoreStrategy = pi_scoreStrategy input\<rparr>,
        rp_grading =
          \<lparr>gp_passingScore = pi_passingScore input, gp_totalScore = pi_totalScore input\<rparr>,
        rp_results = pi_resultPublicationMode input,
        rp_interruption =
          \<lparr>ip_interruptionTimePolicy = pi_interruptionTimePolicy input,
           ip_interruptionGracePerIncidentSeconds = pi_interruptionGracePerIncidentSeconds input,
           ip_interruptionGracePerAttemptSeconds = pi_interruptionGracePerAttemptSeconds input\<rparr>,
        rp_control = pi_controlFlags input\<rparr>"

definition assertExamPolicyInputValid :: "ExamPolicyInput \<Rightarrow> app_error + unit" where
  "assertExamPolicyInputValid input = throw_conflicts (validateExamPolicyInput input)"

section \<open>The specification of a valid policy\<close>

definition caps_ok :: "InterruptionPolicy \<Rightarrow> bool" where
  "caps_ok i \<longleftrightarrow>
     (if ip_interruptionTimePolicy i = BoundedGrace
      then \<exists>x y. ip_interruptionGracePerIncidentSeconds i = Some x \<and>
             ip_interruptionGracePerAttemptSeconds i = Some y \<and> 0 < x \<and> x \<le> y
      else ip_interruptionGracePerIncidentSeconds i = None \<and>
           ip_interruptionGracePerAttemptSeconds i = None)"

definition timing_ok :: "TimingPolicy \<Rightarrow> InterruptionTimePolicy \<Rightarrow> bool" where
  "timing_ok t p \<longleftrightarrow>
     tm_timingMode t \<noteq> TimedSync \<and>
     (tm_durationMinutes t \<noteq> None \<longleftrightarrow> tm_timingMode t = TimedWindow) \<and>
     (tm_closeAt t = None \<longleftrightarrow> tm_timingMode t = Untimed) \<and>
     (tm_timingMode t = TimedWindow \<or> p = Strict)"

definition policy_ok :: "ResolvedExamPolicy \<Rightarrow> bool" where
  "policy_ok p \<longleftrightarrow>
     (\<forall>c. tm_closeAt (rp_timing p) = Some c \<longrightarrow> tm_openAt (rp_timing p) < c) \<and>
     timing_ok (rp_timing p) (ip_interruptionTimePolicy (rp_interruption p)) \<and>
     gp_passingScore (rp_grading p) \<le> gp_totalScore (rp_grading p) \<and>
     (ap_retakePolicy (rp_attempt p) = MaxAttempts \<longrightarrow> 1 \<le> ap_maxAttempts (rp_attempt p)) \<and>
     caps_ok (rp_interruption p) \<and>
     \<not> cf_detectTabSwitch (rp_control p) \<and> \<not> cf_disableCopyPaste (rp_control p) \<and>
     \<not> cf_restrictIp (rp_control p) \<and> \<not> cf_requireLockdown (rp_control p)"

section \<open>Lemmas\<close>

lemma validateInterruptionPolicyCaps_iff:
  "validateInterruptionPolicyCaps (ip_interruptionTimePolicy i)
     (ip_interruptionGracePerIncidentSeconds i) (ip_interruptionGracePerAttemptSeconds i) = [] \<longleftrightarrow>
   caps_ok i"
  by (auto simp: validateInterruptionPolicyCaps_def caps_ok_def split: option.splits)

lemma validateTimingModeMatrix_iff: "validateTimingModeMatrix t p = [] \<longleftrightarrow> timing_ok t p"
  by (cases "tm_timingMode t") (auto simp: timing_ok_def timing_invalid_def)

lemma unsupported_flags_iff:
  "List.map_filter (\<lambda>(flag, read). if read c then Some (g flag) else None) UNSUPPORTED_CONTROL_FLAGS = [] \<longleftrightarrow>
   \<not> cf_detectTabSwitch c \<and> \<not> cf_disableCopyPaste c \<and> \<not> cf_restrictIp c \<and> \<not> cf_requireLockdown c"
  by (auto simp: UNSUPPORTED_CONTROL_FLAGS_def List.map_filter_simps)

lemma validateExamPolicy_iff: "validateExamPolicy p = [] \<longleftrightarrow> policy_ok p"
  unfolding validateExamPolicy_def policy_ok_def append_is_Nil_conv map_is_Nil_conv
    validateTimingModeMatrix_iff validateInterruptionPolicyCaps_iff unsupported_flags_iff
  by (auto split: option.splits if_splits)

lemma throw_conflicts_iff: "throw_conflicts cs = Inr () \<longleftrightarrow> cs = []"
  by (simp add: throw_conflicts_def split: list.splits)

lemma assertExamPolicyValid_iff [cmd_iff]:
  "assertExamPolicyValid exam = Inr u \<longleftrightarrow> policy_ok (resolveExamPolicy exam)"
  by (simp add: assertExamPolicyValid_def validateExamPolicyForExam_def
      flip: validateExamPolicy_iff throw_conflicts_iff)

lemma policy_ok_deadline_total:
  "policy_ok (resolveExamPolicy exam) \<Longrightarrow> ex_timingMode exam \<noteq> Untimed \<Longrightarrow>
     \<exists>e. computeEffectiveDeadline (ex_closeAt exam) d = Inr (Some e)"
  by (cases d) (auto simp: policy_ok_def timing_ok_def resolveExamPolicy_def)

text \<open>The route layer validates merged values instead of a row; on the values of a row the two
  agree.\<close>

definition policy_input_of :: "Exam \<Rightarrow> ExamPolicyInput" where
  "policy_input_of exam =
     \<lparr>pi_timingMode = ex_timingMode exam, pi_durationMinutes = ex_durationMinutes exam,
      pi_openAt = ex_openAt exam, pi_closeAt = ex_closeAt exam,
      pi_latestStartOffsetMinutes = ex_latestStartOffsetMinutes exam,
      pi_minSubmitAfterStartMinutes = ex_minSubmitAfterStartMinutes exam,
      pi_questionSelectionMode = ex_questionSelectionMode exam,
      pi_questionIds = ex_questionIds exam, pi_retakePolicy = ex_retakePolicy exam,
      pi_maxAttempts = ex_maxAttempts exam, pi_scoreStrategy = ex_scoreStrategy exam,
      pi_passingScore = ex_passingScore exam, pi_totalScore = ex_totalScore exam,
      pi_resultPublicationMode = ex_resultPublicationMode exam,
      pi_interruptionTimePolicy =
        (case ex_interruptionTimePolicy exam of None \<Rightarrow> Strict | Some p \<Rightarrow> p),
      pi_interruptionGracePerIncidentSeconds = ex_interruptionGracePerIncidentSeconds exam,
      pi_interruptionGracePerAttemptSeconds = ex_interruptionGracePerAttemptSeconds exam,
      pi_controlFlags = ex_controlFlags exam\<rparr>"

lemma policy_input_agrees:
  "assertExamPolicyInputValid (policy_input_of exam) = assertExamPolicyValid exam"
  by (simp add: assertExamPolicyInputValid_def assertExamPolicyValid_def
      validateExamPolicyInput_def validateExamPolicyForExam_def resolveExamPolicy_def
      policy_input_of_def)

text \<open>The matrix asks a timed window for a duration, not for a positive one.\<close>

lemma timed_window_accepts_any_duration:
  "tm_timingMode t = TimedWindow \<Longrightarrow> tm_closeAt t \<noteq> None \<Longrightarrow>
     validateTimingModeMatrix (t\<lparr>tm_durationMinutes := Some d\<rparr>) p = []"
  by auto

section \<open>Properties\<close>

text \<open>The policy gate decides the policy specification. Authoring and publication accept an
  exam exactly when its window is not inverted, its timing mode, duration, close and interruption
  policy fit the timing matrix (no synchronized sitting, a duration exactly for timed windows, a
  close exactly for the modes with an end, compensation only for timed windows), the passing score
  is within the total, the attempt limit is positive where it is used, the interruption caps fit
  their policy and no unenforceable control is active. Otherwise the error carries one field entry
  per conflict, and the row path and the merged-input path agree.\<close>

lemma policy_gate_decides_spec:
  "(assertExamPolicyValid exam = Inr () \<longleftrightarrow> policy_ok (resolveExamPolicy exam)) \<and>
   (case assertExamPolicyValid exam of
      Inr _ \<Rightarrow> validateExamPolicyForExam exam = []
    | Inl e \<Rightarrow> error_code e = ''VALIDATION_ERROR'' \<and>
        (\<exists>m fs. e = ValidationErrorD m fs \<and> fs \<noteq> [] \<and>
           length fs = length (validateExamPolicyForExam exam))) \<and>
   assertExamPolicyInputValid (policy_input_of exam) = assertExamPolicyValid exam"
proof -
  have "case assertExamPolicyValid exam of
      Inr _ \<Rightarrow> validateExamPolicyForExam exam = []
    | Inl e \<Rightarrow> error_code e = ''VALIDATION_ERROR'' \<and>
        (\<exists>m fs. e = ValidationErrorD m fs \<and> fs \<noteq> [] \<and>
           length fs = length (validateExamPolicyForExam exam))"
    by (simp add: assertExamPolicyValid_def throw_conflicts_def split: list.split)
  then show ?thesis
    using assertExamPolicyValid_iff policy_input_agrees by blast
qed

end
