(* ===== verification/Repositories.thy ===== *)
theory Repositories
  imports Domain
begin

text \<open>
  The store behind the repository ports of the engine: one table per port, for one tenant, with the
  reads and writes that \<^verbatim>\<open>packages/db/src/repository\<close> implements, and the Enrollment-to-Attempt
  lock seam of \<^verbatim>\<open>lockSeam.ts\<close>.

  \<^item> A command runs in one transaction, so a read with \<^verbatim>\<open>FOR UPDATE\<close> or \<^verbatim>\<open>FOR SHARE\<close> answers what the
    plain read answers; \<^verbatim>\<open>findById\<close>, \<^verbatim>\<open>findByIdForUpdate\<close> and \<^verbatim>\<open>findByIdForShare\<close> are one definition.
  \<^item> A violated unique index throws (\<open>EngineError\<close>), which rolls the transaction back.
  \<^item> New row identifiers come from \<open>uuid\<close>, a numbered supply the model takes as a parameter; the
    store counts how many were drawn.
  \<^item> \<^verbatim>\<open>createdAt\<close> is the insertion order of the rows of a table.
\<close>

type_synonym id_supply = "nat \<Rightarrow> ident"

record store =
  st_exams :: "Exam list"
  st_enrollments :: "ExamEnrollment list"
  st_attempts :: "ExamAttempt list"
  st_receipts :: "AnswerReceipt list"
  st_entries :: "AttemptGradingEntry list"
  st_episodes :: "AttemptInterruption list"
  st_events :: "AttemptInterruptionEvent list"
  st_adjustments :: "AttemptTimeAdjustment list"
  st_admissions :: "ExamAdmissionRecord list"
  st_drawn :: nat

type_synonym 'a action = "(store, app_error, 'a) cmd"

definition unique_violation :: app_error where
  "unique_violation = EngineError ''duplicate key value violates unique constraint''"

definition draw_id :: "id_supply \<Rightarrow> ident action" where
  "draw_id uuid = bindC (getsC (\<lambda>s. uuid (st_drawn s))) (\<lambda>i.
     bindC (modifyC (\<lambda>s. s\<lparr>st_drawn := Suc (st_drawn s)\<rparr>)) (\<lambda>_. returnC i))"

section \<open>Exams\<close>

definition find_exam :: "ident \<Rightarrow> store \<Rightarrow> Exam option" where
  "find_exam k s = tbl_find ex_id k (st_exams s)"

definition upd_exam :: "ident \<Rightarrow> (Exam \<Rightarrow> Exam) \<Rightarrow> store \<Rightarrow> store" where
  "upd_exam k f s = s\<lparr>st_exams := tbl_update ex_id k f (st_exams s)\<rparr>"

definition update_exam :: "ident \<Rightarrow> (Exam \<Rightarrow> Exam) \<Rightarrow> Exam option action" where
  "update_exam = updateC upd_exam find_exam"

interpretation exams: row_table ex_id find_exam upd_exam
  by unfold_locales
    (auto simp: find_exam_def upd_exam_def tbl_find_update dest: tbl_find_key)

section \<open>Enrollments\<close>

definition find_enrollment :: "ident \<Rightarrow> store \<Rightarrow> ExamEnrollment option" where
  "find_enrollment k s = tbl_find en_id k (st_enrollments s)"

definition upd_enrollment :: "ident \<Rightarrow> (ExamEnrollment \<Rightarrow> ExamEnrollment) \<Rightarrow> store \<Rightarrow> store" where
  "upd_enrollment k f s = s\<lparr>st_enrollments := tbl_update en_id k f (st_enrollments s)\<rparr>"

definition update_enrollment ::
  "ident \<Rightarrow> (ExamEnrollment \<Rightarrow> ExamEnrollment) \<Rightarrow> ExamEnrollment option action" where
  "update_enrollment = updateC upd_enrollment find_enrollment"

definition findByExamAndCandidate :: "ident \<Rightarrow> ident \<Rightarrow> store \<Rightarrow> ExamEnrollment option" where
  "findByExamAndCandidate examId candidateId s =
     find (\<lambda>e. en_examId e = examId \<and> en_candidateId e = candidateId) (st_enrollments s)"

interpretation enrollments: row_table en_id find_enrollment upd_enrollment
  by unfold_locales
    (auto simp: find_enrollment_def upd_enrollment_def tbl_find_update dest: tbl_find_key)

section \<open>Attempts\<close>

definition find_attempt :: "ident \<Rightarrow> store \<Rightarrow> ExamAttempt option" where
  "find_attempt k s = tbl_find at_id k (st_attempts s)"

definition upd_attempt :: "ident \<Rightarrow> (ExamAttempt \<Rightarrow> ExamAttempt) \<Rightarrow> store \<Rightarrow> store" where
  "upd_attempt k f s = s\<lparr>st_attempts := tbl_update at_id k f (st_attempts s)\<rparr>"

definition update_attempt :: "ident \<Rightarrow> (ExamAttempt \<Rightarrow> ExamAttempt) \<Rightarrow> ExamAttempt option action" where
  "update_attempt = updateC upd_attempt find_attempt"

interpretation attempts: row_table at_id find_attempt upd_attempt
  by unfold_locales
    (auto simp: find_attempt_def upd_attempt_def tbl_find_update dest: tbl_find_key)

definition findActiveByEnrollment :: "ident \<Rightarrow> store \<Rightarrow> ExamAttempt option" where
  "findActiveByEnrollment enrollmentId s =
     find (\<lambda>a. at_enrollmentId a = enrollmentId \<and> (at_status a = InProgress \<or> at_status a = Disrupted))
       (st_attempts s)"

text \<open>The new row carries the drawn identifier; \<^verbatim>\<open>(enrollmentId, attemptNo)\<close> is unique.\<close>

definition create_attempt :: "id_supply \<Rightarrow> (ident \<Rightarrow> ExamAttempt) \<Rightarrow> ExamAttempt action" where
  "create_attempt uuid row = bindC (draw_id uuid) (\<lambda>i.
     bindC (getsC (\<lambda>s. list_ex (\<lambda>a. at_enrollmentId a = at_enrollmentId (row i) \<and>
                                    at_attemptNo a = at_attemptNo (row i)) (st_attempts s))) (\<lambda>dup.
     bindC (guardC (\<not> dup) unique_violation) (\<lambda>_.
     bindC (modifyC (\<lambda>s. s\<lparr>st_attempts := st_attempts s @ [row i]\<rparr>)) (\<lambda>_.
     returnC (row i)))))"

text \<open>The heartbeat write: only a row that is still in progress is touched.\<close>

definition refreshLastActivityIfInProgress :: "ident \<Rightarrow> time \<Rightarrow> ExamAttempt option action" where
  "refreshLastActivityIfInProgress attemptId now =
     bindC (getsC (find_attempt attemptId)) (\<lambda>row.
       case row of
         None \<Rightarrow> returnC None
       | Some a \<Rightarrow>
           (if at_status a = InProgress
            then update_attempt attemptId (\<lambda>a. a\<lparr>at_lastActivityAt := Some now\<rparr>)
            else returnC None))"

definition findAnswerReceipt :: "ident \<Rightarrow> ident \<Rightarrow> int \<Rightarrow> store \<Rightarrow> AnswerReceipt option" where
  "findAnswerReceipt attemptId questionId clientSeq s =
     find (\<lambda>r. rc_attemptId r = attemptId \<and> rc_questionId r = questionId \<and> rc_clientSeq r = clientSeq)
       (st_receipts s)"

definition appendAnswerReceipt :: "AnswerReceipt \<Rightarrow> unit action" where
  "appendAnswerReceipt r =
     bindC (getsC (findAnswerReceipt (rc_attemptId r) (rc_questionId r) (rc_clientSeq r))) (\<lambda>dup.
     bindC (guardC (dup = None) unique_violation) (\<lambda>_.
     modifyC (\<lambda>s. s\<lparr>st_receipts := st_receipts s @ [r]\<rparr>)))"

section \<open>Grading entries\<close>

definition entries_of :: "ident \<Rightarrow> store \<Rightarrow> AttemptGradingEntry list" where
  "entries_of attemptId s =
     sort_key ge_questionId (filter (\<lambda>e. ge_attemptId e = attemptId) (st_entries s))"

definition findByAttemptAndQuestion :: "ident \<Rightarrow> ident \<Rightarrow> store \<Rightarrow> AttemptGradingEntry option" where
  "findByAttemptAndQuestion attemptId questionId s =
     find (\<lambda>e. ge_attemptId e = attemptId \<and> ge_questionId e = questionId) (st_entries s)"

definition entry_keys :: "AttemptGradingEntry list \<Rightarrow> (ident \<times> ident) list" where
  "entry_keys = map (\<lambda>e. (ge_attemptId e, ge_questionId e))"

definition bulkCreate :: "AttemptGradingEntry list \<Rightarrow> unit action" where
  "bulkCreate rows =
     bindC (getsC (\<lambda>s. distinct (entry_keys rows) \<and>
       list_all (\<lambda>k. \<not> List.member (entry_keys (st_entries s)) k) (entry_keys rows))) (\<lambda>ok.
     bindC (guardC ok unique_violation) (\<lambda>_.
     modifyC (\<lambda>s. s\<lparr>st_entries := st_entries s @ rows\<rparr>)))"

definition manual_pending :: "ident \<Rightarrow> AttemptGradingEntry \<Rightarrow> bool" where
  "manual_pending attemptId e \<longleftrightarrow>
     ge_attemptId e = attemptId \<and> ge_gradingMode e = ManualMode \<and> ge_status e = EntryPendingManual"

definition completeManualEntry ::
  "ident \<Rightarrow> ident \<Rightarrow> jsnum \<Rightarrow> jsnum \<Rightarrow> string \<Rightarrow> ident \<Rightarrow> time \<Rightarrow> AttemptGradingEntry option action" where
  "completeManualEntry attemptId questionId earnedScore maxScore comment gradedBy gradedAt =
     (let target = (\<lambda>e. manual_pending attemptId e \<and> ge_questionId e = questionId);
          write = (\<lambda>e. e\<lparr>ge_status := CompletedManual, ge_earnedScore := Some earnedScore,
                         ge_correct := Some (earnedScore \<ge> maxScore), ge_comment := comment,
                         ge_gradedBy := Some gradedBy, ge_gradedAt := Some gradedAt\<rparr>)
      in bindC (getsC (\<lambda>s. map_option write (find target (st_entries s)))) (\<lambda>updated.
         bindC (modifyC (\<lambda>s. s\<lparr>st_entries :=
             map (\<lambda>e. if target e then write e else e) (st_entries s)\<rparr>)) (\<lambda>_.
         returnC updated)))"

definition countPendingManualForAttempt :: "ident \<Rightarrow> store \<Rightarrow> nat" where
  "countPendingManualForAttempt attemptId s = length (filter (manual_pending attemptId) (st_entries s))"

section \<open>Interruption episodes, events and time adjustments\<close>

definition create_episode :: "id_supply \<Rightarrow> ident \<Rightarrow> AttemptInterruption action" where
  "create_episode uuid attemptId = bindC (draw_id uuid) (\<lambda>i.
     bindC (modifyC (\<lambda>s. s\<lparr>st_episodes := st_episodes s @ [\<lparr>ai_id = i, ai_attemptId = attemptId\<rparr>]\<rparr>))
       (\<lambda>_. returnC \<lparr>ai_id = i, ai_attemptId = attemptId\<rparr>))"

text \<open>A column of type \<^verbatim>\<open>uuid\<close> compares its values whatever the case of their digits, and returns them in lower
  case. Identifiers that the server draws itself have that form already; it matters for the identifiers a
  caller supplies, which the code has tested against \<^verbatim>\<open>UUID_RE\<close> or which the query would reject.\<close>

definition hex_lower :: "char \<Rightarrow> char" where
  "hex_lower c = (case map_of (zip ''ABCDEF'' ''abcdef'') c of None \<Rightarrow> c | Some d \<Rightarrow> d)"

definition pg_uuid :: "ident \<Rightarrow> ident" where
  "pg_uuid = map hex_lower"

lemma hex_lower_idem [simp]: "hex_lower (hex_lower c) = hex_lower c"
  by (auto simp: hex_lower_def split: option.splits if_splits)

lemma pg_uuid_idem [simp]: "pg_uuid (pg_uuid k) = pg_uuid k"
  by (simp add: pg_uuid_def)

definition find_episode :: "ident \<Rightarrow> ident \<Rightarrow> store \<Rightarrow> AttemptInterruption option" where
  "find_episode attemptId interruptionId s =
     find (\<lambda>e. ai_attemptId e = attemptId \<and> pg_uuid (ai_id e) = pg_uuid interruptionId) (st_episodes s)"

definition find_latest_episode :: "ident \<Rightarrow> store \<Rightarrow> AttemptInterruption option" where
  "find_latest_episode attemptId s =
     find (\<lambda>e. ai_attemptId e = attemptId) (rev (st_episodes s))"

definition is_outcome :: "AttemptInterruptionEvent \<Rightarrow> bool" where
  "is_outcome e \<longleftrightarrow> ie_eventType e = Restored \<or> ie_eventType e = Terminalized"

definition findDetected :: "ident \<Rightarrow> store \<Rightarrow> AttemptInterruptionEvent option" where
  "findDetected interruptionId s =
     find (\<lambda>e. ie_interruptionId e = interruptionId \<and> ie_eventType e = Detected) (st_events s)"

definition findOutcome :: "ident \<Rightarrow> store \<Rightarrow> AttemptInterruptionEvent option" where
  "findOutcome interruptionId s =
     find (\<lambda>e. ie_interruptionId e = interruptionId \<and> is_outcome e) (st_events s)"

text \<open>Of the outcomes of an attempt the latest by \<^verbatim>\<open>occurredAt\<close>, then by insertion.\<close>

fun latest_event :: "AttemptInterruptionEvent option \<Rightarrow> AttemptInterruptionEvent list \<Rightarrow>
    AttemptInterruptionEvent option" where
  "latest_event best [] = best"
| "latest_event best (e # es) =
     latest_event
       (case best of
          None \<Rightarrow> Some e
        | Some b \<Rightarrow> if ie_occurredAt e \<ge> ie_occurredAt b then Some e else Some b) es"

definition findLatestOutcomeByAttempt :: "ident \<Rightarrow> store \<Rightarrow> AttemptInterruptionEvent option" where
  "findLatestOutcomeByAttempt attemptId s =
     latest_event None (filter (\<lambda>e. ie_attemptId e = attemptId \<and> is_outcome e) (st_events s))"

text \<open>One detected event and one outcome per episode are unique indexes of the events table.\<close>

definition insert_event ::
  "id_supply \<Rightarrow> (ident \<Rightarrow> AttemptInterruptionEvent) \<Rightarrow> AttemptInterruptionEvent action" where
  "insert_event uuid row = bindC (draw_id uuid) (\<lambda>i.
     bindC (getsC (\<lambda>s.
       if ie_eventType (row i) = Detected then findDetected (ie_interruptionId (row i)) s
       else findOutcome (ie_interruptionId (row i)) s)) (\<lambda>dup.
     bindC (guardC (dup = None) unique_violation) (\<lambda>_.
     bindC (modifyC (\<lambda>s. s\<lparr>st_events := st_events s @ [row i]\<rparr>)) (\<lambda>_.
     returnC (row i)))))"

definition find_adjustment :: "ident \<Rightarrow> store \<Rightarrow> AttemptTimeAdjustment option" where
  "find_adjustment adjustmentId s = tbl_find ta_id adjustmentId (st_adjustments s)"

definition findByOperationId :: "ident \<Rightarrow> store \<Rightarrow> AttemptTimeAdjustment option" where
  "findByOperationId operationId s =
     find (\<lambda>a. ta_operationId a = Some (pg_uuid operationId)) (st_adjustments s)"

definition findBoundedByInterruption :: "ident \<Rightarrow> store \<Rightarrow> AttemptTimeAdjustment option" where
  "findBoundedByInterruption interruptionId s =
     find (\<lambda>a. ta_interruptionId a = Some (pg_uuid interruptionId) \<and> ta_source a = SrcBoundedGrace)
       (st_adjustments s)"

definition sumBoundedGraceSeconds :: "ident \<Rightarrow> store \<Rightarrow> int" where
  "sumBoundedGraceSeconds attemptId s =
     sum_list (map ta_addedSeconds
       (filter (\<lambda>a. ta_attemptId a = attemptId \<and> ta_source a = SrcBoundedGrace) (st_adjustments s)))"

text \<open>An adjustment without an operation identity is given a drawn one; both the operation identity
  and the bounded grant of an episode are unique. The row is answered as the database returns it.\<close>

definition uuid_columns :: "AttemptTimeAdjustment \<Rightarrow> AttemptTimeAdjustment" where
  "uuid_columns row = row\<lparr>ta_operationId := map_option pg_uuid (ta_operationId row),
     ta_interruptionId := map_option pg_uuid (ta_interruptionId row),
     ta_incidentId := map_option pg_uuid (ta_incidentId row)\<rparr>"

lemma uuid_columns_simps [simp]:
  "ta_operationId (uuid_columns row) = map_option pg_uuid (ta_operationId row)"
  "ta_interruptionId (uuid_columns row) = map_option pg_uuid (ta_interruptionId row)"
  "ta_incidentId (uuid_columns row) = map_option pg_uuid (ta_incidentId row)"
  "ta_id (uuid_columns row) = ta_id row" "ta_attemptId (uuid_columns row) = ta_attemptId row"
  "ta_policy (uuid_columns row) = ta_policy row" "ta_source (uuid_columns row) = ta_source row"
  "ta_beforeDeadline (uuid_columns row) = ta_beforeDeadline row"
  "ta_afterDeadline (uuid_columns row) = ta_afterDeadline row"
  "ta_addedSeconds (uuid_columns row) = ta_addedSeconds row"
  "ta_eligibleSeconds (uuid_columns row) = ta_eligibleSeconds row"
  "ta_reasonCode (uuid_columns row) = ta_reasonCode row" "ta_reasonText (uuid_columns row) = ta_reasonText row"
  "ta_actorId (uuid_columns row) = ta_actorId row"
  by (simp_all add: uuid_columns_def)

definition insert_adjustment ::
  "id_supply \<Rightarrow> (ident \<Rightarrow> AttemptTimeAdjustment) \<Rightarrow> AttemptTimeAdjustment action" where
  "insert_adjustment uuid row0 = bindC (draw_id uuid) (\<lambda>i.
     bindC (case ta_operationId (row0 i) of None \<Rightarrow> draw_id uuid | Some k \<Rightarrow> returnC k) (\<lambda>op.
     let row = uuid_columns ((row0 i)\<lparr>ta_operationId := Some op\<rparr>) in
     bindC (getsC (\<lambda>s. findByOperationId op s \<noteq> None \<or>
       (ta_source row = SrcBoundedGrace \<and>
        (case ta_interruptionId row of None \<Rightarrow> False
         | Some k \<Rightarrow> findBoundedByInterruption k s \<noteq> None)))) (\<lambda>dup.
     bindC (guardC (\<not> dup) unique_violation) (\<lambda>_.
     bindC (modifyC (\<lambda>s. s\<lparr>st_adjustments := st_adjustments s @ [row]\<rparr>)) (\<lambda>_.
     returnC row)))))"

section \<open>The lock seam\<close>

text \<open>The repository objects a command runs with, by reference: the enrollment and the attempt
  repository of one transaction. The capability remembers the pair it was minted with.\<close>

record repos =
  ro_enrollmentRepo :: nat
  ro_attemptRepo :: nat

record LockedEnrollmentAttemptIdentity =
  lk_enrollmentId :: ident
  lk_attemptId :: ident
  lk_affinity :: repos

definition lockEnrollmentAndAttempt ::
  "repos \<Rightarrow> ident \<Rightarrow> LockedEnrollmentAttemptIdentity action" where
  "lockEnrollmentAndAttempt repos attemptId =
     bindC (someC (find_attempt attemptId) (NotFoundError ''Attempt not found'')) (\<lambda>locator.
     bindC (someC (findByExamAndCandidate (at_examId locator) (at_candidateId locator))
       (NotFoundError ''Enrollment not found'')) (\<lambda>enrollment.
     bindC (guardC (en_id enrollment = at_enrollmentId locator) (ValidationError
       ''Enrollment mismatch - attempt identity does not resolve to a consistent enrollment'')) (\<lambda>_.
     bindC (someC (find_attempt attemptId) (NotFoundError ''Attempt not found'')) (\<lambda>attempt.
     bindC (guardC (at_enrollmentId attempt = en_id enrollment) (ValidationError
       ''Attempt enrollment mismatch - data integrity violation'')) (\<lambda>_.
     returnC \<lparr>lk_enrollmentId = en_id enrollment, lk_attemptId = at_id attempt,
              lk_affinity = repos\<rparr>)))))"

definition assertCapabilityFor :: "LockedEnrollmentAttemptIdentity \<Rightarrow> repos \<Rightarrow> app_error + unit" where
  "assertCapabilityFor capability current =
     guardR
       (\<not> (ro_enrollmentRepo (lk_affinity capability) \<noteq> ro_enrollmentRepo current \<or>
           ro_attemptRepo (lk_affinity capability) \<noteq> ro_attemptRepo current))
       (EngineError ''EA capability transaction-affinity violation'')"

record EnrollmentActiveAttemptLock =
  el_enrollment :: ExamEnrollment
  el_activeAttempt :: "ExamAttempt option"
  el_capability :: "LockedEnrollmentAttemptIdentity option"

definition lockEnrollmentAndActiveAttempt ::
  "repos \<Rightarrow> ident \<Rightarrow> ident \<Rightarrow> EnrollmentActiveAttemptLock action" where
  "lockEnrollmentAndActiveAttempt repos examId candidateId =
     bindC (someC (findByExamAndCandidate examId candidateId)
       (NotFoundError ''Enrollment not found'')) (\<lambda>enrollment.
     bindC (getsC (findActiveByEnrollment (en_id enrollment))) (\<lambda>activeAttempt.
     case activeAttempt of
       Some active \<Rightarrow>
         bindC (someC (find_attempt (at_id active))
           (NotFoundError ''Active attempt not found under lock'')) (\<lambda>locked.
         bindC (guardC (at_enrollmentId locked = en_id enrollment) (ValidationError
           ''Active attempt enrollment mismatch - data integrity violation'')) (\<lambda>_.
         returnC \<lparr>el_enrollment = enrollment, el_activeAttempt = Some locked,
                  el_capability = Some \<lparr>lk_enrollmentId = en_id enrollment,
                    lk_attemptId = at_id locked, lk_affinity = repos\<rparr>\<rparr>))
     | None \<Rightarrow> returnC \<lparr>el_enrollment = enrollment, el_activeAttempt = None, el_capability = None\<rparr>))"

section \<open>Lemmas\<close>

lemmas store_defs = find_exam_def upd_exam_def find_enrollment_def upd_enrollment_def
  find_attempt_def upd_attempt_def

lemmas table_laws [store_simps] = exams.find_update enrollments.find_update attempts.find_update

text \<open>Reading one table after writing another.\<close>

lemma other_table [store_simps]:
  "find_exam k (upd_attempt i f s) = find_exam k s"
  "find_exam k (upd_enrollment i g s) = find_exam k s"
  "find_enrollment k (upd_attempt i f s) = find_enrollment k s"
  "find_enrollment k (upd_exam i h s) = find_enrollment k s"
  "find_attempt k (upd_enrollment i g s) = find_attempt k s"
  "find_attempt k (upd_exam i h s) = find_attempt k s"
  by (simp_all add: store_defs)

lemma upd_attempt_select [simp]:
  "st_exams (upd_attempt k f s) = st_exams s"
  "st_enrollments (upd_attempt k f s) = st_enrollments s"
  "st_receipts (upd_attempt k f s) = st_receipts s"
  "st_entries (upd_attempt k f s) = st_entries s"
  "st_episodes (upd_attempt k f s) = st_episodes s"
  "st_events (upd_attempt k f s) = st_events s"
  "st_adjustments (upd_attempt k f s) = st_adjustments s"
  "st_admissions (upd_attempt k f s) = st_admissions s"
  "st_drawn (upd_attempt k f s) = st_drawn s"
  by (simp_all add: upd_attempt_def)

lemma upd_enrollment_select [simp]:
  "st_exams (upd_enrollment k f s) = st_exams s"
  "st_attempts (upd_enrollment k f s) = st_attempts s"
  "st_receipts (upd_enrollment k f s) = st_receipts s"
  "st_entries (upd_enrollment k f s) = st_entries s"
  "st_episodes (upd_enrollment k f s) = st_episodes s"
  "st_events (upd_enrollment k f s) = st_events s"
  "st_adjustments (upd_enrollment k f s) = st_adjustments s"
  "st_admissions (upd_enrollment k f s) = st_admissions s"
  "st_drawn (upd_enrollment k f s) = st_drawn s"
  by (simp_all add: upd_enrollment_def)

lemma find_attempt_frame [store_simps]:
  "find_attempt k (s\<lparr>st_receipts := x1\<rparr>) = find_attempt k s"
  "find_attempt k (s\<lparr>st_entries := x2\<rparr>) = find_attempt k s"
  "find_attempt k (s\<lparr>st_episodes := x3\<rparr>) = find_attempt k s"
  "find_attempt k (s\<lparr>st_events := x4\<rparr>) = find_attempt k s"
  "find_attempt k (s\<lparr>st_adjustments := x5\<rparr>) = find_attempt k s"
  "find_attempt k (s\<lparr>st_admissions := x7\<rparr>) = find_attempt k s"
  "find_attempt k (s\<lparr>st_drawn := x6\<rparr>) = find_attempt k s"
  by (simp_all add: find_attempt_def)

lemma find_exam_frame [store_simps]:
  "find_exam k (s\<lparr>st_receipts := x1\<rparr>) = find_exam k s"
  "find_exam k (s\<lparr>st_entries := x2\<rparr>) = find_exam k s"
  "find_exam k (s\<lparr>st_episodes := x3\<rparr>) = find_exam k s"
  "find_exam k (s\<lparr>st_events := x4\<rparr>) = find_exam k s"
  "find_exam k (s\<lparr>st_adjustments := x5\<rparr>) = find_exam k s"
  "find_exam k (s\<lparr>st_admissions := x7\<rparr>) = find_exam k s"
  "find_exam k (s\<lparr>st_drawn := x6\<rparr>) = find_exam k s"
  by (simp_all add: find_exam_def)

lemma find_attempt_id: "find_attempt k s = Some a \<Longrightarrow> at_id a = k"
  by (rule attempts.find_key)

lemma findByExamAndCandidate_D:
  "findByExamAndCandidate x c s = Some e \<Longrightarrow>
     en_examId e = x \<and> en_candidateId e = c \<and> e \<in> set (st_enrollments s)"
  by (auto simp: findByExamAndCandidate_def find_Some_iff)

lemma findByExamAndCandidate_frame:
  "st_enrollments s' = st_enrollments s \<Longrightarrow>
     findByExamAndCandidate x c s' = findByExamAndCandidate x c s"
  by (simp add: findByExamAndCandidate_def)

lemma findByExamAndCandidate_other [store_simps]:
  "findByExamAndCandidate x c (upd_attempt k f s) = findByExamAndCandidate x c s"
  "findByExamAndCandidate x c (s\<lparr>st_entries := es\<rparr>) = findByExamAndCandidate x c s"
  "findByExamAndCandidate x c (s\<lparr>st_events := vs\<rparr>) = findByExamAndCandidate x c s"
  "findByExamAndCandidate x c (s\<lparr>st_admissions := ds\<rparr>) = findByExamAndCandidate x c s"
  "findByExamAndCandidate x c (s\<lparr>st_drawn := n\<rparr>) = findByExamAndCandidate x c s"
  by (rule findByExamAndCandidate_frame, simp)+

text \<open>When the repository commands succeed and what they leave behind.\<close>

lemma update_exam_iff [cmd_iff]:
  "(\<And>r. ex_id (f r) = ex_id r) \<Longrightarrow> update_exam k f s = Inr (r, s') \<longleftrightarrow>
     s' = upd_exam k f s \<and> r = map_option f (find_exam k s)"
  unfolding update_exam_def by (rule exams.updateC_Inr_iff)

lemma update_enrollment_iff [cmd_iff]:
  "(\<And>r. en_id (f r) = en_id r) \<Longrightarrow> update_enrollment k f s = Inr (r, s') \<longleftrightarrow>
     s' = upd_enrollment k f s \<and> r = map_option f (find_enrollment k s)"
  unfolding update_enrollment_def by (rule enrollments.updateC_Inr_iff)

lemma update_attempt_iff [cmd_iff]:
  "(\<And>r. at_id (f r) = at_id r) \<Longrightarrow> update_attempt k f s = Inr (r, s') \<longleftrightarrow>
     s' = upd_attempt k f s \<and> r = map_option f (find_attempt k s)"
  unfolding update_attempt_def by (rule attempts.updateC_Inr_iff)

lemma update_no_error [cmd_iff]:
  "update_exam k f s = Inl e \<longleftrightarrow> False"
  "update_enrollment k g s = Inl e \<longleftrightarrow> False"
  "update_attempt k h s = Inl e \<longleftrightarrow> False"
  by (simp_all add: update_exam_def update_enrollment_def update_attempt_def cmd_iff)

lemma update_run [cmd_run]:
  "(\<And>r. ex_id (f r) = ex_id r) \<Longrightarrow>
     bindC (update_exam k f) m s = m (map_option f (find_exam k s)) (upd_exam k f s)"
  "(\<And>r. en_id (g r) = en_id r) \<Longrightarrow>
     bindC (update_enrollment k g) m' s = m' (map_option g (find_enrollment k s)) (upd_enrollment k g s)"
  "(\<And>r. at_id (h r) = at_id r) \<Longrightarrow>
     bindC (update_attempt k h) m'' s = m'' (map_option h (find_attempt k s)) (upd_attempt k h s)"
  by (simp_all add: bindC_def update_exam_def update_enrollment_def update_attempt_def updateC_def
      modifyC_def getsC_def store_simps)

lemma draw_run [cmd_run]:
  "bindC (draw_id uuid) m s = m (uuid (st_drawn s)) (s\<lparr>st_drawn := Suc (st_drawn s)\<rparr>)"
  by (simp add: draw_id_def bindC_def getsC_def modifyC_def returnC_def)

lemma draw_id_iff [cmd_iff]:
  "draw_id uuid s = Inr (i, s') \<longleftrightarrow>
     i = uuid (st_drawn s) \<and> s' = s\<lparr>st_drawn := Suc (st_drawn s)\<rparr>"
  "draw_id uuid s = Inl e \<longleftrightarrow> False"
  by (auto simp: draw_id_def cmd_iff)

lemma appendAnswerReceipt_iff [cmd_iff]:
  "appendAnswerReceipt r s = Inr (u, s') \<longleftrightarrow>
     findAnswerReceipt (rc_attemptId r) (rc_questionId r) (rc_clientSeq r) s = None \<and>
     s' = s\<lparr>st_receipts := st_receipts s @ [r]\<rparr>"
  by (auto simp: appendAnswerReceipt_def cmd_iff)

lemma bulkCreate_iff [cmd_iff]:
  "bulkCreate rows s = Inr (u, s') \<longleftrightarrow>
     distinct (entry_keys (rows)) \<and> set (entry_keys rows) \<inter> set (entry_keys (st_entries s)) = {} \<and>
     s' = s\<lparr>st_entries := st_entries s @ rows\<rparr>"
  by (auto simp: bulkCreate_def cmd_iff list_all_iff)

lemma create_episode_iff [cmd_iff]:
  "create_episode uuid k s = Inr (e, s') \<longleftrightarrow>
     e = \<lparr>ai_id = uuid (st_drawn s), ai_attemptId = k\<rparr> \<and>
     s' = s\<lparr>st_drawn := Suc (st_drawn s), st_episodes := st_episodes s @ [e]\<rparr>"
  "create_episode uuid k s = Inl err \<longleftrightarrow> False"
  by (auto simp: create_episode_def cmd_iff)

lemma insert_event_iff [cmd_iff]:
  "insert_event uuid row s = Inr (e, s') \<longleftrightarrow>
     e = row (uuid (st_drawn s)) \<and>
     (if ie_eventType e = Detected then findDetected (ie_interruptionId e) s = None
      else findOutcome (ie_interruptionId e) s = None) \<and>
     s' = s\<lparr>st_drawn := Suc (st_drawn s), st_events := st_events s @ [e]\<rparr>"
  by (auto simp: insert_event_def cmd_iff findDetected_def findOutcome_def)

lemma lockEnrollmentAndAttempt_iff [cmd_iff]:
  "lockEnrollmentAndAttempt rs k s = Inr (c, s') \<longleftrightarrow>
     s' = s \<and> (\<exists>a e. find_attempt k s = Some a \<and>
       findByExamAndCandidate (at_examId a) (at_candidateId a) s = Some e \<and>
       at_enrollmentId a = en_id e \<and>
       c = \<lparr>lk_enrollmentId = en_id e, lk_attemptId = k, lk_affinity = rs\<rparr>)"
  by (auto simp: lockEnrollmentAndAttempt_def cmd_iff dest: find_attempt_id)

lemma assertCapabilityFor_iff [simp]:
  "assertCapabilityFor c rs = Inr u \<longleftrightarrow> lk_affinity c = rs"
  by (auto simp: assertCapabilityFor_def)

end
