(* ===== verification/Samples.thy ===== *)
theory Samples
  imports Repositories
begin

text \<open>
  A small concrete installation on which the properties are instantiated: one open exam with one
  multiple-choice and one text question, one enrolled candidate and one attempt in progress.
\<close>

definition sample_flags :: ControlFlags where
  "sample_flags = \<lparr>cf_shuffleQuestions = False, cf_shuffleOptions = False, cf_detectTabSwitch = False,
     cf_disableCopyPaste = False, cf_requireQueue = False, cf_batchSize = 0, cf_batchInterval = 0,
     cf_restrictIp = False, cf_requireLockdown = False, cf_showResultImmediately = False\<rparr>"

definition sample_question :: "ident \<Rightarrow> QuestionType \<Rightarrow> json option \<Rightarrow> int \<Rightarrow> QuestionSnapshot" where
  "sample_question k ty std n = \<lparr>qs_originalQuestionId = k, qs_type = ty, qs_content = k,
     qs_contentDocument = None, qs_answerMode = None, qs_attachments = [], qs_options = [],
     qs_standardAnswer = std, qs_score = 5,
     qs_gradingRule = \<lparr>gr_multiSelectScoring = PartialHalf, gr_fillBlankMatchMode = Exact,
       gr_fillBlankCaseSensitive = None\<rparr>, qs_order = n, qs_rubric = Some ''r''\<rparr>"

definition sample_questions :: "QuestionSnapshot list" where
  "sample_questions =
     [sample_question ''q1'' TrueFalse (Some (JBool True)) 0,
      sample_question ''q2'' TextResponse None 1]"

definition sample_exam :: Exam where
  "sample_exam = \<lparr>ex_id = ''e1'', ex_organizationId = ''o1'', ex_courseId = ''c1'', ex_status = Open,
     ex_timingMode = TimedWindow, ex_durationMinutes = Some 60, ex_openAt = 0,
     ex_closeAt = Some 7200000, ex_passingScore = 6, ex_totalScore = 10,
     ex_questionSelectionMode = ManualSelection, ex_questionIds = [''q1'', ''q2''],
     ex_questionSnapshot = sample_questions, ex_controlFlags = sample_flags,
     ex_retakePolicy = MaxAttempts, ex_scoreStrategy = Highest, ex_maxAttempts = 2,
     ex_latestStartOffsetMinutes = None, ex_minSubmitAfterStartMinutes = None,
     ex_resultPublicationMode = Manual, ex_resultsPublishedAt = None, ex_syncStartedAt = None,
     ex_interruptionTimePolicy = Some BoundedGrace,
     ex_interruptionGracePerIncidentSeconds = Some 300,
     ex_interruptionGracePerAttemptSeconds = Some 600\<rparr>"

definition sample_enrollment :: ExamEnrollment where
  "sample_enrollment = \<lparr>en_id = ''n1'', en_examId = ''e1'', en_candidateId = ''u1'',
     en_status = Started, en_attemptCount = 1, en_finalScore = None, en_finalPassed = None,
     en_finalAttemptId = None\<rparr>"

definition sample_attempt :: ExamAttempt where
  "sample_attempt = \<lparr>at_id = ''a1'', at_organizationId = ''o1'', at_examId = ''e1'',
     at_enrollmentId = ''n1'', at_candidateId = ''u1'', at_attemptNo = 1, at_status = InProgress,
     at_questionSnapshot = sample_questions, at_answers = [], at_gradingResult = None,
     at_score = None, at_passed = None, at_startedAt = Some 1000, at_submittedAt = None,
     at_gradedAt = None, at_deadlineAt = Some 3601000, at_lastActivityAt = Some 1000,
     at_interruptionTimingPolicySnapshot = Some \<lparr>tp_policy = BoundedGrace,
       tp_perIncidentCapSeconds = Some 300, tp_perAttemptAggregateCapSeconds = Some 600\<rparr>,
     at_currentInterruptionId = None, at_interruptedAt = None, at_gradingStatus = None,
     at_submittedAnswers = None, at_submissionReason = None\<rparr>"

definition sample_store :: store where
  "sample_store = \<lparr>st_exams = [sample_exam], st_enrollments = [sample_enrollment],
     st_attempts = [sample_attempt], st_receipts = [], st_entries = [], st_episodes = [],
     st_events = [], st_adjustments = [], st_admissions = [], st_drawn = 0\<rparr>"

definition sample_uuid :: id_supply where
  "sample_uuid n = CHR ''i'' # replicate n (CHR ''x'')"

lemma run_result: "\<not> isl x \<Longrightarrow> x = Inr (fst (projr x), snd (projr x))"
  by (cases x) simp_all

lemmas sample_defs = sample_store_def sample_attempt_def sample_enrollment_def sample_exam_def
  sample_questions_def sample_question_def sample_flags_def

end
