(* ===== verification/Answer_Identity.thy ===== *)
theory Answer_Identity
  imports Domain
begin

text \<open>
  The canonical answer identity of \<^verbatim>\<open>answerProtocol.ts\<close>: the deterministic serialization of an
  answer value and its digest. \<^verbatim>\<open>String(n)\<close> of a number (\<open>num\<close>) and SHA-256 (\<open>sha256\<close>) are
  parameters; \<open>num_ok\<close> states what the language promises of the former. The main result is that
  the serialization identifies exactly the values that are equal up to the order of object keys.
\<close>

section \<open>Strings as JSON\<close>

definition hex_digit :: "nat \<Rightarrow> char" where
  "hex_digit k = (if k < 10 then char_of (48 + k) else char_of (87 + k))"

text \<open>\<^verbatim>\<open>JSON.stringify\<close> of one code unit within a string.\<close>

definition json_escape :: "char \<Rightarrow> string" where
  "json_escape c =
     (if c = CHR 0x22 then [CHR 0x5C, CHR 0x22]
      else if c = CHR 0x5C then [CHR 0x5C, CHR 0x5C]
      else if c = CHR 0x08 then [CHR 0x5C, CHR ''b'']
      else if c = CHR 0x0C then [CHR 0x5C, CHR ''f'']
      else if c = CHR 0x0A then [CHR 0x5C, CHR ''n'']
      else if c = CHR 0x0D then [CHR 0x5C, CHR ''r'']
      else if c = CHR 0x09 then [CHR 0x5C, CHR ''t'']
      else if of_char c < (32::nat)
      then [CHR 0x5C, CHR ''u'', CHR ''0'', CHR ''0'',
            hex_digit (of_char c div 16), hex_digit (of_char c mod 16)]
      else [c])"

definition json_quote :: "string \<Rightarrow> string" where
  "json_quote s = CHR 0x22 # concat (map json_escape s) @ [CHR 0x22]"

fun js_join :: "string list \<Rightarrow> string" where
  "js_join [] = ''''"
| "js_join [x] = x"
| "js_join (x # xs) = x @ '','' @ js_join xs"

section \<open>Serialization\<close>

lemma json_obj_size [termination_simp]:
  "(k, v) \<in> set es \<Longrightarrow> size v < Suc (size_list (size_prod (\<lambda>_. 0) size) es)"
  by (simp add: less_Suc_eq_le size_list_estimation' [where x = "(k, v)"])

fun serializeAnswerIdentityValue :: "(jsnum \<Rightarrow> string) \<Rightarrow> json \<Rightarrow> string" where
  "serializeAnswerIdentityValue num JNull = ''null''"
| "serializeAnswerIdentityValue num (JBool b) = (if b then ''true'' else ''false'')"
| "serializeAnswerIdentityValue num (JStr s) = json_quote s"
| "serializeAnswerIdentityValue num (JNum n) = num n"
| "serializeAnswerIdentityValue num (JArr vs) =
     CHR 0x5B # js_join (map (serializeAnswerIdentityValue num) vs) @ [CHR 0x5D]"
| "serializeAnswerIdentityValue num (JObj es) =
     CHR 0x7B # js_join (map (\<lambda>(key, v).
         json_quote key @ CHR 0x3A # serializeAnswerIdentityValue num v) (sort_key fst es)) @ [CHR 0x7D]"

definition canonicalAnswerIdentity ::
  "(jsnum \<Rightarrow> string) \<Rightarrow> (string \<Rightarrow> string) \<Rightarrow> json option \<Rightarrow> app_error + string" where
  "canonicalAnswerIdentity num sha256 value =
     (case value of
        None \<Rightarrow> Inl (EngineError
          ''answer identity serialization requires JSON-serializable values, got undefined'')
      | Some v \<Rightarrow> Inr (sha256 (serializeAnswerIdentityValue num v)))"

section \<open>Payload equality\<close>

text \<open>\<^verbatim>\<open>sortKeys\<close> and \<^verbatim>\<open>payloadsEqual\<close> of \<^verbatim>\<open>incidentCommands.ts\<close>: the entries of every object in key
  order, and equality of the printed values. A null payload is \<open>None\<close>.\<close>

fun sortKeys :: "json \<Rightarrow> json" where
  "sortKeys (JArr vs) = JArr (map sortKeys vs)"
| "sortKeys (JObj es) = JObj (map (\<lambda>(k, v). (k, sortKeys v)) (sort_key fst es))"
| "sortKeys v = v"

fun json_stringify :: "(jsnum \<Rightarrow> string) \<Rightarrow> json \<Rightarrow> string" where
  "json_stringify num JNull = ''null''"
| "json_stringify num (JBool b) = (if b then ''true'' else ''false'')"
| "json_stringify num (JStr s) = json_quote s"
| "json_stringify num (JNum n) = num n"
| "json_stringify num (JArr vs) = CHR 0x5B # js_join (map (json_stringify num) vs) @ [CHR 0x5D]"
| "json_stringify num (JObj es) =
     CHR 0x7B # js_join (map (\<lambda>(key, v). json_quote key @ CHR 0x3A # json_stringify num v) es) @
     [CHR 0x7D]"

definition payloadsEqual :: "(jsnum \<Rightarrow> string) \<Rightarrow> json option \<Rightarrow> json option \<Rightarrow> bool" where
  "payloadsEqual num a b \<longleftrightarrow>
     json_stringify num (sortKeys (case a of None \<Rightarrow> JNull | Some v \<Rightarrow> v)) =
     json_stringify num (sortKeys (case b of None \<Rightarrow> JNull | Some v \<Rightarrow> v))"

section \<open>What the identity identifies\<close>

text \<open>What ECMAScript promises of \<^verbatim>\<open>String(n)\<close> on finite numbers: distinct numbers print
  differently, and a printed number is a non-empty string of digits, signs, point and exponent.\<close>

definition number_chars :: "char set" where
  "number_chars = set ''0123456789+-.e''"

definition num_ok :: "(jsnum \<Rightarrow> string) \<Rightarrow> bool" where
  "num_ok num \<longleftrightarrow> inj num \<and> (\<forall>n. num n \<noteq> [] \<and> set (num n) \<subseteq> number_chars)"

subsection \<open>Strings are self-delimiting\<close>

lemma hex_digit_inj: "a < 16 \<Longrightarrow> b < 16 \<Longrightarrow> hex_digit a = hex_digit b \<Longrightarrow> a = b"
  by (auto simp: hex_digit_def char_of_eq_iff take_bit_eq_mod split: if_splits)

lemma of_char_hex_inj:
  assumes "hex_digit (of_char c div 16) = hex_digit (of_char d div 16)"
    and "hex_digit (of_char c mod 16) = hex_digit (of_char d mod 16)"
  shows "c = d"
proof -
  have "of_char c < (256::nat)" "of_char d < (256::nat)" by simp_all
  then have "of_char c div 16 < (16::nat)" "of_char d div 16 < (16::nat)" by linarith+
  from hex_digit_inj [OF this assms(1)] hex_digit_inj [OF _ _ assms(2)]
  have "of_char c = (of_char d :: nat)"
    by (metis div_mult_mod_eq mod_less_divisor zero_less_numeral)
  then show ?thesis by simp
qed

lemma json_escape_prefix: "json_escape c @ x = json_escape d @ y \<Longrightarrow> c = d \<and> x = y"
  unfolding json_escape_def
  by (simp split: if_split_asm) (metis of_char_hex_inj)

lemma json_escape_start: "json_escape c = z # zs \<Longrightarrow> z \<noteq> CHR 0x22"
  by (auto simp: json_escape_def split: if_splits)

lemma json_escape_nonempty [simp]: "json_escape c \<noteq> []"
  by (simp add: json_escape_def)

lemma json_escape_not_quote: "json_escape c @ x = CHR 0x22 # y \<longleftrightarrow> False"
  using json_escape_start by (cases "json_escape c") auto

lemma json_body_prefix:
  "concat (map json_escape s) @ CHR 0x22 # x = concat (map json_escape t) @ CHR 0x22 # y \<Longrightarrow>
     s = t \<and> x = y"
proof (induction s arbitrary: t)
  case Nil
  then show ?case
    by (cases t) (auto simp: json_escape_not_quote [THEN iffD1] dest: sym [THEN json_escape_not_quote [THEN iffD1]])
next
  case (Cons c s)
  then obtain d t' where "t = d # t'"
    by (cases t) (auto simp: json_escape_not_quote)
  with Cons show ?case
    by (auto dest: json_escape_prefix)
qed

lemma json_quote_prefix: "json_quote s @ x = json_quote t @ y \<Longrightarrow> s = t \<and> x = y"
  using json_body_prefix [of s x t y] by (simp add: json_quote_def)

subsection \<open>Values are self-delimiting\<close>

text \<open>What may follow a value inside a larger text: nothing, a comma or a closing bracket.\<close>

definition stop_chars :: "char set" where
  "stop_chars = {CHR 0x2C, CHR 0x5D, CHR 0x7D}"

definition stops :: "string \<Rightarrow> bool" where
  "stops x \<longleftrightarrow> (case x of [] \<Rightarrow> True | c # _ \<Rightarrow> c \<in> stop_chars)"

lemma stops_simps [simp]: "stops []" "stops (c # x) \<longleftrightarrow> c \<in> stop_chars"
  by (simp_all add: stops_def)

lemma stop_not_number: "c \<in> stop_chars \<Longrightarrow> c \<notin> number_chars"
  by (auto simp: stop_chars_def number_chars_def)

lemma number_prefix:
  assumes "set m \<subseteq> number_chars" "set n \<subseteq> number_chars" "stops x" "stops y" "m @ x = n @ y"
  shows "m = n \<and> x = y"
proof -
  have tw: "takeWhile (\<lambda>c. c \<in> number_chars) (u @ z) = u" if "set u \<subseteq> number_chars" "stops z" for u z
    using that stop_not_number by (subst takeWhile_append2) (auto simp: stops_def split: list.splits)
  show ?thesis
    using tw [OF assms(1,3)] tw [OF assms(2,4)] assms(5) by auto
qed

lemma js_join_Cons: "js_join (x # xs) = (if xs = [] then x else x @ CHR 0x2C # js_join xs)"
  by (cases xs) simp_all

lemma join_prefix:
  assumes elem: "\<And>v w p q. v \<in> set vs \<Longrightarrow> stops p \<Longrightarrow> stops q \<Longrightarrow> f v @ p = f w @ q \<Longrightarrow> g v = g w \<and> p = q"
    and start: "\<And>v. f v \<noteq> [] \<and> hd (f v) \<notin> stop_chars"
    and close: "c \<in> stop_chars" "c \<noteq> CHR 0x2C"
    and eq: "js_join (map f vs) @ c # x = js_join (map f ws) @ c # y"
  shows "map g vs = map g ws \<and> x = y"
  using elem eq
proof (induction vs arbitrary: ws)
  case Nil
  show ?case
  proof (cases ws)
    case (Cons w ws')
    then show ?thesis using Nil start [of w] close(1) by (cases "f w") (auto simp: js_join_Cons split: if_splits)
  qed (use Nil in simp)
next
  case (Cons v vs)
  obtain w ws' where ws: "ws = w # ws'"
    using Cons.prems(2) start [of v] close(1) by (cases ws; cases "f v") (auto simp: js_join_Cons split: if_splits)
  define p where "p = (if vs = [] then c # x else CHR 0x2C # js_join (map f vs) @ c # x)"
  define q where "q = (if ws' = [] then c # y else CHR 0x2C # js_join (map f ws') @ c # y)"
  have "f v @ p = f w @ q"
    using Cons.prems(2) by (simp add: ws p_def q_def js_join_Cons split: if_splits)
  moreover have "stops p" "stops q"
    using close by (simp_all add: p_def q_def stop_chars_def)
  ultimately have head: "g v = g w" and pq: "p = q"
    using Cons.prems(1) [of v p q w] by simp_all
  have "js_join (map f vs) @ c # x = js_join (map f ws') @ c # y"
    using pq close(2) by (auto simp: p_def q_def split: if_splits)
  then have "map g vs = map g ws' \<and> x = y"
    using Cons.IH Cons.prems(1) by (meson list.set_intros(2))
  with head show ?case by (simp add: ws)
qed

lemma serialize_start:
  assumes "num_ok num"
  shows "serializeAnswerIdentityValue num v \<noteq> [] \<and> hd (serializeAnswerIdentityValue num v) \<notin> stop_chars"
proof (cases v)
  case (JNum n)
  have "num n \<noteq> []" "set (num n) \<subseteq> number_chars"
    using assms by (auto simp: num_ok_def)
  then show ?thesis
    using JNum stop_not_number by (cases "num n") auto
qed (simp_all add: json_quote_def stop_chars_def)

text \<open>The first character tells the kind of a value.\<close>

definition start_kind :: "char \<Rightarrow> nat" where
  "start_kind c =
     (if c = CHR ''n'' then 0 else if c = CHR ''t'' then 1 else if c = CHR ''f'' then 2
      else if c = CHR 0x22 then 3 else if c = CHR 0x5B then 4 else if c = CHR 0x7B then 5 else 6)"

fun json_kind :: "json \<Rightarrow> nat" where
  "json_kind JNull = 0"
| "json_kind (JBool b) = (if b then 1 else 2)"
| "json_kind (JStr _) = 3"
| "json_kind (JArr _) = 4"
| "json_kind (JObj _) = 5"
| "json_kind (JNum _) = 6"

lemma serialize_kind:
  assumes "num_ok num"
  shows "start_kind (hd (serializeAnswerIdentityValue num v)) = json_kind v"
proof (cases v)
  case (JNum n)
  have "hd (num n) \<in> number_chars"
    using assms by (auto simp: num_ok_def dest: hd_in_set)
  with JNum show ?thesis by (auto simp: number_chars_def start_kind_def)
qed (simp_all add: start_kind_def json_quote_def)

lemma serialize_same_kind:
  assumes "num_ok num"
    and "serializeAnswerIdentityValue num a @ x = serializeAnswerIdentityValue num b @ y"
  shows "json_kind b = json_kind a"
  using serialize_start [OF assms(1)] serialize_kind [OF assms(1)] assms(2) by (metis hd_append2)

lemma serialize_prefix:
  assumes "num_ok num"
  shows "serializeAnswerIdentityValue num a @ x = serializeAnswerIdentityValue num b @ y \<Longrightarrow>
    stops x \<Longrightarrow> stops y \<Longrightarrow> sortKeys a = sortKeys b \<and> x = y"
  using assms
proof (induction num a arbitrary: b x y rule: serializeAnswerIdentityValue.induct)
  case (4 num n)
  obtain m where b: "b = JNum m"
    using serialize_same_kind [OF 4(4,1)] by (cases b) (simp_all split: if_splits)
  with 4 have "num n = num m \<and> x = y"
    by (intro number_prefix) (auto simp: num_ok_def)
  with 4(4) b show ?case by (auto simp: num_ok_def inj_def)
next
  case (5 num vs)
  obtain ws where b: "b = JArr ws"
    using serialize_same_kind [OF 5(5,2)] by (cases b) (simp_all split: if_splits)
  have "map sortKeys vs = map sortKeys ws \<and> x = y"
  proof (rule join_prefix [where c = "CHR 0x5D" and f = "serializeAnswerIdentityValue num"])
    fix v w p q
    assume "v \<in> set vs" "stops p" "stops q"
      "serializeAnswerIdentityValue num v @ p = serializeAnswerIdentityValue num w @ q"
    then show "sortKeys v = sortKeys w \<and> p = q"
      using 5(1,5) by blast
  next
    show "js_join (map (serializeAnswerIdentityValue num) vs) @ CHR 0x5D # x =
        js_join (map (serializeAnswerIdentityValue num) ws) @ CHR 0x5D # y"
      using 5(2) b by simp
  qed (use serialize_start [OF 5(5)] in \<open>simp_all add: stop_chars_def\<close>)
  with b show ?case by simp
next
  case (6 num es)
  obtain fs where b: "b = JObj fs"
    using serialize_same_kind [OF 6(5,2)] by (cases b) (simp_all split: if_splits)
  let ?f = "\<lambda>(key, v). json_quote key @ CHR 0x3A # serializeAnswerIdentityValue num v"
  let ?g = "\<lambda>(k, v). (k, sortKeys v)"
  have elem: "?g v = ?g w \<and> p = q"
    if "v \<in> set (sort_key fst es)" "stops p" "stops q" "?f v @ p = ?f w @ q" for v w p q
  proof -
    obtain k u l z where vw: "v = (k, u)" "w = (l, z)" by fastforce
    then have "k = l" and "serializeAnswerIdentityValue num u @ p = serializeAnswerIdentityValue num z @ q"
      using that(4) by (auto dest!: json_quote_prefix)
    with 6(1) [of v k u p z q] that 6(5) vw show ?thesis by auto
  qed
  have "map ?g (sort_key fst es) = map ?g (sort_key fst fs) \<and> x = y"
    by (rule join_prefix [where c = "CHR 0x7D" and f = ?f, OF elem])
      (use 6(2) b in \<open>auto simp: stop_chars_def json_quote_def\<close>)
  with b show ?case by simp
next
  case (1 num)
  then show ?case
    using serialize_same_kind [OF 1(4,1)] by (cases b) (simp_all split: if_splits)
next
  case (2 num v)
  then show ?case
    using serialize_same_kind [OF 2(4,1)] by (cases b) (simp_all split: if_splits)
next
  case (3 num s)
  obtain t where "b = JStr t"
    using serialize_same_kind [OF 3(4,1)] by (cases b) (simp_all split: if_splits)
  with 3 show ?case by (auto dest!: json_quote_prefix)
qed

lemma serialize_sorted:
  "sortKeys a = sortKeys b \<Longrightarrow>
     serializeAnswerIdentityValue num a = serializeAnswerIdentityValue num b"
proof -
  have sorted_again: "sort_key fst (map (\<lambda>(k, v). (k, g v)) (sort_key fst es)) =
      map (\<lambda>(k, v). (k, g v)) (sort_key fst es)" for g :: "json \<Rightarrow> json" and es :: "(string \<times> json) list"
    by (intro sort_key_id_if_sorted) (simp add: case_prod_beta o_def)
  have "serializeAnswerIdentityValue num (sortKeys v) = serializeAnswerIdentityValue num v" for v
    by (induction num v rule: serializeAnswerIdentityValue.induct)
      (auto simp: sorted_again intro!: arg_cong [of _ _ js_join])
  then show "sortKeys a = sortKeys b \<Longrightarrow> ?thesis" by metis
qed

lemma serialize_eq_iff:
  assumes "num_ok num"
  shows "serializeAnswerIdentityValue num a = serializeAnswerIdentityValue num b \<longleftrightarrow>
    sortKeys a = sortKeys b"
proof
  assume "serializeAnswerIdentityValue num a = serializeAnswerIdentityValue num b"
  then show "sortKeys a = sortKeys b"
    using serialize_prefix [OF assms, of a "[]" b "[]"] by simp
qed (rule serialize_sorted)

lemma stringify_sorted: "json_stringify num (sortKeys v) = serializeAnswerIdentityValue num v"
  by (induction num v rule: serializeAnswerIdentityValue.induct)
    (auto intro!: arg_cong [of _ _ js_join])

text \<open>The workset check and the answer identity use one notion of equality.\<close>

lemma payloadsEqual_iff:
  assumes "num_ok num"
  shows "payloadsEqual num a b \<longleftrightarrow>
    sortKeys (case a of None \<Rightarrow> JNull | Some v \<Rightarrow> v) = sortKeys (case b of None \<Rightarrow> JNull | Some v \<Rightarrow> v)"
  by (simp only: payloadsEqual_def stringify_sorted serialize_eq_iff [OF assms])

lemma payloadsEqual_refl [simp]: "payloadsEqual num a a"
  by (simp add: payloadsEqual_def)

section \<open>Properties\<close>

text \<open>Answer identity is structural. Given that numbers print distinctly and that the digest
  does not collide on the two serializations at hand, two answers have the same canonical identity
  exactly when they are equal up to the order of object keys; an absent value has no identity and
  is refused.\<close>

lemma answer_identity_structural:
  assumes "num_ok num"
    and "sha256 (serializeAnswerIdentityValue num a) = sha256 (serializeAnswerIdentityValue num b) \<Longrightarrow>
      serializeAnswerIdentityValue num a = serializeAnswerIdentityValue num b"
  shows "(canonicalAnswerIdentity num sha256 (Some a) = canonicalAnswerIdentity num sha256 (Some b) \<longleftrightarrow>
      sortKeys a = sortKeys b) \<and>
    (\<exists>e. canonicalAnswerIdentity num sha256 None = Inl e)"
proof -
  have "sha256 (serializeAnswerIdentityValue num a) = sha256 (serializeAnswerIdentityValue num b) \<longleftrightarrow>
      sortKeys a = sortKeys b"
    using assms(2) by (metis serialize_eq_iff [OF assms(1)])
  then show ?thesis
    by (simp add: canonicalAnswerIdentity_def)
qed

text \<open>A printer of numbers that keeps the promises: sign, numerator and denominator in unary.\<close>

definition unary_num :: "jsnum \<Rightarrow> string" where
  "unary_num q =
     (case quotient_of q of (a, b) \<Rightarrow>
        (if a < 0 then CHR ''-'' else CHR ''+'') # replicate (nat \<bar>a\<bar>) (CHR ''1'') @
        CHR ''e'' # replicate (nat b) (CHR ''1''))"

lemma replicate_split:
  assumes "c \<noteq> d" "replicate m c @ d # replicate k c = replicate n c @ d # replicate l c"
  shows "m = n \<and> k = l"
proof -
  have tw: "takeWhile (\<lambda>x. x = c) (replicate i c @ d # z) = replicate i c" for i z
    using assms(1) by (subst takeWhile_append2) auto
  have "replicate m c = replicate n c"
    using tw [of m] tw [of n] assms(2) by metis
  then have "m = n" by (metis length_replicate)
  with assms(2) have "replicate k c = replicate l c" by (metis list.inject same_append_eq)
  with \<open>m = n\<close> show ?thesis by (metis length_replicate)
qed

lemma num_ok_unary: "num_ok unary_num"
proof -
  have "p = q" if eq: "unary_num p = unary_num q" for p q
  proof -
    obtain a b c d where pq: "quotient_of p = (a, b)" "quotient_of q = (c, d)" by fastforce
    have "0 < b" "0 < d" using pq by (simp_all add: quotient_of_denom_pos)
    moreover have "nat \<bar>a\<bar> = nat \<bar>c\<bar> \<and> nat b = nat d"
      using eq pq by (intro replicate_split [of "CHR ''1''" "CHR ''e''"])
        (auto simp: unary_num_def split: if_splits)
    moreover have "a < 0 \<longleftrightarrow> c < 0"
      using eq pq by (auto simp: unary_num_def split: if_splits)
    ultimately have "a = c \<and> b = d" by linarith
    with pq show "p = q" by (metis quotient_of_div)
  qed
  then show ?thesis
    by (auto simp: num_ok_def inj_def unary_num_def number_chars_def split: prod.splits)
qed

lemma answer_identity_structural_witness:
  "num_ok unary_num \<and>
   canonicalAnswerIdentity unary_num id (Some (JObj [(''b'', JStr ''y''), (''a'', JStr ''x'')])) =
     canonicalAnswerIdentity unary_num id (Some (JObj [(''a'', JStr ''x''), (''b'', JStr ''y'')])) \<and>
   (\<exists>e. canonicalAnswerIdentity unary_num id None = Inl e)"
proof -
  have "sortKeys (JObj [(''b'', JStr ''y''), (''a'', JStr ''x'')]) =
      sortKeys (JObj [(''a'', JStr ''x''), (''b'', JStr ''y'')])"
    by (simp add: less_eq_char_def)
  then show ?thesis
    using answer_identity_structural [OF num_ok_unary, of id
      "JObj [(''b'', JStr ''y''), (''a'', JStr ''x'')]" "JObj [(''a'', JStr ''x''), (''b'', JStr ''y'')]"]
      num_ok_unary by simp
qed

end
