(* ===== verification/Answer_Protocol.thy ===== *)
theory Answer_Protocol
  imports Samples Answer_Identity
begin

text \<open>
  The save-answer protocol of \<^verbatim>\<open>answerProtocol.ts\<close>: the pure decision \<open>processSaveAnswer\<close>, the
  composite command \<open>saveAnswer\<close> that applies it to the store, and the snapshot that submission
  freezes. \<open>num\<close> and \<open>sha256\<close> are the parameters of the answer identity; the canonicalization of an
  answer against its frozen question is the caller's, an optional argument as in the code. An
  undefined answer is \<open>None\<close>, the JSON null is \<open>Some JNull\<close>.
\<close>

section \<open>The decision\<close>

record AnswerState =
  as_attemptStatus :: AttemptStatus
  as_answers :: "AnswerRecord list"
  as_knownReceipt :: "AnswerReceipt option"
  as_deadlineAt :: "time option"
  as_now :: time

record ProcessSaveResult =
  ps_accepted :: bool
  ps_serverVersion :: int
  ps_savedAt :: time
  ps_conflict :: "(ConflictReason \<times> json option) option"
  ps_newAnswer :: "AnswerRecord option"
  ps_newReceipt :: "AnswerReceipt option"

definition reject :: "ConflictReason \<Rightarrow> json option \<Rightarrow> int \<Rightarrow> time \<Rightarrow> ProcessSaveResult" where
  "reject reason latestAnswer serverVersion savedAt =
     \<lparr>ps_accepted = False, ps_serverVersion = serverVersion, ps_savedAt = savedAt,
      ps_conflict = Some (reason, latestAnswer), ps_newAnswer = None, ps_newReceipt = None\<rparr>"

type_synonym CanonicalizeAnswer = "json option \<Rightarrow> string + json option"

definition findAnswer :: "ident \<Rightarrow> AnswerRecord list \<Rightarrow> AnswerRecord option" where
  "findAnswer questionId answers = find (\<lambda>a. an_questionId a = questionId) answers"

definition currentVersion :: "ident \<Rightarrow> AnswerRecord list \<Rightarrow> int" where
  "currentVersion questionId answers =
     (case findAnswer questionId answers of None \<Rightarrow> 0 | Some a \<Rightarrow> an_version a)"

text \<open>The part of the decision after the lifecycle and deadline guards: canonicalization,
  idempotency by receipt, version check.\<close>

definition decideVersion ::
  "AnswerState \<Rightarrow> SaveAnswerRequest \<Rightarrow> json option \<Rightarrow> string \<Rightarrow> ProcessSaveResult" where
  "decideVersion state request answer answerIdentity =
     (let existing = findAnswer (rq_questionId request) (as_answers state);
          current = currentVersion (rq_questionId request) (as_answers state);
          latest = (case existing of None \<Rightarrow> None | Some a \<Rightarrow> an_answer a)
      in if rq_baseVersion request < current
         then reject STALE_VERSION latest current (as_now state)
         else if rq_baseVersion request > current
         then reject FUTURE_VERSION latest current (as_now state)
         else
           let newVersion = current + 1
           in \<lparr>ps_accepted = True, ps_serverVersion = newVersion, ps_savedAt = as_now state,
               ps_conflict = None,
               ps_newAnswer = Some \<lparr>an_questionId = rq_questionId request,
                 an_answer = answer, an_version = newVersion, an_savedAt = as_now state\<rparr>,
               ps_newReceipt = Some \<lparr>rc_attemptId = rq_attemptId request,
                 rc_questionId = rq_questionId request, rc_clientSeq = rq_clientSeq request,
                 rc_answerIdentity = answerIdentity,
                 rc_version = newVersion, rc_savedAt = as_now state\<rparr>\<rparr>)"

definition decideIdentity ::
  "AnswerState \<Rightarrow> SaveAnswerRequest \<Rightarrow> json option \<Rightarrow> string \<Rightarrow> ProcessSaveResult" where
  "decideIdentity state request answer answerIdentity =
     (case as_knownReceipt state of
        Some receipt \<Rightarrow>
          (if rc_answerIdentity receipt = answerIdentity
           then \<lparr>ps_accepted = True, ps_serverVersion = rc_version receipt,
                 ps_savedAt = rc_savedAt receipt, ps_conflict = None,
                 ps_newAnswer = None, ps_newReceipt = None\<rparr>
           else reject CONFLICTING_PAYLOAD None (rc_version receipt) (as_now state))
      | None \<Rightarrow> decideVersion state request answer answerIdentity)"

definition canonical :: "CanonicalizeAnswer option \<Rightarrow> SaveAnswerRequest \<Rightarrow> string + json option" where
  "canonical canonicalize request =
     (case canonicalize of None \<Rightarrow> Inr (rq_answer request) | Some f \<Rightarrow> f (rq_answer request))"

definition processSaveAnswer ::
  "(jsnum \<Rightarrow> string) \<Rightarrow> (string \<Rightarrow> string) \<Rightarrow> AnswerState \<Rightarrow> SaveAnswerRequest \<Rightarrow>
     CanonicalizeAnswer option \<Rightarrow> app_error + ProcessSaveResult" where
  "processSaveAnswer num sha256 state request canonicalize =
     (if as_attemptStatus state = Voided
      then Inr (reject ATTEMPT_CLOSED None 0 (as_now state))
      else if as_attemptStatus state = Submitted \<or> as_attemptStatus state = Graded
      then Inr (reject ATTEMPT_ALREADY_SUBMITTED None 0 (as_now state))
      else if (case as_deadlineAt state of None \<Rightarrow> False | Some d \<Rightarrow> as_now state \<ge> d)
      then Inr (reject DEADLINE_EXCEEDED None 0 (as_now state))
      else case canonical canonicalize request of
          Inl _ \<Rightarrow> Inr (reject INVALID_ANSWER None
            (currentVersion (rq_questionId request) (as_answers state)) (as_now state))
        | Inr answer \<Rightarrow>
            bindR (canonicalAnswerIdentity num sha256 answer) (\<lambda>answerIdentity.
              Inr (decideIdentity state request answer answerIdentity)))"

section \<open>The command\<close>

text \<open>The evidence minted by the preparation seam: the attempt, the checked instant, the effective
  deadline and the attempt repository it is bound to.\<close>

record ReconciledAttemptMutationContext =
  mc_attemptId :: ident
  mc_checkedAt :: time
  mc_effectiveDeadline :: "time option"
  mc_attemptRepo :: nat

definition assertAttemptRepository :: "ReconciledAttemptMutationContext \<Rightarrow> nat \<Rightarrow> app_error + unit" where
  "assertAttemptRepository context candidateRepo =
     guardR (candidateRepo = mc_attemptRepo context)
       (EngineError ''Attempt mutation-context transaction-affinity violation'')"

definition applyAcceptedResult ::
  "AnswerRecord list \<Rightarrow> AnswerRecord \<Rightarrow> SaveAnswerRequest \<Rightarrow> AnswerRecord list" where
  "applyAcceptedResult storedAnswers newAnswer request =
     filter (\<lambda>a. an_questionId a \<noteq> rq_questionId request) storedAnswers @
     [\<lparr>an_questionId = rq_questionId request, an_answer = an_answer newAnswer,
       an_version = an_version newAnswer, an_savedAt = an_savedAt newAnswer\<rparr>]"

definition answer_state ::
  "ReconciledAttemptMutationContext \<Rightarrow> ExamAttempt \<Rightarrow> AnswerReceipt option \<Rightarrow> AnswerState" where
  "answer_state context attempt knownReceipt =
     \<lparr>as_attemptStatus = at_status attempt, as_answers = at_answers attempt,
      as_knownReceipt = knownReceipt, as_deadlineAt = mc_effectiveDeadline context,
      as_now = mc_checkedAt context\<rparr>"

definition saveAnswer ::
  "(jsnum \<Rightarrow> string) \<Rightarrow> (string \<Rightarrow> string) \<Rightarrow> repos \<Rightarrow> ReconciledAttemptMutationContext \<Rightarrow>
     SaveAnswerRequest \<Rightarrow> (QuestionSnapshot \<Rightarrow> CanonicalizeAnswer) option \<Rightarrow> ProcessSaveResult action"
  where
  "saveAnswer num sha256 repos context request canonicalizeAnswer =
     bindC (liftC (assertAttemptRepository context (ro_attemptRepo repos))) (\<lambda>_.
     bindC (guardC (rq_attemptId request = mc_attemptId context) (ValidationError
       ''Save answer request attemptId does not match the mutation context's bound attempt identity'')) (\<lambda>_.
     bindC (someC (find_attempt (mc_attemptId context)) (NotFoundError ''Attempt not found'')) (\<lambda>attempt.
     bindC (requireC (find (\<lambda>q. qs_originalQuestionId q = rq_questionId request)
         (at_questionSnapshot attempt))
       (ValidationError ''question is not part of this attempt'')) (\<lambda>snapshotQuestion.
     bindC (getsC (findAnswerReceipt (mc_attemptId context) (rq_questionId request)
       (rq_clientSeq request))) (\<lambda>knownReceipt.
     bindC (liftC (processSaveAnswer num sha256
         (answer_state context attempt knownReceipt) request
         (map_option (\<lambda>f. f snapshotQuestion) canonicalizeAnswer))) (\<lambda>saveResult.
     case (ps_accepted saveResult, ps_newAnswer saveResult, ps_newReceipt saveResult) of
       (True, Some newAnswer, Some newReceipt) \<Rightarrow>
         bindC (update_attempt (mc_attemptId context) (\<lambda>a.
           a\<lparr>at_answers := applyAcceptedResult (at_answers attempt) newAnswer request,
             at_lastActivityAt := Some (mc_checkedAt context)\<rparr>)) (\<lambda>_.
         bindC (appendAnswerReceipt newReceipt) (\<lambda>_.
         returnC saveResult))
     | _ \<Rightarrow> returnC saveResult))))))"

section \<open>The frozen snapshot\<close>

text \<open>\<^verbatim>\<open>x ?? null\<close>: both undefined and null give null.\<close>

fun or_null :: "json option \<Rightarrow> json option" where
  "or_null (Some JNull) = None"
| "or_null x = x"

definition buildSubmittedAnswersSnapshot ::
  "AnswerRecord list \<Rightarrow> QuestionSnapshot list \<Rightarrow> SubmittedAnswersSnapshot" where
  "buildSubmittedAnswersSnapshot draftAnswers questionSnapshot =
     (let answerByQuestion = map (\<lambda>a. (an_questionId a, an_answer a)) draftAnswers;
          ordered = sort_key qs_order questionSnapshot
      in map (\<lambda>q. (qs_originalQuestionId q,
           or_null (case js_map_get answerByQuestion (qs_originalQuestionId q) of
                      None \<Rightarrow> None | Some v \<Rightarrow> v))) ordered)"

section \<open>Lemmas on the decision\<close>

text \<open>The guards that come before idempotency and versions.\<close>

definition save_open :: "AnswerState \<Rightarrow> bool" where
  "save_open state \<longleftrightarrow>
     as_attemptStatus state \<notin> {Voided, Submitted, Graded} \<and>
     (\<forall>d. as_deadlineAt state = Some d \<longrightarrow> as_now state < d)"

lemma processSaveAnswer_closed:
  "\<not> save_open state \<Longrightarrow>
     \<exists>reason. reason \<in> {ATTEMPT_CLOSED, ATTEMPT_ALREADY_SUBMITTED, DEADLINE_EXCEEDED} \<and>
       processSaveAnswer num sha state request can = Inr (reject reason None 0 (as_now state))"
  by (auto simp: save_open_def processSaveAnswer_def split: option.splits)

lemma processSaveAnswer_open:
  "save_open state \<Longrightarrow> processSaveAnswer num sha state request can =
     (case canonical can request of
        Inl _ \<Rightarrow> Inr (reject INVALID_ANSWER None
          (currentVersion (rq_questionId request) (as_answers state)) (as_now state))
      | Inr answer \<Rightarrow> bindR (canonicalAnswerIdentity num sha answer) (\<lambda>i.
          Inr (decideIdentity state request answer i)))"
  by (cases "as_deadlineAt state") (auto simp: save_open_def processSaveAnswer_def)

lemma reject_simps [simp]:
  "ps_accepted (reject c l v t) = False" "ps_newAnswer (reject c l v t) = None"
  "ps_newReceipt (reject c l v t) = None" "ps_conflict (reject c l v t) = Some (c, l)"
  "ps_serverVersion (reject c l v t) = v" "ps_savedAt (reject c l v t) = t"
  by (simp_all add: reject_def)

text \<open>The three ways in which a decision can be accepted or not.\<close>

lemma processSaveAnswer_cases:
  assumes "processSaveAnswer num sha state request can = Inr r"
  obtains (rejected) "\<not> ps_accepted r" "ps_newAnswer r = None" "ps_newReceipt r = None"
  | (replayed) receipt answer where "save_open state" "canonical can request = Inr answer"
      "canonicalAnswerIdentity num sha answer = Inr (rc_answerIdentity receipt)"
      "as_knownReceipt state = Some receipt"
      "ps_accepted r" "ps_serverVersion r = rc_version receipt" "ps_savedAt r = rc_savedAt receipt"
      "ps_newAnswer r = None" "ps_newReceipt r = None"
  | (fresh) answer i where "save_open state" "canonical can request = Inr answer"
      "canonicalAnswerIdentity num sha answer = Inr i" "as_knownReceipt state = None"
      "rq_baseVersion request = currentVersion (rq_questionId request) (as_answers state)"
      "ps_accepted r" "ps_serverVersion r = rq_baseVersion request + 1" "ps_savedAt r = as_now state"
      "ps_newAnswer r = Some \<lparr>an_questionId = rq_questionId request, an_answer = answer,
         an_version = rq_baseVersion request + 1, an_savedAt = as_now state\<rparr>"
      "ps_newReceipt r = Some \<lparr>rc_attemptId = rq_attemptId request,
         rc_questionId = rq_questionId request, rc_clientSeq = rq_clientSeq request,
         rc_answerIdentity = i, rc_version = rq_baseVersion request + 1, rc_savedAt = as_now state\<rparr>"
proof (cases "save_open state")
  case False
  from processSaveAnswer_closed [OF this, of num sha request can] assms
  show thesis by (intro rejected) auto
next
  case True
  note open_eq = assms [unfolded processSaveAnswer_open [OF True]]
  show thesis
  proof (cases "canonical can request")
    case (Inl x)
    with open_eq show thesis by (intro rejected) auto
  next
    case (Inr answer)
    with open_eq obtain i where i: "canonicalAnswerIdentity num sha answer = Inr i"
      and r: "r = decideIdentity state request answer i"
      by (auto simp: bindR_Inr_iff)
    show thesis
    proof (cases "as_knownReceipt state")
      case (Some receipt)
      show thesis
      proof (cases "rc_answerIdentity receipt = i")
        case same: True
        show thesis
          by (rule replayed [OF True Inr _ Some]) (use i r same Some in \<open>simp_all add: decideIdentity_def\<close>)
      qed (rule rejected, use r Some in \<open>simp_all add: decideIdentity_def\<close>)
    next
      case None
      then have v: "r = decideVersion state request answer i"
        using r by (simp add: decideIdentity_def)
      show thesis
      proof (cases "rq_baseVersion request = currentVersion (rq_questionId request) (as_answers state)")
        case same: True
        show thesis
          by (rule fresh [OF True Inr i None same]) (use v same in \<open>simp_all add: decideVersion_def Let_def\<close>)
      qed (rule rejected, use v in \<open>auto simp: decideVersion_def Let_def\<close>)
    qed
  qed
qed

section \<open>Lemmas on the command\<close>

lemma answer_state_simps [simp]:
  "as_attemptStatus (answer_state c a k) = at_status a" "as_answers (answer_state c a k) = at_answers a"
  "as_knownReceipt (answer_state c a k) = k" "as_deadlineAt (answer_state c a k) = mc_effectiveDeadline c"
  "as_now (answer_state c a k) = mc_checkedAt c"
  by (simp_all add: answer_state_def)

definition request_receipt :: "SaveAnswerRequest \<Rightarrow> store \<Rightarrow> AnswerReceipt option" where
  "request_receipt req s = findAnswerReceipt (rq_attemptId req) (rq_questionId req) (rq_clientSeq req) s"

text \<open>Everything the command reads, in one step; what it then writes depends on the decision only.\<close>

definition save_ready ::
  "repos \<Rightarrow> ReconciledAttemptMutationContext \<Rightarrow> SaveAnswerRequest \<Rightarrow> store \<Rightarrow> ExamAttempt \<Rightarrow>
     QuestionSnapshot \<Rightarrow> bool" where
  "save_ready rs ctx req s a q \<longleftrightarrow>
     ro_attemptRepo rs = mc_attemptRepo ctx \<and> rq_attemptId req = mc_attemptId ctx \<and>
     find_attempt (rq_attemptId req) s = Some a \<and>
     find (\<lambda>q. qs_originalQuestionId q = rq_questionId req) (at_questionSnapshot a) = Some q"

lemma saveAnswer_run:
  "save_ready rs ctx req s a q \<Longrightarrow> saveAnswer num sha rs ctx req can s =
     (case processSaveAnswer num sha (answer_state ctx a (request_receipt req s)) req
             (map_option (\<lambda>f. f q) can) of
        Inl e \<Rightarrow> Inl e
      | Inr r \<Rightarrow>
          (case (ps_accepted r, ps_newAnswer r, ps_newReceipt r) of
             (True, Some newAnswer, Some newReceipt) \<Rightarrow>
               bindC (update_attempt (mc_attemptId ctx) (\<lambda>x.
                 x\<lparr>at_answers := applyAcceptedResult (at_answers a) newAnswer req,
                   at_lastActivityAt := Some (mc_checkedAt ctx)\<rparr>)) (\<lambda>_.
               bindC (appendAnswerReceipt newReceipt) (\<lambda>_. returnC r)) s
           | _ \<Rightarrow> Inr (r, s)))"
proof -
  assume "save_ready rs ctx req s a q"
  then have facts: "ro_attemptRepo rs = mc_attemptRepo ctx" "rq_attemptId req = mc_attemptId ctx"
    "find_attempt (mc_attemptId ctx) s = Some a"
    "find (\<lambda>q. qs_originalQuestionId q = rq_questionId req) (at_questionSnapshot a) = Some q"
    by (auto simp: save_ready_def)
  show ?thesis
    unfolding saveAnswer_def request_receipt_def assertAttemptRepository_def
    by (auto simp: facts cmd_run returnC_def split: sum.split option.split bool.split)
qed

lemma saveAnswer_ready:
  "saveAnswer num sha rs ctx req can s = Inr (r, s') \<Longrightarrow> \<exists>a q. save_ready rs ctx req s a q"
  unfolding saveAnswer_def
  by (auto simp: cmd_iff save_ready_def assertAttemptRepository_def)

definition saved_row :: "SaveAnswerRequest \<Rightarrow> json option \<Rightarrow> time \<Rightarrow> AnswerRecord" where
  "saved_row req answer now = \<lparr>an_questionId = rq_questionId req, an_answer = answer,
     an_version = rq_baseVersion req + 1, an_savedAt = now\<rparr>"

definition saved_receipt :: "SaveAnswerRequest \<Rightarrow> string \<Rightarrow> time \<Rightarrow> AnswerReceipt" where
  "saved_receipt req i now = \<lparr>rc_attemptId = rq_attemptId req, rc_questionId = rq_questionId req,
     rc_clientSeq = rq_clientSeq req, rc_answerIdentity = i, rc_version = rq_baseVersion req + 1,
     rc_savedAt = now\<rparr>"

definition save_write ::
  "SaveAnswerRequest \<Rightarrow> json option \<Rightarrow> time \<Rightarrow> ExamAttempt \<Rightarrow> ExamAttempt \<Rightarrow> ExamAttempt" where
  "save_write req answer now a x =
     x\<lparr>at_answers := filter (\<lambda>x. an_questionId x \<noteq> rq_questionId req) (at_answers a) @
         [saved_row req answer now],
       at_lastActivityAt := Some now\<rparr>"

lemma saveAnswer_cases [consumes 1, case_names kept written]:
  assumes "saveAnswer num sha rs ctx req can s = Inr (r, s')"
  obtains (kept) a q where "save_ready rs ctx req s a q" "s' = s" "ps_newAnswer r = None"
      "ps_newReceipt r = None"
      "processSaveAnswer num sha (answer_state ctx a (request_receipt req s)) req
         (map_option (\<lambda>f. f q) can) = Inr r"
  | (written) a q answer i where "save_ready rs ctx req s a q"
      "save_open (answer_state ctx a None)"
      "canonical (map_option (\<lambda>f. f q) can) req = Inr answer"
      "canonicalAnswerIdentity num sha answer = Inr i"
      "request_receipt req s = None"
      "rq_baseVersion req = currentVersion (rq_questionId req) (at_answers a)"
      "ps_accepted r" "ps_serverVersion r = rq_baseVersion req + 1" "ps_savedAt r = mc_checkedAt ctx"
      "ps_newAnswer r = Some (saved_row req answer (mc_checkedAt ctx))"
      "s' = (upd_attempt (rq_attemptId req) (save_write req answer (mc_checkedAt ctx) a) s)
         \<lparr>st_receipts := st_receipts s @ [saved_receipt req i (mc_checkedAt ctx)]\<rparr>"
proof -
  obtain a q where ready: "save_ready rs ctx req s a q"
    using saveAnswer_ready [OF assms] by blast
  note run = assms [unfolded saveAnswer_run [OF ready]]
  then obtain r0 where p: "processSaveAnswer num sha (answer_state ctx a (request_receipt req s)) req
      (map_option (\<lambda>f. f q) can) = Inr r0"
    by (auto split: sum.splits)
  show thesis
    using p
  proof (cases rule: processSaveAnswer_cases)
    case rejected
    then show thesis
      using run p ready by (intro kept [of a q]) auto
  next
    case (replayed receipt answer)
    then show thesis
      using run p ready by (intro kept [of a q]) auto
  next
    case (fresh answer i)
    have "s' = (upd_attempt (rq_attemptId req) (save_write req answer (mc_checkedAt ctx) a) s)
         \<lparr>st_receipts := st_receipts s @ [saved_receipt req i (mc_checkedAt ctx)]\<rparr> \<and> r = r0"
      using run p fresh ready
      by (auto simp: cmd_iff save_ready_def saved_receipt_def saved_row_def save_write_def [abs_def]
          applyAcceptedResult_def)
    then show thesis
      using fresh ready
      by (intro written [of a q answer i]) (auto simp: save_open_def saved_row_def)
  qed
qed

lemma save_write_simps [simp]:
  "at_id (save_write req v t a x) = at_id x"
  "at_status (save_write req v t a x) = at_status x"
  "at_questionSnapshot (save_write req v t a x) = at_questionSnapshot x"
  "at_answers (save_write req v t a x) =
     filter (\<lambda>z. an_questionId z \<noteq> rq_questionId req) (at_answers a) @ [saved_row req v t]"
  by (simp_all add: save_write_def)

lemma findAnswer_after_save:
  "findAnswer k (filter (\<lambda>z. an_questionId z \<noteq> rq_questionId req) xs @ [saved_row req v t]) =
     (if k = rq_questionId req then Some (saved_row req v t) else findAnswer k xs)"
proof -
  have skip: "findAnswer k (filter (\<lambda>z. an_questionId z \<noteq> q) xs @ ys) =
      (if k = q then findAnswer k ys
       else (case findAnswer k xs of None \<Rightarrow> findAnswer k ys | Some a \<Rightarrow> Some a))" for q ys
    by (induction xs) (auto simp: findAnswer_def)
  show ?thesis
    by (auto simp: skip) (auto simp: findAnswer_def saved_row_def split: option.splits)
qed

lemma currentVersion_after_save:
  "currentVersion k (filter (\<lambda>z. an_questionId z \<noteq> rq_questionId req) xs @ [saved_row req v t]) =
     (if k = rq_questionId req then rq_baseVersion req + 1 else currentVersion k xs)"
  by (simp add: currentVersion_def findAnswer_after_save) (simp add: saved_row_def)

lemma saved_row_simps [simp]:
  "an_questionId (saved_row req v t) = rq_questionId req" "an_answer (saved_row req v t) = v"
  "an_version (saved_row req v t) = rq_baseVersion req + 1" "an_savedAt (saved_row req v t) = t"
  by (simp_all add: saved_row_def)

lemma save_ready_attempt:
  "save_ready rs ctx req s a q \<Longrightarrow> find_attempt (rq_attemptId req) s = Some a"
  by (auto simp: save_ready_def)

lemma save_ready_question:
  "save_ready rs ctx req s a q \<Longrightarrow>
     q \<in> set (at_questionSnapshot a) \<and> qs_originalQuestionId q = rq_questionId req"
  by (auto simp: save_ready_def find_Some_iff)

lemma find_after_save:
  assumes "find_attempt k s = Some a"
  shows "find_attempt j ((upd_attempt k (save_write req v t a) s)\<lparr>st_receipts := rs\<rparr>) =
    (if j = k then Some (save_write req v t a a) else find_attempt j s)"
  using assms by (simp add: store_simps)

text \<open>One accepted or rejected save, whoever sends it.\<close>

inductive save_step :: "(jsnum \<Rightarrow> string) \<Rightarrow> (string \<Rightarrow> string) \<Rightarrow> store \<Rightarrow> store \<Rightarrow> bool" for num sha where
  "saveAnswer num sha rs ctx req can s = Inr (r, s') \<Longrightarrow> save_step num sha s s'"

inductive_cases save_stepE: "save_step num sha s s'"

definition answers_ok :: "ExamAttempt \<Rightarrow> bool" where
  "answers_ok a \<longleftrightarrow>
     distinct (map an_questionId (at_answers a)) \<and>
     an_questionId ` set (at_answers a) \<subseteq> qs_originalQuestionId ` set (at_questionSnapshot a) \<and>
     (\<forall>x\<in>set (at_answers a). 1 \<le> an_version x)"

definition receipts_ok :: "ident \<Rightarrow> ExamAttempt \<Rightarrow> store \<Rightarrow> bool" where
  "receipts_ok k a s \<longleftrightarrow>
     (\<forall>r\<in>set (st_receipts s). rc_attemptId r = k \<longrightarrow>
        1 \<le> rc_version r \<and> rc_version r \<le> currentVersion (rc_questionId r) (at_answers a))"

definition receipt_keys :: "store \<Rightarrow> (ident \<times> ident \<times> int) list" where
  "receipt_keys s = map (\<lambda>r. (rc_attemptId r, rc_questionId r, rc_clientSeq r)) (st_receipts s)"

text \<open>The invariant of the draft answers and their receipts.\<close>

definition save_inv :: "store \<Rightarrow> bool" where
  "save_inv s \<longleftrightarrow> distinct (receipt_keys s) \<and>
     (\<forall>k a. find_attempt k s = Some a \<longrightarrow> answers_ok a \<and> receipts_ok k a s)"

lemma findAnswer_in: "findAnswer k xs = Some x \<Longrightarrow> x \<in> set xs \<and> an_questionId x = k"
  by (induction xs) (auto simp: findAnswer_def split: if_splits)

lemma currentVersion_nonneg: "answers_ok a \<Longrightarrow> 0 \<le> currentVersion k (at_answers a)"
  by (fastforce simp: answers_ok_def currentVersion_def dest: findAnswer_in split: option.splits)

lemma answers_ok_save:
  assumes "answers_ok a" "rq_questionId req \<in> qs_originalQuestionId ` set (at_questionSnapshot a)"
    and "rq_baseVersion req = currentVersion (rq_questionId req) (at_answers a)"
  shows "answers_ok (save_write req v t a a)"
  using assms currentVersion_nonneg [OF assms(1), of "rq_questionId req"]
  by (auto simp: answers_ok_def saved_row_def distinct_map_filter)

lemma request_receipt_None_iff:
  "request_receipt req s = None \<longleftrightarrow>
     (rq_attemptId req, rq_questionId req, rq_clientSeq req) \<notin> set (receipt_keys s)"
  by (force simp: request_receipt_def findAnswerReceipt_def receipt_keys_def find_None_iff)

lemma save_step_inv:
  assumes "save_step num sha s s'" "save_inv s"
  shows "save_inv s'"
proof -
  obtain rs ctx req can r where "saveAnswer num sha rs ctx req can s = Inr (r, s')"
    using assms(1) by (rule save_stepE)
  then show ?thesis
  proof (cases rule: saveAnswer_cases)
    case (kept a q)
    with assms(2) show ?thesis by simp
  next
    case (written a q answer i)
    have a: "find_attempt (rq_attemptId req) s = Some a"
      using written by (simp add: save_ready_attempt)
    with assms(2) have ok: "answers_ok a" "receipts_ok (rq_attemptId req) a s"
      by (auto simp: save_inv_def)
    have "answers_ok (save_write req answer (mc_checkedAt ctx) a a)"
      using save_ready_question [OF written(1)] ok(1) written(6) by (intro answers_ok_save) force+
    moreover have "receipts_ok (rq_attemptId req) (save_write req answer (mc_checkedAt ctx) a a) s'"
      using ok(2) written currentVersion_nonneg [OF ok(1), of "rq_questionId req"]
      by (auto simp: receipts_ok_def currentVersion_after_save saved_receipt_def)
    moreover have "receipts_ok k b s'" if "k \<noteq> rq_attemptId req" "receipts_ok k b s" for k b
      using that written by (auto simp: receipts_ok_def saved_receipt_def)
    moreover have "distinct (receipt_keys s')"
      using assms(2) written request_receipt_None_iff [of req s]
      by (simp add: save_inv_def receipt_keys_def saved_receipt_def)
    moreover have "find_attempt k s' =
        (if k = rq_attemptId req then Some (save_write req answer (mc_checkedAt ctx) a a)
         else find_attempt k s)" for k
      using a written by (simp add: find_after_save)
    ultimately show ?thesis
      using assms(2) by (auto simp: save_inv_def split: if_splits)
  qed
qed

interpretation saves: invariant_step "save_step num sha" save_inv for num sha
  by unfold_locales (rule save_step_inv)

text \<open>What no save changes: the status and the questions of an attempt, and the receipts that are
  already there.\<close>

lemma find_append: "find P (xs @ ys) = (case find P xs of None \<Rightarrow> find P ys | Some x \<Rightarrow> Some x)"
  by (induction xs) auto

lemma saveAnswer_keeps_receipt:
  assumes "saveAnswer num sha rs ctx req can s = Inr (r, s')" "findAnswerReceipt k q n s = Some x"
  shows "findAnswerReceipt k q n s' = Some x"
  using assms(1)
proof (cases rule: saveAnswer_cases)
  case (written a q' answer i)
  with assms(2) show ?thesis by (simp add: findAnswerReceipt_def find_append)
qed (use assms(2) in simp)

lemma saveAnswer_keeps_attempt:
  assumes "saveAnswer num sha rs ctx req can s = Inr (r, s')" "find_attempt j s = Some a"
  shows "\<exists>a'. find_attempt j s' = Some a' \<and> at_status a' = at_status a \<and>
    at_questionSnapshot a' = at_questionSnapshot a"
  using assms(1)
proof (cases rule: saveAnswer_cases)
  case (written b q answer i)
  from written(11) assms(2) find_after_save [OF save_ready_attempt [OF written(1)]]
    save_ready_attempt [OF written(1)]
  show ?thesis by (cases "j = rq_attemptId req") auto
qed (use assms(2) in simp)

lemma save_steps_keep_receipt:
  "(save_step num sha)\<^sup>*\<^sup>* s s' \<Longrightarrow> findAnswerReceipt k q n s = Some x \<Longrightarrow>
     findAnswerReceipt k q n s' = Some x"
  by (induction rule: rtranclp_induct) (auto elim!: save_stepE intro: saveAnswer_keeps_receipt)

lemma save_steps_keep_attempt:
  "(save_step num sha)\<^sup>*\<^sup>* s s' \<Longrightarrow> find_attempt j s = Some a \<Longrightarrow>
     \<exists>a'. find_attempt j s' = Some a' \<and> at_status a' = at_status a \<and>
       at_questionSnapshot a' = at_questionSnapshot a"
proof (induction rule: rtranclp_induct)
  case (step s1 s2)
  then obtain a1 rs ctx req can r where "find_attempt j s1 = Some a1" "at_status a1 = at_status a"
    "at_questionSnapshot a1 = at_questionSnapshot a" "saveAnswer num sha rs ctx req can s1 = Inr (r, s2)"
    by (blast elim: save_stepE)
  with saveAnswer_keeps_attempt show ?case by fastforce
qed simp

lemma stale_conflict_carries:
  assumes "processSaveAnswer num sha state req can = Inr r"
  shows "ps_conflict r = Some (STALE_VERSION, v) \<Longrightarrow>
    v = (case findAnswer (rq_questionId req) (as_answers state) of None \<Rightarrow> None | Some a \<Rightarrow> an_answer a) \<and>
    ps_serverVersion r = currentVersion (rq_questionId req) (as_answers state)"
  using assms processSaveAnswer_closed [of state num sha req can]
  by (cases "save_open state")
    (auto simp: processSaveAnswer_open decideIdentity_def decideVersion_def Let_def reject_def bindR_Inr_iff
      split: sum.splits option.splits if_splits)

text \<open>An accepted save leaves its receipt; a receipt answers the request.\<close>

lemma save_accepted_receipt:
  assumes "saveAnswer num sha rs ctx req can s = Inr (r, s')" "ps_accepted r"
  shows "\<exists>a q answer receipt. save_ready rs ctx req s a q \<and>
    at_status a \<notin> {Voided, Submitted, Graded} \<and>
    canonical (map_option (\<lambda>f. f q) can) req = Inr answer \<and>
    canonicalAnswerIdentity num sha answer = Inr (rc_answerIdentity receipt) \<and>
    request_receipt req s' = Some receipt \<and>
    ps_serverVersion r = rc_version receipt \<and> ps_savedAt r = rc_savedAt receipt"
  using assms(1)
proof (cases rule: saveAnswer_cases)
  case (kept a q)
  from kept(5) show ?thesis
  proof (cases rule: processSaveAnswer_cases)
    case (replayed receipt answer)
    with kept show ?thesis by (auto simp: save_open_def)
  qed (use assms(2) kept(3) in auto)
next
  case (written a q answer i)
  have "request_receipt req s' = Some (saved_receipt req i (mc_checkedAt ctx))"
    using written(5,11)
    by (simp add: request_receipt_def findAnswerReceipt_def find_append saved_receipt_def)
  with written show ?thesis
    by (intro exI [of _ a] exI [of _ q] exI [of _ answer] exI)
      (auto simp: save_open_def saved_receipt_def)
qed

lemma replay_run:
  assumes "save_ready rs ctx req s a q" "save_open (answer_state ctx a None)"
    and "canonical (map_option (\<lambda>f. f q) can) req = Inr answer"
    and "canonicalAnswerIdentity num sha answer = Inr (rc_answerIdentity receipt)"
    and "request_receipt req s = Some receipt"
  shows "\<exists>r. saveAnswer num sha rs ctx req can s = Inr (r, s) \<and> ps_accepted r \<and>
    ps_serverVersion r = rc_version receipt \<and> ps_savedAt r = rc_savedAt receipt"
proof -
  have "save_open (answer_state ctx a (Some receipt))"
    using assms(2) by (simp add: save_open_def)
  then show ?thesis
    using assms by (simp add: saveAnswer_run [OF assms(1)] processSaveAnswer_open decideIdentity_def)
qed

subsection \<open>A concrete run\<close>

definition sample_repos :: repos where
  "sample_repos = \<lparr>ro_enrollmentRepo = 1, ro_attemptRepo = 2\<rparr>"

definition sample_context :: "time \<Rightarrow> ReconciledAttemptMutationContext" where
  "sample_context t = \<lparr>mc_attemptId = ''a1'', mc_checkedAt = t, mc_effectiveDeadline = Some 3601000,
     mc_attemptRepo = 2\<rparr>"

definition sample_request :: "int \<Rightarrow> SaveAnswerRequest" where
  "sample_request n = \<lparr>rq_attemptId = ''a1'', rq_questionId = ''q1'', rq_answer = Some (JBool True),
     rq_clientSeq = n, rq_baseVersion = 0\<rparr>"

abbreviation sample_save :: "int \<Rightarrow> time \<Rightarrow> ProcessSaveResult action" where
  "sample_save n t \<equiv>
     saveAnswer unary_num id sample_repos (sample_context t) (sample_request n) None"

lemma sample_saves:
  obtains r s1 r2 s2 where "sample_save 1 2000 sample_store = Inr (r, s1)" "ps_accepted r"
    "ps_newAnswer r = Some \<lparr>an_questionId = ''q1'', an_answer = Some (JBool True), an_version = 1,
       an_savedAt = 2000\<rparr>"
    "sample_save 2 3000 s1 = Inr (r2, s2)"
proof -
  let ?first = "sample_save 1 2000 sample_store"
  let ?second = "sample_save 2 3000 (snd (projr ?first))"
  have "\<not> isl ?first \<and> ps_accepted (fst (projr ?first)) \<and>
      ps_newAnswer (fst (projr ?first)) = Some \<lparr>an_questionId = ''q1'',
        an_answer = Some (JBool True), an_version = 1, an_savedAt = 2000\<rparr> \<and> \<not> isl ?second"
    by code_simp
  then show thesis
    by (intro that [of "fst (projr ?first)" "snd (projr ?first)" "fst (projr ?second)" "snd (projr ?second)"])
      (simp_all add: run_result)
qed

lemma sample_save_inv: "save_inv sample_store"
  by (auto simp: save_inv_def sample_store_def sample_attempt_def find_attempt_def receipt_keys_def
      answers_ok_def receipts_ok_def split: if_splits)

section \<open>Properties\<close>

text \<open>C33: The draft answers and their receipts stay consistent. Through any sequence of saves, of
  any clients, every attempt holds at most one answer per question, only for questions of its
  frozen paper, each with a positive version; no replay key is receipted twice; and no receipt
  acknowledges a version beyond the current one of its question.\<close>

theorem save_sequence_consistent:
  assumes "(save_step num sha)\<^sup>*\<^sup>* s t" "save_inv s"
  shows "distinct (receipt_keys t) \<and>
    (\<forall>k a. find_attempt k t = Some a \<longrightarrow> answers_ok a \<and> receipts_ok k a t)"
  using saves.reach_inv [OF assms] by (simp add: save_inv_def)

theorem save_sequence_consistent_witness:
  "\<exists>t. (save_step unary_num id)\<^sup>*\<^sup>* sample_store t \<and> t \<noteq> sample_store \<and> save_inv sample_store \<and>
     distinct (receipt_keys t)"
proof -
  obtain r s1 r2 s2 where run: "sample_save 1 2000 sample_store = Inr (r, s1)" "ps_accepted r"
    "ps_newAnswer r = Some \<lparr>an_questionId = ''q1'', an_answer = Some (JBool True), an_version = 1,
       an_savedAt = 2000\<rparr>"
    by (rule sample_saves)
  then have "save_step unary_num id sample_store s1"
    by (intro save_step.intros)
  then have steps: "(save_step unary_num id)\<^sup>*\<^sup>* sample_store s1" by simp
  have "request_receipt (sample_request 1) sample_store = None"
    by (simp add: request_receipt_def findAnswerReceipt_def sample_store_def)
  moreover have "request_receipt (sample_request 1) s1 \<noteq> None"
    using save_accepted_receipt [OF run(1,2)] by auto
  ultimately have "s1 \<noteq> sample_store" by metis
  with steps save_sequence_consistent [OF steps sample_save_inv] sample_save_inv
  show ?thesis by blast
qed

text \<open>Saving is idempotent. Once a save was accepted, the same request sent again, after any
  number of other saves and while the attempt is still open at the new instant, is accepted with
  the same version and the same saved-at time, and changes nothing.\<close>

lemma save_replay_idempotent:
  assumes first: "saveAnswer num sha rs ctx req can s = Inr (r, s1)" "ps_accepted r"
    and between: "(save_step num sha)\<^sup>*\<^sup>* s1 s2"
    and again: "mc_attemptId ctx2 = mc_attemptId ctx" "mc_attemptRepo ctx2 = ro_attemptRepo rs2"
      "\<forall>d. mc_effectiveDeadline ctx2 = Some d \<longrightarrow> mc_checkedAt ctx2 < d"
  shows "\<exists>r2. saveAnswer num sha rs2 ctx2 req can s2 = Inr (r2, s2) \<and> ps_accepted r2 \<and>
    ps_serverVersion r2 = ps_serverVersion r \<and> ps_savedAt r2 = ps_savedAt r"
proof -
  obtain a q answer receipt where ready: "save_ready rs ctx req s a q"
    and status: "at_status a \<notin> {Voided, Submitted, Graded}"
    and can: "canonical (map_option (\<lambda>f. f q) can) req = Inr answer"
    and ident: "canonicalAnswerIdentity num sha answer = Inr (rc_answerIdentity receipt)"
    and receipt: "request_receipt req s1 = Some receipt"
    and r: "ps_serverVersion r = rc_version receipt" "ps_savedAt r = rc_savedAt receipt"
    using save_accepted_receipt [OF first] by blast
  obtain a1 where a1: "find_attempt (rq_attemptId req) s1 = Some a1" "at_status a1 = at_status a"
    "at_questionSnapshot a1 = at_questionSnapshot a"
    using saveAnswer_keeps_attempt [OF first(1) save_ready_attempt [OF ready]] by blast
  obtain a2 where a2: "find_attempt (rq_attemptId req) s2 = Some a2" "at_status a2 = at_status a"
    "at_questionSnapshot a2 = at_questionSnapshot a"
    using save_steps_keep_attempt [OF between a1(1)] a1(2,3) by auto
  have "save_ready rs2 ctx2 req s2 a2 q"
    using ready again(1,2) a2 by (auto simp: save_ready_def)
  moreover have "save_open (answer_state ctx2 a2 None)"
    using status again(3) a2(2) by (simp add: save_open_def)
  moreover have "request_receipt req s2 = Some receipt"
    using save_steps_keep_receipt [OF between] receipt by (simp add: request_receipt_def)
  ultimately show ?thesis
    using replay_run can ident r by metis
qed

lemma save_replay_idempotent_witness:
  "\<exists>r s1 r2. sample_save 1 2000 sample_store = Inr (r, s1) \<and> ps_accepted r \<and>
     sample_save 1 9000 s1 = Inr (r2, s1) \<and> ps_serverVersion r2 = ps_serverVersion r \<and>
     ps_savedAt r2 = ps_savedAt r"
proof -
  obtain r s1 r2 s2 where run: "sample_save 1 2000 sample_store = Inr (r, s1)" "ps_accepted r"
    by (rule sample_saves)
  from save_replay_idempotent [OF run rtranclp.rtrancl_refl, of "sample_context 9000" sample_repos] run
  show ?thesis by (auto simp: sample_context_def sample_repos_def)
qed

text \<open>No update is lost. After a save of a question was accepted as new, a save that was based
  on the same or an older version of that question is never written: the store stays as the first
  save left it. Unless it replays a receipt of its own it is refused, and a stale-version conflict
  carries the version and the answer that the first save stored.\<close>

lemma save_no_lost_update:
  assumes first: "saveAnswer num sha rs ctx req can s = Inr (r, s1)" "ps_newAnswer r = Some row"
    and second: "saveAnswer num sha rs2 ctx2 req2 can2 s1 = Inr (r2, s2)"
    and same: "rq_attemptId req2 = rq_attemptId req" "rq_questionId req2 = rq_questionId req"
      "rq_baseVersion req2 \<le> rq_baseVersion req"
  shows "s2 = s1 \<and> ps_newAnswer r2 = None \<and>
    (request_receipt req2 s1 = None \<longrightarrow> \<not> ps_accepted r2) \<and>
    (\<forall>v. ps_conflict r2 = Some (STALE_VERSION, v) \<longrightarrow>
       v = an_answer row \<and> ps_serverVersion r2 = an_version row)"
  using first(1)
proof (cases rule: saveAnswer_cases)
  case (written a q answer i)
  have row: "row = saved_row req answer (mc_checkedAt ctx)"
    using first(2) written(10) by simp
  have a1: "find_attempt (rq_attemptId req2) s1 = Some (save_write req answer (mc_checkedAt ctx) a a)"
    using written(11) find_after_save [OF save_ready_attempt [OF written(1)]] same(1) by simp
  have newer: "rq_baseVersion req2 < currentVersion (rq_questionId req2)
      (at_answers (save_write req answer (mc_checkedAt ctx) a a))"
    using same(2,3) by (simp add: currentVersion_after_save)
  from second show ?thesis
  proof (cases rule: saveAnswer_cases)
    case (kept b q2)
    then have b: "b = save_write req answer (mc_checkedAt ctx) a a"
      using a1 save_ready_attempt by fastforce
    have not_accepted: "\<not> ps_accepted r2" if "request_receipt req2 s1 = None"
      using kept(5,3) that by (cases rule: processSaveAnswer_cases) auto
    show ?thesis
      using kept stale_conflict_carries [OF kept(5), unfolded answer_state_simps b] same(2)
      by (auto simp: findAnswer_after_save currentVersion_after_save row not_accepted)
  next
    case (written b q2 answer2 i2)
    with a1 newer show ?thesis using save_ready_attempt by fastforce
  qed
qed (use first(2) in simp)

lemma save_no_lost_update_witness:
  "\<exists>r s1 r2 s2. sample_save 1 2000 sample_store = Inr (r, s1) \<and> ps_newAnswer r \<noteq> None \<and>
     sample_save 2 3000 s1 = Inr (r2, s2) \<and> s2 = s1 \<and> ps_newAnswer r2 = None"
proof -
  obtain r s1 r2 s2 where run: "sample_save 1 2000 sample_store = Inr (r, s1)"
    "ps_newAnswer r = Some \<lparr>an_questionId = ''q1'', an_answer = Some (JBool True), an_version = 1,
       an_savedAt = 2000\<rparr>" "sample_save 2 3000 s1 = Inr (r2, s2)"
    by (rule sample_saves)
  from save_no_lost_update [OF run] run show ?thesis by (simp add: sample_request_def)
qed

text \<open>A save touches one answer. A save that is accepted as new stores exactly the canonical
  answer under the next version of its question, leaves every other answer of the attempt, every
  other field but the heartbeat, every other attempt and every other table as they were, and adds
  one receipt; every other outcome, acceptance by replay included, leaves the store unchanged. A
  save at or after the effective deadline is never written.\<close>

lemma save_touches_one_answer:
  assumes "saveAnswer num sha rs ctx req can s = Inr (r, s')"
  shows "case ps_newAnswer r of
      None \<Rightarrow> s' = s
    | Some row \<Rightarrow> \<exists>a a'. find_attempt (rq_attemptId req) s = Some a \<and>
        find_attempt (rq_attemptId req) s' = Some a' \<and>
        a' = a\<lparr>at_answers := at_answers a', at_lastActivityAt := Some (mc_checkedAt ctx)\<rparr> \<and>
        at_status a \<notin> {Voided, Submitted, Graded} \<and>
        findAnswer (rq_questionId req) (at_answers a') = Some row \<and>
        an_version row = currentVersion (rq_questionId req) (at_answers a) + 1 \<and>
        (\<forall>k. k \<noteq> rq_questionId req \<longrightarrow> findAnswer k (at_answers a') = findAnswer k (at_answers a)) \<and>
        (\<forall>j. j \<noteq> rq_attemptId req \<longrightarrow> find_attempt j s' = find_attempt j s) \<and>
        (\<forall>d. mc_effectiveDeadline ctx = Some d \<longrightarrow> mc_checkedAt ctx < d) \<and>
        (\<exists>receipt. s' = s\<lparr>st_attempts := st_attempts s', st_receipts := st_receipts s @ [receipt]\<rparr>)"
  using assms
proof (cases rule: saveAnswer_cases)
  case (written a q answer i)
  note a = save_ready_attempt [OF written(1)]
  show ?thesis
    using a written(2,6) find_after_save [OF a]
    unfolding written(10) option.case written(11)
    by (auto simp: findAnswer_after_save save_open_def save_write_def upd_attempt_def saved_receipt_def)
qed simp

lemma save_touches_one_answer_witness:
  "\<exists>r s1 a'. sample_save 1 2000 sample_store = Inr (r, s1) \<and> find_attempt ''a1'' s1 = Some a' \<and>
     findAnswer ''q1'' (at_answers a') = Some \<lparr>an_questionId = ''q1'', an_answer = Some (JBool True),
       an_version = 1, an_savedAt = 2000\<rparr>"
proof -
  obtain r s1 r2 s2 where run: "sample_save 1 2000 sample_store = Inr (r, s1)"
    "ps_newAnswer r = Some \<lparr>an_questionId = ''q1'', an_answer = Some (JBool True), an_version = 1,
       an_savedAt = 2000\<rparr>"
    by (rule sample_saves)
  from save_touches_one_answer [OF run(1)] run show ?thesis
    by (auto simp: sample_request_def)
qed

text \<open>The frozen snapshot is complete and in order. It has one entry per question of the paper,
  in the order the paper presents them, and each entry carries the stored draft answer of its
  question, or null where there is none.\<close>

lemma submitted_snapshot_complete:
  assumes "distinct (map an_questionId answers)"
  shows "map fst (buildSubmittedAnswersSnapshot answers qs) =
      map qs_originalQuestionId (sort_key qs_order qs) \<and>
    (\<forall>(k, v) \<in> set (buildSubmittedAnswersSnapshot answers qs).
       v = (case findAnswer k answers of None \<Rightarrow> None | Some a \<Rightarrow> or_null (an_answer a)))"
proof -
  have "js_map_get (map (\<lambda>a. (an_questionId a, an_answer a)) answers) k =
      map_option an_answer (findAnswer k answers)" for k
  proof -
    have "map_of (map (\<lambda>a. (an_questionId a, an_answer a)) answers) k =
        map_option an_answer (findAnswer k answers)"
      by (induction answers) (auto simp: findAnswer_def)
    then show ?thesis
      using assms by (simp add: js_map_get_distinct o_def)
  qed
  then show ?thesis
    by (auto simp: buildSubmittedAnswersSnapshot_def Let_def split: option.splits)
qed

lemma submitted_snapshot_complete_witness:
  "distinct (map an_questionId [\<lparr>an_questionId = ''q2'', an_answer = Some (JStr ''x''), an_version = 3,
      an_savedAt = 0\<rparr>]) \<and>
   map fst (buildSubmittedAnswersSnapshot [\<lparr>an_questionId = ''q2'', an_answer = Some (JStr ''x''),
      an_version = 3, an_savedAt = 0\<rparr>] sample_questions) = [''q1'', ''q2'']"
  using submitted_snapshot_complete [of "[\<lparr>an_questionId = ''q2'', an_answer = Some (JStr ''x''),
    an_version = 3, an_savedAt = 0\<rparr>]" sample_questions]
  by (simp add: sample_questions_def sample_question_def)

end
