(* ===== verification/Grading_Workset.thy ===== *)
theory Grading_Workset
  imports Answer_Protocol Grading_Engine "HOL-Library.Multiset"
begin

text \<open>
  \<^verbatim>\<open>packages/exam-engine/src/gradingWorkset.ts\<close>: the grading entries expected of a frozen attempt,
  their materialization, the consistency check of an existing workset and the terminal
  aggregation. A violated check is a plain \<^verbatim>\<open>Error\<close> (\<open>EngineError\<close>). \<open>lower\<close> is the lower casing of
  the grading engine, \<open>num\<close> the printing of numbers.
\<close>

section \<open>Expected entries\<close>

record ExpectedGradingEntry =
  xe_questionId :: ident
  xe_gradingMode :: GradingEntryMode
  xe_status :: GradingEntryStatus
  xe_maxScore :: jsnum
  xe_earnedScore :: "jsnum option"
  xe_candidateAnswer :: "json option"
  xe_standardAnswer :: "json option"
  xe_correct :: "bool option"

definition buildFrozenAnswerMap :: "ExamAttempt \<Rightarrow> app_error + (ident \<Rightarrow> json option option)" where
  "buildFrozenAnswerMap attempt =
     (case at_submittedAnswers attempt of
        None \<Rightarrow> Inl (EngineError ''Cannot compute grading workset: submittedAnswers is null'')
      | Some answers \<Rightarrow> Inr (js_map_get answers))"

definition expected_entry :: "(string \<Rightarrow> string) \<Rightarrow> (ident \<Rightarrow> json option option) \<Rightarrow> QuestionSnapshot \<Rightarrow>
    ExpectedGradingEntry" where
  "expected_entry lower answerMap question =
     (let candidateAnswer =
            (case answerMap (qs_originalQuestionId question) of None \<Rightarrow> None | Some v \<Rightarrow> or_null v)
      in if isManualGradedQuestion question
         then \<lparr>xe_questionId = qs_originalQuestionId question, xe_gradingMode = ManualMode,
               xe_status = EntryPendingManual, xe_maxScore = qs_score question,
               xe_earnedScore = None, xe_candidateAnswer = candidateAnswer,
               xe_standardAnswer = or_null (qs_standardAnswer question), xe_correct = None\<rparr>
         else
           let result = gradeQuestion_auto lower question candidateAnswer
           in \<lparr>xe_questionId = qs_originalQuestionId question, xe_gradingMode = AutoMode,
               xe_status = CompletedAuto, xe_maxScore = qs_score question,
               xe_earnedScore = Some (qr_score result), xe_candidateAnswer = candidateAnswer,
               xe_standardAnswer = or_null (qs_standardAnswer question),
               xe_correct = Some (qr_correct result)\<rparr>)"

definition computeExpectedGradingEntries ::
  "(string \<Rightarrow> string) \<Rightarrow> ExamAttempt \<Rightarrow> app_error + ExpectedGradingEntry list" where
  "computeExpectedGradingEntries lower attempt =
     bindR (buildFrozenAnswerMap attempt) (\<lambda>answerMap.
       Inr (map (expected_entry lower answerMap) (at_questionSnapshot attempt)))"

definition entry_row :: "ident \<Rightarrow> ExpectedGradingEntry \<Rightarrow> AttemptGradingEntry" where
  "entry_row attemptId e =
     \<lparr>ge_attemptId = attemptId, ge_questionId = xe_questionId e, ge_gradingMode = xe_gradingMode e,
      ge_status = xe_status e, ge_maxScore = xe_maxScore e, ge_earnedScore = xe_earnedScore e,
      ge_candidateAnswer = xe_candidateAnswer e, ge_standardAnswer = xe_standardAnswer e,
      ge_correct = xe_correct e, ge_comment = '''', ge_gradedBy = None, ge_gradedAt = None\<rparr>"

definition materializeGradingWorkset :: "(string \<Rightarrow> string) \<Rightarrow> ExamAttempt \<Rightarrow> unit action" where
  "materializeGradingWorkset lower attempt =
     bindC (liftC (computeExpectedGradingEntries lower attempt)) (\<lambda>expected.
       bulkCreate (map (entry_row (at_id attempt)) expected))"

section \<open>Consistency of an existing workset\<close>

definition inconsistent :: "string \<Rightarrow> app_error" where
  "inconsistent what = EngineError (''Grading workset inconsistency: '' @ what)"

definition check_manual :: "AttemptGradingEntry \<Rightarrow> app_error + unit" where
  "check_manual entry =
     bindR (guardR (ge_status entry = EntryPendingManual \<or> ge_status entry = CompletedManual)
       (inconsistent ''manual entry status is not valid'')) (\<lambda>_.
     bindR (if ge_status entry = EntryPendingManual
       then bindR (guardR (ge_earnedScore entry = None)
              (inconsistent ''pending_manual entry must have null earnedScore'')) (\<lambda>_.
            guardR (ge_correct entry = None)
              (inconsistent ''pending_manual entry must have null correct''))
       else Inr ()) (\<lambda>_.
     if ge_status entry = CompletedManual
     then (case ge_earnedScore entry of
             None \<Rightarrow> Inl (inconsistent ''completed_manual entry must have non-null earnedScore'')
           | Some earned \<Rightarrow>
               bindR (guardR (\<not> (earned < 0 \<or> earned > ge_maxScore entry))
                 (inconsistent ''completed_manual earnedScore out of range'')) (\<lambda>_.
               guardR (ge_correct entry = Some (earned \<ge> ge_maxScore entry))
                 (inconsistent ''correct does not match the write-contract derivation'')))
     else Inr ()))"

definition check_entry ::
  "(jsnum \<Rightarrow> string) \<Rightarrow> ExpectedGradingEntry \<Rightarrow> AttemptGradingEntry \<Rightarrow> app_error + unit" where
  "check_entry num ex entry =
     bindR (guardR (ge_gradingMode entry = xe_gradingMode ex) (inconsistent ''gradingMode'')) (\<lambda>_.
     bindR (guardR (ge_maxScore entry = xe_maxScore ex) (inconsistent ''maxScore'')) (\<lambda>_.
     bindR (guardR (payloadsEqual num (ge_candidateAnswer entry) (xe_candidateAnswer ex))
       (inconsistent ''candidateAnswer does not match frozen submitted truth'')) (\<lambda>_.
     bindR (guardR (payloadsEqual num (ge_standardAnswer entry) (xe_standardAnswer ex))
       (inconsistent ''standardAnswer does not match frozen questionSnapshot truth'')) (\<lambda>_.
     if xe_gradingMode ex = AutoMode
     then bindR (guardR (ge_status entry = CompletedAuto) (inconsistent ''auto entry status'')) (\<lambda>_.
          bindR (guardR (ge_earnedScore entry = xe_earnedScore ex) (inconsistent ''earnedScore'')) (\<lambda>_.
          guardR (ge_correct entry = xe_correct ex) (inconsistent ''correct'')))
     else check_manual entry))))"

definition validateGradingWorksetConsistency ::
  "(string \<Rightarrow> string) \<Rightarrow> (jsnum \<Rightarrow> string) \<Rightarrow> ExamAttempt \<Rightarrow> AttemptGradingEntry list \<Rightarrow> app_error + unit"
  where
  "validateGradingWorksetConsistency lower num attempt existing =
     bindR (computeExpectedGradingEntries lower attempt) (\<lambda>expected.
     bindR (guardR (length existing = length expected) (inconsistent ''entry count'')) (\<lambda>_.
     bindR (forR expected (\<lambda>ex.
       case js_map_get (map (\<lambda>e. (ge_questionId e, e)) existing) (xe_questionId ex) of
         None \<Rightarrow> Inl (inconsistent ''missing entry'')
       | Some entry \<Rightarrow> check_entry num ex entry)) (\<lambda>_.
     forR existing (\<lambda>entry.
       guardR (js_map_get (map (\<lambda>e. (xe_questionId e, e)) expected) (ge_questionId entry) \<noteq> None)
         (inconsistent ''extra entry'')))))"

section \<open>Terminal aggregation\<close>

record GradingEntryAggregate =
  ag_questionResults :: "QuestionScoreResult list"
  ag_totalScore :: jsnum
  ag_maxScore :: jsnum
  ag_passed :: bool

fun expectedTerminalStatus :: "GradingEntryMode \<Rightarrow> GradingEntryStatus" where
  "expectedTerminalStatus AutoMode = CompletedAuto"
| "expectedTerminalStatus ManualMode = CompletedManual"

definition aggregation_error :: "string \<Rightarrow> app_error" where
  "aggregation_error what = EngineError (''Grading aggregation inconsistency: '' @ what)"

definition check_terminal :: "QuestionSnapshot \<Rightarrow> AttemptGradingEntry \<Rightarrow> app_error + unit" where
  "check_terminal question entry =
     bindR (guardR (ge_gradingMode entry =
         (if isManualGradedQuestion question then ManualMode else AutoMode))
       (aggregation_error ''gradingMode'')) (\<lambda>_.
     bindR (guardR (ge_maxScore entry = qs_score question) (aggregation_error ''maxScore'')) (\<lambda>_.
     bindR (guardR (ge_status entry = expectedTerminalStatus (ge_gradingMode entry))
       (aggregation_error ''status is not terminal'')) (\<lambda>_.
     case ge_earnedScore entry of
       None \<Rightarrow> Inl (aggregation_error ''terminal entry has null earnedScore'')
     | Some earned \<Rightarrow>
         guardR (\<not> (earned < 0 \<or> earned > ge_maxScore entry))
           (aggregation_error ''earnedScore out of range''))))"

definition entry_result :: "QuestionSnapshot \<Rightarrow> AttemptGradingEntry \<Rightarrow> QuestionScoreResult" where
  "entry_result question entry =
     (let earned = (case ge_earnedScore entry of None \<Rightarrow> 0 | Some e \<Rightarrow> e);
          correct = (case ge_correct entry of None \<Rightarrow> earned \<ge> ge_maxScore entry | Some c \<Rightarrow> c)
      in \<lparr>qr_questionId = qs_originalQuestionId question, qr_score = earned,
          qr_maxScore = ge_maxScore entry, qr_correct = correct,
          qr_candidateAnswer = or_null (ge_candidateAnswer entry),
          qr_standardAnswer = or_null (qs_standardAnswer question)\<rparr>)"

definition aggregateGradingEntries ::
  "ExamAttempt \<Rightarrow> AttemptGradingEntry list \<Rightarrow> jsnum \<Rightarrow> app_error + GradingEntryAggregate" where
  "aggregateGradingEntries attempt entries passingScore =
     (let questions = at_questionSnapshot attempt;
          entryByQuestion = map_of (map (\<lambda>e. (ge_questionId e, e)) entries)
      in
      bindR (guardR (length entries = length questions) (aggregation_error ''entry count'')) (\<lambda>_.
      bindR (guardR (distinct (map ge_questionId entries)) (aggregation_error ''duplicate entry'')) (\<lambda>_.
      bindR (forR questions (\<lambda>question.
        case entryByQuestion (qs_originalQuestionId question) of
          None \<Rightarrow> Inl (aggregation_error ''missing grading entry'')
        | Some entry \<Rightarrow> check_terminal question entry)) (\<lambda>_.
      let questionResults = map (\<lambda>question.
            case entryByQuestion (qs_originalQuestionId question) of
              None \<Rightarrow> \<lparr>qr_questionId = qs_originalQuestionId question, qr_score = 0, qr_maxScore = 0,
                       qr_correct = False, qr_candidateAnswer = None, qr_standardAnswer = None\<rparr>
            | Some entry \<Rightarrow> entry_result question entry) questions;
          totalScore = foldl (\<lambda>sum r. sum + qr_score r) 0 questionResults;
          maxScore = foldl (\<lambda>sum r. sum + qr_maxScore r) 0 questionResults
      in Inr \<lparr>ag_questionResults = questionResults, ag_totalScore = totalScore,
              ag_maxScore = maxScore, ag_passed = (totalScore \<ge> passingScore)\<rparr>))))"

section \<open>Lemmas\<close>

declare gradeQuestion_auto.simps [simp del]

lemma or_null_idem [simp]: "or_null (or_null x) = or_null x"
  by (cases x rule: or_null.cases) simp_all

lemma or_null_None [simp]: "or_null None = None"
  by simp

lemma check_manual_iff [cmd_iff]:
  "check_manual e = Inr u \<longleftrightarrow>
     (ge_status e = EntryPendingManual \<and> ge_earnedScore e = None \<and> ge_correct e = None) \<or>
     (ge_status e = CompletedManual \<and>
      (\<exists>x. ge_earnedScore e = Some x \<and> 0 \<le> x \<and> x \<le> ge_maxScore e \<and>
         ge_correct e = Some (x \<ge> ge_maxScore e)))"
  by (cases "ge_status e") (auto simp: check_manual_def bindR_Inr_iff not_less split: option.splits)

lemma check_entry_iff [cmd_iff]:
  "check_entry num ex e = Inr u \<longleftrightarrow>
     ge_gradingMode e = xe_gradingMode ex \<and> ge_maxScore e = xe_maxScore ex \<and>
     payloadsEqual num (ge_candidateAnswer e) (xe_candidateAnswer ex) \<and>
     payloadsEqual num (ge_standardAnswer e) (xe_standardAnswer ex) \<and>
     (if xe_gradingMode ex = AutoMode
      then ge_status e = CompletedAuto \<and> ge_earnedScore e = xe_earnedScore ex \<and>
           ge_correct e = xe_correct ex
      else check_manual e = Inr ())"
  by (auto simp: check_entry_def bindR_Inr_iff)

definition terminal_entry :: "QuestionSnapshot \<Rightarrow> AttemptGradingEntry \<Rightarrow> bool" where
  "terminal_entry q e \<longleftrightarrow>
     ge_gradingMode e = (if isManualGradedQuestion q then ManualMode else AutoMode) \<and>
     ge_maxScore e = qs_score q \<and> ge_status e = expectedTerminalStatus (ge_gradingMode e) \<and>
     (\<exists>x. ge_earnedScore e = Some x \<and> 0 \<le> x \<and> x \<le> ge_maxScore e)"

lemma check_terminal_iff [cmd_iff]: "check_terminal q e = Inr u \<longleftrightarrow> terminal_entry q e"
  by (auto simp: check_terminal_def terminal_entry_def bindR_Inr_iff not_less split: option.splits)

definition entry_for :: "AttemptGradingEntry list \<Rightarrow> ident \<Rightarrow> AttemptGradingEntry option" where
  "entry_for entries k = map_of (map (\<lambda>e. (ge_questionId e, e)) entries) k"

lemma entry_for_D: "entry_for es k = Some e \<Longrightarrow> e \<in> set es \<and> ge_questionId e = k"
  by (induction es) (auto simp: entry_for_def split: if_splits)

lemma entry_for_in:
  "distinct (map ge_questionId es) \<Longrightarrow> e \<in> set es \<Longrightarrow> entry_for es (ge_questionId e) = Some e"
  unfolding entry_for_def by (rule map_of_is_SomeI) (auto simp: o_def)

lemma entry_for_last:
  "distinct (map ge_questionId es) \<Longrightarrow> js_map_get (map (\<lambda>e. (ge_questionId e, e)) es) k = entry_for es k"
  by (simp add: entry_for_def js_map_get_distinct o_def)

lemma entry_for_order:
  assumes "mset es = mset fs" "distinct (map ge_questionId es)"
  shows "entry_for es = entry_for fs"
proof -
  have "distinct (map ge_questionId fs)"
    using assms by (metis mset_map mset_eq_imp_distinct_iff)
  moreover have "set es = set fs"
    using assms(1) by (rule mset_eq_setD)
  ultimately have "map_of (map (\<lambda>e. (ge_questionId e, e)) es) = map_of (map (\<lambda>e. (ge_questionId e, e)) fs)"
    using assms(2) by (subst map_of_inject_set) (simp_all add: o_def)
  then show ?thesis by (simp add: entry_for_def [abs_def])
qed

text \<open>The terminal workset of a paper, and what aggregation makes of it.\<close>

definition terminal_workset :: "QuestionSnapshot list \<Rightarrow> AttemptGradingEntry list \<Rightarrow> bool" where
  "terminal_workset qs es \<longleftrightarrow>
     length es = length qs \<and> distinct (map ge_questionId es) \<and>
     (\<forall>q\<in>set qs. \<exists>e. entry_for es (qs_originalQuestionId q) = Some e \<and> terminal_entry q e)"

definition earned_of :: "AttemptGradingEntry list \<Rightarrow> QuestionSnapshot \<Rightarrow> jsnum" where
  "earned_of es q = the (ge_earnedScore (the (entry_for es (qs_originalQuestionId q))))"

lemma aggregate_iff:
  "aggregateGradingEntries a es p = Inr ag \<longleftrightarrow>
     terminal_workset (at_questionSnapshot a) es \<and>
     ag_questionResults ag =
       map (\<lambda>q. entry_result q (the (entry_for es (qs_originalQuestionId q)))) (at_questionSnapshot a) \<and>
     ag_totalScore ag = sum_list (map (earned_of es) (at_questionSnapshot a)) \<and>
     ag_maxScore ag = sum_list (map qs_score (at_questionSnapshot a)) \<and>
     ag_passed ag = (ag_totalScore ag \<ge> p)"
  (is "_ \<longleftrightarrow> ?ok \<and> ?rest")
proof -
  let ?qs = "at_questionSnapshot a"
  let ?res = "\<lambda>q. case entry_for es (qs_originalQuestionId q) of
      None \<Rightarrow> \<lparr>qr_questionId = qs_originalQuestionId q, qr_score = 0, qr_maxScore = 0,
        qr_correct = False, qr_candidateAnswer = None, qr_standardAnswer = None\<rparr>
    | Some e \<Rightarrow> entry_result q e"
  have run: "aggregateGradingEntries a es p = Inr ag \<longleftrightarrow> ?ok \<and>
      ag = \<lparr>ag_questionResults = map ?res ?qs, ag_totalScore = sum_list (map qr_score (map ?res ?qs)),
        ag_maxScore = sum_list (map qr_maxScore (map ?res ?qs)),
        ag_passed = (sum_list (map qr_score (map ?res ?qs)) \<ge> p)\<rparr>"
    unfolding aggregateGradingEntries_def Let_def entry_for_def [symmetric] foldl_sum
    by (auto simp: cmd_iff terminal_workset_def split: option.splits)
  have each: "?res q = entry_result q (the (entry_for es (qs_originalQuestionId q))) \<and>
      qr_score (entry_result q (the (entry_for es (qs_originalQuestionId q)))) = earned_of es q \<and>
      qr_maxScore (entry_result q (the (entry_for es (qs_originalQuestionId q)))) = qs_score q"
    if ok: ?ok and q: "q \<in> set ?qs" for q
  proof -
    obtain e where "entry_for es (qs_originalQuestionId q) = Some e" "terminal_entry q e"
      using ok q unfolding terminal_workset_def by blast
    then show ?thesis
      by (auto simp: terminal_entry_def entry_result_def earned_of_def Let_def)
  qed
  show ?thesis
  proof (cases ?ok)
    case True
    let ?rs = "map (\<lambda>q. entry_result q (the (entry_for es (qs_originalQuestionId q)))) ?qs"
    have res: "map ?res ?qs = ?rs"
      using each [OF True] by simp
    have sums: "map qr_score ?rs = map (earned_of es) ?qs" "map qr_maxScore ?rs = map qs_score ?qs"
      using each [OF True] by simp_all
    show ?thesis
      unfolding run res sums by (cases ag) (auto simp: True)
  qed (use run in blast)
qed

subsection \<open>The workset of a fresh submission\<close>

text \<open>The rows that submission materializes for an attempt with the frozen answers \<open>sub\<close>.\<close>

definition fresh_rows :: "(string \<Rightarrow> string) \<Rightarrow> ExamAttempt \<Rightarrow> SubmittedAnswersSnapshot \<Rightarrow>
    AttemptGradingEntry list" where
  "fresh_rows lower a sub =
     map (\<lambda>q. entry_row (at_id a) (expected_entry lower (js_map_get sub) q)) (at_questionSnapshot a)"

lemma expected_entry_question [simp]:
  "xe_questionId (expected_entry lower m q) = qs_originalQuestionId q"
  by (simp add: expected_entry_def Let_def)

lemma expected_entry_shape:
  "xe_maxScore (expected_entry lower m q) = qs_score q"
  "xe_standardAnswer (expected_entry lower m q) = or_null (qs_standardAnswer q)"
  "xe_gradingMode (expected_entry lower m q) =
     (if isManualGradedQuestion q then ManualMode else AutoMode)"
  by (simp_all add: expected_entry_def Let_def)

lemma entry_row_simps [simp]:
  "ge_attemptId (entry_row k e) = k" "ge_questionId (entry_row k e) = xe_questionId e"
  "ge_gradingMode (entry_row k e) = xe_gradingMode e" "ge_status (entry_row k e) = xe_status e"
  "ge_maxScore (entry_row k e) = xe_maxScore e" "ge_earnedScore (entry_row k e) = xe_earnedScore e"
  "ge_candidateAnswer (entry_row k e) = xe_candidateAnswer e"
  "ge_standardAnswer (entry_row k e) = xe_standardAnswer e" "ge_correct (entry_row k e) = xe_correct e"
  by (simp_all add: entry_row_def)

lemma fresh_rows_questions:
  "map ge_questionId (fresh_rows lower a sub) = map qs_originalQuestionId (at_questionSnapshot a)"
  by (simp add: fresh_rows_def)

lemma computeExpected_iff [cmd_iff]:
  "computeExpectedGradingEntries lower a = Inr es \<longleftrightarrow>
     (\<exists>sub. at_submittedAnswers a = Some sub \<and>
        es = map (expected_entry lower (js_map_get sub)) (at_questionSnapshot a))"
  by (auto simp: computeExpectedGradingEntries_def buildFrozenAnswerMap_def bindR_Inr_iff
      split: option.splits)

lemma materialize_iff [cmd_iff]:
  "materializeGradingWorkset lower a s = Inr (u, s') \<longleftrightarrow>
     (\<exists>sub. at_submittedAnswers a = Some sub \<and> bulkCreate (fresh_rows lower a sub) s = Inr (u, s'))"
  by (auto simp: materializeGradingWorkset_def cmd_iff fresh_rows_def o_def)

lemma fresh_entry_for:
  assumes "distinct (map qs_originalQuestionId (at_questionSnapshot a))"
    and "mset es = mset (fresh_rows lower a sub)" and "q \<in> set (at_questionSnapshot a)"
  shows "entry_for es (qs_originalQuestionId q) =
    Some (entry_row (at_id a) (expected_entry lower (js_map_get sub) q))"
proof -
  have d: "distinct (map ge_questionId (fresh_rows lower a sub))"
    using assms(1) by (simp only: fresh_rows_questions)
  have "entry_row (at_id a) (expected_entry lower (js_map_get sub) q) \<in> set (fresh_rows lower a sub)"
    using assms(3) by (simp add: fresh_rows_def)
  from entry_for_in [OF d this] entry_for_order [OF assms(2) [symmetric] d]
  show ?thesis by simp
qed

lemma fresh_distinct:
  assumes "distinct (map qs_originalQuestionId (at_questionSnapshot a))"
    and "mset es = mset (fresh_rows lower a sub)"
  shows "distinct (map ge_questionId es)" "length es = length (at_questionSnapshot a)"
    and "set (map ge_questionId es) = qs_originalQuestionId ` set (at_questionSnapshot a)"
proof -
  have m: "mset (map ge_questionId es) = mset (map qs_originalQuestionId (at_questionSnapshot a))"
    using arg_cong [OF assms(2), of "image_mset ge_questionId"] fresh_rows_questions [of lower a sub]
    by (metis mset_map)
  show "distinct (map ge_questionId es)"
    using m assms(1) mset_eq_imp_distinct_iff by blast
  show "length es = length (at_questionSnapshot a)"
    using m by (metis length_map mset_eq_length)
  show "set (map ge_questionId es) = qs_originalQuestionId ` set (at_questionSnapshot a)"
    using mset_eq_setD [OF m] by simp
qed

lemma expected_entry_valid:
  "check_entry num (expected_entry lower m q) (entry_row k (expected_entry lower m q)) = Inr ()"
  by (simp add: check_entry_iff check_manual_iff expected_entry_def Let_def)

lemma fresh_workset_valid:
  assumes "at_submittedAnswers a = Some sub"
    and "distinct (map qs_originalQuestionId (at_questionSnapshot a))"
    and "mset es = mset (fresh_rows lower a sub)"
  shows "validateGradingWorksetConsistency lower num a es = Inr ()"
proof -
  let ?ex = "map (expected_entry lower (js_map_get sub)) (at_questionSnapshot a)"
  have ex: "computeExpectedGradingEntries lower a = Inr ?ex"
    using assms(1) by (simp add: computeExpected_iff)
  have keys: "distinct (map fst (map (\<lambda>e. (xe_questionId e, e)) ?ex))"
    using assms(2) by (simp add: o_def)
  have "js_map_get (map (\<lambda>e. (xe_questionId e, e)) ?ex) (ge_questionId e) \<noteq> None" if "e \<in> set es" for e
  proof -
    have "ge_questionId e \<in> set (map ge_questionId es)"
      using that by simp
    then have "ge_questionId e \<in> fst ` set (map (\<lambda>e. (xe_questionId e, e)) ?ex)"
      unfolding fresh_distinct(3) [OF assms(2,3)] by (simp add: image_image)
    then show ?thesis
      unfolding js_map_get_distinct [OF keys] by (metis map_of_eq_None_iff)
  qed
  then have extra: "forR es (\<lambda>e. guardR (js_map_get (map (\<lambda>e. (xe_questionId e, e)) ?ex) (ge_questionId e) \<noteq> None)
      (inconsistent ''extra entry'')) = Inr ()"
    unfolding forR_Inr_iff guardR_iff by blast
  have "(case js_map_get (map (\<lambda>e. (ge_questionId e, e)) es) (xe_questionId x) of
      None \<Rightarrow> Inl (inconsistent ''missing entry'') | Some entry \<Rightarrow> check_entry num x entry) = Inr ()"
    if "x \<in> set ?ex" for x
    using that fresh_entry_for [OF assms(2,3)]
    by (auto simp: entry_for_last [OF fresh_distinct(1) [OF assms(2,3)]] expected_entry_valid)
  then have each: "forR ?ex (\<lambda>x. case js_map_get (map (\<lambda>e. (ge_questionId e, e)) es) (xe_questionId x) of
      None \<Rightarrow> Inl (inconsistent ''missing entry'') | Some entry \<Rightarrow> check_entry num x entry) = Inr ()"
    unfolding forR_Inr_iff by blast
  show ?thesis
    unfolding validateGradingWorksetConsistency_def ex bindR_simps each extra
    by (simp add: fresh_distinct(2) [OF assms(2,3)])
qed

subsection \<open>Two scoring authorities\<close>

text \<open>\<^verbatim>\<open>computeGradingResult\<close> regrades the frozen answers with the grading engine; the terminal
  projection sums the workset.\<close>

definition frozen_records :: "SubmittedAnswersSnapshot \<Rightarrow> time \<Rightarrow> AnswerRecord list" where
  "frozen_records sub now =
     map (\<lambda>(k, v). \<lparr>an_questionId = k, an_answer = v, an_version = 0, an_savedAt = now\<rparr>) sub"

definition normalized :: "SubmittedAnswersSnapshot \<Rightarrow> bool" where
  "normalized sub \<longleftrightarrow> (\<forall>(k, v)\<in>set sub. v \<noteq> Some JNull)"

lemma normalized_or_null: "normalized sub \<Longrightarrow> js_map_get sub k = Some v \<Longrightarrow> or_null v = v"
  by (cases v rule: or_null.cases)
    (fastforce simp: normalized_def js_map_get_def dest: map_of_SomeD)+

lemma or_null_not_null [simp]: "or_null x \<noteq> Some JNull"
  by (cases x rule: or_null.cases) simp_all

lemma build_normalized: "normalized (buildSubmittedAnswersSnapshot answers qs)"
  by (auto simp: normalized_def buildSubmittedAnswersSnapshot_def Let_def)

lemma frozen_records_map:
  "js_map_get (map (\<lambda>a. (an_questionId a, an_answer a)) (frozen_records sub now)) = js_map_get sub"
  by (simp add: frozen_records_def o_def case_prod_beta)

lemma fresh_earned:
  assumes "normalized sub" "\<not> isManualGradedQuestion q"
  shows "xe_earnedScore (expected_entry lower (js_map_get sub) q) =
    Some (qr_score (gradeQuestion_auto lower q
      (case js_map_get sub (qs_originalQuestionId q) of None \<Rightarrow> None | Some v \<Rightarrow> v)))"
  using assms normalized_or_null [OF assms(1)]
  by (auto simp: expected_entry_def Let_def split: option.splits)

lemma fresh_terminal:
  assumes "0 \<le> qs_score q" "\<not> isManualGradedQuestion q"
  shows "terminal_entry q (entry_row k (expected_entry lower m q))"
  using assms score_bounds [OF assms(1), of lower]
  by (simp add: terminal_entry_def expected_entry_def Let_def)

lemma check_terminal_error: "check_terminal q e = Inl err \<Longrightarrow> \<exists>m. err = EngineError m"
  by (auto simp: check_terminal_def bindR_Inl_iff aggregation_error_def split: option.splits)

lemma aggregate_error: "aggregateGradingEntries a es p = Inl err \<Longrightarrow> \<exists>m. err = EngineError m"
  by (auto simp: aggregateGradingEntries_def Let_def bindR_Inl_iff aggregation_error_def
      dest!: forR_Inl_D check_terminal_error split: option.splits)

lemma terminal_earned:
  assumes "terminal_workset qs es" "q \<in> set qs"
  shows "0 \<le> earned_of es q \<and> earned_of es q \<le> qs_score q"
proof -
  obtain e where "entry_for es (qs_originalQuestionId q) = Some e" "terminal_entry q e"
    using assms unfolding terminal_workset_def by blast
  then show ?thesis by (auto simp: earned_of_def terminal_entry_def)
qed

lemma entry_result_question [simp]: "qr_questionId (entry_result q e) = qs_originalQuestionId q"
  by (simp add: entry_result_def Let_def)

lemma entry_result_score: "ge_earnedScore e = Some x \<Longrightarrow> qr_score (entry_result q e) = x"
  by (simp add: entry_result_def Let_def)

lemma terminal_result_score:
  assumes "terminal_workset qs es" "q \<in> set qs"
  shows "qr_score (entry_result q (the (entry_for es (qs_originalQuestionId q)))) = earned_of es q"
proof -
  obtain e where "entry_for es (qs_originalQuestionId q) = Some e" "terminal_entry q e"
    using assms unfolding terminal_workset_def by blast
  then show ?thesis by (auto simp: earned_of_def terminal_entry_def entry_result_score)
qed

lemma aggregate_ok:
  assumes "terminal_workset (at_questionSnapshot a) es"
  shows "\<exists>ag. aggregateGradingEntries a es p = Inr ag"
proof -
  let ?qs = "at_questionSnapshot a"
  have "aggregateGradingEntries a es p = Inr
      \<lparr>ag_questionResults =
         map (\<lambda>q. entry_result q (the (entry_for es (qs_originalQuestionId q)))) ?qs,
       ag_totalScore = sum_list (map (earned_of es) ?qs), ag_maxScore = sum_list (map qs_score ?qs),
       ag_passed = (sum_list (map (earned_of es) ?qs) \<ge> p)\<rparr>"
    unfolding aggregate_iff using assms by simp
  then show ?thesis ..
qed

lemma aggregate_fresh_objective:
  assumes frozen: "at_submittedAnswers a = Some sub" "normalized sub"
    and paper: "distinct (map qs_originalQuestionId (at_questionSnapshot a))"
      "\<forall>q\<in>set (at_questionSnapshot a). 0 \<le> qs_score q \<and> \<not> isManualGradedQuestion q"
    and stored: "mset es = mset (fresh_rows lower a sub)"
  shows "\<exists>ag. aggregateGradingEntries a es p = Inr ag \<and>
    ag_totalScore ag =
      sr_totalScore (gradeAnswers lower (at_id a) (at_questionSnapshot a) (frozen_records sub now) p now) \<and>
    ag_passed ag =
      sr_passed (gradeAnswers lower (at_id a) (at_questionSnapshot a) (frozen_records sub now) p now)"
proof -
  let ?qs = "at_questionSnapshot a"
  let ?engine = "\<lambda>q. qr_score (gradeQuestion_auto lower q
      (case js_map_get sub (qs_originalQuestionId q) of None \<Rightarrow> None | Some v \<Rightarrow> v))"
  have entry: "entry_for es (qs_originalQuestionId q) =
      Some (entry_row (at_id a) (expected_entry lower (js_map_get sub) q))" if "q \<in> set ?qs" for q
    using fresh_entry_for [OF paper(1) stored that] .
  have "terminal_workset ?qs es"
    using fresh_distinct [OF paper(1) stored] entry paper(2) fresh_terminal
    by (simp add: terminal_workset_def)
  then obtain ag where ag: "aggregateGradingEntries a es p = Inr ag"
    using aggregate_ok by blast
  let ?result = "gradeAnswers lower (at_id a) ?qs (frozen_records sub now) p now"
  have "map (earned_of es) ?qs = map ?engine ?qs"
    using entry paper(2) fresh_earned [OF frozen(2)] by (simp add: earned_of_def)
  moreover have "sr_totalScore ?result = sum_list (map ?engine ?qs)"
    by (simp add: gradeAnswers_def Let_def frozen_records_map foldl_sum o_def)
  ultimately have total: "ag_totalScore ag = sr_totalScore ?result"
    using ag by (simp only: aggregate_iff)
  have "sr_passed ?result \<longleftrightarrow> p \<le> sr_totalScore ?result"
    by (simp add: gradeAnswers_def Let_def)
  then have "ag_passed ag = sr_passed ?result"
    using ag total by (simp only: aggregate_iff)
  with ag total show ?thesis by blast
qed

section \<open>Properties\<close>

text \<open>Terminal aggregation is exact. It succeeds precisely on a terminal workset: as many
  entries as questions, no question twice, and for each question of the frozen paper an entry with
  the canonical mode, the frozen maximum, the terminal status of its mode and an earned score in
  range. The result lists the questions in frozen order, its total is the sum of the earned
  scores, its maximum the sum of the question scores, and passing compares the two.\<close>

lemma aggregation_exact:
  "((\<exists>ag. aggregateGradingEntries a es p = Inr ag) \<longleftrightarrow> terminal_workset (at_questionSnapshot a) es) \<and>
   (case aggregateGradingEntries a es p of
      Inl e \<Rightarrow> status_code e = 500
    | Inr ag \<Rightarrow>
        map qr_questionId (ag_questionResults ag) = map qs_originalQuestionId (at_questionSnapshot a) \<and>
        map qr_score (ag_questionResults ag) = map (earned_of es) (at_questionSnapshot a) \<and>
        ag_totalScore ag = sum_list (map (earned_of es) (at_questionSnapshot a)) \<and>
        0 \<le> ag_totalScore ag \<and> ag_totalScore ag \<le> ag_maxScore ag \<and>
        ag_maxScore ag = sum_list (map qs_score (at_questionSnapshot a)) \<and>
        (ag_passed ag \<longleftrightarrow> p \<le> ag_totalScore ag))"
proof (cases "aggregateGradingEntries a es p")
  case (Inl e)
  then show ?thesis
    using aggregate_error [OF Inl] aggregate_ok [of a es p] by (auto simp: status_code_def)
next
  case (Inr ag)
  let ?qs = "at_questionSnapshot a"
  note agg = Inr [unfolded aggregate_iff]
  have "0 \<le> sum_list (map (earned_of es) ?qs) \<and>
      sum_list (map (earned_of es) ?qs) \<le> sum_list (map qs_score ?qs)"
    using terminal_earned agg by (intro sum_list_between) blast
  moreover have "map qr_score (ag_questionResults ag) = map (earned_of es) ?qs"
    using agg terminal_result_score by auto
  ultimately show ?thesis
    using Inr agg by (simp add: o_def)
qed

text \<open>C34: The workset and the grading engine agree. For a paper without manually graded questions,
  the entries that submission materializes, read back in any order, aggregate to exactly the total
  and the verdict that regrading the frozen answers with the grading engine gives.\<close>

theorem aggregation_agrees_with_engine:
  assumes frozen: "at_submittedAnswers a = Some sub" "normalized sub"
    and paper: "distinct (map qs_originalQuestionId (at_questionSnapshot a))"
      "\<forall>q\<in>set (at_questionSnapshot a). 0 \<le> qs_score q \<and> \<not> isManualGradedQuestion q"
    and stored: "mset es = mset (fresh_rows lower a sub)"
  shows "\<exists>ag. aggregateGradingEntries a es p = Inr ag \<and>
    ag_totalScore ag =
      sr_totalScore (gradeAnswers lower (at_id a) (at_questionSnapshot a) (frozen_records sub now) p now) \<and>
    ag_passed ag =
      sr_passed (gradeAnswers lower (at_id a) (at_questionSnapshot a) (frozen_records sub now) p now)"
  using assms by (rule aggregate_fresh_objective)

definition sample_frozen :: ExamAttempt where
  "sample_frozen = sample_attempt\<lparr>at_status := Submitted,
     at_questionSnapshot := [sample_question ''q1'' TrueFalse (Some (JBool True)) 0],
     at_submittedAnswers := Some [(''q1'', Some (JBool True))]\<rparr>"

theorem aggregation_agrees_with_engine_witness:
  "\<exists>ag. aggregateGradingEntries sample_frozen
       (fresh_rows id sample_frozen [(''q1'', Some (JBool True))]) 3 = Inr ag \<and>
     ag_totalScore ag = sr_totalScore (gradeAnswers id ''a1'' (at_questionSnapshot sample_frozen)
       (frozen_records [(''q1'', Some (JBool True))] 0) 3 0)"
  using aggregation_agrees_with_engine [of sample_frozen "[(''q1'', Some (JBool True))]"
      "fresh_rows id sample_frozen [(''q1'', Some (JBool True))]" id 3 0]
  by (auto simp: sample_frozen_def sample_question_def sample_attempt_def normalized_def
      isManualGradedQuestion_def)

text \<open>The consistency check accepts what submission wrote and nothing else that matters. The
  entries of a fresh submission pass in any storage order; and whatever passes has, for every
  question of the frozen paper, an entry with the canonical mode and maximum, whose answers are the
  frozen ones up to key order, and which, when objective, carries exactly the engine's score and
  correctness.\<close>

lemma workset_check_sound_complete:
  assumes frozen: "at_submittedAnswers a = Some sub"
    and paper: "distinct (map qs_originalQuestionId (at_questionSnapshot a))"
    and ids: "distinct (map ge_questionId es)"
  shows "(mset es = mset (fresh_rows lower a sub) \<longrightarrow>
      validateGradingWorksetConsistency lower num a es = Inr ()) \<and>
    (validateGradingWorksetConsistency lower num a es = Inr () \<longrightarrow>
      length es = length (at_questionSnapshot a) \<and>
      (\<forall>q\<in>set (at_questionSnapshot a). \<exists>e. entry_for es (qs_originalQuestionId q) = Some e \<and>
         (let x = expected_entry lower (js_map_get sub) q in
          ge_gradingMode e = xe_gradingMode x \<and> ge_maxScore e = qs_score q \<and>
          payloadsEqual num (ge_candidateAnswer e) (xe_candidateAnswer x) \<and>
          payloadsEqual num (ge_standardAnswer e) (or_null (qs_standardAnswer q)) \<and>
          (\<not> isManualGradedQuestion q \<longrightarrow> ge_status e = CompletedAuto \<and>
             ge_earnedScore e = xe_earnedScore x \<and> ge_correct e = xe_correct x))))"
proof (intro conjI impI)
  show "validateGradingWorksetConsistency lower num a es = Inr ()"
    if "mset es = mset (fresh_rows lower a sub)"
    using fresh_workset_valid [OF frozen paper that] .
next
  let ?ex = "map (expected_entry lower (js_map_get sub)) (at_questionSnapshot a)"
  assume ok: "validateGradingWorksetConsistency lower num a es = Inr ()"
  have ex: "computeExpectedGradingEntries lower a = Inr ?ex"
    using frozen by (simp add: computeExpected_iff)
  note checks = ok [unfolded validateGradingWorksetConsistency_def ex bindR_simps bindR_Inr_iff
      guardR_iff forR_Inr_iff entry_for_last [OF ids]]
  then show "length es = length (at_questionSnapshot a)" by auto
  show "\<forall>q\<in>set (at_questionSnapshot a). \<exists>e. entry_for es (qs_originalQuestionId q) = Some e \<and>
         (let x = expected_entry lower (js_map_get sub) q in
          ge_gradingMode e = xe_gradingMode x \<and> ge_maxScore e = qs_score q \<and>
          payloadsEqual num (ge_candidateAnswer e) (xe_candidateAnswer x) \<and>
          payloadsEqual num (ge_standardAnswer e) (or_null (qs_standardAnswer q)) \<and>
          (\<not> isManualGradedQuestion q \<longrightarrow> ge_status e = CompletedAuto \<and>
             ge_earnedScore e = xe_earnedScore x \<and> ge_correct e = xe_correct x))"
  proof
    fix q assume "q \<in> set (at_questionSnapshot a)"
    then obtain e where e: "entry_for es (qs_originalQuestionId q) = Some e"
      "check_entry num (expected_entry lower (js_map_get sub) q) e = Inr ()"
      using checks by (force split: option.splits)
    then show "\<exists>e. entry_for es (qs_originalQuestionId q) = Some e \<and>
         (let x = expected_entry lower (js_map_get sub) q in
          ge_gradingMode e = xe_gradingMode x \<and> ge_maxScore e = qs_score q \<and>
          payloadsEqual num (ge_candidateAnswer e) (xe_candidateAnswer x) \<and>
          payloadsEqual num (ge_standardAnswer e) (or_null (qs_standardAnswer q)) \<and>
          (\<not> isManualGradedQuestion q \<longrightarrow> ge_status e = CompletedAuto \<and>
             ge_earnedScore e = xe_earnedScore x \<and> ge_correct e = xe_correct x))"
      by (auto simp: check_entry_iff Let_def expected_entry_shape)
  qed
qed

lemma workset_check_sound_complete_witness:
  "validateGradingWorksetConsistency id unary_num sample_frozen
     (fresh_rows id sample_frozen [(''q1'', Some (JBool True))]) = Inr ()"
  using workset_check_sound_complete [of sample_frozen "[(''q1'', Some (JBool True))]"
      "fresh_rows id sample_frozen [(''q1'', Some (JBool True))]" id unary_num]
  by (simp add: sample_frozen_def fresh_rows_def sample_question_def)

end
