(* ===== verification/Grading.thy ===== *)
theory Grading
  imports Grading_Workset Lifecycles
begin

text \<open>
  \<^verbatim>\<open>packages/exam-engine/src/grading.ts\<close> and \<^verbatim>\<open>manualGrading.ts\<close>: selection of the final attempt,
  completion of the enrollment, the terminal grading closure shared by the automatic and the manual
  path, and the manual scoring of one question.
\<close>

section \<open>Selection and completion\<close>

text \<open>\<^verbatim>\<open>finalScore?: number\<close> is a number or absent; the domain type has no null.\<close>

definition shouldSelectAttempt :: "ScoreStrategy \<Rightarrow> ExamEnrollment \<Rightarrow> jsnum \<Rightarrow> bool" where
  "shouldSelectAttempt strategy enrollment score =
     (if falsy (en_finalAttemptId enrollment) then True
      else case en_finalScore enrollment of
          None \<Rightarrow> True
        | Some finalScore \<Rightarrow>
            (case strategy of
               Latest \<Rightarrow> True
             | Highest \<Rightarrow> score > finalScore
             | First \<Rightarrow> False))"

definition shouldEnrollmentComplete :: "Exam \<Rightarrow> ExamEnrollment \<Rightarrow> bool \<Rightarrow> time \<Rightarrow> bool" where
  "shouldEnrollmentComplete exam enrollment gradedPassed now =
     (if ex_retakePolicy exam = MaxAttempts \<and> en_attemptCount enrollment \<ge> ex_maxAttempts exam
      then True
      else if ex_retakePolicy exam = PassThenStop \<and>
        (gradedPassed \<or> en_finalPassed enrollment = Some True)
      then True
      else case ex_closeAt exam of None \<Rightarrow> False | Some closeAt \<Rightarrow> now \<ge> closeAt)"

section \<open>Reading\<close>

record GradingSnapshot =
  gs_attempt :: ExamAttempt
  gs_exam :: Exam
  gs_enrollment :: ExamEnrollment

definition readGradingSnapshot :: "ident \<Rightarrow> GradingSnapshot option action" where
  "readGradingSnapshot attemptId =
     bindC (getsC (find_attempt attemptId)) (\<lambda>found.
     case found of
       None \<Rightarrow> returnC None
     | Some attempt \<Rightarrow>
         bindC (someC (find_exam (at_examId attempt)) (ValidationError ''Exam not found'')) (\<lambda>exam.
         bindC (someC (findByExamAndCandidate (at_examId attempt) (at_candidateId attempt))
           (ValidationError ''Enrollment not found'')) (\<lambda>enrollment.
         returnC (Some \<lparr>gs_attempt = attempt, gs_exam = exam, gs_enrollment = enrollment\<rparr>))))"

definition computeGradingResult ::
  "(string \<Rightarrow> string) \<Rightarrow> ExamAttempt \<Rightarrow> Exam \<Rightarrow> time \<Rightarrow> ScoreResult" where
  "computeGradingResult lower attempt exam now =
     (let sourceAnswers =
            (case at_submittedAnswers attempt of
               Some sub \<Rightarrow> frozen_records sub now
             | None \<Rightarrow> at_answers attempt)
      in gradeAnswers lower (at_id attempt) (at_questionSnapshot attempt) sourceAnswers
           (ex_passingScore exam) now)"

section \<open>The terminal closure\<close>

definition closed_grading_status :: "ExamAttempt \<Rightarrow> GradingStatus" where
  "closed_grading_status attempt =
     (if at_gradingStatus attempt = Some PendingManual then FullyGraded
      else case at_gradingStatus attempt of
          Some g \<Rightarrow> g
        | None \<Rightarrow> if requiresManualGrading (at_questionSnapshot attempt) then PendingManual
                  else AutoGraded)"

definition graded_row :: "GradingEntryAggregate \<Rightarrow> GradingStatus \<Rightarrow> time \<Rightarrow> ExamAttempt \<Rightarrow> ExamAttempt" where
  "graded_row ag gstatus now a =
     a\<lparr>at_status := Graded, at_gradingResult := Some (ag_questionResults ag),
       at_score := Some (ag_totalScore ag), at_passed := Some (ag_passed ag),
       at_gradedAt := Some now, at_gradingStatus := Some gstatus\<rparr>"

definition final_row ::
  "EnrollmentStatus \<Rightarrow> bool \<Rightarrow> GradingEntryAggregate \<Rightarrow> ident \<Rightarrow> ExamEnrollment \<Rightarrow> ExamEnrollment" where
  "final_row target selected ag attemptId e =
     (if selected
      then e\<lparr>en_status := target, en_finalScore := Some (ag_totalScore ag),
             en_finalPassed := Some (ag_passed ag), en_finalAttemptId := Some attemptId\<rparr>
      else e\<lparr>en_status := target\<rparr>)"

definition finalizeTerminalGrading ::
  "repos \<Rightarrow> LockedEnrollmentAttemptIdentity \<Rightarrow> Exam \<Rightarrow> time \<Rightarrow> bool action" where
  "finalizeTerminalGrading repos capability exam now =
     bindC (liftC (assertCapabilityFor capability repos)) (\<lambda>_.
     let attemptId = lk_attemptId capability; enrollmentId = lk_enrollmentId capability in
     bindC (someC (find_attempt attemptId) (ValidationError ''Attempt not found'')) (\<lambda>attempt.
     if at_status attempt = Graded then returnC False
     else
     bindC (guardC (isTransitionOk (transition (at_status attempt) CmdGrade))
       (InvalidStateTransitionError
         (''Cannot grade attempt in '' @ attempt_status_str (at_status attempt) @ '' state''))) (\<lambda>_.
     bindC (getsC (entries_of attemptId)) (\<lambda>entries.
     bindC (liftC (aggregateGradingEntries attempt entries (ex_passingScore exam))) (\<lambda>aggregated.
     bindC (update_attempt attemptId
       (graded_row aggregated (closed_grading_status attempt) now)) (\<lambda>gradedUpdate.
     bindC (requireC gradedUpdate (ValidationError ''Failed to persist graded results'')) (\<lambda>_.
     bindC (getsC (findByExamAndCandidate (at_examId attempt) (at_candidateId attempt))) (\<lambda>found.
     bindC (requireC (case found of None \<Rightarrow> None
         | Some e \<Rightarrow> if en_id e \<noteq> enrollmentId then None else Some e)
       (ValidationError ''Enrollment not found'')) (\<lambda>enrollment.
     let selected = shouldSelectAttempt (ex_scoreStrategy exam) enrollment (ag_totalScore aggregated);
         targetStatus = (if shouldEnrollmentComplete exam enrollment (ag_passed aggregated) now
                         then Completed else Started) in
     bindC (if en_status enrollment \<noteq> targetStatus
       then liftC (enrollment_assertTransition (en_status enrollment) targetStatus)
       else returnC ()) (\<lambda>_.
     bindC (update_enrollment (en_id enrollment)
       (final_row targetStatus selected aggregated (at_id attempt))) (\<lambda>enrollmentUpdate.
     bindC (requireC enrollmentUpdate (ValidationError ''Failed to update enrollment'')) (\<lambda>_.
     returnC True))))))))))))"

definition finalizeGrading ::
  "repos \<Rightarrow> LockedEnrollmentAttemptIdentity \<Rightarrow> Exam \<Rightarrow> time \<Rightarrow> bool action" where
  "finalizeGrading repos capability exam now =
     bindC (someC (find_attempt (lk_attemptId capability)) (ValidationError ''Attempt not found'')) (\<lambda>attempt.
     if at_status attempt = Graded then returnC False
     else
     bindC (guardC (at_gradingStatus attempt \<noteq> Some PendingManual)
       (InvalidStateTransitionError
         ''Cannot auto-finalize attempt: manual grading completion owns the submitted to graded transition'')) (\<lambda>_.
     finalizeTerminalGrading repos capability exam now))"

definition persisted_score :: "ExamAttempt \<Rightarrow> time \<Rightarrow> ScoreResult" where
  "persisted_score a now =
     \<lparr>sr_attemptId = at_id a,
      sr_totalScore = (case at_score a of None \<Rightarrow> 0 | Some x \<Rightarrow> x),
      sr_passed = (case at_passed a of None \<Rightarrow> False | Some b \<Rightarrow> b),
      sr_questionResults = (case at_gradingResult a of None \<Rightarrow> [] | Some rs \<Rightarrow> rs),
      sr_gradedAt = (case at_gradedAt a of None \<Rightarrow> now | Some t \<Rightarrow> t)\<rparr>"

definition gradeAttemptIdempotent ::
  "(string \<Rightarrow> string) \<Rightarrow> repos \<Rightarrow> LockedEnrollmentAttemptIdentity \<Rightarrow> time \<Rightarrow> ScoreResult action" where
  "gradeAttemptIdempotent lower repos capability now =
     bindC (readGradingSnapshot (lk_attemptId capability)) (\<lambda>read.
     bindC (requireC read (ValidationError ''Attempt not found'')) (\<lambda>snapshot.
     if at_status (gs_attempt snapshot) = Graded
     then returnC (persisted_score (gs_attempt snapshot) now)
     else if at_gradingStatus (gs_attempt snapshot) = Some PendingManual
     then
       let partial = computeGradingResult lower (gs_attempt snapshot) (gs_exam snapshot) now in
       returnC \<lparr>sr_attemptId = at_id (gs_attempt snapshot), sr_totalScore = sr_totalScore partial,
         sr_passed = sr_passed partial, sr_questionResults = sr_questionResults partial,
         sr_gradedAt = now\<rparr>
     else
       bindC (finalizeGrading repos capability (gs_exam snapshot) now) (\<lambda>_.
       bindC (someC (find_attempt (lk_attemptId capability))
         (ValidationError ''Attempt not found after grading'')) (\<lambda>graded.
       returnC (persisted_score graded now)))))"

section \<open>Manual grading\<close>

record GradeQuestionResult =
  gq_gradingStatus :: GradingStatus
  gq_fullyGraded :: bool
  gq_totalScore :: "jsnum option"
  gq_passed :: "bool option"

definition gradeQuestion ::
  "repos \<Rightarrow> LockedEnrollmentAttemptIdentity \<Rightarrow> ident \<Rightarrow> jsnum \<Rightarrow> string \<Rightarrow> ident \<Rightarrow> time \<Rightarrow> Exam \<Rightarrow>
     GradeQuestionResult action" where
  "gradeQuestion repos capability questionId score comment graderId now exam =
     (let attemptId = lk_attemptId capability in
     bindC (someC (find_attempt attemptId) (NotFoundError ''Attempt not found'')) (\<lambda>attempt.
     bindC (guardC (at_status attempt = Submitted) (InvalidStateTransitionError
       (''Cannot grade attempt: attempt status is '' @ attempt_status_str (at_status attempt)))) (\<lambda>_.
     bindC (guardC (at_gradingStatus attempt = Some PendingManual) (InvalidStateTransitionError
       ''Cannot grade attempt: expected gradingStatus pending_manual'')) (\<lambda>_.
     bindC (someC (findByAttemptAndQuestion attemptId questionId)
       (NotFoundError ''Grading entry not found'')) (\<lambda>entry.
     bindC (guardC (ge_gradingMode entry \<noteq> AutoMode)
       (PermissionDeniedError ''Question is auto-graded and cannot be manually scored'')) (\<lambda>_.
     bindC (guardC (ge_status entry = EntryPendingManual) (InvalidStateTransitionError
       ''Cannot grade question: manual grading completion is one-way'')) (\<lambda>_.
     bindC (guardC (\<not> (score < 0 \<or> score > ge_maxScore entry))
       (ValidationError ''score must be between 0 and maxScore'')) (\<lambda>_.
     bindC (completeManualEntry attemptId questionId score (ge_maxScore entry) comment graderId now) (\<lambda>updated.
     bindC (requireC updated (NotFoundError ''Grading entry disappeared during update'')) (\<lambda>_.
     bindC (getsC (countPendingManualForAttempt attemptId)) (\<lambda>remainingPending.
     if remainingPending = 0
     then
       bindC (finalizeTerminalGrading repos capability exam now) (\<lambda>closed.
       bindC (guardC closed (InvalidStateTransitionError
         ''Cannot grade question: the attempt was already graded'')) (\<lambda>_.
       bindC (someC (find_attempt attemptId) (NotFoundError ''Attempt not found after terminal closure'')) (\<lambda>graded.
       returnC \<lparr>gq_gradingStatus = FullyGraded, gq_fullyGraded = True,
         gq_totalScore = Some (case at_score graded of None \<Rightarrow> 0 | Some x \<Rightarrow> x),
         gq_passed = Some (case at_passed graded of None \<Rightarrow> False | Some b \<Rightarrow> b)\<rparr>)))
     else returnC \<lparr>gq_gradingStatus = PendingManual, gq_fullyGraded = False,
            gq_totalScore = None, gq_passed = None\<rparr>)))))))))))"

section \<open>Lemmas\<close>

lemma find_enrollment_present: "e \<in> set (st_enrollments s) \<Longrightarrow> find_enrollment (en_id e) s \<noteq> None"
  by (auto simp: find_enrollment_def tbl_find_None)

lemma grade_transition_ok [simp]: "isTransitionOk (transition st CmdGrade) \<longleftrightarrow> st = Submitted"
  by (cases st) (simp_all add: transition_def TRANSITION_TABLE_def)

lemma row_keys [simp]:
  "at_id (graded_row ag g now a) = at_id a" "en_id (final_row t sel ag k e) = en_id e"
  by (simp_all add: graded_row_def final_row_def)

text \<open>The enrollment a closure leaves behind, and the store.\<close>

definition target_status :: "Exam \<Rightarrow> ExamEnrollment \<Rightarrow> bool \<Rightarrow> time \<Rightarrow> EnrollmentStatus" where
  "target_status exam e passed now = (if shouldEnrollmentComplete exam e passed now then Completed else Started)"

definition enrollment_moves :: "EnrollmentStatus \<Rightarrow> EnrollmentStatus \<Rightarrow> bool" where
  "enrollment_moves x y \<longleftrightarrow> x = y \<or> y \<in> set (ENROLLMENT_VALID_TRANSITIONS x)"

definition closed_store ::
  "Exam \<Rightarrow> time \<Rightarrow> ExamAttempt \<Rightarrow> GradingEntryAggregate \<Rightarrow> ExamEnrollment \<Rightarrow> store \<Rightarrow> store" where
  "closed_store exam now a ag e s =
     upd_enrollment (en_id e)
       (final_row (target_status exam e (ag_passed ag) now)
          (shouldSelectAttempt (ex_scoreStrategy exam) e (ag_totalScore ag)) ag (at_id a))
       (upd_attempt (at_id a) (graded_row ag (closed_grading_status a) now) s)"

lemma finalizeTerminalGrading_iff:
  "finalizeTerminalGrading rs c exam now s = Inr (r, s') \<longleftrightarrow>
     lk_affinity c = rs \<and>
     (\<exists>a. find_attempt (lk_attemptId c) s = Some a \<and>
       (if at_status a = Graded then r = False \<and> s' = s
        else at_status a = Submitted \<and> r = True \<and>
          (\<exists>ag e. aggregateGradingEntries a (entries_of (lk_attemptId c) s) (ex_passingScore exam) = Inr ag \<and>
             findByExamAndCandidate (at_examId a) (at_candidateId a) s = Some e \<and>
             en_id e = lk_enrollmentId c \<and>
             enrollment_moves (en_status e) (target_status exam e (ag_passed ag) now) \<and>
             s' = closed_store exam now a ag e s)))"
  (is "?run \<longleftrightarrow> ?spec")
proof (cases "lk_affinity c = rs \<and> find_attempt (lk_attemptId c) s \<noteq> None")
  case False
  then show ?thesis
    unfolding finalizeTerminalGrading_def Let_def by (auto simp: cmd_iff)
next
  case True
  then obtain a where a: "find_attempt (lk_attemptId c) s = Some a" and c: "lk_affinity c = rs"
    by auto
  note k = find_attempt_id [OF a]
  show ?thesis
  proof (cases "at_status a = Submitted")
    case False
    then show ?thesis
      unfolding finalizeTerminalGrading_def Let_def using a c by (auto simp: cmd_iff)
  next
    case st: True
    let ?s1 = "\<lambda>ag. upd_attempt (at_id a) (graded_row ag (closed_grading_status a) now) s"
    have present: "\<exists>e'. find_enrollment (en_id e) (?s1 ag) = Some e'"
      if "findByExamAndCandidate x y s = Some e" for x y e ag
      using findByExamAndCandidate_D [OF that] find_enrollment_present [of e "?s1 ag"] by simp
    note start = finalizeTerminalGrading_def Let_def target_status_def [symmetric]
    have cap: "assertCapabilityFor c rs = Inr ()" using c by simp
    note steps = cmd_run a cap st k findByExamAndCandidate_other
    have "?run \<longleftrightarrow> (\<exists>ag e. aggregateGradingEntries a (entries_of (at_id a) s) (ex_passingScore exam) = Inr ag \<and>
        findByExamAndCandidate (at_examId a) (at_candidateId a) s = Some e \<and> en_id e = lk_enrollmentId c \<and>
        enrollment_moves (en_status e) (target_status exam e (ag_passed ag) now) \<and>
        r = True \<and> s' = closed_store exam now a ag e s)"
    proof (cases "aggregateGradingEntries a (entries_of (at_id a) s) (ex_passingScore exam)")
      case (Inl err)
      then show ?thesis unfolding start by (simp add: steps)
    next
      case (Inr ag)
      show ?thesis
      proof (cases "findByExamAndCandidate (at_examId a) (at_candidateId a) s")
        case None
        with Inr show ?thesis unfolding start by (simp add: steps)
      next
        case (Some e)
        obtain e' where e': "find_enrollment (en_id e) (?s1 ag) = Some e'"
          using present [OF Some] by blast
        show ?thesis
          unfolding start using Inr Some e' k
          by (auto simp: steps cmd_iff closed_store_def enrollment_moves_def)
      qed
    qed
    then show ?thesis using a c st k by auto
  qed
qed

subsection \<open>Selecting the final attempt\<close>

text \<open>What a sequence of closures of one enrollment does to its final result.\<close>

definition record_results ::
  "ScoreStrategy \<Rightarrow> EnrollmentStatus \<Rightarrow> (ident \<times> GradingEntryAggregate) list \<Rightarrow> ExamEnrollment \<Rightarrow> ExamEnrollment" where
  "record_results strategy target graded e =
     fold (\<lambda>(k, ag) e. final_row target (shouldSelectAttempt strategy e (ag_totalScore ag)) ag k e) graded e"

definition final_is :: "ExamEnrollment \<Rightarrow> ident \<Rightarrow> GradingEntryAggregate \<Rightarrow> bool" where
  "final_is e k ag \<longleftrightarrow> en_finalAttemptId e = Some k \<and> en_finalScore e = Some (ag_totalScore ag) \<and>
     en_finalPassed e = Some (ag_passed ag)"

definition selected_of :: "ScoreStrategy \<Rightarrow> (ident \<times> GradingEntryAggregate) list \<Rightarrow> ident \<times> GradingEntryAggregate \<Rightarrow> bool" where
  "selected_of strategy graded r \<longleftrightarrow> r \<in> set graded \<and>
     (case strategy of
        First \<Rightarrow> r = hd graded
      | Latest \<Rightarrow> r = last graded
      | Highest \<Rightarrow> (\<forall>r'\<in>set graded. ag_totalScore (snd r') \<le> ag_totalScore (snd r)))"

lemma record_results_snoc:
  "record_results st t (rs @ [(k, ag)]) e =
     final_row t (shouldSelectAttempt st (record_results st t rs e) (ag_totalScore ag)) ag k
       (record_results st t rs e)"
  by (simp add: record_results_def)

lemma final_row_final:
  "final_is (final_row t True ag k e) k ag"
  "final_is (final_row t False ag k e) k' ag' \<longleftrightarrow> final_is e k' ag'"
  by (simp_all add: final_is_def final_row_def)

lemma record_results_selected:
  assumes "graded \<noteq> []" "\<forall>r\<in>set graded. fst r \<noteq> []" "falsy (en_finalAttemptId e)"
  shows "\<exists>r. selected_of st graded r \<and> final_is (record_results st t graded e) (fst r) (snd r)"
  using assms
proof (induction graded rule: rev_induct)
  case (snoc x rs)
  obtain k ag where x: "x = (k, ag)" by (cases x)
  show ?case
  proof (cases "rs = []")
    case True
    then have "final_is (record_results st t [x] e) k ag"
      using snoc.prems(3) by (simp add: record_results_def x shouldSelectAttempt_def final_row_final)
    with True show ?thesis
      by (intro exI [of _ x]) (simp add: selected_of_def x split: ScoreStrategy.splits)
  next
    case False
    obtain r where r: "selected_of st rs r" and f: "final_is (record_results st t rs e) (fst r) (snd r)"
      using snoc.IH [OF False] snoc.prems by auto
    have id: "fst r \<noteq> []" using r snoc.prems(2) by (auto simp: selected_of_def)
    have sel: "shouldSelectAttempt st (record_results st t rs e) (ag_totalScore ag) =
        (case st of Latest \<Rightarrow> True | Highest \<Rightarrow> ag_totalScore ag > ag_totalScore (snd r) | First \<Rightarrow> False)"
      using f id by (simp add: shouldSelectAttempt_def final_is_def)
    show ?thesis
    proof (cases "shouldSelectAttempt st (record_results st t rs e) (ag_totalScore ag)")
      case True
      then have "selected_of st (rs @ [x]) x"
        using sel r by (fastforce simp: selected_of_def x split: ScoreStrategy.splits)
      with True show ?thesis
        by (intro exI [of _ x]) (simp add: x record_results_snoc final_row_final)
    next
      case notsel: False
      then have "selected_of st (rs @ [x]) r"
        using sel r False by (auto simp: selected_of_def x split: ScoreStrategy.splits)
      with f notsel show ?thesis
        by (intro exI [of _ r]) (simp add: x record_results_snoc final_row_final)
    qed
  qed
qed simp

subsection \<open>Manual completion\<close>

definition completed_row :: "jsnum \<Rightarrow> string \<Rightarrow> ident \<Rightarrow> time \<Rightarrow> jsnum \<Rightarrow> AttemptGradingEntry \<Rightarrow> AttemptGradingEntry" where
  "completed_row score comment graderId now maxScore e =
     e\<lparr>ge_status := CompletedManual, ge_earnedScore := Some score, ge_correct := Some (score \<ge> maxScore),
       ge_comment := comment, ge_gradedBy := Some graderId, ge_gradedAt := Some now\<rparr>"

definition pending_for :: "ident \<Rightarrow> ident \<Rightarrow> AttemptGradingEntry \<Rightarrow> bool" where
  "pending_for k q e \<longleftrightarrow> manual_pending k e \<and> ge_questionId e = q"

definition complete_in :: "ident \<Rightarrow> ident \<Rightarrow> (AttemptGradingEntry \<Rightarrow> AttemptGradingEntry) \<Rightarrow> store \<Rightarrow> store" where
  "complete_in k q f s = s\<lparr>st_entries := map (\<lambda>e. if pending_for k q e then f e else e) (st_entries s)\<rparr>"

lemma completed_row_simps [simp]:
  "ge_attemptId (completed_row sc cm g now m e) = ge_attemptId e"
  "ge_questionId (completed_row sc cm g now m e) = ge_questionId e"
  "ge_gradingMode (completed_row sc cm g now m e) = ge_gradingMode e"
  "ge_status (completed_row sc cm g now m e) = CompletedManual"
  "ge_maxScore (completed_row sc cm g now m e) = ge_maxScore e"
  "ge_earnedScore (completed_row sc cm g now m e) = Some sc"
  by (simp_all add: completed_row_def)

lemma completeManual_run [cmd_run]:
  "bindC (completeManualEntry k q sc m cm g now) f s =
     f (map_option (completed_row sc cm g now m) (find (pending_for k q) (st_entries s)))
       (complete_in k q (completed_row sc cm g now m) s)"
  by (simp add: completeManualEntry_def Let_def bindC_def getsC_def modifyC_def returnC_def
      complete_in_def pending_for_def [abs_def] completed_row_def [abs_def])

lemma find_pending:
  assumes "findByAttemptAndQuestion k q s = Some e" "ge_gradingMode e \<noteq> AutoMode"
    "ge_status e = EntryPendingManual"
  shows "find (pending_for k q) (st_entries s) \<noteq> None"
proof -
  have "e \<in> set (st_entries s) \<and> pending_for k q e"
    using assms by (cases "ge_gradingMode e")
      (auto simp: findByAttemptAndQuestion_def find_Some_iff pending_for_def manual_pending_def)
  then show ?thesis by (auto simp: find_None_iff)
qed

text \<open>What a successful call of \<^verbatim>\<open>gradeQuestion\<close> has checked and done; \<open>s1\<close> is the store in which the
  entry is completed.\<close>

definition grade_outcome ::
  "repos \<Rightarrow> LockedEnrollmentAttemptIdentity \<Rightarrow> Exam \<Rightarrow> time \<Rightarrow> store \<Rightarrow> GradeQuestionResult \<Rightarrow> store \<Rightarrow> bool" where
  "grade_outcome rs c exam now s1 r s' \<longleftrightarrow>
     (if countPendingManualForAttempt (lk_attemptId c) s1 = 0
      then finalizeTerminalGrading rs c exam now s1 = Inr (True, s') \<and>
        (\<exists>g. find_attempt (lk_attemptId c) s' = Some g \<and>
          r = \<lparr>gq_gradingStatus = FullyGraded, gq_fullyGraded = True,
            gq_totalScore = Some (case at_score g of None \<Rightarrow> 0 | Some x \<Rightarrow> x),
            gq_passed = Some (case at_passed g of None \<Rightarrow> False | Some b \<Rightarrow> b)\<rparr>)
      else s' = s1 \<and> r = \<lparr>gq_gradingStatus = PendingManual, gq_fullyGraded = False,
            gq_totalScore = None, gq_passed = None\<rparr>)"

lemma gradeQuestion_iff:
  "gradeQuestion rs c q score comment grader now exam s = Inr (r, s') \<longleftrightarrow>
     (\<exists>a e. find_attempt (lk_attemptId c) s = Some a \<and> at_status a = Submitted \<and>
        at_gradingStatus a = Some PendingManual \<and>
        findByAttemptAndQuestion (lk_attemptId c) q s = Some e \<and> ge_gradingMode e \<noteq> AutoMode \<and>
        ge_status e = EntryPendingManual \<and> 0 \<le> score \<and> score \<le> ge_maxScore e \<and>
        grade_outcome rs c exam now
          (complete_in (lk_attemptId c) q (completed_row score comment grader now (ge_maxScore e)) s) r s')"
  (is "?run \<longleftrightarrow> ?spec")
proof (cases "find_attempt (lk_attemptId c) s")
  case None
  then show ?thesis by (simp add: gradeQuestion_def cmd_run Let_def)
next
  case a: (Some a)
  show ?thesis
  proof (cases "findByAttemptAndQuestion (lk_attemptId c) q s")
    case None
    with a show ?thesis by (simp add: gradeQuestion_def cmd_run Let_def)
  next
    case e: (Some e)
    let ?s1 = "complete_in (lk_attemptId c) q (completed_row score comment grader now (ge_maxScore e)) s"
    show ?thesis
    proof (cases "at_status a = Submitted \<and> at_gradingStatus a = Some PendingManual \<and>
        ge_gradingMode e \<noteq> AutoMode \<and> ge_status e = EntryPendingManual \<and> 0 \<le> score \<and> score \<le> ge_maxScore e")
      case False
      with a e show ?thesis by (auto simp: gradeQuestion_def cmd_run Let_def)
    next
      case ok: True
      obtain e' where e': "find (pending_for (lk_attemptId c) q) (st_entries s) = Some e'"
        using find_pending [OF e] ok by blast
      have run: "gradeQuestion rs c q score comment grader now exam s =
          (if countPendingManualForAttempt (lk_attemptId c) ?s1 = 0
           then bindC (finalizeTerminalGrading rs c exam now) (\<lambda>closed.
             bindC (guardC closed (InvalidStateTransitionError
               ''Cannot grade question: the attempt was already graded'')) (\<lambda>_.
             bindC (someC (find_attempt (lk_attemptId c)) (NotFoundError ''Attempt not found after terminal closure'')) (\<lambda>graded.
             returnC \<lparr>gq_gradingStatus = FullyGraded, gq_fullyGraded = True,
               gq_totalScore = Some (case at_score graded of None \<Rightarrow> 0 | Some x \<Rightarrow> x),
               gq_passed = Some (case at_passed graded of None \<Rightarrow> False | Some b \<Rightarrow> b)\<rparr>))) ?s1
           else Inr (\<lparr>gq_gradingStatus = PendingManual, gq_fullyGraded = False,
             gq_totalScore = None, gq_passed = None\<rparr>, ?s1))"
        using a e ok e' by (simp add: gradeQuestion_def Let_def cmd_run returnC_def)
      show ?thesis
        unfolding run grade_outcome_def using a e ok by (cases "countPendingManualForAttempt (lk_attemptId c) ?s1 = 0") (auto simp: cmd_iff)
    qed
  qed
qed

text \<open>The rows of the attempt after the completion of one entry.\<close>

lemma insort_key_map:
  "(\<And>x. key (f x) = key x) \<Longrightarrow> insort_key key (f x) (map f xs) = map f (insort_key key x xs)"
  by (induction xs) simp_all

lemma sort_key_map:
  assumes "\<And>x. key (f x) = key x"
  shows "sort_key key (map f xs) = map f (sort_key key xs)"
  by (induction xs) (simp_all add: insort_key_map [where key = key and f = f] assms)

lemma filter_map_same: "(\<And>x. P (f x) = P x) \<Longrightarrow> filter P (map f xs) = map f (filter P xs)"
  by (induction xs) simp_all

lemma entries_of_complete:
  assumes "\<And>e. ge_attemptId (f e) = ge_attemptId e" "\<And>e. ge_questionId (f e) = ge_questionId e"
  shows "entries_of k' (complete_in k q f s) =
    map (\<lambda>e. if pending_for k q e then f e else e) (entries_of k' s)"
  unfolding entries_of_def complete_in_def
  by (simp add: filter_map_same sort_key_map assms)

lemma set_entries_of: "set (entries_of k s) = {e \<in> set (st_entries s). ge_attemptId e = k}"
  by (auto simp: entries_of_def)

lemma entry_for_map:
  "(\<And>e. ge_questionId (f e) = ge_questionId e) \<Longrightarrow> entry_for (map f es) k = map_option f (entry_for es k)"
  by (induction es) (simp_all add: entry_for_def)

text \<open>A workset in which grading is still going on: every question of the paper has its entry,
  which is terminal or still awaits a manual score.\<close>

definition pending_entry :: "QuestionSnapshot \<Rightarrow> AttemptGradingEntry \<Rightarrow> bool" where
  "pending_entry q e \<longleftrightarrow> isManualGradedQuestion q \<and> ge_gradingMode e = ManualMode \<and>
     ge_maxScore e = qs_score q \<and> ge_status e = EntryPendingManual"

definition open_workset :: "QuestionSnapshot list \<Rightarrow> AttemptGradingEntry list \<Rightarrow> bool" where
  "open_workset qs es \<longleftrightarrow>
     length es = length qs \<and> distinct (map ge_questionId es) \<and>
     (\<forall>q\<in>set qs. \<exists>e. entry_for es (qs_originalQuestionId q) = Some e \<and>
        (terminal_entry q e \<or> pending_entry q e))"

lemma terminal_not_pending: "terminal_entry q e \<Longrightarrow> \<not> pending_for k x e"
  by (cases "ge_gradingMode e") (auto simp: terminal_entry_def pending_for_def manual_pending_def)

lemma open_workset_complete:
  assumes "open_workset qs es" and score: "0 \<le> sc"
    and max: "\<forall>e\<in>set es. pending_for k q e \<longrightarrow> sc \<le> ge_maxScore e"
  shows "open_workset qs (map (\<lambda>e. if pending_for k q e then completed_row sc cm g now m e else e) es)"
proof -
  let ?f = "\<lambda>e. if pending_for k q e then completed_row sc cm g now m e else e"
  have "\<exists>e. entry_for (map ?f es) (qs_originalQuestionId x) = Some e \<and> (terminal_entry x e \<or> pending_entry x e)"
    if x: "x \<in> set qs" for x
  proof -
    obtain e where e: "entry_for es (qs_originalQuestionId x) = Some e" "terminal_entry x e \<or> pending_entry x e"
      using assms(1) x unfolding open_workset_def by blast
    have "entry_for (map ?f es) (qs_originalQuestionId x) = Some (?f e)"
      using e(1) by (simp add: entry_for_map)
    moreover have "terminal_entry x (?f e) \<or> pending_entry x (?f e)"
      using e terminal_not_pending [of x e k q] max score entry_for_D [OF e(1)]
      by (auto simp: terminal_entry_def pending_entry_def)
    ultimately show ?thesis by blast
  qed
  moreover have "map ge_questionId (map ?f es) = map ge_questionId es" by simp
  then have "distinct (map ge_questionId (map ?f es))" "length (map ?f es) = length qs"
    using assms(1) by (simp_all only: open_workset_def length_map)
  ultimately show ?thesis unfolding open_workset_def by blast
qed

lemma open_workset_closed:
  assumes "open_workset qs (entries_of k s)" "countPendingManualForAttempt k s = 0"
  shows "terminal_workset qs (entries_of k s)"
proof -
  have none: "\<not> manual_pending k e" if "e \<in> set (entries_of k s)" for e
    using assms(2) that by (auto simp: countPendingManualForAttempt_def filter_empty_conv set_entries_of)
  have "\<exists>e. entry_for (entries_of k s) (qs_originalQuestionId q) = Some e \<and> terminal_entry q e"
    if q: "q \<in> set qs" for q
  proof -
    obtain e where e: "entry_for (entries_of k s) (qs_originalQuestionId q) = Some e"
        "terminal_entry q e \<or> pending_entry q e"
      using assms(1) q unfolding open_workset_def by blast
    have "e \<in> set (entries_of k s)" using entry_for_D [OF e(1)] by simp
    with none [OF this] e show ?thesis
      by (auto simp: pending_entry_def manual_pending_def set_entries_of)
  qed
  with assms(1) show ?thesis unfolding open_workset_def terminal_workset_def by blast
qed

lemma complete_in_fewer:
  assumes "en \<in> set (st_entries s)" "pending_for k q en"
  shows "countPendingManualForAttempt k (complete_in k q (completed_row sc cm g now m) s) <
    countPendingManualForAttempt k s"
proof -
  let ?f = "completed_row sc cm g now m"
  have keep: "manual_pending k (if pending_for k q x then ?f x else x) \<longleftrightarrow> manual_pending k x \<and> \<not> pending_for k q x" for x
    by (auto simp: manual_pending_def)
  have "length (filter (manual_pending k) (map (\<lambda>e. if pending_for k q e then ?f e else e) es)) =
      length (filter (\<lambda>x. manual_pending k x \<and> \<not> pending_for k q x) es)" for es
    by (induction es) (simp_all only: list.map filter.simps keep, simp_all)
  moreover have "length (filter (\<lambda>x. \<not> pending_for k q x) (filter (manual_pending k) (st_entries s))) <
      length (filter (manual_pending k) (st_entries s))"
    using assms by (intro length_filter_less [of en]) (simp_all add: pending_for_def)
  ultimately show ?thesis
    by (simp add: countPendingManualForAttempt_def complete_in_def conj_commute)
qed

lemma fresh_open_workset:
  assumes "distinct (map qs_originalQuestionId (at_questionSnapshot a))"
    and "mset es = mset (fresh_rows lower a sub)" and "\<forall>q\<in>set (at_questionSnapshot a). 0 \<le> qs_score q"
  shows "open_workset (at_questionSnapshot a) es"
proof -
  have "terminal_entry q x \<or> pending_entry q x"
    if "q \<in> set (at_questionSnapshot a)" "x = entry_row (at_id a) (expected_entry lower (js_map_get sub) q)" for q x
    using that assms(3) fresh_terminal [of q "at_id a" lower "js_map_get sub"]
    by (cases "isManualGradedQuestion q") (auto simp: pending_entry_def expected_entry_def Let_def)
  then show ?thesis
    unfolding open_workset_def
    using fresh_distinct [OF assms(1,2)] fresh_entry_for [OF assms(1,2)] by blast
qed

lemma complete_in_find [simp]:
  "find_attempt i (complete_in k q f s) = find_attempt i s"
  "findByExamAndCandidate x y (complete_in k q f s) = findByExamAndCandidate x y s"
  by (simp_all add: complete_in_def store_simps)

lemma closed_store_attempt:
  "find_attempt i (closed_store exam now a ag e s) =
     (if i = at_id a then map_option (graded_row ag (closed_grading_status a) now) (find_attempt i s)
      else find_attempt i s)"
  by (simp add: closed_store_def store_simps)

lemma closed_store_entries [simp]:
  "st_entries (closed_store exam now a ag e s) = st_entries s"
  "entries_of k (closed_store exam now a ag e s) = entries_of k s"
  by (simp_all add: closed_store_def entries_of_def)

lemma findByExamAndCandidate_update:
  assumes "\<And>r. en_id (f r) = en_id r" "\<And>r. en_examId (f r) = en_examId r"
    "\<And>r. en_candidateId (f r) = en_candidateId r"
  shows "findByExamAndCandidate x y (upd_enrollment i f s) =
    map_option (\<lambda>e. if en_id e = i then f e else e) (findByExamAndCandidate x y s)"
proof -
  have "find (\<lambda>e. en_examId e = x \<and> en_candidateId e = y) (tbl_update en_id i f es) =
      map_option (\<lambda>e. if en_id e = i then f e else e)
        (find (\<lambda>e. en_examId e = x \<and> en_candidateId e = y) es)" for es
    by (induction es) (auto simp: tbl_update_def assms)
  then show ?thesis by (simp add: findByExamAndCandidate_def upd_enrollment_def)
qed

lemma final_row_keys [simp]:
  "en_examId (final_row t sel ag k e) = en_examId e"
  "en_candidateId (final_row t sel ag k e) = en_candidateId e"
  by (simp_all add: final_row_def)

lemma closed_store_enrollment:
  "findByExamAndCandidate x y (closed_store exam now a ag e s) =
     map_option (\<lambda>r. if en_id r = en_id e
       then final_row (target_status exam e (ag_passed ag) now)
         (shouldSelectAttempt (ex_scoreStrategy exam) e (ag_totalScore ag)) ag (at_id a) r
       else r) (findByExamAndCandidate x y s)"
  by (simp add: closed_store_def findByExamAndCandidate_update store_simps)

text \<open>A closure writes one row of the attempts and one of the enrollments.\<close>

lemma closed_store_frame:
  "map at_id (st_attempts (closed_store exam now a ag e s)) = map at_id (st_attempts s)"
  "map en_id (st_enrollments (closed_store exam now a ag e s)) = map en_id (st_enrollments s)"
  "(closed_store exam now a ag e s)\<lparr>st_attempts := st_attempts s, st_enrollments := st_enrollments s\<rparr> = s"
  by (simp_all add: closed_store_def upd_attempt_def upd_enrollment_def tbl_update_def)

lemma closed_store_others:
  "k \<noteq> at_id a \<Longrightarrow> find_attempt k (closed_store exam now a ag e s) = find_attempt k s"
  "k \<noteq> en_id e \<Longrightarrow> find_enrollment k (closed_store exam now a ag e s) = find_enrollment k s"
  by (simp_all add: closed_store_def store_simps)

lemma closed_store_exam [simp]: "find_exam k (closed_store exam now a ag e s) = find_exam k s"
  by (simp add: closed_store_def store_simps)

lemma graded_row_simps [simp]:
  "at_status (graded_row ag g now a) = Graded" "at_score (graded_row ag g now a) = Some (ag_totalScore ag)"
  "at_passed (graded_row ag g now a) = Some (ag_passed ag)" "at_gradedAt (graded_row ag g now a) = Some now"
  "at_gradingResult (graded_row ag g now a) = Some (ag_questionResults ag)"
  "at_gradingStatus (graded_row ag g now a) = Some g"
  "at_examId (graded_row ag g now a) = at_examId a" "at_candidateId (graded_row ag g now a) = at_candidateId a"
  "at_questionSnapshot (graded_row ag g now a) = at_questionSnapshot a"
  "at_submittedAnswers (graded_row ag g now a) = at_submittedAnswers a"
  by (simp_all add: graded_row_def)

lemma readGradingSnapshot_iff [cmd_iff]:
  "readGradingSnapshot k s = Inr (r, s') \<longleftrightarrow> s' = s \<and>
     (case find_attempt k s of
        None \<Rightarrow> r = None
      | Some a \<Rightarrow> (\<exists>x e. find_exam (at_examId a) s = Some x \<and>
          findByExamAndCandidate (at_examId a) (at_candidateId a) s = Some e \<and>
          r = Some \<lparr>gs_attempt = a, gs_exam = x, gs_enrollment = e\<rparr>))"
  by (cases "find_attempt k s") (auto simp: readGradingSnapshot_def cmd_iff)

lemma finalizeGrading_iff [cmd_iff]:
  "finalizeGrading rs c exam now s = Inr (r, s') \<longleftrightarrow>
     (\<exists>a. find_attempt (lk_attemptId c) s = Some a \<and>
       (if at_status a = Graded then r = False \<and> s' = s
        else at_gradingStatus a \<noteq> Some PendingManual \<and>
          finalizeTerminalGrading rs c exam now s = Inr (r, s')))"
  by (cases "find_attempt (lk_attemptId c) s") (auto simp: finalizeGrading_def cmd_run returnC_iff)

lemma gradeAttemptIdempotent_iff:
  "gradeAttemptIdempotent lower rs c now s = Inr (r, s') \<longleftrightarrow>
     (\<exists>a x e. find_attempt (lk_attemptId c) s = Some a \<and> find_exam (at_examId a) s = Some x \<and>
        findByExamAndCandidate (at_examId a) (at_candidateId a) s = Some e \<and>
        (if at_status a = Graded then r = persisted_score a now \<and> s' = s
         else if at_gradingStatus a = Some PendingManual
         then s' = s \<and> r = (computeGradingResult lower a x now)\<lparr>sr_attemptId := at_id a, sr_gradedAt := now\<rparr>
         else finalizeTerminalGrading rs c x now s = Inr (True, s') \<and>
           (\<exists>g. find_attempt (lk_attemptId c) s' = Some g \<and> r = persisted_score g now)))"
proof (cases "find_attempt (lk_attemptId c) s")
  case None
  then show ?thesis by (auto simp: gradeAttemptIdempotent_def cmd_iff)
next
  case a: (Some a)
  have closed: b
    if "finalizeTerminalGrading rs c x now s = Inr (b, s1)" "at_status a \<noteq> Graded" for x b s1
    using a that by (auto simp: finalizeTerminalGrading_iff)
  have read: "bindC (readGradingSnapshot (lk_attemptId c)) f s =
      (case find_exam (at_examId a) s of
         None \<Rightarrow> Inl (ValidationError ''Exam not found'')
       | Some x \<Rightarrow> (case findByExamAndCandidate (at_examId a) (at_candidateId a) s of
           None \<Rightarrow> Inl (ValidationError ''Enrollment not found'')
         | Some e \<Rightarrow> f (Some \<lparr>gs_attempt = a, gs_exam = x, gs_enrollment = e\<rparr>) s))"
    for f :: "GradingSnapshot option \<Rightarrow> ScoreResult action"
    using a by (auto simp: bindC_def readGradingSnapshot_def getsC_def someC_def returnC_def
        split: option.splits)
  show ?thesis
  proof (cases "find_exam (at_examId a) s")
    case None
    then show ?thesis using a by (simp add: gradeAttemptIdempotent_def read)
  next
    case x: (Some x)
    show ?thesis
    proof (cases "findByExamAndCandidate (at_examId a) (at_candidateId a) s")
      case None
      then show ?thesis using a x by (simp add: gradeAttemptIdempotent_def read)
    next
      case e: (Some e)
      show ?thesis
        unfolding gradeAttemptIdempotent_def read x e using a x e
        by (simp add: cmd_run Let_def) (auto simp: cmd_iff dest: closed)
    qed
  qed
qed

subsection \<open>Steps of grading\<close>

text \<open>Any call of the manual or the automatic path, by anybody, on any attempt.\<close>

inductive grading_step :: "store \<Rightarrow> store \<Rightarrow> bool" where
  manual: "gradeQuestion rs c q score comment grader now exam s = Inr (r, s') \<Longrightarrow> grading_step s s'"
| auto: "gradeAttemptIdempotent lower rs c now s = Inr (r', s') \<Longrightarrow> grading_step s s'"

lemma finalize_entries: "finalizeTerminalGrading rs c exam now s = Inr (r, s') \<Longrightarrow> st_entries s' = st_entries s"
  by (auto simp: finalizeTerminalGrading_iff split: if_splits)

lemma finalize_graded_attempt:
  assumes "finalizeTerminalGrading rs c exam now s = Inr (r, s')" "find_attempt k s = Some a" "at_status a = Graded"
  shows "find_attempt k s' = Some a"
  using assms find_attempt_id by (auto simp: finalizeTerminalGrading_iff closed_store_attempt split: if_splits)

definition settled_entry :: "ident \<Rightarrow> ident \<Rightarrow> AttemptGradingEntry \<Rightarrow> store \<Rightarrow> bool" where
  "settled_entry k q e s \<longleftrightarrow>
     findByAttemptAndQuestion k q s = Some e \<and> ge_status e \<noteq> EntryPendingManual"

lemma settled_complete:
  assumes "settled_entry k q e s" "\<And>x. ge_attemptId (f x) = ge_attemptId x" "\<And>x. ge_questionId (f x) = ge_questionId x"
  shows "settled_entry k q e (complete_in i j f s)"
proof -
  let ?P = "\<lambda>e. ge_attemptId e = k \<and> ge_questionId e = q"
  have "find ?P (map (\<lambda>e. if pending_for i j e then f e else e) es) =
      map_option (\<lambda>e. if pending_for i j e then f e else e) (find ?P es)" for es
    by (induction es) (auto simp: assms)
  then show ?thesis
    using assms(1) by (auto simp: settled_entry_def findByAttemptAndQuestion_def complete_in_def
        pending_for_def manual_pending_def)
qed

lemma settled_frame: "st_entries s' = st_entries s \<Longrightarrow> settled_entry k q e s' = settled_entry k q e s"
  by (simp add: settled_entry_def findByAttemptAndQuestion_def)

lemma gradeQuestion_store:
  assumes "gradeQuestion rs c q score comment grader now exam s = Inr (r, s')"
  obtains m s1 where "s1 = complete_in (lk_attemptId c) q (completed_row score comment grader now m) s"
    and "s' = s1 \<or> finalizeTerminalGrading rs c exam now s1 = Inr (True, s')"
proof -
  obtain e :: AttemptGradingEntry where "grade_outcome rs c exam now
      (complete_in (lk_attemptId c) q (completed_row score comment grader now (ge_maxScore e)) s) r s'"
    using assms unfolding gradeQuestion_iff by blast
  then show thesis by (intro that [OF refl]) (auto simp: grade_outcome_def split: if_splits)
qed

lemma settled_step: "grading_step s s' \<Longrightarrow> settled_entry k q e s \<Longrightarrow> settled_entry k q e s'"
proof (induction rule: grading_step.induct)
  case (manual rs c q' score comment grader now exam s r s')
  obtain m s1 where s1: "s1 = complete_in (lk_attemptId c) q' (completed_row score comment grader now m) s"
      "s' = s1 \<or> finalizeTerminalGrading rs c exam now s1 = Inr (True, s')"
    using manual.hyps by (rule gradeQuestion_store)
  then have "st_entries s' = st_entries s1" using finalize_entries by auto
  then have "settled_entry k q e s' = settled_entry k q e s1" by (rule settled_frame)
  then show ?case
    using settled_complete [OF manual.prems] by (simp add: s1(1))
next
  case (auto lower rs c now s r' s')
  then have "st_entries s' = st_entries s"
    by (auto simp: gradeAttemptIdempotent_iff finalize_entries split: if_splits)
  then have "settled_entry k q e s' = settled_entry k q e s" by (rule settled_frame)
  then show ?case using auto.prems by simp
qed

lemma graded_step:
  "grading_step s s' \<Longrightarrow> find_attempt k s = Some a \<and> at_status a = Graded \<Longrightarrow>
     find_attempt k s' = Some a \<and> at_status a = Graded"
proof (induction rule: grading_step.induct)
  case (manual rs c q score comment grader now exam s r s')
  obtain m s1 where "s1 = complete_in (lk_attemptId c) q (completed_row score comment grader now m) s"
      "s' = s1 \<or> finalizeTerminalGrading rs c exam now s1 = Inr (True, s')"
    using manual.hyps by (rule gradeQuestion_store)
  then show ?case
    using manual.prems finalize_graded_attempt [where a = a and k = k and s = s1] by auto
next
  case (auto lower rs c now s r' s')
  then show ?case
    using finalize_graded_attempt [where a = a and k = k]
    by (auto simp: gradeAttemptIdempotent_iff split: if_splits)
qed

interpretation settled: invariant_step grading_step "settled_entry k q e" for k q e
  by unfold_locales (rule settled_step)

interpretation graded: invariant_step grading_step "\<lambda>s. find_attempt k s = Some a \<and> at_status a = Graded" for k a
  by unfold_locales (rule graded_step)

section \<open>Properties\<close>

text \<open>C35: The terminal closure does what it promises and nothing else. A graded attempt is left alone and
  reported as such; an attempt that is not submitted is refused; and a submitted one is closed only over a
  terminal workset: its row becomes graded with the per-question results of the workset, the sum of the earned
  scores, the verdict against the passing score and the closure time, in all else as it was; the row of its
  enrollment moves along the enrollment table to completed or started as the retake policy says, and takes over
  score, verdict and attempt exactly when the score strategy selects the attempt; every other attempt and
  enrollment, and every other table whole (exams, receipts, entries, episodes, events, adjustments, admissions),
  is as before. Conversely, a submitted attempt with a terminal workset, a consistent enrollment and an allowed
  enrollment move is always closed.\<close>

theorem terminal_closure_exact:
  fixes exam :: Exam
  assumes a: "find_attempt (lk_attemptId c) s = Some a" and tx: "lk_affinity c = rs"
  defines "es \<equiv> entries_of (lk_attemptId c) s"
  defines "score_sum \<equiv> sum_list (map (earned_of es) (at_questionSnapshot a))"
  defines "passed \<equiv> ex_passingScore exam \<le> score_sum"
  shows "(at_status a = Graded \<longrightarrow> finalizeTerminalGrading rs c exam now s = Inr (False, s)) \<and>
    (at_status a \<noteq> Graded \<and> at_status a \<noteq> Submitted \<longrightarrow> (\<exists>m. finalizeTerminalGrading rs c exam now s =
       Inl (InvalidStateTransitionError m))) \<and>
    (\<forall>r s'. at_status a = Submitted \<longrightarrow> finalizeTerminalGrading rs c exam now s = Inr (r, s') \<longrightarrow>
       r \<and> terminal_workset (at_questionSnapshot a) es \<and>
       find_attempt (at_id a) s' = Some (a\<lparr>at_status := Graded,
          at_gradingResult := Some (map (\<lambda>q. entry_result q (the (entry_for es (qs_originalQuestionId q)))) (at_questionSnapshot a)),
          at_score := Some score_sum, at_passed := Some passed, at_gradedAt := Some now,
          at_gradingStatus := Some (closed_grading_status a)\<rparr>) \<and>
       (\<exists>e target. findByExamAndCandidate (at_examId a) (at_candidateId a) s = Some e \<and> en_id e = lk_enrollmentId c \<and>
          target = (if shouldEnrollmentComplete exam e passed now then Completed else Started) \<and>
          enrollment_moves (en_status e) target \<and>
          findByExamAndCandidate (at_examId a) (at_candidateId a) s' = Some
            (if shouldSelectAttempt (ex_scoreStrategy exam) e score_sum
             then e\<lparr>en_status := target, en_finalScore := Some score_sum, en_finalPassed := Some passed,
                    en_finalAttemptId := Some (at_id a)\<rparr>
             else e\<lparr>en_status := target\<rparr>)) \<and>
       map at_id (st_attempts s') = map at_id (st_attempts s) \<and>
       (\<forall>k. k \<noteq> at_id a \<longrightarrow> find_attempt k s' = find_attempt k s) \<and>
       map en_id (st_enrollments s') = map en_id (st_enrollments s) \<and>
       (\<forall>k. k \<noteq> lk_enrollmentId c \<longrightarrow> find_enrollment k s' = find_enrollment k s) \<and>
       s'\<lparr>st_attempts := st_attempts s, st_enrollments := st_enrollments s\<rparr> = s) \<and>
    (\<forall>e. at_status a = Submitted \<longrightarrow> terminal_workset (at_questionSnapshot a) es \<longrightarrow>
       findByExamAndCandidate (at_examId a) (at_candidateId a) s = Some e \<longrightarrow> en_id e = lk_enrollmentId c \<longrightarrow>
       (\<forall>p. enrollment_moves (en_status e) (target_status exam e p now)) \<longrightarrow>
       (\<exists>s'. finalizeTerminalGrading rs c exam now s = Inr (True, s')))"
  (is "?graded \<and> ?refused \<and> ?closed \<and> ?live")
proof (intro conjI)
  show ?graded using a tx by (simp add: finalizeTerminalGrading_iff)
  have cap: "assertCapabilityFor c rs = Inr ()" using tx by simp
  show ?refused
    by (auto simp add: finalizeTerminalGrading_def Let_def cmd_run a cap)
  show ?live
    using a tx aggregate_ok [of a es "ex_passingScore exam"]
    by (auto simp: finalizeTerminalGrading_iff es_def)
  show ?closed
  proof (intro allI impI)
    fix r s' assume st: "at_status a = Submitted"
      and run: "finalizeTerminalGrading rs c exam now s = Inr (r, s')"
    obtain ag e where ag: "aggregateGradingEntries a es (ex_passingScore exam) = Inr ag"
      and e: "findByExamAndCandidate (at_examId a) (at_candidateId a) s = Some e" "en_id e = lk_enrollmentId c"
      and mv: "enrollment_moves (en_status e) (target_status exam e (ag_passed ag) now)"
      and r: "r" and s': "s' = closed_store exam now a ag e s"
      using run a st by (auto simp: finalizeTerminalGrading_iff es_def)
    note ag' = ag [unfolded aggregate_iff]
    have sums: "ag_totalScore ag = score_sum" "ag_passed ag = passed"
      using ag' by (simp_all add: score_sum_def passed_def)
    have row: "find_attempt (at_id a) s' = Some (graded_row ag (closed_grading_status a) now a)"
      using a find_attempt_id [OF a] by (simp add: s' closed_store_attempt)
    have en: "findByExamAndCandidate (at_examId a) (at_candidateId a) s' =
        Some (final_row (target_status exam e passed now)
          (shouldSelectAttempt (ex_scoreStrategy exam) e score_sum) ag (at_id a) e)"
      by (simp add: s' closed_store_enrollment e sums)
    show "r \<and> terminal_workset (at_questionSnapshot a) es \<and>
       find_attempt (at_id a) s' = Some (a\<lparr>at_status := Graded,
          at_gradingResult := Some (map (\<lambda>q. entry_result q (the (entry_for es (qs_originalQuestionId q)))) (at_questionSnapshot a)),
          at_score := Some score_sum, at_passed := Some passed, at_gradedAt := Some now,
          at_gradingStatus := Some (closed_grading_status a)\<rparr>) \<and>
       (\<exists>e target. findByExamAndCandidate (at_examId a) (at_candidateId a) s = Some e \<and> en_id e = lk_enrollmentId c \<and>
          target = (if shouldEnrollmentComplete exam e passed now then Completed else Started) \<and>
          enrollment_moves (en_status e) target \<and>
          findByExamAndCandidate (at_examId a) (at_candidateId a) s' = Some
            (if shouldSelectAttempt (ex_scoreStrategy exam) e score_sum
             then e\<lparr>en_status := target, en_finalScore := Some score_sum, en_finalPassed := Some passed,
                    en_finalAttemptId := Some (at_id a)\<rparr>
             else e\<lparr>en_status := target\<rparr>)) \<and>
       map at_id (st_attempts s') = map at_id (st_attempts s) \<and>
       (\<forall>k. k \<noteq> at_id a \<longrightarrow> find_attempt k s' = find_attempt k s) \<and>
       map en_id (st_enrollments s') = map en_id (st_enrollments s) \<and>
       (\<forall>k. k \<noteq> lk_enrollmentId c \<longrightarrow> find_enrollment k s' = find_enrollment k s) \<and>
       s'\<lparr>st_attempts := st_attempts s, st_enrollments := st_enrollments s\<rparr> = s"
    proof (intro conjI)
      show "\<exists>e target. findByExamAndCandidate (at_examId a) (at_candidateId a) s = Some e \<and> en_id e = lk_enrollmentId c \<and>
          target = (if shouldEnrollmentComplete exam e passed now then Completed else Started) \<and>
          enrollment_moves (en_status e) target \<and>
          findByExamAndCandidate (at_examId a) (at_candidateId a) s' = Some
            (if shouldSelectAttempt (ex_scoreStrategy exam) e score_sum
             then e\<lparr>en_status := target, en_finalScore := Some score_sum, en_finalPassed := Some passed,
                    en_finalAttemptId := Some (at_id a)\<rparr>
             else e\<lparr>en_status := target\<rparr>)"
        using e mv unfolding en
        by (intro exI [of _ e] exI [of _ "target_status exam e passed now"])
          (simp add: final_row_def target_status_def sums)
    qed (use r ag' row sums e(2) in \<open>simp_all add: graded_row_def s' closed_store_frame closed_store_others\<close>)
  qed
qed

text \<open>A store in which the sample attempt is submitted: the objective question is scored, the text
  question awaits a manual score.\<close>

definition sample_submitted :: ExamAttempt where
  "sample_submitted = sample_attempt\<lparr>at_status := Submitted, at_gradingStatus := Some PendingManual,
     at_submittedAnswers := Some [(''q1'', Some (JBool True)), (''q2'', Some (JStr ''t''))]\<rparr>"

definition sample_pending :: store where
  "sample_pending = sample_store\<lparr>st_attempts := [sample_submitted],
     st_entries := fresh_rows id sample_submitted [(''q1'', Some (JBool True)), (''q2'', Some (JStr ''t''))]\<rparr>"

definition sample_cap :: LockedEnrollmentAttemptIdentity where
  "sample_cap = \<lparr>lk_enrollmentId = ''n1'', lk_attemptId = ''a1'', lk_affinity = sample_repos\<rparr>"

definition sample_objective :: store where
  "sample_objective = sample_store\<lparr>st_attempts := [sample_frozen\<lparr>at_gradingStatus := Some AutoGraded\<rparr>],
     st_entries := fresh_rows id sample_frozen [(''q1'', Some (JBool True))]\<rparr>"

lemmas sample_grading_defs = sample_submitted_def sample_pending_def sample_cap_def sample_objective_def
  sample_frozen_def sample_defs sample_repos_def

theorem terminal_closure_exact_witness:
  "\<exists>g. find_attempt ''a1'' (snd (projr (finalizeTerminalGrading sample_repos sample_cap sample_exam 9
       sample_objective))) = Some g \<and> at_status g = Graded"
proof -
  let ?run = "finalizeTerminalGrading sample_repos sample_cap sample_exam 9 sample_objective"
  let ?a = "sample_frozen\<lparr>at_gradingStatus := Some AutoGraded\<rparr>"
  have ok: "?run = Inr (fst (projr ?run), snd (projr ?run))"
    by (rule run_result) code_simp
  have found: "find_attempt (lk_attemptId sample_cap) sample_objective = Some ?a"
    by code_simp
  have tx: "lk_affinity sample_cap = sample_repos" by (simp add: sample_cap_def)
  have st: "at_status ?a = Submitted" "at_id ?a = ''a1''"
    by (simp_all add: sample_frozen_def sample_attempt_def)
  note closed = terminal_closure_exact [OF found tx, of sample_exam 9, THEN conjunct2, THEN conjunct2, THEN conjunct1,
      rule_format, OF st(1) ok]
  have "\<exists>g. find_attempt (at_id ?a) (snd (projr ?run)) = Some g \<and> at_status g = Graded"
    by (rule exI, rule conjI, rule closed [THEN conjunct2, THEN conjunct2, THEN conjunct1], simp)
  then show ?thesis by (simp only: st(2))
qed

text \<open>The final result of an enrollment is the one its score strategy names. After closing any
  non-empty sequence of attempts of an enrollment without a final result, the recorded attempt, score
  and verdict are those of one attempt of the sequence: the first, the latest, or one with the
  highest score.\<close>

lemma strategy_selects_final:
  assumes "graded \<noteq> []" "\<forall>r\<in>set graded. fst r \<noteq> []" "falsy (en_finalAttemptId e)"
  shows "\<exists>r. selected_of strategy graded r \<and>
    final_is (record_results strategy target graded e) (fst r) (snd r)"
  using assms by (rule record_results_selected)

definition sample_aggregate :: "jsnum \<Rightarrow> GradingEntryAggregate" where
  "sample_aggregate x = \<lparr>ag_questionResults = [], ag_totalScore = x, ag_maxScore = 10, ag_passed = (x \<ge> 6)\<rparr>"

lemma strategy_selects_final_witness:
  "\<exists>r. selected_of Highest [(''a1'', sample_aggregate 4), (''a2'', sample_aggregate 7)] r \<and>
     final_is (record_results Highest Started
       [(''a1'', sample_aggregate 4), (''a2'', sample_aggregate 7)] sample_enrollment) (fst r) (snd r)"
  using strategy_selects_final [of "[(''a1'', sample_aggregate 4), (''a2'', sample_aggregate 7)]"
      sample_enrollment Highest Started]
  by (simp add: sample_enrollment_def)

text \<open>Automatic grading is idempotent and never closes an attempt that awaits manual grading. A
  call on such an attempt returns the partial score of the frozen answers and writes nothing; any
  other successful call leaves the attempt graded, and repeating it at any later time writes nothing
  and returns the same total, verdict and per-question results.\<close>

lemma auto_grading_idempotent:
  assumes run: "gradeAttemptIdempotent lower rs c now s = Inr (r, s1)"
  shows "\<exists>a. find_attempt (lk_attemptId c) s = Some a \<and>
    (if at_status a \<noteq> Graded \<and> at_gradingStatus a = Some PendingManual then s1 = s
     else (\<exists>g. find_attempt (lk_attemptId c) s1 = Some g \<and> at_status g = Graded) \<and>
       (\<exists>r'. gradeAttemptIdempotent lower rs c later s1 = Inr (r', s1) \<and>
          sr_totalScore r' = sr_totalScore r \<and> sr_passed r' = sr_passed r \<and>
          sr_questionResults r' = sr_questionResults r))"
proof -
  obtain a x e where a: "find_attempt (lk_attemptId c) s = Some a" "find_exam (at_examId a) s = Some x"
      "findByExamAndCandidate (at_examId a) (at_candidateId a) s = Some e"
    and cases: "if at_status a = Graded then r = persisted_score a now \<and> s1 = s
         else if at_gradingStatus a = Some PendingManual
         then s1 = s \<and> r = (computeGradingResult lower a x now)\<lparr>sr_attemptId := at_id a, sr_gradedAt := now\<rparr>
         else finalizeTerminalGrading rs c x now s = Inr (True, s1) \<and>
           (\<exists>g. find_attempt (lk_attemptId c) s1 = Some g \<and> r = persisted_score g now)"
    using run unfolding gradeAttemptIdempotent_iff by blast
  have replay: "\<exists>r'. gradeAttemptIdempotent lower rs c later s1 = Inr (r', s1) \<and>
      sr_totalScore r' = sr_totalScore r \<and> sr_passed r' = sr_passed r \<and>
      sr_questionResults r' = sr_questionResults r"
    if "find_attempt (lk_attemptId c) s1 = Some g" "at_status g = Graded" "r = persisted_score g now"
      "find_exam (at_examId g) s1 \<noteq> None" "findByExamAndCandidate (at_examId g) (at_candidateId g) s1 \<noteq> None" for g
    using that unfolding gradeAttemptIdempotent_iff
    by (auto simp: persisted_score_def intro!: exI [of _ "persisted_score g later"])
  consider (graded) "at_status a = Graded" | (held) "at_status a \<noteq> Graded" "at_gradingStatus a = Some PendingManual"
    | (closed) "at_status a \<noteq> Graded" "at_gradingStatus a \<noteq> Some PendingManual" by blast
  then show ?thesis
  proof cases
    case graded
    with cases a replay [of a] show ?thesis by auto
  next
    case held
    with cases a show ?thesis by auto
  next
    case closed
    then obtain g where fin: "finalizeTerminalGrading rs c x now s = Inr (True, s1)"
      and g: "find_attempt (lk_attemptId c) s1 = Some g" "r = persisted_score g now"
      using cases by auto
    obtain ag e' where s1: "s1 = closed_store x now a ag e' s"
      using fin a closed by (auto simp: finalizeTerminalGrading_iff)
    have "g = graded_row ag (closed_grading_status a) now a"
      using g(1) a find_attempt_id [OF a(1)] by (simp add: s1 closed_store_attempt)
    then have "at_status g = Graded" "find_exam (at_examId g) s1 \<noteq> None"
        "findByExamAndCandidate (at_examId g) (at_candidateId g) s1 \<noteq> None"
      using a by (simp_all add: s1 closed_store_enrollment)
    with g a closed replay [of g] show ?thesis by auto
  qed
qed

lemma auto_grading_idempotent_witness:
  "\<exists>g. find_attempt ''a1'' (snd (projr (gradeAttemptIdempotent id sample_repos sample_cap 9 sample_objective))) =
     Some g \<and> at_status g = Graded"
proof -
  let ?run = "gradeAttemptIdempotent id sample_repos sample_cap 9 sample_objective"
  have ok: "?run = Inr (fst (projr ?run), snd (projr ?run))"
    by (rule run_result) code_simp
  have "find_attempt ''a1'' sample_objective = Some (sample_frozen\<lparr>at_gradingStatus := Some AutoGraded\<rparr>)"
    by code_simp
  with auto_grading_idempotent [OF ok, of 10] show ?thesis
    by (simp add: sample_cap_def)
qed

text \<open>C36: Manual grading makes progress and closes the attempt at the right moment. On a submitted
  attempt held for manual grading whose workset is complete, an in-range score for a pending question
  is always accepted when the enrollment is started and not blocked; the workset stays complete, the
  number of pending questions drops, and when none is left the attempt is graded with the sum of all
  earned scores, otherwise it is still held.\<close>

theorem manual_grading_progress:
  assumes a: "find_attempt (lk_attemptId c) s = Some a" "at_status a = Submitted"
      "at_gradingStatus a = Some PendingManual"
    and tx: "lk_affinity c = rs"
    and en: "findByExamAndCandidate (at_examId a) (at_candidateId a) s = Some e"
      "en_id e = lk_enrollmentId c" "en_status e = Started"
    and ws: "open_workset (at_questionSnapshot a) (entries_of (lk_attemptId c) s)"
    and entry: "findByAttemptAndQuestion (lk_attemptId c) q s = Some en" "ge_gradingMode en = ManualMode"
      "ge_status en = EntryPendingManual"
    and score: "0 \<le> score" "score \<le> ge_maxScore en"
  shows "\<exists>r s'. gradeQuestion rs c q score comment grader now exam s = Inr (r, s') \<and>
    open_workset (at_questionSnapshot a) (entries_of (lk_attemptId c) s') \<and>
    countPendingManualForAttempt (lk_attemptId c) s' < countPendingManualForAttempt (lk_attemptId c) s \<and>
    (if countPendingManualForAttempt (lk_attemptId c) s' = 0
     then gq_fullyGraded r \<and> (\<exists>g. find_attempt (lk_attemptId c) s' = Some g \<and> at_status g = Graded \<and>
       at_score g = Some (sum_list (map (earned_of (entries_of (lk_attemptId c) s')) (at_questionSnapshot a))))
     else find_attempt (lk_attemptId c) s' = Some a)"
proof -
  let ?k = "lk_attemptId c"
  let ?f = "completed_row score comment grader now (ge_maxScore en)"
  let ?s1 = "complete_in ?k q ?f s"
  have member: "en \<in> set (st_entries s)" "pending_for ?k q en"
    using entry by (auto simp: findByAttemptAndQuestion_def find_Some_iff pending_for_def manual_pending_def)
  have same: "x = en" if "x \<in> set (entries_of ?k s)" "pending_for ?k q x" for x
    using that member ws open_workset_def [of _ "entries_of ?k s"]
    by (auto simp: set_entries_of pending_for_def manual_pending_def distinct_map inj_on_def)
  have max: "\<forall>x\<in>set (entries_of ?k s). pending_for ?k q x \<longrightarrow> score \<le> ge_maxScore x"
    using same score(2) by blast
  have ws1: "open_workset (at_questionSnapshot a) (entries_of ?k ?s1)"
    using open_workset_complete [OF ws score(1) max] by (simp add: entries_of_complete)
  have fewer: "countPendingManualForAttempt ?k ?s1 < countPendingManualForAttempt ?k s"
    using member by (rule complete_in_fewer)
  have accepted: "gradeQuestion rs c q score comment grader now exam s = Inr (r, s')"
    if "grade_outcome rs c exam now ?s1 r s'" for r s'
    using that a entry score unfolding gradeQuestion_iff by (intro exI [of _ a] exI [of _ en]) simp
  show ?thesis
  proof (cases "countPendingManualForAttempt ?k ?s1 = 0")
    case False
    then show ?thesis
      using accepted [of "\<lparr>gq_gradingStatus = PendingManual, gq_fullyGraded = False,
          gq_totalScore = None, gq_passed = None\<rparr>" ?s1] ws1 fewer a(1)
      by (auto simp: grade_outcome_def)
  next
    case True
    obtain ag where ag: "aggregateGradingEntries a (entries_of ?k ?s1) (ex_passingScore exam) = Inr ag"
      using aggregate_ok [OF open_workset_closed [OF ws1 True]] by blast
    let ?s2 = "closed_store exam now a ag e ?s1"
    have fin: "finalizeTerminalGrading rs c exam now ?s1 = Inr (True, ?s2)"
      using a tx en ag by (auto simp: finalizeTerminalGrading_iff enrollment_moves_def target_status_def)
    have g: "find_attempt ?k ?s2 = Some (graded_row ag (closed_grading_status a) now a)"
      using a find_attempt_id [OF a(1)] by (simp add: closed_store_attempt)
    have cnt: "countPendingManualForAttempt ?k ?s2 = 0"
      using True by (simp add: countPendingManualForAttempt_def)
    have "grade_outcome rs c exam now ?s1 \<lparr>gq_gradingStatus = FullyGraded, gq_fullyGraded = True,
        gq_totalScore = Some (ag_totalScore ag), gq_passed = Some (ag_passed ag)\<rparr> ?s2"
      unfolding grade_outcome_def using True fin g by simp
    from accepted [OF this] g cnt fewer True ws1 ag [unfolded aggregate_iff] show ?thesis by auto
  qed
qed

theorem manual_grading_progress_witness:
  "\<exists>r s'. gradeQuestion sample_repos sample_cap ''q2'' 3 ''good'' ''g1'' 9 sample_exam sample_pending = Inr (r, s') \<and>
     open_workset (at_questionSnapshot sample_submitted) (entries_of (lk_attemptId sample_cap) s')"
proof -
  have a: "find_attempt (lk_attemptId sample_cap) sample_pending = Some sample_submitted"
    and en: "findByExamAndCandidate (at_examId sample_submitted) (at_candidateId sample_submitted) sample_pending =
      Some sample_enrollment"
    by code_simp+
  let ?x = "st_entries sample_pending ! 1"
  have x: "findByAttemptAndQuestion (lk_attemptId sample_cap) ''q2'' sample_pending = Some ?x"
      "ge_gradingMode ?x = ManualMode" "ge_status ?x = EntryPendingManual" "ge_maxScore ?x = 5"
    by code_simp+
  have ws: "open_workset (at_questionSnapshot sample_submitted) (entries_of (lk_attemptId sample_cap) sample_pending)"
  proof (rule fresh_open_workset)
    show "mset (entries_of (lk_attemptId sample_cap) sample_pending) = mset (fresh_rows id sample_submitted
        [(''q1'', Some (JBool True)), (''q2'', Some (JStr ''t''))])"
      by (simp add: entries_of_def sample_grading_defs fresh_rows_def)
  qed (simp_all add: sample_grading_defs)
  have st: "at_status sample_submitted = Submitted" "at_gradingStatus sample_submitted = Some PendingManual"
    "lk_affinity sample_cap = sample_repos" "en_id sample_enrollment = lk_enrollmentId sample_cap"
    "en_status sample_enrollment = Started"
    by (simp_all add: sample_grading_defs)
  have sc: "(0 :: jsnum) \<le> 3" "3 \<le> ge_maxScore ?x" using x(4) by simp_all
  from manual_grading_progress [OF a st(1,2,3) en st(4,5) ws x(1-3) sc] show ?thesis by blast
qed

text \<open>C37: Grades are one-way. Whatever sequence of manual and automatic grading calls follows, on any
  attempt, a completed entry keeps its score, comment and grader, and a graded attempt keeps its whole
  row; a second manual score for a completed question is refused.\<close>

theorem grades_one_way:
  assumes "grading_step\<^sup>*\<^sup>* s t"
  shows "(settled_entry k q en s \<longrightarrow> settled_entry k q en t) \<and>
    (find_attempt k s = Some a \<and> at_status a = Graded \<longrightarrow> find_attempt k t = Some a) \<and>
    (settled_entry k q en s \<and> lk_attemptId c = k \<longrightarrow>
       isl (gradeQuestion rs c q score comment grader now exam t))"
proof (intro conjI impI)
  show "settled_entry k q en t" if "settled_entry k q en s"
    using settled.reach_inv [OF assms that] .
  show "find_attempt k t = Some a" if "find_attempt k s = Some a \<and> at_status a = Graded"
    using graded.reach_inv [OF assms that] by simp
  show "isl (gradeQuestion rs c q score comment grader now exam t)"
    if held: "settled_entry k q en s \<and> lk_attemptId c = k"
  proof (cases "gradeQuestion rs c q score comment grader now exam t")
    case (Inr p)
    then obtain x where "findByAttemptAndQuestion k q t = Some x" "ge_status x = EntryPendingManual"
      using held by (cases p) (auto simp: gradeQuestion_iff)
    with settled.reach_inv [OF assms, of k q en] held show ?thesis
      by (simp add: settled_entry_def)
  qed simp
qed

theorem grades_one_way_witness:
  "settled_entry ''a1'' ''q1'' (hd (st_entries sample_pending)) sample_pending \<and>
   settled_entry ''a1'' ''q1'' (hd (st_entries sample_pending))
     (snd (projr (gradeQuestion sample_repos sample_cap ''q2'' 3 ''good'' ''g1'' 9 sample_exam sample_pending)))"
proof -
  let ?run = "gradeQuestion sample_repos sample_cap ''q2'' 3 ''good'' ''g1'' 9 sample_exam sample_pending"
  have "?run = Inr (fst (projr ?run), snd (projr ?run))"
    by (rule run_result) code_simp
  then have "grading_step\<^sup>*\<^sup>* sample_pending (snd (projr ?run))"
    by (blast intro: grading_step.manual)
  moreover have "settled_entry ''a1'' ''q1'' (hd (st_entries sample_pending)) sample_pending"
    by code_simp
  ultimately show ?thesis
    using grades_one_way [of sample_pending "snd (projr ?run)" "''a1''" "''q1''" "hd (st_entries sample_pending)"]
    by blast
qed

end
