(* ===== verification/Attempt_Commands.thy ===== *)
theory Attempt_Commands
  imports Grading_Workset Lifecycles
begin

text \<open>
  \<^verbatim>\<open>packages/exam-engine/src/attemptCommands.ts\<close>, the commands on a running attempt: submission (the
  freeze barrier), the scanner's disruption and the lifecycle part of a restore; and, from
  \<^verbatim>\<open>restoreInterruption.ts\<close>, the terminalization of an active interruption that submission calls.
\<close>

section \<open>Active interruptions\<close>

record TerminalizationHint =
  th_policy :: InterruptionTimePolicy
  th_eligibleSeconds :: "int option"
  th_adjustmentId :: "ident option"
  th_reasonCode :: string

datatype SubmitInterruptionResolution = ModeNone | ModeActiveInterruption TerminalizationHint

text \<open>The identity checks on the active episode of a disrupted attempt, which submission and restore
  write out with the same messages: pointer, mirror, episode, detected event, no outcome yet. The
  answer is the detected event.\<close>

definition validate_active_episode :: "ExamAttempt \<Rightarrow> ident \<Rightarrow> time \<Rightarrow> AttemptInterruptionEvent action" where
  "validate_active_episode attempt interruptionId interruptedAt =
     bindC (someC (find_episode (at_id attempt) interruptionId)
       (ValidationError ''Interruption episode not found for the active pointer'')) (\<lambda>episode.
     bindC (guardC (ai_attemptId episode = at_id attempt)
       (ValidationError ''Interruption episode attemptId mismatch'')) (\<lambda>_.
     bindC (someC (findDetected interruptionId)
       (ValidationError ''No detected event found for the active interruption'')) (\<lambda>detected.
     bindC (guardC (ie_attemptId detected = at_id attempt)
       (ValidationError ''Detected event attemptId mismatch'')) (\<lambda>_.
     bindC (guardC (ie_interruptionId detected = interruptionId)
       (ValidationError ''Detected event interruptionId mismatch'')) (\<lambda>_.
     bindC (guardC (ie_occurredAt detected = interruptedAt)
       (ValidationError ''Detected event occurredAt does not match attempt interruptedAt'')) (\<lambda>_.
     bindC (getsC (findOutcome interruptionId)) (\<lambda>existingOutcome.
     bindC (guardC (existingOutcome = None)
       (ValidationError ''Interruption episode already has an outcome event'')) (\<lambda>_.
     returnC detected))))))))"

definition outcome_event ::
  "InterruptionEventType \<Rightarrow> ident \<Rightarrow> ident \<Rightarrow> time \<Rightarrow> TerminalizationHint \<Rightarrow> ident \<Rightarrow> AttemptInterruptionEvent" where
  "outcome_event ty attemptId interruptionId now hint i =
     \<lparr>ie_id = i, ie_attemptId = attemptId, ie_interruptionId = interruptionId, ie_eventType = ty,
      ie_occurredAt = now, ie_observedLastActivityAt = None, ie_detectionSource = None,
      ie_timeoutSeconds = None, ie_policy = th_policy hint,
      ie_eligibleSeconds = th_eligibleSeconds hint, ie_timeAdjustmentId = th_adjustmentId hint,
      ie_actorId = None, ie_reasonCode = th_reasonCode hint\<rparr>"

definition resolveActiveInterruptionOnTerminalization ::
  "id_supply \<Rightarrow> ExamAttempt \<Rightarrow> SubmitInterruptionResolution \<Rightarrow> time \<Rightarrow> unit action" where
  "resolveActiveInterruptionOnTerminalization uuid lockedAttempt resolution now =
     (case resolution of
        ModeNone \<Rightarrow>
          guardC (at_status lockedAttempt \<noteq> Disrupted) (ValidationError
            ''Cannot submit a disrupted attempt without interruption resolution (mode=none is invalid for disrupted status)'')
      | ModeActiveInterruption hint \<Rightarrow>
          bindC (guardC (at_status lockedAttempt = Disrupted) (ValidationError
            ''Cannot resolve active interruption for a non-disrupted attempt (mode=active_interruption is invalid for in_progress status)'')) (\<lambda>_.
          bindC (guardC (\<not> falsy (at_currentInterruptionId lockedAttempt))
            (ValidationError ''Disrupted attempt has no active interruption pointer'')) (\<lambda>_.
          bindC (requireC (at_interruptedAt lockedAttempt)
            (ValidationError ''Disrupted attempt has no interruptedAt timestamp'')) (\<lambda>interruptedAt.
          bindC (requireC (at_currentInterruptionId lockedAttempt)
            (ValidationError ''Disrupted attempt has no active interruption pointer'')) (\<lambda>interruptionId.
          bindC (validate_active_episode lockedAttempt interruptionId interruptedAt) (\<lambda>_.
          bindC (insert_event uuid
            (outcome_event Terminalized (at_id lockedAttempt) interruptionId now hint)) (\<lambda>_.
          returnC ())))))))"

section \<open>Submission\<close>

record SubmitOptions =
  so_source :: "SubmitSource option"
  so_minSubmitAfterStartMinutes :: "int option"
  so_submissionReason :: "SubmissionReason option"
  so_resolution :: SubmitInterruptionResolution

definition submitted_row ::
  "time \<Rightarrow> SubmittedAnswersSnapshot \<Rightarrow> SubmissionReason \<Rightarrow> GradingStatus \<Rightarrow> ExamAttempt \<Rightarrow> ExamAttempt" where
  "submitted_row now submittedAnswers reason gradingStatus a =
     a\<lparr>at_status := Submitted, at_submittedAt := Some now, at_submittedAnswers := Some submittedAnswers,
       at_submissionReason := Some reason, at_gradingStatus := Some gradingStatus,
       at_currentInterruptionId := None, at_interruptedAt := None\<rparr>"

text \<open>The candidate's early-submit guard: \<^verbatim>\<open>Math.ceil\<close> of the missing milliseconds in seconds.\<close>

definition early_submit_guard :: "SubmitOptions \<Rightarrow> ExamAttempt \<Rightarrow> time \<Rightarrow> app_error + unit" where
  "early_submit_guard opts attempt now =
     (if so_source opts = Some SrcCandidate
      then (case (so_minSubmitAfterStartMinutes opts, at_startedAt attempt) of
              (Some minutes, Some startedAt) \<Rightarrow>
                (let earliestSubmitAt = startedAt + minutes * 60000 in
                 guardR (\<not> now < earliestSubmitAt)
                   (AttemptSubmitTooEarlyError earliestSubmitAt ((earliestSubmitAt - now + 999) div 1000)))
            | _ \<Rightarrow> Inr ())
      else Inr ())"

definition submitAttempt ::
  "(string \<Rightarrow> string) \<Rightarrow> (jsnum \<Rightarrow> string) \<Rightarrow> id_supply \<Rightarrow> ident \<Rightarrow> time \<Rightarrow> SubmitOptions \<Rightarrow> ExamAttempt action" where
  "submitAttempt lower num uuid attemptId now opts =
     bindC (someC (find_attempt attemptId) (ValidationError ''Attempt not found'')) (\<lambda>attempt.
     bindC (resolveActiveInterruptionOnTerminalization uuid attempt (so_resolution opts) now) (\<lambda>_.
     bindC (getsC (entries_of attemptId)) (\<lambda>existingEntries.
     if at_status attempt = Submitted \<or> at_status attempt = Graded
     then
       bindC (liftC (validateGradingWorksetConsistency lower num attempt existingEntries)) (\<lambda>_.
       returnC attempt)
     else
     bindC (guardC (isTransitionOk (transition (at_status attempt) CmdSubmit))
       (InvalidStateTransitionError
         (''Cannot submit attempt in '' @ attempt_status_str (at_status attempt) @ '' state''))) (\<lambda>_.
     bindC (liftC (early_submit_guard opts attempt now)) (\<lambda>_.
     bindC (guardC (\<not> length existingEntries > 0) (EngineError
       ''Grading workset entries exist before authoritative submission freeze'')) (\<lambda>_.
     let submittedAnswers = buildSubmittedAnswersSnapshot (at_answers attempt) (at_questionSnapshot attempt);
         gradingStatus = (if requiresManualGrading (at_questionSnapshot attempt) then PendingManual
                          else AutoGraded);
         reason = (case so_submissionReason opts of None \<Rightarrow> ReasonManual | Some r \<Rightarrow> r) in
     bindC (update_attempt attemptId (submitted_row now submittedAnswers reason gradingStatus)) (\<lambda>updated.
     bindC (requireC updated (ValidationError ''Attempt not found after update'')) (\<lambda>submitted.
     bindC (materializeGradingWorkset lower submitted) (\<lambda>_.
     returnC submitted)))))))))"

section \<open>Disruption\<close>

datatype ScannerDisruptResult = Marked ExamAttempt | FreshUnderLock | StateChangedBeforeLock | Missing

definition detected_event ::
  "ident \<Rightarrow> ident \<Rightarrow> time \<Rightarrow> time \<Rightarrow> int \<Rightarrow> InterruptionTimePolicy \<Rightarrow> ident \<Rightarrow> AttemptInterruptionEvent" where
  "detected_event attemptId interruptionId tick lastActivityAt timeoutSeconds policy i =
     \<lparr>ie_id = i, ie_attemptId = attemptId, ie_interruptionId = interruptionId, ie_eventType = Detected,
      ie_occurredAt = tick, ie_observedLastActivityAt = Some lastActivityAt,
      ie_detectionSource = Some HeartbeatTimeout, ie_timeoutSeconds = Some timeoutSeconds,
      ie_policy = policy, ie_eligibleSeconds = None, ie_timeAdjustmentId = None, ie_actorId = None,
      ie_reasonCode = ''heartbeat_timeout''\<rparr>"

definition disrupted_row :: "ident \<Rightarrow> time \<Rightarrow> ExamAttempt \<Rightarrow> ExamAttempt" where
  "disrupted_row interruptionId tick a =
     a\<lparr>at_status := Disrupted, at_currentInterruptionId := Some interruptionId,
       at_interruptedAt := Some tick\<rparr>"

definition markDisrupted ::
  "id_supply \<Rightarrow> ident \<Rightarrow> time \<Rightarrow> int \<Rightarrow> ScannerDisruptResult action" where
  "markDisrupted uuid attemptId scannerTickNow heartbeatTimeoutSeconds =
     bindC (getsC (find_attempt attemptId)) (\<lambda>found.
     case found of
       None \<Rightarrow> returnC Missing
     | Some attempt \<Rightarrow>
         (if at_status attempt \<noteq> InProgress then returnC StateChangedBeforeLock
          else case at_lastActivityAt attempt of
            None \<Rightarrow> returnC FreshUnderLock
          | Some lastActivityAt \<Rightarrow>
              (if scannerTickNow - lastActivityAt < heartbeatTimeoutSeconds * 1000
               then returnC FreshUnderLock
               else
               bindC (requireC (at_interruptionTimingPolicySnapshot attempt) (ValidationError
                 ''Cannot disrupt attempt: missing interruption timing policy snapshot'')) (\<lambda>snapshot.
               bindC (create_episode uuid attemptId) (\<lambda>episode.
               bindC (insert_event uuid (detected_event attemptId (ai_id episode) scannerTickNow
                 lastActivityAt heartbeatTimeoutSeconds (tp_policy snapshot))) (\<lambda>_.
               bindC (update_attempt attemptId (disrupted_row (ai_id episode) scannerTickNow)) (\<lambda>updated.
               returnC (case updated of None \<Rightarrow> Missing | Some a \<Rightarrow> Marked a))))))))"

section \<open>The lifecycle part of a restore\<close>

datatype RestoreLifecycleOutcome = LifeRestored | LifeAlreadyInProgress | LifeTerminal

definition resumed_row :: "time \<Rightarrow> ExamAttempt \<Rightarrow> ExamAttempt" where
  "resumed_row now a =
     a\<lparr>at_status := InProgress, at_lastActivityAt := Some now, at_currentInterruptionId := None,
       at_interruptedAt := None\<rparr>"

definition restoreAttemptState ::
  "ExamAttempt \<Rightarrow> time \<Rightarrow> (RestoreLifecycleOutcome \<times> ExamAttempt) action" where
  "restoreAttemptState attempt now =
     (if at_status attempt = InProgress then returnC (LifeAlreadyInProgress, attempt)
      else if at_status attempt = Submitted \<or> at_status attempt = Graded \<or> at_status attempt = Voided
      then returnC (LifeTerminal, attempt)
      else
      bindC (guardC (at_status attempt = Disrupted) (InvalidStateTransitionError
        (''Cannot restore attempt from '' @ attempt_status_str (at_status attempt) @ '' state''))) (\<lambda>_.
      bindC (update_attempt (at_id attempt) (resumed_row now)) (\<lambda>updated.
      bindC (requireC updated (ValidationError ''Attempt not found after update'')) (\<lambda>restored.
      returnC (LifeRestored, restored)))))"

section \<open>Lemmas\<close>

lemma row_ids [simp]:
  "at_id (submitted_row now sub r g a) = at_id a" "at_id (disrupted_row i t a) = at_id a"
  "at_id (resumed_row now a) = at_id a"
  by (simp_all add: submitted_row_def disrupted_row_def resumed_row_def)

lemma outcome_event_simps [simp]:
  "ie_eventType (outcome_event ty k j now h i) = ty" "ie_interruptionId (outcome_event ty k j now h i) = j"
  "ie_attemptId (outcome_event ty k j now h i) = k" "ie_occurredAt (outcome_event ty k j now h i) = now"
  by (simp_all add: outcome_event_def)

lemma detected_event_simps [simp]:
  "ie_eventType (detected_event k j t l m p i) = Detected" "ie_interruptionId (detected_event k j t l m p i) = j"
  "ie_attemptId (detected_event k j t l m p i) = k" "ie_occurredAt (detected_event k j t l m p i) = t"
  by (simp_all add: detected_event_def)

text \<open>The interruption of a disrupted attempt is open: pointer and mirror name an episode of the
  attempt whose detected event happened at the mirrored instant and which has no outcome.\<close>

definition episode_open :: "ExamAttempt \<Rightarrow> ident \<Rightarrow> time \<Rightarrow> AttemptInterruptionEvent \<Rightarrow> store \<Rightarrow> bool" where
  "episode_open a j t d s \<longleftrightarrow>
     find_episode (at_id a) j s \<noteq> None \<and> findDetected j s = Some d \<and> ie_attemptId d = at_id a \<and>
     ie_occurredAt d = t \<and> findOutcome j s = None"

lemma find_episode_attempt: "find_episode k j s = Some e \<Longrightarrow> ai_attemptId e = k \<and> pg_uuid (ai_id e) = pg_uuid j"
  by (auto simp: find_episode_def find_Some_iff)

lemma findDetected_key: "findDetected j s = Some d \<Longrightarrow> ie_interruptionId d = j \<and> ie_eventType d = Detected"
  by (auto simp: findDetected_def find_Some_iff)

lemma validate_active_episode_iff [cmd_iff]:
  "validate_active_episode a j t s = Inr (d, s') \<longleftrightarrow> s' = s \<and> episode_open a j t d s"
  by (auto simp: validate_active_episode_def cmd_iff episode_open_def dest: find_episode_attempt findDetected_key)

definition active_interruption :: "ExamAttempt \<Rightarrow> store \<Rightarrow> bool" where
  "active_interruption a s \<longleftrightarrow>
     (\<exists>j t d. at_currentInterruptionId a = Some j \<and> j \<noteq> [] \<and> at_interruptedAt a = Some t \<and>
        episode_open a j t d s)"

definition terminalize :: "id_supply \<Rightarrow> ExamAttempt \<Rightarrow> time \<Rightarrow> TerminalizationHint \<Rightarrow> store \<Rightarrow> store" where
  "terminalize uuid a now hint s =
     s\<lparr>st_drawn := Suc (st_drawn s), st_events := st_events s @
        [outcome_event Terminalized (at_id a) (the (at_currentInterruptionId a)) now hint (uuid (st_drawn s))]\<rparr>"

lemma resolve_terminalization_iff [cmd_iff]:
  "resolveActiveInterruptionOnTerminalization uuid a res now s = Inr (u, s') \<longleftrightarrow>
     (case res of
        ModeNone \<Rightarrow> at_status a \<noteq> Disrupted \<and> s' = s
      | ModeActiveInterruption hint \<Rightarrow>
          at_status a = Disrupted \<and> active_interruption a s \<and> s' = terminalize uuid a now hint s)"
  by (cases res; cases "at_currentInterruptionId a")
    (auto simp: resolveActiveInterruptionOnTerminalization_def cmd_iff active_interruption_def
      terminalize_def episode_open_def)

lemma terminalize_frame [simp]:
  "find_attempt k (terminalize uuid a now h s) = find_attempt k s"
  "find_exam k (terminalize uuid a now h s) = find_exam k s"
  "findByExamAndCandidate x y (terminalize uuid a now h s) = findByExamAndCandidate x y s"
  "entries_of k (terminalize uuid a now h s) = entries_of k s"
  "st_entries (terminalize uuid a now h s) = st_entries s"
  "st_attempts (terminalize uuid a now h s) = st_attempts s"
  "st_enrollments (terminalize uuid a now h s) = st_enrollments s"
  "st_exams (terminalize uuid a now h s) = st_exams s"
  by (simp_all add: terminalize_def store_simps entries_of_def findByExamAndCandidate_def find_attempt_def
      find_exam_def)

lemma submit_transition_ok [simp]:
  "isTransitionOk (transition st CmdSubmit) \<longleftrightarrow> st = InProgress \<or> st = Disrupted"
  by (cases st) (simp_all add: transition_def TRANSITION_TABLE_def)

text \<open>What the freeze writes, and the store it leaves.\<close>

definition frozen_row :: "time \<Rightarrow> SubmitOptions \<Rightarrow> ExamAttempt \<Rightarrow> ExamAttempt" where
  "frozen_row now opts a =
     submitted_row now (buildSubmittedAnswersSnapshot (at_answers a) (at_questionSnapshot a))
       (case so_submissionReason opts of None \<Rightarrow> ReasonManual | Some r \<Rightarrow> r)
       (if requiresManualGrading (at_questionSnapshot a) then PendingManual else AutoGraded) a"

definition resolved_store :: "id_supply \<Rightarrow> ExamAttempt \<Rightarrow> time \<Rightarrow> SubmitInterruptionResolution \<Rightarrow> store \<Rightarrow> store" where
  "resolved_store uuid a now res s =
     (case res of ModeNone \<Rightarrow> s | ModeActiveInterruption hint \<Rightarrow> terminalize uuid a now hint s)"

definition frozen_rows :: "(string \<Rightarrow> string) \<Rightarrow> ExamAttempt \<Rightarrow> AttemptGradingEntry list" where
  "frozen_rows lower a =
     fresh_rows lower a (buildSubmittedAnswersSnapshot (at_answers a) (at_questionSnapshot a))"

definition frozen_store ::
  "(string \<Rightarrow> string) \<Rightarrow> id_supply \<Rightarrow> time \<Rightarrow> SubmitOptions \<Rightarrow> ExamAttempt \<Rightarrow> store \<Rightarrow> store" where
  "frozen_store lower uuid now opts a s =
     (let s1 = upd_attempt (at_id a) (submitted_row now
            (buildSubmittedAnswersSnapshot (at_answers a) (at_questionSnapshot a))
            (case so_submissionReason opts of None \<Rightarrow> ReasonManual | Some r \<Rightarrow> r)
            (if requiresManualGrading (at_questionSnapshot a) then PendingManual else AutoGraded))
          (resolved_store uuid a now (so_resolution opts) s)
      in s1\<lparr>st_entries := st_entries s1 @ frozen_rows lower a\<rparr>)"

definition submittable :: "SubmitOptions \<Rightarrow> ExamAttempt \<Rightarrow> store \<Rightarrow> bool" where
  "submittable opts a s \<longleftrightarrow>
     (case so_resolution opts of
        ModeNone \<Rightarrow> at_status a = InProgress
      | ModeActiveInterruption hint \<Rightarrow> at_status a = Disrupted \<and> active_interruption a s)"

lemma submitted_row_simps [simp]:
  "at_status (submitted_row now sub r g a) = Submitted" "at_submittedAt (submitted_row now sub r g a) = Some now"
  "at_submittedAnswers (submitted_row now sub r g a) = Some sub" "at_gradingStatus (submitted_row now sub r g a) = Some g"
  "at_submissionReason (submitted_row now sub r g a) = Some r"
  "at_currentInterruptionId (submitted_row now sub r g a) = None" "at_interruptedAt (submitted_row now sub r g a) = None"
  "at_questionSnapshot (submitted_row now sub r g a) = at_questionSnapshot a"
  "at_answers (submitted_row now sub r g a) = at_answers a" "at_examId (submitted_row now sub r g a) = at_examId a"
  "at_candidateId (submitted_row now sub r g a) = at_candidateId a"
  "at_deadlineAt (submitted_row now sub r g a) = at_deadlineAt a"
  "at_enrollmentId (submitted_row now sub r g a) = at_enrollmentId a"
  by (simp_all add: submitted_row_def)

lemma fresh_rows_frozen:
  "fresh_rows lower (frozen_row now opts a) sub = fresh_rows lower a sub"
  by (simp add: fresh_rows_def frozen_row_def)

lemma fresh_rows_keys:
  "entry_keys (fresh_rows lower a sub) = map (\<lambda>q. (at_id a, qs_originalQuestionId q)) (at_questionSnapshot a)"
  by (simp add: entry_keys_def fresh_rows_def)

lemma no_entries_keys:
  assumes "entries_of k s = []"
  shows "(k, q) \<notin> set (entry_keys (st_entries s))"
proof -
  have "set (entries_of k s) = {e \<in> set (st_entries s). ge_attemptId e = k}" by (auto simp: entries_of_def)
  with assms show ?thesis by (auto simp: entry_keys_def)
qed

lemma bulkCreate_fresh:
  assumes "entries_of (at_id a) s = []"
  shows "bulkCreate (fresh_rows lower a sub) s = Inr (u, s') \<longleftrightarrow>
    distinct (map qs_originalQuestionId (at_questionSnapshot a)) \<and>
    s' = s\<lparr>st_entries := st_entries s @ fresh_rows lower a sub\<rparr>"
proof -
  have "distinct (map (\<lambda>q. (at_id a, qs_originalQuestionId q)) qs) = distinct (map qs_originalQuestionId qs)" for qs
    by (induction qs) auto
  then show ?thesis
    using no_entries_keys [OF assms] by (auto simp: bulkCreate_iff fresh_rows_keys)
qed

text \<open>When submission succeeds: on a frozen attempt as a consistency check, on a running one as the
  freeze.\<close>

lemma submitAttempt_iff:
  assumes a: "find_attempt k s = Some a"
  shows "submitAttempt lower num uuid k now opts s = Inr (r, s') \<longleftrightarrow>
    (if at_status a = Submitted \<or> at_status a = Graded
     then so_resolution opts = ModeNone \<and> r = a \<and> s' = s \<and>
       validateGradingWorksetConsistency lower num a (entries_of k s) = Inr ()
     else submittable opts a s \<and> early_submit_guard opts a now = Inr () \<and> entries_of k s = [] \<and>
       distinct (map qs_originalQuestionId (at_questionSnapshot a)) \<and>
       r = frozen_row now opts a \<and> s' = frozen_store lower uuid now opts a s)"
proof -
  note k = find_attempt_id [OF a]
  define s1 where "s1 = resolved_store uuid a now (so_resolution opts) s"
  have s1: "find_attempt k s1 = Some a" "entries_of k s1 = entries_of k s"
    using a by (simp_all add: s1_def resolved_store_def split: SubmitInterruptionResolution.splits)
  have resolve: "resolveActiveInterruptionOnTerminalization uuid a (so_resolution opts) now s = Inr (u, t) \<longleftrightarrow>
      (case so_resolution opts of ModeNone \<Rightarrow> at_status a \<noteq> Disrupted
       | ModeActiveInterruption hint \<Rightarrow> at_status a = Disrupted \<and> active_interruption a s) \<and> t = s1" for u t
    by (auto simp: resolve_terminalization_iff s1_def resolved_store_def split: SubmitInterruptionResolution.splits)
  let ?may = "case so_resolution opts of ModeNone \<Rightarrow> at_status a \<noteq> Disrupted
       | ModeActiveInterruption hint \<Rightarrow> at_status a = Disrupted \<and> active_interruption a s"
  let ?u = "upd_attempt k (submitted_row now (buildSubmittedAnswersSnapshot (at_answers a) (at_questionSnapshot a))
            (case so_submissionReason opts of None \<Rightarrow> ReasonManual | Some r \<Rightarrow> r)
            (if requiresManualGrading (at_questionSnapshot a) then PendingManual else AutoGraded)) s1"
  have resolved: "bindC (resolveActiveInterruptionOnTerminalization uuid a (so_resolution opts) now) f s = f () s1"
    if ?may for f :: "unit \<Rightarrow> ExamAttempt action"
    using resolve [of "()" s1] that by (simp add: bindC_def)
  have run: "submitAttempt lower num uuid k now opts s =
      (if at_status a = Submitted \<or> at_status a = Graded
       then (case validateGradingWorksetConsistency lower num a (entries_of k s) of Inl e \<Rightarrow> Inl e | Inr _ \<Rightarrow> Inr (a, s1))
       else if at_status a = InProgress \<or> at_status a = Disrupted
       then (case early_submit_guard opts a now of Inl e \<Rightarrow> Inl e
         | Inr _ \<Rightarrow> if entries_of k s = []
             then bindC (materializeGradingWorkset lower (frozen_row now opts a)) (\<lambda>_. returnC (frozen_row now opts a)) ?u
             else Inl (EngineError ''Grading workset entries exist before authoritative submission freeze''))
       else Inl (InvalidStateTransitionError
         (''Cannot submit attempt in '' @ attempt_status_str (at_status a) @ '' state'')))"
    if ?may
    using a s1
    by (cases "early_submit_guard opts a now";
        cases "validateGradingWorksetConsistency lower num a (entries_of k s)")
      (simp_all add: submitAttempt_def cmd_run resolved [OF that] Let_def returnC_def frozen_row_def)
  have start: "submitAttempt lower num uuid k now opts s = Inr (r, s') \<longleftrightarrow> ?may \<and>
      (if at_status a = Submitted \<or> at_status a = Graded
       then validateGradingWorksetConsistency lower num a (entries_of k s) = Inr () \<and> r = a \<and> s' = s1
       else (at_status a = InProgress \<or> at_status a = Disrupted) \<and> early_submit_guard opts a now = Inr () \<and>
         entries_of k s = [] \<and> r = frozen_row now opts a \<and>
         materializeGradingWorkset lower (frozen_row now opts a) ?u = Inr ((), s'))"
  proof (cases ?may)
    case True
    then show ?thesis
      unfolding run [OF True] by (auto simp: bindC_Inr_iff returnC_iff split: sum.splits)
  next
    case False
    then obtain e where "resolveActiveInterruptionOnTerminalization uuid a (so_resolution opts) now s = Inl e"
      using resolve by (metis sumE surj_pair)
    then have "bindC (resolveActiveInterruptionOnTerminalization uuid a (so_resolution opts) now) f s = Inl e"
      for f :: "unit \<Rightarrow> ExamAttempt action"
      by (simp add: bindC_def)
    then show ?thesis
      using a False by (simp add: submitAttempt_def bindC_run)
  qed
  show ?thesis
  proof (cases "at_status a = Submitted \<or> at_status a = Graded")
    case True
    then show ?thesis
      unfolding start by (cases "so_resolution opts") (auto simp: s1_def resolved_store_def)
  next
    case False
    have u: "entries_of k ?u = entries_of k s" using s1(2) by (simp add: entries_of_def)
    have mat: "materializeGradingWorkset lower (frozen_row now opts a) ?u = Inr ((), s') \<longleftrightarrow>
        distinct (map qs_originalQuestionId (at_questionSnapshot a)) \<and> s' = frozen_store lower uuid now opts a s"
      if "entries_of k s = []"
    proof -
      have "entries_of (at_id a) ?u = []" using that u k by simp
      from bulkCreate_fresh [OF this] show ?thesis
        by (auto simp: materialize_iff fresh_rows_frozen frozen_store_def frozen_rows_def s1_def k Let_def)
          (auto simp: frozen_row_def)
    qed
    show ?thesis
      unfolding start using False mat
      by (cases "so_resolution opts") (auto simp: submittable_def)
  qed
qed

lemma frozen_store_attempt:
  "find_attempt i (frozen_store lower uuid now opts a s) =
     (if i = at_id a then map_option (submitted_row now
        (buildSubmittedAnswersSnapshot (at_answers a) (at_questionSnapshot a))
        (case so_submissionReason opts of None \<Rightarrow> ReasonManual | Some r \<Rightarrow> r)
        (if requiresManualGrading (at_questionSnapshot a) then PendingManual else AutoGraded)) (find_attempt i s)
      else find_attempt i s)"
  by (simp add: frozen_store_def Let_def store_simps resolved_store_def split: SubmitInterruptionResolution.splits)

lemma frozen_store_own:
  "find_attempt (at_id a) s = Some a \<Longrightarrow>
     find_attempt (at_id a) (frozen_store lower uuid now opts a s) = Some (frozen_row now opts a)"
  by (simp add: frozen_store_attempt frozen_row_def)

lemma frozen_store_frame [simp]:
  "st_enrollments (frozen_store lower uuid now opts a s) = st_enrollments s"
  "st_exams (frozen_store lower uuid now opts a s) = st_exams s"
  "st_entries (frozen_store lower uuid now opts a s) = st_entries s @ frozen_rows lower a"
  by (simp_all add: frozen_store_def Let_def resolved_store_def split: SubmitInterruptionResolution.splits)

lemma frozen_rows_own: "e \<in> set (frozen_rows lower a) \<Longrightarrow> ge_attemptId e = at_id a"
  by (auto simp: frozen_rows_def fresh_rows_def)

lemma frozen_store_entries:
  assumes "entries_of (at_id a) s = []"
  shows "mset (entries_of (at_id a) (frozen_store lower uuid now opts a s)) = mset (frozen_rows lower a)"
proof -
  have "filter (\<lambda>e. ge_attemptId e = at_id a) (st_entries s) = []"
    using assms length_sort [of ge_questionId] by (metis entries_of_def length_0_conv)
  moreover have "filter (\<lambda>e. ge_attemptId e = at_id a) (frozen_rows lower a) = frozen_rows lower a"
    using frozen_rows_own by (simp add: filter_id_conv)
  ultimately show ?thesis by (simp add: entries_of_def)
qed

lemma frozen_store_other_entries:
  assumes "k \<noteq> at_id a"
  shows "entries_of k (frozen_store lower uuid now opts a s) = entries_of k s"
proof -
  have "filter (\<lambda>e. ge_attemptId e = k) (frozen_rows lower a) = []"
    using assms frozen_rows_own by (fastforce simp: filter_empty_conv)
  then show ?thesis by (simp add: entries_of_def)
qed

definition stale :: "ExamAttempt \<Rightarrow> time \<Rightarrow> int \<Rightarrow> bool" where
  "stale a tick timeoutSeconds \<longleftrightarrow>
     (\<exists>t. at_lastActivityAt a = Some t \<and> tick - t \<ge> timeoutSeconds * 1000)"

definition disrupted_store ::
  "id_supply \<Rightarrow> ident \<Rightarrow> time \<Rightarrow> int \<Rightarrow> ExamAttempt \<Rightarrow> AttemptTimingPolicySnapshot \<Rightarrow> store \<Rightarrow> store" where
  "disrupted_store uuid k tick timeoutSeconds a p s =
     (let j = uuid (st_drawn s) in
      upd_attempt k (disrupted_row j tick)
        (s\<lparr>st_episodes := st_episodes s @ [\<lparr>ai_id = j, ai_attemptId = k\<rparr>],
           st_drawn := Suc (Suc (st_drawn s)),
           st_events := st_events s @ [detected_event k j tick (the (at_lastActivityAt a)) timeoutSeconds
             (tp_policy p) (uuid (Suc (st_drawn s)))]\<rparr>))"

lemma markDisrupted_iff:
  "markDisrupted uuid k tick tmo s = Inr (r, s') \<longleftrightarrow>
     (case find_attempt k s of
        None \<Rightarrow> r = Missing \<and> s' = s
      | Some a \<Rightarrow>
          if at_status a \<noteq> InProgress then r = StateChangedBeforeLock \<and> s' = s
          else if \<not> stale a tick tmo then r = FreshUnderLock \<and> s' = s
          else (\<exists>p. at_interruptionTimingPolicySnapshot a = Some p \<and> findDetected (uuid (st_drawn s)) s = None \<and>
            r = Marked (disrupted_row (uuid (st_drawn s)) tick a) \<and> s' = disrupted_store uuid k tick tmo a p s))"
proof (cases "find_attempt k s")
  case None
  then show ?thesis by (simp add: markDisrupted_def bindC_run returnC_iff)
next
  case (Some a)
  show ?thesis
  proof (cases "at_status a = InProgress \<and> stale a tick tmo")
    case False
    then show ?thesis
      using Some by (auto simp: markDisrupted_def bindC_run returnC_iff stale_def split: option.splits)
  next
    case True
    then obtain t where t: "at_lastActivityAt a = Some t" "\<not> tick - t < tmo * 1000"
      by (auto simp: stale_def)
    have other: "findDetected j (s\<lparr>st_drawn := n, st_episodes := es\<rparr>) = findDetected j s" for j n es
      by (simp add: findDetected_def)
    show ?thesis
      using Some True t
      by (cases "at_interruptionTimingPolicySnapshot a")
        (auto simp: markDisrupted_def bindC_run cmd_iff store_simps disrupted_store_def Let_def other)
  qed
qed

text \<open>A new episode is open, provided the identifier drawn for it is fresh.\<close>

lemma disrupted_store_open:
  assumes "find_attempt k s = Some a" and fresh: "\<forall>e\<in>set (st_events s). ie_interruptionId e \<noteq> uuid (st_drawn s)"
    and "uuid (st_drawn s) \<noteq> []"
  shows "active_interruption (disrupted_row (uuid (st_drawn s)) tick a) (disrupted_store uuid k tick tmo a p s)"
proof -
  let ?j = "uuid (st_drawn s)" and ?s = "disrupted_store uuid k tick tmo a p s"
  let ?d = "detected_event k ?j tick (the (at_lastActivityAt a)) tmo (tp_policy p) (uuid (Suc (st_drawn s)))"
  have none: "find (\<lambda>e. ie_interruptionId e = ?j \<and> P e) (st_events s) = None" for P
    using fresh by (auto simp: find_None_iff)
  have append: "find Q (xs @ [x]) = (case find Q xs of None \<Rightarrow> if Q x then Some x else None | Some y \<Rightarrow> Some y)"
    for Q :: "'x \<Rightarrow> bool" and xs x
    by (induction xs) auto
  have k: "at_id a = k" using assms(1) by (rule find_attempt_id)
  have "findDetected ?j ?s = Some ?d" "findOutcome ?j ?s = None"
    by (simp_all add: findDetected_def findOutcome_def disrupted_store_def Let_def append none is_outcome_def)
  moreover have "find_episode k ?j ?s \<noteq> None"
    by (auto simp: find_episode_def disrupted_store_def Let_def find_None_iff
        intro!: exI [of _ "\<lparr>ai_id = uuid (st_drawn s), ai_attemptId = k\<rparr>"])
  ultimately show ?thesis
    using assms(3) k unfolding active_interruption_def episode_open_def by (auto simp: disrupted_row_def)
qed

lemma ceil_seconds:
  fixes m :: int
  assumes "0 < m"
  shows "0 < (m + 999) div 1000" "m \<le> (m + 999) div 1000 * 1000" "((m + 999) div 1000 - 1) * 1000 < m"
proof -
  have "(m + 999) div 1000 * 1000 \<le> m + 999" by linarith
  then show "((m + 999) div 1000 - 1) * 1000 < m" by (simp add: left_diff_distrib)
qed (use assms in linarith)+

section \<open>Properties\<close>

text \<open>Submission is the freeze barrier. A successful submission of a running attempt freezes the
  normalized draft answers, one per question of the presented paper, marks the attempt submitted at
  that time, held for manual grading exactly when the paper needs it, clears the interruption pointer
  and leaves exactly the workset of the frozen paper, one entry per question; drafts, deadline, the
  other attempts with their worksets, exams and enrollments are untouched.\<close>

lemma submission_freezes:
  assumes run: "submitAttempt lower num uuid k now opts s = Inr (r, s')"
    and a: "find_attempt k s = Some a" "at_status a = InProgress \<or> at_status a = Disrupted"
  shows "find_attempt k s' = Some r \<and> at_status r = Submitted \<and> at_submittedAt r = Some now \<and>
    at_submittedAnswers r = Some (buildSubmittedAnswersSnapshot (at_answers a) (at_questionSnapshot a)) \<and>
    (at_gradingStatus r = Some PendingManual \<longleftrightarrow> requiresManualGrading (at_questionSnapshot a)) \<and>
    at_currentInterruptionId r = None \<and> at_interruptedAt r = None \<and>
    at_answers r = at_answers a \<and> at_deadlineAt r = at_deadlineAt a \<and>
    entries_of k s = [] \<and> mset (entries_of k s') = mset (frozen_rows lower a) \<and>
    map ge_questionId (frozen_rows lower a) = map qs_originalQuestionId (at_questionSnapshot a) \<and>
    distinct (map qs_originalQuestionId (at_questionSnapshot a)) \<and>
    (\<forall>i. i \<noteq> k \<longrightarrow> find_attempt i s' = find_attempt i s \<and> entries_of i s' = entries_of i s) \<and>
    st_exams s' = st_exams s \<and> st_enrollments s' = st_enrollments s"
proof -
  note k = find_attempt_id [OF a(1)]
  have spec: "entries_of k s = []" "distinct (map qs_originalQuestionId (at_questionSnapshot a))"
      "r = frozen_row now opts a" "s' = frozen_store lower uuid now opts a s"
    using run a(2) by (auto simp: submitAttempt_iff [OF a(1)])
  have own: "find_attempt k s' = Some r" "mset (entries_of k s') = mset (frozen_rows lower a)"
    using spec a(1) k frozen_store_own [of a s] frozen_store_entries [of a s] by auto
  have other: "find_attempt i s' = find_attempt i s" "entries_of i s' = entries_of i s" if "i \<noteq> k" for i
    using that k frozen_store_other_entries [of i a] by (simp_all add: spec(4) frozen_store_attempt)
  have "map ge_questionId (frozen_rows lower a) = map qs_originalQuestionId (at_questionSnapshot a)"
    by (simp add: frozen_rows_def fresh_rows_questions)
  with spec own other show ?thesis by (simp add: frozen_row_def)
qed

definition sample_submit :: SubmitOptions where
  "sample_submit = \<lparr>so_source = Some SrcCandidate, so_minSubmitAfterStartMinutes = Some 1,
     so_submissionReason = None, so_resolution = ModeNone\<rparr>"

lemma submission_freezes_witness:
  "\<exists>r s'. submitAttempt id unary_num sample_uuid ''a1'' 61000 sample_submit sample_store = Inr (r, s') \<and>
     at_status r = Submitted \<and> mset (entries_of ''a1'' s') = mset (frozen_rows id sample_attempt)"
proof -
  let ?run = "submitAttempt id unary_num sample_uuid ''a1'' 61000 sample_submit sample_store"
  have ok: "?run = Inr (fst (projr ?run), snd (projr ?run))"
    by (rule run_result) code_simp
  have a: "find_attempt ''a1'' sample_store = Some sample_attempt"
    by (simp add: sample_store_def sample_attempt_def find_attempt_def)
  have st: "at_status sample_attempt = InProgress \<or> at_status sample_attempt = Disrupted"
    by (simp add: sample_attempt_def)
  from submission_freezes [OF ok a st] ok show ?thesis by blast
qed

text \<open>Submitting twice changes nothing. After a successful submission of a running attempt, any
  further submission without an interruption to resolve, by any source and at any time, even before
  the earliest submit time, succeeds, returns the frozen row and writes nothing.\<close>

lemma resubmission_idempotent:
  assumes run: "submitAttempt lower num uuid k now opts s = Inr (r, s')"
    and a: "find_attempt k s = Some a" "at_status a = InProgress \<or> at_status a = Disrupted"
    and again: "so_resolution opts' = ModeNone"
  shows "submitAttempt lower num uuid' k now' opts' s' = Inr (r, s')"
proof -
  note k = find_attempt_id [OF a(1)]
  have spec: "entries_of k s = []" "distinct (map qs_originalQuestionId (at_questionSnapshot a))"
      "r = frozen_row now opts a" "s' = frozen_store lower uuid now opts a s"
    using run a(2) by (auto simp: submitAttempt_iff [OF a(1)])
  have r: "find_attempt k s' = Some r" "at_status r = Submitted"
    using spec a(1) k frozen_store_own [of a s] by (auto simp: frozen_row_def)
  have "mset (entries_of k s') = mset (frozen_rows lower a)"
    using spec k frozen_store_entries [of a s] by auto
  then have "validateGradingWorksetConsistency lower num r (entries_of k s') = Inr ()"
    using spec(2)
    by (intro fresh_workset_valid [of _ "buildSubmittedAnswersSnapshot (at_answers a) (at_questionSnapshot a)"])
      (simp_all add: spec(3) fresh_rows_frozen frozen_rows_def, simp_all add: frozen_row_def)
  with r again show ?thesis by (simp add: submitAttempt_iff [OF r(1)])
qed

lemma resubmission_idempotent_witness:
  "\<exists>r s'. submitAttempt id unary_num sample_uuid ''a1'' 61000 sample_submit sample_store = Inr (r, s') \<and>
     submitAttempt id unary_num sample_uuid ''a1'' 0 sample_submit s' = Inr (r, s')"
proof -
  let ?run = "submitAttempt id unary_num sample_uuid ''a1'' 61000 sample_submit sample_store"
  have ok: "?run = Inr (fst (projr ?run), snd (projr ?run))"
    by (rule run_result) code_simp
  have a: "find_attempt ''a1'' sample_store = Some sample_attempt"
    by (simp add: sample_store_def sample_attempt_def find_attempt_def)
  have st: "at_status sample_attempt = InProgress \<or> at_status sample_attempt = Disrupted"
    "so_resolution sample_submit = ModeNone"
    by (simp_all add: sample_attempt_def sample_submit_def)
  from resubmission_idempotent [OF ok a st(1) st(2), of sample_uuid 0] ok show ?thesis by blast
qed

text \<open>The early-submit guard binds the candidate and nobody else. On a running attempt with no
  interruption, a candidate's submission before start plus the configured minutes is refused with the
  earliest time and the remaining whole seconds, rounded up and positive; from that instant on, or for
  any other source, the submission goes through when the paper has no duplicate question and no
  workset exists yet.\<close>

lemma early_submit_guarded:
  assumes a: "find_attempt k s = Some a" "at_status a = InProgress" "at_startedAt a = Some t0"
    and opts: "so_resolution opts = ModeNone" "so_minSubmitAfterStartMinutes opts = Some m"
    and clean: "entries_of k s = []" "distinct (map qs_originalQuestionId (at_questionSnapshot a))"
  defines "earliest \<equiv> t0 + m * 60000"
  shows "(if so_source opts = Some SrcCandidate \<and> now < earliest
     then \<exists>n. submitAttempt lower num uuid k now opts s = Inl (AttemptSubmitTooEarlyError earliest n) \<and>
       0 < n \<and> earliest \<le> now + n * 1000 \<and> now + (n - 1) * 1000 < earliest
     else \<exists>s'. submitAttempt lower num uuid k now opts s = Inr (frozen_row now opts a, s'))"
proof (cases "so_source opts = Some SrcCandidate \<and> now < earliest")
  case True
  let ?n = "(earliest - now + 999) div 1000"
  have "submitAttempt lower num uuid k now opts s = Inl (AttemptSubmitTooEarlyError earliest ?n)"
    using a opts True
    by (simp add: submitAttempt_def bindC_run resolveActiveInterruptionOnTerminalization_def early_submit_guard_def
        earliest_def Let_def)
  moreover have "0 < ?n" "earliest \<le> now + ?n * 1000" "now + (?n - 1) * 1000 < earliest"
    using True ceil_seconds [of "earliest - now"] by (simp_all add: algebra_simps)
  ultimately show ?thesis using True by auto
next
  case False
  then have "early_submit_guard opts a now = Inr ()"
    using a opts by (auto simp: early_submit_guard_def earliest_def Let_def)
  then show ?thesis
    using False a opts clean by (auto simp: submitAttempt_iff [OF a(1)] submittable_def)
qed

lemma early_submit_guarded_witness:
  "\<exists>n. submitAttempt id unary_num sample_uuid ''a1'' 59500 sample_submit sample_store =
     Inl (AttemptSubmitTooEarlyError 61000 n) \<and> 0 < n"
proof -
  have "find_attempt ''a1'' sample_store = Some sample_attempt" "at_status sample_attempt = InProgress"
      "at_startedAt sample_attempt = Some 1000" "so_resolution sample_submit = ModeNone"
      "so_minSubmitAfterStartMinutes sample_submit = Some 1" "entries_of ''a1'' sample_store = []"
      "distinct (map qs_originalQuestionId (at_questionSnapshot sample_attempt))"
    by (simp_all add: sample_store_def sample_attempt_def find_attempt_def sample_submit_def entries_of_def
        sample_questions_def sample_question_def)
  from early_submit_guarded [OF this, of 59500 id unary_num sample_uuid] show ?thesis
    by (auto simp: sample_submit_def)
qed

text \<open>Disruption is decided under the lock and opens one episode. The scanner's command marks an
  attempt only when it is in progress and silent for the whole timeout; every other outcome writes
  nothing. Marking adds one episode and one detected event, leaves answers, deadline and every other
  attempt, and, with a fresh identifier, the attempt then has an open interruption, so that the
  terminalizing submission at any later time finds it.\<close>

lemma disruption_exact:
  assumes run: "markDisrupted uuid k tick tmo s = Inr (r, s')"
  shows "(case r of
     Marked a' \<Rightarrow>
       (\<exists>a. find_attempt k s = Some a \<and> at_status a = InProgress \<and> stale a tick tmo \<and>
          find_attempt k s' = Some a' \<and> at_status a' = Disrupted \<and> at_answers a' = at_answers a \<and>
          at_deadlineAt a' = at_deadlineAt a \<and>
          length (st_episodes s') = Suc (length (st_episodes s)) \<and>
          length (st_events s') = Suc (length (st_events s)) \<and>
          (\<forall>i. i \<noteq> k \<longrightarrow> find_attempt i s' = find_attempt i s) \<and>
          ((\<forall>e\<in>set (st_events s). ie_interruptionId e \<noteq> uuid (st_drawn s)) \<and> uuid (st_drawn s) \<noteq> [] \<longrightarrow>
             active_interruption a' s'))
   | _ \<Rightarrow> s' = s \<and> (\<forall>a. find_attempt k s = Some a \<longrightarrow> \<not> (at_status a = InProgress \<and> stale a tick tmo)))"
proof (cases "find_attempt k s")
  case None
  then show ?thesis using run by (auto simp: markDisrupted_iff)
next
  case (Some a)
  show ?thesis
  proof (cases "at_status a = InProgress \<and> stale a tick tmo")
    case False
    then show ?thesis using run Some by (auto simp: markDisrupted_iff split: if_splits)
  next
    case True
    then obtain p where r: "r = Marked (disrupted_row (uuid (st_drawn s)) tick a)"
      and s': "s' = disrupted_store uuid k tick tmo a p s"
      using run Some by (auto simp: markDisrupted_iff)
    have "find_attempt i s' = (if i = k then Some (disrupted_row (uuid (st_drawn s)) tick a) else find_attempt i s)" for i
      using Some by (simp add: s' disrupted_store_def Let_def store_simps)
    moreover have "length (st_episodes s') = Suc (length (st_episodes s))"
        "length (st_events s') = Suc (length (st_events s))"
      by (simp_all add: s' disrupted_store_def Let_def)
    ultimately show ?thesis
      using True Some disrupted_store_open [OF Some, of uuid tick tmo p]
      by (simp add: r s') (simp add: disrupted_row_def)
  qed
qed

lemma disruption_exact_witness:
  "\<exists>a' s'. markDisrupted sample_uuid ''a1'' 100000 60 sample_store = Inr (Marked a', s') \<and>
     active_interruption a' s'"
proof -
  let ?run = "markDisrupted sample_uuid ''a1'' 100000 60 sample_store"
  have ok: "?run = Inr (fst (projr ?run), snd (projr ?run))"
    by (rule run_result) code_simp
  have "case fst (projr ?run) of Marked _ \<Rightarrow> True | _ \<Rightarrow> False" by code_simp
  then obtain a' where a': "fst (projr ?run) = Marked a'" by (auto split: ScannerDisruptResult.splits)
  have "st_events sample_store = []" "sample_uuid (st_drawn sample_store) \<noteq> []"
    by (simp_all add: sample_store_def sample_uuid_def)
  with disruption_exact [OF ok] a' have "active_interruption a' (snd (projr ?run))" by auto
  with ok a' show ?thesis by auto
qed

end
