(* ===== verification/Reconciliation.thy ===== *)
theory Reconciliation
  imports Attempt_Commands Grading Timing
begin

text \<open>
  \<^verbatim>\<open>packages/exam-engine/src/deadlineReconciliation.ts\<close>: the inline half of deadline enforcement, which
  freezes and grades an expired attempt at its entry points, and the preparation seam that mints the
  evidence a save needs. \<^verbatim>\<open>FOR SHARE\<close> and \<^verbatim>\<open>FOR UPDATE\<close> reads are plain reads of the transaction.
\<close>

definition AUTOSUBMITTABLE_STATUSES :: "AttemptStatus list" where
  "AUTOSUBMITTABLE_STATUSES = [InProgress, Disrupted]"

definition deadline_submit :: "SubmitInterruptionResolution \<Rightarrow> SubmitOptions" where
  "deadline_submit resolution =
     \<lparr>so_source = Some SrcDeadlineScanner, so_minSubmitAfterStartMinutes = None,
      so_submissionReason = Some ReasonDeadline, so_resolution = resolution\<rparr>"

definition ensureAttemptDeadlineReconciled ::
  "(string \<Rightarrow> string) \<Rightarrow> (jsnum \<Rightarrow> string) \<Rightarrow> id_supply \<Rightarrow> repos \<Rightarrow> LockedEnrollmentAttemptIdentity \<Rightarrow> time \<Rightarrow>
     SubmitInterruptionResolution \<Rightarrow> ExamAttempt action" where
  "ensureAttemptDeadlineReconciled lower num uuid repos capability now resolution =
     bindC (liftC (assertCapabilityFor capability repos)) (\<lambda>_.
     let attemptId = lk_attemptId capability in
     bindC (someC (find_attempt attemptId) (NotFoundError ''Attempt not found'')) (\<lambda>attempt.
     if at_status attempt = Submitted \<or> at_status attempt = Graded then returnC attempt
     else if \<not> List.member AUTOSUBMITTABLE_STATUSES (at_status attempt) then returnC attempt
     else
     bindC (someC (find_exam (at_examId attempt)) (NotFoundError ''Exam not found'')) (\<lambda>exam.
     bindC (liftC (isAttemptDeadlineExpired (ex_closeAt exam) (at_deadlineAt attempt) now)) (\<lambda>expired.
     if \<not> expired then returnC attempt
     else
     bindC (liftC (computeEffectiveDeadline (ex_closeAt exam) (at_deadlineAt attempt))) (\<lambda>effective.
     case effective of
       None \<Rightarrow> returnC attempt
     | Some effectiveDeadline \<Rightarrow>
         bindC (submitAttempt lower num uuid attemptId effectiveDeadline (deadline_submit resolution))
           (\<lambda>submittedAttempt.
         if at_gradingStatus submittedAttempt = Some PendingManual then returnC submittedAttempt
         else
         bindC (readGradingSnapshot attemptId) (\<lambda>read.
         bindC (requireC read (NotFoundError ''Attempt not found after reconciliation'')) (\<lambda>snapshot.
         bindC (finalizeGrading repos capability (gs_exam snapshot) now) (\<lambda>_.
         someC (find_attempt attemptId)
           (InvalidStateTransitionError ''Attempt disappeared after reconciliation''))))))))))"

record PreparedAttemptMutation =
  pm_attempt :: ExamAttempt
  pm_mutationContext :: ReconciledAttemptMutationContext

definition mintReconciledAttemptMutationContext ::
  "ident \<Rightarrow> time \<Rightarrow> time option \<Rightarrow> nat \<Rightarrow> ReconciledAttemptMutationContext" where
  "mintReconciledAttemptMutationContext attemptId checkedAt effectiveDeadline attemptRepo =
     \<lparr>mc_attemptId = attemptId, mc_checkedAt = checkedAt, mc_effectiveDeadline = effectiveDeadline,
      mc_attemptRepo = attemptRepo\<rparr>"

definition prepareReconciledAttemptMutation ::
  "(string \<Rightarrow> string) \<Rightarrow> (jsnum \<Rightarrow> string) \<Rightarrow> id_supply \<Rightarrow> repos \<Rightarrow> LockedEnrollmentAttemptIdentity \<Rightarrow> time \<Rightarrow>
     SubmitInterruptionResolution \<Rightarrow> PreparedAttemptMutation action" where
  "prepareReconciledAttemptMutation lower num uuid repos capability now resolution =
     bindC (liftC (assertCapabilityFor capability repos)) (\<lambda>_.
     bindC (ensureAttemptDeadlineReconciled lower num uuid repos capability now resolution) (\<lambda>attempt.
     bindC (someC (find_exam (at_examId attempt)) (NotFoundError ''Exam not found'')) (\<lambda>exam.
     bindC (liftC (computeEffectiveDeadline (ex_closeAt exam) (at_deadlineAt attempt))) (\<lambda>effectiveDeadline.
     returnC \<lparr>pm_attempt = attempt, pm_mutationContext =
       mintReconciledAttemptMutationContext (lk_attemptId capability) now effectiveDeadline
         (ro_attemptRepo repos)\<rparr>))))"

section \<open>Lemmas\<close>

definition running :: "ExamAttempt \<Rightarrow> bool" where
  "running a \<longleftrightarrow> at_status a = InProgress \<or> at_status a = Disrupted"

text \<open>What reconciliation does to an attempt that expired at \<open>d\<close>.\<close>

definition deadline_closed ::
  "(string \<Rightarrow> string) \<Rightarrow> (jsnum \<Rightarrow> string) \<Rightarrow> id_supply \<Rightarrow> repos \<Rightarrow> LockedEnrollmentAttemptIdentity \<Rightarrow> time \<Rightarrow>
     SubmitInterruptionResolution \<Rightarrow> ExamAttempt \<Rightarrow> time \<Rightarrow> store \<Rightarrow> ExamAttempt \<Rightarrow> store \<Rightarrow> bool" where
  "deadline_closed lower num uuid rs c now res a d s r s' \<longleftrightarrow>
     (\<exists>sub s1. submitAttempt lower num uuid (lk_attemptId c) d (deadline_submit res) s = Inr (sub, s1) \<and>
        (if at_gradingStatus sub = Some PendingManual then r = sub \<and> s' = s1
         else \<exists>x e b. find_exam (at_examId sub) s1 = Some x \<and>
           findByExamAndCandidate (at_examId sub) (at_candidateId sub) s1 = Some e \<and>
           finalizeGrading rs c x now s1 = Inr (b, s') \<and> find_attempt (lk_attemptId c) s' = Some r))"

lemma submitAttempt_result:
  "submitAttempt lower num uuid k now opts s = Inr (r, s') \<Longrightarrow> find_attempt k s' = Some r"
proof -
  assume run: "submitAttempt lower num uuid k now opts s = Inr (r, s')"
  then obtain a where a: "find_attempt k s = Some a"
    by (auto simp: submitAttempt_def bindC_Inr_iff someC_iff)
  show ?thesis
    using run a find_attempt_id [OF a] frozen_store_own [of a s]
    by (auto simp: submitAttempt_iff [OF a] split: if_splits)
qed

lemma reconcile_iff:
  "ensureAttemptDeadlineReconciled lower num uuid rs c now res s = Inr (r, s') \<longleftrightarrow>
     lk_affinity c = rs \<and>
     (\<exists>a. find_attempt (lk_attemptId c) s = Some a \<and>
       (if \<not> running a then r = a \<and> s' = s
        else \<exists>x e. find_exam (at_examId a) s = Some x \<and>
          computeEffectiveDeadline (ex_closeAt x) (at_deadlineAt a) = Inr e \<and>
          (case e of
             None \<Rightarrow> r = a \<and> s' = s
           | Some d \<Rightarrow> if d \<le> now then deadline_closed lower num uuid rs c now res a d s r s'
                       else r = a \<and> s' = s)))"
  (is "?run \<longleftrightarrow> _")
proof (cases "lk_affinity c = rs \<and> find_attempt (lk_attemptId c) s \<noteq> None")
  case False
  then show ?thesis
    unfolding ensureAttemptDeadlineReconciled_def Let_def bindC_Inr_iff liftC_iff someC_iff by auto
next
  case True
  then obtain a where a: "find_attempt (lk_attemptId c) s = Some a" and c: "assertCapabilityFor c rs = Inr ()"
    and tx: "lk_affinity c = rs"
    by auto
  note start = ensureAttemptDeadlineReconciled_def Let_def AUTOSUBMITTABLE_STATUSES_def
  show ?thesis
  proof (cases "running a")
    case False
    then have "?run \<longleftrightarrow> r = a \<and> s' = s"
      unfolding start by (auto simp: bindC_run a c returnC_iff running_def)
    with False show ?thesis by (simp add: a tx)
  next
    case live: True
    then have st: "\<not> (at_status a = Submitted \<or> at_status a = Graded)" "List.member [InProgress, Disrupted] (at_status a)"
      by (auto simp: running_def)
    show ?thesis
    proof (cases "find_exam (at_examId a) s")
      case None
      with live show ?thesis unfolding start by (auto simp: bindC_run a c tx running_def)
    next
      case x: (Some x)
      show ?thesis
      proof (cases "computeEffectiveDeadline (ex_closeAt x) (at_deadlineAt a)")
        case (Inl err)
        with live x show ?thesis
          unfolding start by (auto simp: bindC_run a c tx isAttemptDeadlineExpired_def running_def)
      next
        case (Inr e)
        have expired: "isAttemptDeadlineExpired (ex_closeAt x) (at_deadlineAt a) now =
            Inr (case e of None \<Rightarrow> False | Some d \<Rightarrow> d \<le> now)"
          using Inr by (simp add: isAttemptDeadlineExpired_def)
        show ?thesis
        proof (cases "\<exists>d. e = Some d \<and> d \<le> now")
          case False
          then have "?run \<longleftrightarrow> r = a \<and> s' = s"
            unfolding start using st x Inr expired
            by (cases e) (auto simp: bindC_run a c returnC_iff)
          with False live x Inr show ?thesis by (auto simp: a tx split: option.splits)
        next
          case True
          then obtain d where d: "e = Some d" "d \<le> now" by blast
          have "?run \<longleftrightarrow> deadline_closed lower num uuid rs c now res a d s r s'"
            unfolding start deadline_closed_def using st x Inr expired d
            by (auto simp: bindC_run a c bindC_Inr_iff returnC_iff requireC_iff someC_iff readGradingSnapshot_iff
                submitAttempt_result split: if_splits)
              (auto simp: submitAttempt_result)
          with live x Inr d show ?thesis by (auto simp: a tx)
        qed
      qed
    qed
  qed
qed

lemma frozen_row_simps [simp]:
  "at_status (frozen_row now opts a) = Submitted" "at_submittedAt (frozen_row now opts a) = Some now"
  "at_submittedAnswers (frozen_row now opts a) =
     Some (buildSubmittedAnswersSnapshot (at_answers a) (at_questionSnapshot a))"
  "at_gradingStatus (frozen_row now opts a) =
     Some (if requiresManualGrading (at_questionSnapshot a) then PendingManual else AutoGraded)"
  "at_examId (frozen_row now opts a) = at_examId a" "at_candidateId (frozen_row now opts a) = at_candidateId a"
  "at_questionSnapshot (frozen_row now opts a) = at_questionSnapshot a" "at_id (frozen_row now opts a) = at_id a"
  "at_submissionReason (frozen_row now opts a) =
     Some (case so_submissionReason opts of None \<Rightarrow> ReasonManual | Some r \<Rightarrow> r)"
  by (simp_all add: frozen_row_def)

lemma graded_row_more [simp]:
  "at_submittedAt (graded_row ag g now a) = at_submittedAt a"
  "at_submissionReason (graded_row ag g now a) = at_submissionReason a"
  by (simp_all add: graded_row_def)

lemma finalizeGrading_submitted:
  assumes "find_attempt (lk_attemptId c) s = Some a" "at_status a = Submitted"
  shows "finalizeGrading rs c x now s = Inr (b, s') \<longleftrightarrow>
    b = True \<and> at_gradingStatus a \<noteq> Some PendingManual \<and> lk_affinity c = rs \<and>
    (\<exists>ag e. aggregateGradingEntries a (entries_of (lk_attemptId c) s) (ex_passingScore x) = Inr ag \<and>
       findByExamAndCandidate (at_examId a) (at_candidateId a) s = Some e \<and> en_id e = lk_enrollmentId c \<and>
       enrollment_moves (en_status e) (target_status x e (ag_passed ag) now) \<and>
       s' = closed_store x now a ag e s)"
  using assms by (auto simp: finalizeGrading_iff finalizeTerminalGrading_iff)

text \<open>The frozen and, for an objective paper, graded outcome of a closed attempt.\<close>

lemma deadline_closed_D:
  assumes "deadline_closed lower num uuid rs c now res a d s r s'"
    and a: "find_attempt (lk_attemptId c) s = Some a" "running a"
  shows "find_attempt (lk_attemptId c) s' = Some r" "at_submittedAt r = Some d"
    "at_submissionReason r = Some ReasonDeadline"
    "at_submittedAnswers r = Some (buildSubmittedAnswersSnapshot (at_answers a) (at_questionSnapshot a))"
    "at_status r = (if requiresManualGrading (at_questionSnapshot a) then Submitted else Graded)"
    "\<not> running r"
proof -
  let ?sub = "frozen_row d (deadline_submit res) a"
  obtain sub s1 where run: "submitAttempt lower num uuid (lk_attemptId c) d (deadline_submit res) s = Inr (sub, s1)"
    and rest0: "if at_gradingStatus sub = Some PendingManual then r = sub \<and> s' = s1
         else \<exists>x e b. find_exam (at_examId sub) s1 = Some x \<and>
           findByExamAndCandidate (at_examId sub) (at_candidateId sub) s1 = Some e \<and>
           finalizeGrading rs c x now s1 = Inr (b, s') \<and> find_attempt (lk_attemptId c) s' = Some r"
    using assms(1) unfolding deadline_closed_def by blast
  have eq: "sub = ?sub"
    using run a(2) by (auto simp: submitAttempt_iff [OF a(1)] running_def)
  have rest: "if requiresManualGrading (at_questionSnapshot a) then r = ?sub \<and> s' = s1
         else \<exists>x b. finalizeGrading rs c x now s1 = Inr (b, s') \<and> find_attempt (lk_attemptId c) s' = Some r"
    using rest0 by (auto simp: eq split: if_splits)
  note run = run [unfolded eq]
  have sub: "find_attempt (lk_attemptId c) s1 = Some ?sub" using run by (rule submitAttempt_result)
  have "find_attempt (lk_attemptId c) s' = Some r \<and> (r = ?sub \<and> requiresManualGrading (at_questionSnapshot a) \<or>
      \<not> requiresManualGrading (at_questionSnapshot a) \<and> (\<exists>ag g. r = graded_row ag g now ?sub))"
  proof (cases "requiresManualGrading (at_questionSnapshot a)")
    case True
    with rest sub show ?thesis by simp
  next
    case False
    then obtain x b where fin: "finalizeGrading rs c x now s1 = Inr (b, s')" and r: "find_attempt (lk_attemptId c) s' = Some r"
      using rest by auto
    obtain ag e where "s' = closed_store x now ?sub ag e s1"
      using fin finalizeGrading_submitted [OF sub] by auto
    with r sub find_attempt_id [OF sub] have "r = graded_row ag (closed_grading_status ?sub) now ?sub"
      by (simp add: closed_store_attempt)
    with False r show ?thesis by blast
  qed
  then show "find_attempt (lk_attemptId c) s' = Some r" "at_submittedAt r = Some d"
    "at_submissionReason r = Some ReasonDeadline"
    "at_submittedAnswers r = Some (buildSubmittedAnswersSnapshot (at_answers a) (at_questionSnapshot a))"
    "at_status r = (if requiresManualGrading (at_questionSnapshot a) then Submitted else Graded)"
    "\<not> running r"
    by (auto simp: deadline_submit_def running_def)
qed

text \<open>What the closure keeps, and the outcome it records for an interruption that was open.\<close>

lemma deadline_closed_frame:
  assumes "deadline_closed lower num uuid rs c now res a d s r s'"
    and a: "find_attempt (lk_attemptId c) s = Some a" "running a"
  shows "at_deadlineAt r = at_deadlineAt a" "at_answers r = at_answers a"
    "at_currentInterruptionId r = None" "at_interruptedAt r = None"
    "st_exams s' = st_exams s" "st_adjustments s' = st_adjustments s"
    "st_events s' = st_events (resolved_store uuid a d res s)" "submittable (deadline_submit res) a s"
proof -
  let ?sub = "frozen_row d (deadline_submit res) a"
  obtain sub s1 where run: "submitAttempt lower num uuid (lk_attemptId c) d (deadline_submit res) s = Inr (sub, s1)"
    and rest: "if at_gradingStatus sub = Some PendingManual then r = sub \<and> s' = s1
         else \<exists>x e b. find_exam (at_examId sub) s1 = Some x \<and>
           findByExamAndCandidate (at_examId sub) (at_candidateId sub) s1 = Some e \<and>
           finalizeGrading rs c x now s1 = Inr (b, s') \<and> find_attempt (lk_attemptId c) s' = Some r"
    using assms(1) unfolding deadline_closed_def by blast
  have sub: "sub = ?sub" "s1 = frozen_store lower uuid d (deadline_submit res) a s" "submittable (deadline_submit res) a s"
    using run a(2) by (auto simp: submitAttempt_iff [OF a(1)] running_def)
  have own: "find_attempt (lk_attemptId c) s1 = Some ?sub" using run sub(1) by (auto dest: submitAttempt_result)
  have "r = ?sub \<and> s' = s1 \<or> (\<exists>x ag e g. r = graded_row ag g now ?sub \<and> s' = closed_store x now ?sub ag e s1)"
  proof (cases "at_gradingStatus sub = Some PendingManual")
    case True
    with rest sub(1) show ?thesis by simp
  next
    case False
    then obtain x b where fin: "finalizeGrading rs c x now s1 = Inr (b, s')" and r: "find_attempt (lk_attemptId c) s' = Some r"
      using rest by auto
    obtain ag e where s': "s' = closed_store x now ?sub ag e s1"
      using fin finalizeGrading_submitted [OF own] by auto
    with r own find_attempt_id [OF own] have "r = graded_row ag (closed_grading_status ?sub) now ?sub"
      by (simp add: closed_store_attempt)
    with s' show ?thesis by blast
  qed
  moreover have "st_events s1 = st_events (resolved_store uuid a d res s)" "st_exams s1 = st_exams s"
      "st_adjustments s1 = st_adjustments s"
    by (simp_all add: sub(2) frozen_store_def Let_def deadline_submit_def resolved_store_def terminalize_def upd_attempt_def
        split: SubmitInterruptionResolution.splits)
  ultimately show "at_deadlineAt r = at_deadlineAt a" "at_answers r = at_answers a"
    "at_currentInterruptionId r = None" "at_interruptedAt r = None"
    "st_exams s' = st_exams s" "st_adjustments s' = st_adjustments s"
    "st_events s' = st_events (resolved_store uuid a d res s)" "submittable (deadline_submit res) a s"
    using sub(3)
    by (auto simp: frozen_row_def submitted_row_def graded_row_def closed_store_def upd_attempt_def upd_enrollment_def)
qed

lemma reconcile_cases [consumes 1, case_names untouched closed]:
  assumes "ensureAttemptDeadlineReconciled lower num uuid rs c now res s = Inr (r, s')"
  obtains (untouched) "find_attempt (lk_attemptId c) s = Some r" "s' = s" "lk_affinity c = rs"
      "\<not> running r \<or> (\<exists>x e. find_exam (at_examId r) s = Some x \<and>
         computeEffectiveDeadline (ex_closeAt x) (at_deadlineAt r) = Inr e \<and> (\<forall>d. e = Some d \<longrightarrow> now < d))"
  | (closed) a x d where "find_attempt (lk_attemptId c) s = Some a" "running a" "find_exam (at_examId a) s = Some x"
      "computeEffectiveDeadline (ex_closeAt x) (at_deadlineAt a) = Inr (Some d)" "d \<le> now" "lk_affinity c = rs"
      "deadline_closed lower num uuid rs c now res a d s r s'"
proof -
  obtain a where a: "find_attempt (lk_attemptId c) s = Some a" and tx: "lk_affinity c = rs"
    and rest: "if \<not> running a then r = a \<and> s' = s
        else \<exists>x e. find_exam (at_examId a) s = Some x \<and>
          computeEffectiveDeadline (ex_closeAt x) (at_deadlineAt a) = Inr e \<and>
          (case e of
             None \<Rightarrow> r = a \<and> s' = s
           | Some d \<Rightarrow> if d \<le> now then deadline_closed lower num uuid rs c now res a d s r s'
                       else r = a \<and> s' = s)"
    using assms unfolding reconcile_iff by blast
  show thesis
  proof (cases "running a")
    case False
    with a tx rest show thesis by (intro untouched) auto
  next
    case True
    then obtain x e where x: "find_exam (at_examId a) s = Some x"
        "computeEffectiveDeadline (ex_closeAt x) (at_deadlineAt a) = Inr e"
      and e: "case e of None \<Rightarrow> r = a \<and> s' = s
           | Some d \<Rightarrow> if d \<le> now then deadline_closed lower num uuid rs c now res a d s r s' else r = a \<and> s' = s"
      using rest by auto
    show thesis
    proof (cases "\<exists>d. e = Some d \<and> d \<le> now")
      case True
      then show thesis using a x e tx \<open>running a\<close> by (auto intro: closed)
    next
      case False
      with e have "r = a" "s' = s" by (auto split: option.splits if_splits)
      with False a x tx show thesis by (intro untouched) force+
    qed
  qed
qed

lemma reconcile_untouched:
  assumes "find_attempt (lk_attemptId c) s = Some r" "lk_affinity c = rs"
    and "\<not> running r \<or> (\<exists>x e. find_exam (at_examId r) s = Some x \<and>
         computeEffectiveDeadline (ex_closeAt x) (at_deadlineAt r) = Inr e \<and> (\<forall>d. e = Some d \<longrightarrow> now < d))"
  shows "ensureAttemptDeadlineReconciled lower num uuid rs c now res s = Inr (r, s)"
  using assms(3)
proof (elim disjE exE conjE)
  show ?thesis if "\<not> running r" using that assms by (simp add: reconcile_iff)
  fix x e assume "find_exam (at_examId r) s = Some x"
    "computeEffectiveDeadline (ex_closeAt x) (at_deadlineAt r) = Inr e" "\<forall>d. e = Some d \<longrightarrow> now < d"
  then show ?thesis using assms(1,2) by (cases e) (auto simp: reconcile_iff)
qed

lemma requiresManual_iff: "requiresManualGrading qs \<longleftrightarrow> (\<exists>q\<in>set qs. isManualGradedQuestion q)"
  by (auto simp: requiresManualGrading_def isManualGradedQuestion_def list_ex_iff)

section \<open>Properties\<close>

text \<open>C38: Reconciliation enforces the deadline. After it returns, the attempt in the store is the one
  returned and is not running past its effective deadline. Either nothing was due and nothing changed,
  or the running attempt had expired and is now frozen by the deadline, submitted at the deadline
  instant itself with the drafts of that moment, and graded unless it needs manual grading. Repeating
  the call at the same time, whatever resolution is offered, changes nothing.\<close>

theorem reconciliation_enforces_deadline:
  assumes run: "ensureAttemptDeadlineReconciled lower num uuid rs c now res s = Inr (r, s')"
  shows "find_attempt (lk_attemptId c) s' = Some r \<and>
    (\<forall>x d. running r \<and> find_exam (at_examId r) s' = Some x \<and>
       computeEffectiveDeadline (ex_closeAt x) (at_deadlineAt r) = Inr (Some d) \<longrightarrow> now < d) \<and>
    (find_attempt (lk_attemptId c) s = Some r \<and> s' = s \<or>
     (\<exists>a x d. find_attempt (lk_attemptId c) s = Some a \<and> running a \<and> find_exam (at_examId a) s = Some x \<and>
        computeEffectiveDeadline (ex_closeAt x) (at_deadlineAt a) = Inr (Some d) \<and> d \<le> now \<and>
        at_submittedAt r = Some d \<and> at_submissionReason r = Some ReasonDeadline \<and>
        at_submittedAnswers r = Some (buildSubmittedAnswersSnapshot (at_answers a) (at_questionSnapshot a)) \<and>
        at_status r = (if requiresManualGrading (at_questionSnapshot a) then Submitted else Graded))) \<and>
    ensureAttemptDeadlineReconciled lower num uuid' rs c now res' s' = Inr (r, s')"
  using run
proof (cases rule: reconcile_cases)
  case untouched
  have "ensureAttemptDeadlineReconciled lower num uuid' rs c now res' s' = Inr (r, s')"
    using untouched by (auto intro: reconcile_untouched)
  with untouched show ?thesis by auto
next
  case (closed a x d)
  note facts = deadline_closed_D [OF closed(7,1,2)]
  have "ensureAttemptDeadlineReconciled lower num uuid' rs c now res' s' = Inr (r, s')"
    using facts closed(6) by (auto simp: reconcile_iff)
  with closed facts show ?thesis by blast
qed

theorem reconciliation_enforces_deadline_witness:
  "\<exists>r s'. ensureAttemptDeadlineReconciled id unary_num sample_uuid sample_repos sample_cap 4000000 ModeNone
       sample_store = Inr (r, s') \<and> \<not> running r \<and>
     ensureAttemptDeadlineReconciled id unary_num sample_uuid sample_repos sample_cap 4000000 ModeNone s' = Inr (r, s')"
proof -
  let ?run = "ensureAttemptDeadlineReconciled id unary_num sample_uuid sample_repos sample_cap 4000000 ModeNone sample_store"
  have ok: "?run = Inr (fst (projr ?run), snd (projr ?run))"
    by (rule run_result) code_simp
  have "at_status (fst (projr ?run)) = Submitted" by code_simp
  then have "\<not> running (fst (projr ?run))" by (simp add: running_def)
  with reconciliation_enforces_deadline [OF ok, of sample_uuid ModeNone] ok show ?thesis by blast
qed

text \<open>C39: An expired attempt can always be closed. For an expired running attempt with a clean
  workset, a well-formed paper and a started, consistent enrollment, reconciliation succeeds; an
  objective paper comes out graded with exactly the total that the grading engine gives for the
  answers frozen at the deadline, and with the matching verdict.\<close>

theorem deadline_closes_attempt:
  assumes tx: "lk_affinity c = rs" and a: "find_attempt (lk_attemptId c) s = Some a"
    and res: "submittable (deadline_submit res) a s" and x: "find_exam (at_examId a) s = Some x"
    and due: "computeEffectiveDeadline (ex_closeAt x) (at_deadlineAt a) = Inr (Some d)" "d \<le> now"
    and clean: "entries_of (lk_attemptId c) s = []" "distinct (map qs_originalQuestionId (at_questionSnapshot a))"
      "\<forall>q\<in>set (at_questionSnapshot a). 0 \<le> qs_score q"
    and en: "findByExamAndCandidate (at_examId a) (at_candidateId a) s = Some e"
      "en_id e = lk_enrollmentId c" "en_status e = Started"
  shows "\<exists>r s'. ensureAttemptDeadlineReconciled lower num uuid rs c now res s = Inr (r, s') \<and>
    (if requiresManualGrading (at_questionSnapshot a) then at_status r = Submitted
     else at_status r = Graded \<and>
       (\<exists>g. g = gradeAnswers lower (at_id a) (at_questionSnapshot a)
           (frozen_records (buildSubmittedAnswersSnapshot (at_answers a) (at_questionSnapshot a)) now)
           (ex_passingScore x) now \<and>
         at_score r = Some (sr_totalScore g) \<and> at_passed r = Some (sr_passed g)))"
proof -
  let ?opts = "deadline_submit res" and ?k = "lk_attemptId c"
  let ?sub = "frozen_row d ?opts a" and ?s1 = "frozen_store lower uuid d ?opts a s"
  let ?frozen = "buildSubmittedAnswersSnapshot (at_answers a) (at_questionSnapshot a)"
  note k = find_attempt_id [OF a]
  have live: "running a"
    using res by (auto simp: submittable_def running_def split: SubmitInterruptionResolution.splits)
  have submit: "submitAttempt lower num uuid ?k d ?opts s = Inr (?sub, ?s1)"
    using live res clean by (auto simp: submitAttempt_iff [OF a] running_def early_submit_guard_def deadline_submit_def)
  note own = submitAttempt_result [OF submit]
  have enough: "\<exists>r s'. ensureAttemptDeadlineReconciled lower num uuid rs c now res s = Inr (r, s') \<and> P r"
    if "deadline_closed lower num uuid rs c now res a d s r s'" "P r" for r s' P
    using that tx a live x due by (auto simp: reconcile_iff intro!: exI [of _ r] exI [of _ s'])
  show ?thesis
  proof (cases "requiresManualGrading (at_questionSnapshot a)")
    case True
    then have "deadline_closed lower num uuid rs c now res a d s ?sub ?s1"
      unfolding deadline_closed_def using submit by (intro exI [of _ ?sub] exI [of _ ?s1]) simp
    from enough [OF this] True show ?thesis by simp
  next
    case False
    then have objective: "\<forall>q\<in>set (at_questionSnapshot ?sub). 0 \<le> qs_score q \<and> \<not> isManualGradedQuestion q"
      using clean(3) by (auto simp: requiresManual_iff)
    have stored: "mset (entries_of ?k ?s1) = mset (fresh_rows lower ?sub ?frozen)"
      using frozen_store_entries [of a s] clean(1) k by (simp add: frozen_rows_def fresh_rows_frozen)
    obtain ag where ag: "aggregateGradingEntries ?sub (entries_of ?k ?s1) (ex_passingScore x) = Inr ag"
      "ag_totalScore ag = sr_totalScore (gradeAnswers lower (at_id a) (at_questionSnapshot a)
         (frozen_records ?frozen now) (ex_passingScore x) now)"
      "ag_passed ag = sr_passed (gradeAnswers lower (at_id a) (at_questionSnapshot a)
         (frozen_records ?frozen now) (ex_passingScore x) now)"
      using aggregate_fresh_objective [OF _ build_normalized _ objective stored, of "ex_passingScore x" now] clean(2) by auto
    let ?s2 = "closed_store x now ?sub ag e ?s1" and ?r = "graded_row ag (closed_grading_status ?sub) now ?sub"
    have same: "find_exam (at_examId a) ?s1 = Some x" "findByExamAndCandidate (at_examId a) (at_candidateId a) ?s1 = Some e"
      using x en by (simp_all add: find_exam_def findByExamAndCandidate_def)
    have fin: "finalizeGrading rs c x now ?s1 = Inr (True, ?s2)"
      using finalizeGrading_submitted [OF own, of rs x now True ?s2] False tx ag en same
      by (auto simp: enrollment_moves_def target_status_def)
    have "find_attempt ?k ?s2 = Some ?r"
      using own k by (simp add: closed_store_attempt)
    then have "deadline_closed lower num uuid rs c now res a d s ?r ?s2"
      unfolding deadline_closed_def using submit same fin False by (intro exI [of _ ?sub] exI [of _ ?s1]) auto
    from enough [OF this] False ag show ?thesis by simp
  qed
qed

text \<open>A save that is written was in time. When the preparation seam has minted its evidence and the
  save that uses it is accepted as new, reconciliation had found nothing to do, the attempt was not
  frozen, the instant is before the effective deadline of the attempt under the exam as stored, and the
  answer carries exactly that instant.\<close>

lemma prepared_save_in_time:
  assumes prep: "prepareReconciledAttemptMutation lower num uuid rs c now res s = Inr (p, s1)"
    and save: "saveAnswer num sha rs (pm_mutationContext p) req can s1 = Inr (r, s2)"
    and new: "ps_newAnswer r = Some row"
  shows "s1 = s \<and> an_savedAt row = now \<and> rq_attemptId req = lk_attemptId c \<and>
    (\<exists>a x e. find_attempt (lk_attemptId c) s = Some a \<and> at_status a \<notin> {Submitted, Graded, Voided} \<and>
       find_exam (at_examId a) s = Some x \<and>
       computeEffectiveDeadline (ex_closeAt x) (at_deadlineAt a) = Inr e \<and> (\<forall>d. e = Some d \<longrightarrow> now < d))"
proof -
  obtain a x e where rec: "ensureAttemptDeadlineReconciled lower num uuid rs c now res s = Inr (a, s1)"
    and x: "find_exam (at_examId a) s1 = Some x" "computeEffectiveDeadline (ex_closeAt x) (at_deadlineAt a) = Inr e"
    and ctx: "pm_mutationContext p = mintReconciledAttemptMutationContext (lk_attemptId c) now e (ro_attemptRepo rs)"
    using prep by (auto simp: prepareReconciledAttemptMutation_def bindC_Inr_iff liftC_iff someC_iff returnC_iff)
  have a: "find_attempt (lk_attemptId c) s1 = Some a"
    using rec by (cases rule: reconcile_cases) (auto dest: deadline_closed_D)
  from save show ?thesis
  proof (cases rule: saveAnswer_cases)
    case kept
    with new show ?thesis by simp
  next
    case (written a' q answer i)
    have id: "rq_attemptId req = lk_attemptId c" and a': "a' = a"
      using written(1) a by (auto simp: save_ready_def ctx mintReconciledAttemptMutationContext_def)
    have "at_status a \<notin> {Submitted, Graded, Voided}" "\<forall>d. e = Some d \<longrightarrow> now < d"
      using written(2) by (auto simp: a' ctx mintReconciledAttemptMutationContext_def save_open_def)
    moreover have "s1 = s"
      using rec
    proof (cases rule: reconcile_cases)
      case (closed b y d)
      from deadline_closed_D(5) [OF closed(7,1,2)] calculation(1) show ?thesis by (auto split: if_splits)
    qed simp
    ultimately show ?thesis
      using id a x written(10) new by (auto simp: saved_row_def ctx mintReconciledAttemptMutationContext_def)
  qed
qed

text \<open>Witnesses.\<close>

lemma sample_store_facts:
  "find_attempt (lk_attemptId sample_cap) sample_store = Some sample_attempt"
  "find_exam (at_examId sample_attempt) sample_store = Some sample_exam"
  "findByExamAndCandidate (at_examId sample_attempt) (at_candidateId sample_attempt) sample_store = Some sample_enrollment"
  "entries_of (lk_attemptId sample_cap) sample_store = []"
  "distinct (map qs_originalQuestionId (at_questionSnapshot sample_attempt))"
  "\<forall>q\<in>set (at_questionSnapshot sample_attempt). 0 \<le> qs_score q"
  "lk_affinity sample_cap = sample_repos" "en_id sample_enrollment = lk_enrollmentId sample_cap"
  "en_status sample_enrollment = Started"
  by (simp_all add: sample_cap_def sample_store_def sample_attempt_def find_attempt_def find_exam_def sample_exam_def
      findByExamAndCandidate_def sample_enrollment_def entries_of_def sample_questions_def sample_question_def)

theorem deadline_closes_attempt_witness:
  "\<exists>r s'. ensureAttemptDeadlineReconciled id unary_num sample_uuid sample_repos sample_cap 4000000 ModeNone
     sample_store = Inr (r, s') \<and> at_status r = Submitted"
proof -
  have res: "submittable (deadline_submit ModeNone) sample_attempt sample_store"
    by (simp add: submittable_def deadline_submit_def sample_attempt_def)
  have due: "computeEffectiveDeadline (ex_closeAt sample_exam) (at_deadlineAt sample_attempt) = Inr (Some 3601000)"
    by (simp add: sample_exam_def sample_attempt_def)
  have "(3601000 :: time) \<le> 4000000" by simp
  note run = deadline_closes_attempt [OF sample_store_facts(7,1) res sample_store_facts(2) due this sample_store_facts(4-6)
      sample_store_facts(3,8,9), of id unary_num sample_uuid]
  have "requiresManualGrading (at_questionSnapshot sample_attempt)"
    by (simp add: sample_attempt_def sample_questions_def sample_question_def requiresManualGrading_def)
  with run show ?thesis by simp
qed

lemma prepared_save_in_time_witness:
  "\<exists>p s1 r s2 row. prepareReconciledAttemptMutation id unary_num sample_uuid sample_repos sample_cap 2000 ModeNone
       sample_store = Inr (p, s1) \<and>
     saveAnswer unary_num id sample_repos (pm_mutationContext p) (sample_request 1) None s1 = Inr (r, s2) \<and>
     ps_newAnswer r = Some row \<and> an_savedAt row = 2000"
proof -
  let ?prep = "prepareReconciledAttemptMutation id unary_num sample_uuid sample_repos sample_cap 2000 ModeNone sample_store"
  let ?save = "saveAnswer unary_num id sample_repos (pm_mutationContext (fst (projr ?prep))) (sample_request 1) None
    (snd (projr ?prep))"
  have prep: "?prep = Inr (fst (projr ?prep), snd (projr ?prep))" by (rule run_result) code_simp
  have save: "?save = Inr (fst (projr ?save), snd (projr ?save))" by (rule run_result) code_simp
  have "ps_newAnswer (fst (projr ?save)) \<noteq> None" by code_simp
  then obtain row where row: "ps_newAnswer (fst (projr ?save)) = Some row" by blast
  from prepared_save_in_time [OF prep save row] prep save row show ?thesis by blast
qed

end
