(* ===== verification/Interruption_Policy.thy ===== *)
theory Interruption_Policy
  imports Exam_Policy Samples
begin

text \<open>
  \<^verbatim>\<open>packages/exam-engine/src/interruptionPolicy.ts\<close>: the timing policy an attempt freezes at its start,
  and the pure decision on how much time an interruption gives back.
\<close>

definition STRICT_ZERO_GRANT_REASON :: string where
  "STRICT_ZERO_GRANT_REASON = ''strict_zero_grant''"

definition OPERATOR_INCIDENT_ZERO_GRANT_REASON :: string where
  "OPERATOR_INCIDENT_ZERO_GRANT_REASON = ''operator_incident_candidate_restore_zero_grant''"

definition BOUNDED_GRACE_REASON :: string where
  "BOUNDED_GRACE_REASON = ''bounded_grace_auto''"

section \<open>The frozen policy\<close>

text \<open>\<^verbatim>\<open>resolveAttemptTimingPolicySnapshot\<close>; a policy outside the enumeration cannot be written here.\<close>

definition resolveAttemptTimingPolicySnapshot ::
  "InterruptionTimePolicy option \<Rightarrow> jsnum option \<Rightarrow> jsnum option \<Rightarrow>
     app_error + AttemptTimingPolicySnapshot" where
  "resolveAttemptTimingPolicySnapshot interruptionTimePolicy perIncident perAttempt =
     (let policy = (case interruptionTimePolicy of None \<Rightarrow> Strict | Some p \<Rightarrow> p) in
      if policy = Strict \<or> policy = OperatorIncident
      then bindR (guardR (\<not> (perIncident \<noteq> None \<or> perAttempt \<noteq> None))
             (ValidationError ''Interruption policy must have both caps null'')) (\<lambda>_.
           Inr \<lparr>tp_policy = policy, tp_perIncidentCapSeconds = None,
                tp_perAttemptAggregateCapSeconds = None\<rparr>)
      else case (perIncident, perAttempt) of
        (Some incidentCap, Some attemptCap) \<Rightarrow>
          bindR (guardR (\<not> (\<not> is_integer incidentCap \<or> \<not> is_integer attemptCap \<or>
                incidentCap \<le> 0 \<or> attemptCap \<le> 0))
            (ValidationError ''bounded_grace interruption caps must be positive integers'')) (\<lambda>_.
          bindR (guardR (\<not> incidentCap > attemptCap) (ValidationError
            ''bounded_grace per-incident cap must not exceed per-attempt aggregate cap'')) (\<lambda>_.
          Inr \<lparr>tp_policy = BoundedGrace, tp_perIncidentCapSeconds = Some incidentCap,
               tp_perAttemptAggregateCapSeconds = Some attemptCap\<rparr>))
      | _ \<Rightarrow> Inl (ValidationError ''bounded_grace interruption policy requires both caps''))"

definition resolveAttemptTimingPolicySnapshotFromExam ::
  "Exam \<Rightarrow> app_error + AttemptTimingPolicySnapshot" where
  "resolveAttemptTimingPolicySnapshotFromExam exam =
     resolveAttemptTimingPolicySnapshot (ex_interruptionTimePolicy exam)
       (ex_interruptionGracePerIncidentSeconds exam) (ex_interruptionGracePerAttemptSeconds exam)"

section \<open>The decision\<close>

record EvaluateInterruptionPolicyInput =
  ev_snapshot :: AttemptTimingPolicySnapshot
  ev_detectedAt :: time
  ev_decisionNow :: time
  ev_beforeDeadline :: "time option"
  ev_examCloseAt :: "time option"
  ev_priorBoundedGraceAddedSeconds :: int

record InterruptionPolicyDecision =
  pd_policy :: InterruptionTimePolicy
  pd_eligibleSeconds :: int
  pd_addedSeconds :: int
  pd_beforeDeadline :: "time option"
  pd_afterDeadline :: "time option"
  pd_reasonCode :: string

text \<open>The bounded branch on well-formed caps: the smallest of the four bounds.\<close>

definition bounded_decision ::
  "int \<Rightarrow> int \<Rightarrow> time \<Rightarrow> time \<Rightarrow> EvaluateInterruptionPolicyInput \<Rightarrow> InterruptionPolicyDecision" where
  "bounded_decision perIncident perAttempt beforeDeadline examCloseAt input =
     (let rawEligibleMs = ev_decisionNow input - ev_detectedAt input;
          eligibleSeconds = max 0 rawEligibleMs div 1000;
          prior = max 0 (ev_priorBoundedGraceAddedSeconds input);
          remainingAggregateSeconds = max 0 (perAttempt - prior);
          closeRoomMs = examCloseAt - beforeDeadline;
          closeRoomSeconds = max 0 closeRoomMs div 1000;
          addedSeconds =
            min eligibleSeconds (min perIncident (min remainingAggregateSeconds closeRoomSeconds))
      in \<lparr>pd_policy = BoundedGrace, pd_eligibleSeconds = eligibleSeconds,
          pd_addedSeconds = addedSeconds, pd_beforeDeadline = Some beforeDeadline,
          pd_afterDeadline = Some (beforeDeadline + addedSeconds * 1000),
          pd_reasonCode = BOUNDED_GRACE_REASON\<rparr>)"

definition evaluateInterruptionTimePolicy ::
  "EvaluateInterruptionPolicyInput \<Rightarrow> app_error + InterruptionPolicyDecision" where
  "evaluateInterruptionTimePolicy input =
     (let snapshot = ev_snapshot input in
      if tp_policy snapshot = Strict \<or> tp_policy snapshot = OperatorIncident
      then bindR (guardR (\<not> (tp_perIncidentCapSeconds snapshot \<noteq> None \<or>
               tp_perAttemptAggregateCapSeconds snapshot \<noteq> None))
             (ValidationError ''Invalid snapshot: caps must be null'')) (\<lambda>_.
           Inr \<lparr>pd_policy = tp_policy snapshot, pd_eligibleSeconds = 0, pd_addedSeconds = 0,
                pd_beforeDeadline = ev_beforeDeadline input, pd_afterDeadline = ev_beforeDeadline input,
                pd_reasonCode = (if tp_policy snapshot = Strict then STRICT_ZERO_GRANT_REASON
                                 else OPERATOR_INCIDENT_ZERO_GRANT_REASON)\<rparr>)
      else case (tp_perIncidentCapSeconds snapshot, tp_perAttemptAggregateCapSeconds snapshot) of
        (Some perIncident, Some perAttempt) \<Rightarrow>
          bindR (guardR (\<not> (\<not> is_integer perIncident \<or> \<not> is_integer perAttempt \<or>
                perIncident \<le> 0 \<or> perAttempt \<le> 0 \<or> perIncident > perAttempt))
            (ValidationError
              ''Invalid bounded_grace snapshot: caps missing, non-positive, or out of order'')) (\<lambda>_.
          case ev_beforeDeadline input of
            None \<Rightarrow> Inl (ValidationError ''bounded_grace restore requires a non-null attempt deadline'')
          | Some beforeDeadline \<Rightarrow>
              (case ev_examCloseAt input of
                 None \<Rightarrow> Inl (ValidationError ''bounded_grace restore requires a non-null exam closeAt'')
               | Some examCloseAt \<Rightarrow>
                   Inr (bounded_decision \<lfloor>perIncident\<rfloor> \<lfloor>perAttempt\<rfloor> beforeDeadline examCloseAt input)))
      | _ \<Rightarrow> Inl (ValidationError
          ''Invalid bounded_grace snapshot: caps missing, non-positive, or out of order''))"

section \<open>Lemmas\<close>

text \<open>The shapes of snapshot the evaluator accepts.\<close>

definition snapshot_ok :: "AttemptTimingPolicySnapshot \<Rightarrow> bool" where
  "snapshot_ok p \<longleftrightarrow>
     (if tp_policy p = BoundedGrace
      then \<exists>x y. tp_perIncidentCapSeconds p = Some x \<and> tp_perAttemptAggregateCapSeconds p = Some y \<and>
             is_integer x \<and> is_integer y \<and> 0 < x \<and> x \<le> y
      else tp_perIncidentCapSeconds p = None \<and> tp_perAttemptAggregateCapSeconds p = None)"

lemma policy_split: "p \<noteq> BoundedGrace \<longleftrightarrow> p = Strict \<or> p = OperatorIncident"
  by (cases p) simp_all

lemma bounded_not_zero_grant [simp]: "\<not> (BoundedGrace = Strict \<or> BoundedGrace = OperatorIncident)"
  by simp

lemma resolve_iff:
  "resolveAttemptTimingPolicySnapshot p x y = Inr t \<longleftrightarrow>
     t = \<lparr>tp_policy = (case p of None \<Rightarrow> Strict | Some q \<Rightarrow> q), tp_perIncidentCapSeconds = x,
          tp_perAttemptAggregateCapSeconds = y\<rparr> \<and> snapshot_ok t"
  by (cases "case p of None \<Rightarrow> Strict | Some q \<Rightarrow> q"; cases x; cases y)
    (auto simp: resolveAttemptTimingPolicySnapshot_def snapshot_ok_def Let_def cmd_iff not_less not_le)

lemma evaluate_bounded:
  assumes "tp_policy (ev_snapshot i) = BoundedGrace"
  shows "evaluateInterruptionTimePolicy i = Inr d \<longleftrightarrow>
    snapshot_ok (ev_snapshot i) \<and>
    (\<exists>before close. ev_beforeDeadline i = Some before \<and> ev_examCloseAt i = Some close \<and>
       d = bounded_decision \<lfloor>the (tp_perIncidentCapSeconds (ev_snapshot i))\<rfloor>
         \<lfloor>the (tp_perAttemptAggregateCapSeconds (ev_snapshot i))\<rfloor> before close i)"
  using assms
  by (auto simp: evaluateInterruptionTimePolicy_def snapshot_ok_def Let_def cmd_iff not_less not_le
      split: option.splits)

lemma evaluate_zero:
  assumes "tp_policy (ev_snapshot i) \<noteq> BoundedGrace"
  shows "evaluateInterruptionTimePolicy i = Inr d \<longleftrightarrow>
    snapshot_ok (ev_snapshot i) \<and>
    d = \<lparr>pd_policy = tp_policy (ev_snapshot i), pd_eligibleSeconds = 0, pd_addedSeconds = 0,
         pd_beforeDeadline = ev_beforeDeadline i, pd_afterDeadline = ev_beforeDeadline i,
         pd_reasonCode = (if tp_policy (ev_snapshot i) = Strict then STRICT_ZERO_GRANT_REASON
                          else OPERATOR_INCIDENT_ZERO_GRANT_REASON)\<rparr>"
  using assms policy_split [of "tp_policy (ev_snapshot i)"]
  by (auto simp: evaluateInterruptionTimePolicy_def snapshot_ok_def Let_def cmd_iff)

lemma floor_room: "n \<le> max 0 (c - b) div (1000 :: int) \<Longrightarrow> 0 \<le> n \<Longrightarrow> b + n * 1000 \<le> max b c"
  by (simp add: max_def split: if_splits)

lemma min4_le:
  fixes a :: int
  shows "min a (min b (min c d)) \<le> a" "min a (min b (min c d)) \<le> b"
    "min a (min b (min c d)) \<le> c" "min a (min b (min c d)) \<le> d"
  by (simp_all add: min_le_iff_disj)

lemma floor_le:
  fixes m :: int
  shows "m div 1000 * 1000 \<le> m"
  by linarith

lemma cap_left:
  fixes n :: int
  shows "n \<le> max 0 (y - max 0 p) \<Longrightarrow> 0 < y \<Longrightarrow> max 0 p + n \<le> max y p"
  by (simp add: max_def split: if_splits)

lemma bounded_decision_bounds:
  assumes "0 < x" "x \<le> y" and d_def: "d = bounded_decision x y before close i"
  shows "0 \<le> pd_addedSeconds d" "pd_addedSeconds d \<le> x" "pd_addedSeconds d \<le> pd_eligibleSeconds d"
    "max 0 (ev_priorBoundedGraceAddedSeconds i) + pd_addedSeconds d \<le> max y (ev_priorBoundedGraceAddedSeconds i)"
    "pd_afterDeadline d = Some (before + pd_addedSeconds d * 1000)"
    "before + pd_addedSeconds d * 1000 \<le> max before close"
    "pd_eligibleSeconds d * 1000 \<le> max 0 (ev_decisionNow i - ev_detectedAt i)"
proof -
  let ?eligible = "max 0 (ev_decisionNow i - ev_detectedAt i) div 1000"
  let ?left = "max 0 (y - max 0 (ev_priorBoundedGraceAddedSeconds i))"
  let ?room = "max 0 (close - before) div 1000"
  have added: "pd_addedSeconds d = min ?eligible (min x (min ?left ?room))" "pd_eligibleSeconds d = ?eligible"
      "pd_afterDeadline d = Some (before + pd_addedSeconds d * 1000)"
    unfolding d_def bounded_decision_def Let_def by simp_all
  have "0 \<le> ?eligible" "0 \<le> ?room" "0 \<le> ?left"
    by (simp_all add: pos_imp_zdiv_nonneg_iff)
  then show nonneg: "0 \<le> pd_addedSeconds d"
    unfolding added(1) using assms(1) by (simp only: min.bounded_iff less_imp_le)
  show "pd_addedSeconds d \<le> x" "pd_addedSeconds d \<le> pd_eligibleSeconds d"
    unfolding added by (rule min4_le)+
  have "pd_addedSeconds d \<le> ?left" unfolding added by (rule min4_le)
  then show "max 0 (ev_priorBoundedGraceAddedSeconds i) + pd_addedSeconds d \<le> max y (ev_priorBoundedGraceAddedSeconds i)"
    by (rule cap_left) (rule less_le_trans [OF assms(1,2)])
  have "pd_addedSeconds d \<le> ?room" unfolding added by (rule min4_le)
  then show "before + pd_addedSeconds d * 1000 \<le> max before close"
    using nonneg by (rule floor_room)
  show "pd_eligibleSeconds d * 1000 \<le> max 0 (ev_decisionNow i - ev_detectedAt i)"
    unfolding added by (rule floor_le)
  show "pd_afterDeadline d = Some (before + pd_addedSeconds d * 1000)" by (rule added(3))
qed

section \<open>Properties\<close>

text \<open>A compensation never gives more than policy allows. A decision of the strict or the
  operator-incident policy adds nothing and leaves the deadline; a bounded-grace decision adds a
  non-negative whole number of seconds that exceeds neither the time the candidate really lost, nor
  the per-incident cap, nor what is left of the per-attempt cap, and it moves the deadline by exactly
  that much and never past the close of the exam.\<close>

lemma compensation_bounded:
  assumes ok: "evaluateInterruptionTimePolicy i = Inr d"
  shows "pd_policy d = tp_policy (ev_snapshot i) \<and> snapshot_ok (ev_snapshot i) \<and>
    pd_beforeDeadline d = ev_beforeDeadline i \<and>
    (if tp_policy (ev_snapshot i) = BoundedGrace
     then \<exists>x y before close.
       tp_perIncidentCapSeconds (ev_snapshot i) = Some x \<and>
       tp_perAttemptAggregateCapSeconds (ev_snapshot i) = Some y \<and>
       ev_beforeDeadline i = Some before \<and> ev_examCloseAt i = Some close \<and>
       0 \<le> pd_addedSeconds d \<and> of_int (pd_addedSeconds d) \<le> x \<and>
       pd_addedSeconds d * 1000 \<le> max 0 (ev_decisionNow i - ev_detectedAt i) \<and>
       max 0 (ev_priorBoundedGraceAddedSeconds i) + pd_addedSeconds d
         \<le> max \<lfloor>y\<rfloor> (ev_priorBoundedGraceAddedSeconds i) \<and>
       pd_afterDeadline d = Some (before + pd_addedSeconds d * 1000) \<and>
       before + pd_addedSeconds d * 1000 \<le> max before close
     else pd_addedSeconds d = 0 \<and> pd_afterDeadline d = ev_beforeDeadline i)"
proof (cases "tp_policy (ev_snapshot i) = BoundedGrace")
  case False
  then show ?thesis using ok by (auto simp: evaluate_zero)
next
  case True
  obtain x y before close where caps: "tp_perIncidentCapSeconds (ev_snapshot i) = Some x"
      "tp_perAttemptAggregateCapSeconds (ev_snapshot i) = Some y" "is_integer x" "is_integer y" "0 < x" "x \<le> y"
    and b: "ev_beforeDeadline i = Some before" "ev_examCloseAt i = Some close"
    and d: "d = bounded_decision \<lfloor>x\<rfloor> \<lfloor>y\<rfloor> before close i" and s: "snapshot_ok (ev_snapshot i)"
    using ok True by (auto simp: evaluate_bounded snapshot_ok_def)
  have pos: "0 < \<lfloor>x\<rfloor>" "\<lfloor>x\<rfloor> \<le> \<lfloor>y\<rfloor>"
    using caps by (auto simp: is_integer_def floor_mono)
  note bounds = bounded_decision_bounds [OF pos d]
  have "of_int (pd_addedSeconds d) \<le> x"
    using bounds(2) caps(3) by (metis is_integer_def of_int_le_iff)
  moreover have "pd_policy d = BoundedGrace" "pd_beforeDeadline d = Some before"
    by (simp_all add: d bounded_decision_def Let_def)
  moreover have "pd_addedSeconds d * 1000 \<le> max 0 (ev_decisionNow i - ev_detectedAt i)"
    using bounds(3,7) by linarith
  ultimately show ?thesis using True caps b s bounds by auto
qed

definition sample_decision_input :: EvaluateInterruptionPolicyInput where
  "sample_decision_input = \<lparr>ev_snapshot = \<lparr>tp_policy = BoundedGrace,
       tp_perIncidentCapSeconds = Some 300, tp_perAttemptAggregateCapSeconds = Some 600\<rparr>,
     ev_detectedAt = 1000, ev_decisionNow = 500000, ev_beforeDeadline = Some 3601000,
     ev_examCloseAt = Some 3700000, ev_priorBoundedGraceAddedSeconds = 200\<rparr>"

lemma compensation_bounded_witness:
  "\<exists>d. evaluateInterruptionTimePolicy sample_decision_input = Inr d \<and> pd_addedSeconds d = 99 \<and>
     3601000 + pd_addedSeconds d * 1000 \<le> max 3601000 3700000"
proof -
  let ?run = "evaluateInterruptionTimePolicy sample_decision_input"
  have ok: "?run = Inr (projr ?run)" by code_simp
  have "pd_addedSeconds (projr ?run) = 99" by code_simp
  with ok compensation_bounded [OF ok] show ?thesis
    by (intro exI [of _ "projr ?run"]) (auto simp: sample_decision_input_def)
qed

text \<open>What authoring accepts, starting an attempt accepts. For caps that are whole numbers, the
  policy validator reports no conflict exactly when the snapshot of a new attempt resolves, and the
  resolved snapshot carries the policy and the caps of the exam and is one the evaluator accepts.\<close>

lemma policy_gate_matches_snapshot:
  assumes "\<forall>x. ex_interruptionGracePerIncidentSeconds exam = Some x \<longrightarrow> is_integer x"
    and "\<forall>y. ex_interruptionGracePerAttemptSeconds exam = Some y \<longrightarrow> is_integer y"
  shows "(validateInterruptionPolicyCaps (case ex_interruptionTimePolicy exam of None \<Rightarrow> Strict | Some p \<Rightarrow> p)
       (ex_interruptionGracePerIncidentSeconds exam) (ex_interruptionGracePerAttemptSeconds exam) = [] \<longleftrightarrow>
     (\<exists>t. resolveAttemptTimingPolicySnapshotFromExam exam = Inr t)) \<and>
    (\<forall>t. resolveAttemptTimingPolicySnapshotFromExam exam = Inr t \<longrightarrow> snapshot_ok t \<and>
       tp_perIncidentCapSeconds t = ex_interruptionGracePerIncidentSeconds exam \<and>
       tp_perAttemptAggregateCapSeconds t = ex_interruptionGracePerAttemptSeconds exam)"
proof -
  let ?i = "\<lparr>ip_interruptionTimePolicy = (case ex_interruptionTimePolicy exam of None \<Rightarrow> Strict | Some p \<Rightarrow> p),
    ip_interruptionGracePerIncidentSeconds = ex_interruptionGracePerIncidentSeconds exam,
    ip_interruptionGracePerAttemptSeconds = ex_interruptionGracePerAttemptSeconds exam\<rparr>"
  have "caps_ok ?i \<longleftrightarrow> (\<exists>t. resolveAttemptTimingPolicySnapshotFromExam exam = Inr t)"
    using assms by (auto simp: resolveAttemptTimingPolicySnapshotFromExam_def resolve_iff caps_ok_def snapshot_ok_def)
  then show ?thesis
    using validateInterruptionPolicyCaps_iff [of ?i]
    by (auto simp: resolveAttemptTimingPolicySnapshotFromExam_def resolve_iff)
qed

lemma policy_gate_matches_snapshot_witness:
  "\<exists>t. resolveAttemptTimingPolicySnapshotFromExam sample_exam = Inr t \<and> snapshot_ok t"
proof -
  have "validateInterruptionPolicyCaps BoundedGrace (Some 300) (Some 600) = []" by code_simp
  then show ?thesis
    using policy_gate_matches_snapshot [of sample_exam] by (auto simp: sample_exam_def)
qed

end
