(* ===== verification/Restore.thy ===== *)
theory Restore
  imports Reconciliation Interruption_Policy
begin

text \<open>
  \<^verbatim>\<open>packages/exam-engine/src/restoreInterruption.ts\<close>: the composed restore of a disrupted attempt, with
  the time grant of the bounded-grace policy, the deadline reconciliation, and the reconstruction of
  the outcome when the attempt is no longer disrupted.
\<close>

record RestoreCompensation =
  rcp_policy :: InterruptionTimePolicy
  rcp_interruptionId :: "ident option"
  rcp_eligibleSeconds :: int
  rcp_addedSeconds :: int
  rcp_adjustmentId :: "ident option"

record RestoreInterruptionResult =
  rr_attempt :: ExamAttempt
  rr_lifecycle :: RestoreLifecycleOutcome
  rr_compensation :: RestoreCompensation

definition no_compensation :: "ExamAttempt \<Rightarrow> RestoreCompensation" where
  "no_compensation attempt =
     \<lparr>rcp_policy = (case at_interruptionTimingPolicySnapshot attempt of None \<Rightarrow> Strict | Some p \<Rightarrow> tp_policy p),
      rcp_interruptionId = None, rcp_eligibleSeconds = 0, rcp_addedSeconds = 0, rcp_adjustmentId = None\<rparr>"

section \<open>Reconstruction\<close>

text \<open>The ledger row an outcome names, read back and checked.\<close>

definition adjustment_matches ::
  "ExamAttempt \<Rightarrow> AttemptInterruptionEvent \<Rightarrow> AttemptTimeAdjustment \<Rightarrow> bool" where
  "adjustment_matches attempt outcome adjustment \<longleftrightarrow>
     ta_attemptId adjustment = at_id attempt \<and>
     ta_interruptionId adjustment = Some (ie_interruptionId outcome) \<and>
     ta_source adjustment = SrcBoundedGrace \<and> ta_policy adjustment = BoundedGrace"

definition outcome_compensation ::
  "ExamAttempt \<Rightarrow> AttemptInterruptionEvent \<Rightarrow> string \<Rightarrow> RestoreCompensation action" where
  "outcome_compensation attempt outcome message =
     (let base = \<lparr>rcp_policy = ie_policy outcome, rcp_interruptionId = Some (ie_interruptionId outcome),
            rcp_eligibleSeconds = (case ie_eligibleSeconds outcome of None \<Rightarrow> 0 | Some n \<Rightarrow> n),
            rcp_addedSeconds = 0, rcp_adjustmentId = ie_timeAdjustmentId outcome\<rparr>
      in if falsy (ie_timeAdjustmentId outcome) then returnC base
         else
         bindC (getsC (\<lambda>s. case ie_timeAdjustmentId outcome of None \<Rightarrow> None
             | Some adjustmentId \<Rightarrow> find_adjustment adjustmentId s)) (\<lambda>found.
         bindC (requireC (case found of None \<Rightarrow> None
             | Some adjustment \<Rightarrow> if adjustment_matches attempt outcome adjustment then Some adjustment else None)
           (ValidationError message)) (\<lambda>adjustment.
         returnC (base\<lparr>rcp_addedSeconds := ta_addedSeconds adjustment,
           rcp_eligibleSeconds := (case ta_eligibleSeconds adjustment of None \<Rightarrow> 0 | Some n \<Rightarrow> n)\<rparr>))))"

definition reconstructInProgressOutcome :: "ExamAttempt \<Rightarrow> RestoreInterruptionResult action" where
  "reconstructInProgressOutcome attempt =
     bindC (getsC (find_latest_episode (at_id attempt))) (\<lambda>latestEpisode.
     bindC (getsC (findLatestOutcomeByAttempt (at_id attempt))) (\<lambda>latest.
     case latest of
       None \<Rightarrow> returnC \<lparr>rr_attempt = attempt, rr_lifecycle = LifeAlreadyInProgress,
                        rr_compensation = no_compensation attempt\<rparr>
     | Some latestOutcome \<Rightarrow>
         bindC (guardC (ie_eventType latestOutcome \<noteq> Terminalized) (ValidationError
           ''Attempt is in_progress but latest outcome is terminalized (identity violation)'')) (\<lambda>_.
         bindC (guardC (\<not> (case latestEpisode of None \<Rightarrow> False
             | Some episode \<Rightarrow> ie_interruptionId latestOutcome \<noteq> ai_id episode)) (ValidationError
           ''Latest outcome interruptionId does not match latest episode'')) (\<lambda>_.
         bindC (guardC (ie_attemptId latestOutcome = at_id attempt)
           (ValidationError ''Latest outcome attemptId mismatch'')) (\<lambda>_.
         bindC (outcome_compensation attempt latestOutcome
           ''Restored outcome adjustment failed identity validation'') (\<lambda>compensation.
         returnC \<lparr>rr_attempt = attempt, rr_lifecycle = LifeAlreadyInProgress,
                  rr_compensation = compensation\<rparr>))))))"

definition reconstructTerminalOutcome :: "ExamAttempt \<Rightarrow> RestoreInterruptionResult action" where
  "reconstructTerminalOutcome attempt =
     bindC (getsC (findLatestOutcomeByAttempt (at_id attempt))) (\<lambda>latest.
     case latest of
       Some latestOutcome \<Rightarrow>
         (if ie_eventType latestOutcome = Terminalized
          then
            bindC (outcome_compensation attempt latestOutcome
              ''Terminalized outcome adjustment failed identity validation'') (\<lambda>compensation.
            returnC \<lparr>rr_attempt = attempt, rr_lifecycle = LifeTerminal, rr_compensation = compensation\<rparr>)
          else returnC \<lparr>rr_attempt = attempt, rr_lifecycle = LifeTerminal,
                        rr_compensation = no_compensation attempt\<rparr>)
     | None \<Rightarrow> returnC \<lparr>rr_attempt = attempt, rr_lifecycle = LifeTerminal,
                       rr_compensation = no_compensation attempt\<rparr>)"

section \<open>The grant\<close>

record GrantDecision =
  gd_addedSeconds :: int
  gd_adjustmentId :: "ident option"
  gd_eligibleSeconds :: int
  gd_reasonCode :: string

definition policy_input ::
  "ExamAttempt \<Rightarrow> Exam \<Rightarrow> AttemptTimingPolicySnapshot \<Rightarrow> time \<Rightarrow> time \<Rightarrow> int \<Rightarrow> EvaluateInterruptionPolicyInput" where
  "policy_input attempt exam snapshot detectedAt now prior =
     \<lparr>ev_snapshot = snapshot, ev_detectedAt = detectedAt, ev_decisionNow = now,
      ev_beforeDeadline = at_deadlineAt attempt, ev_examCloseAt = ex_closeAt exam,
      ev_priorBoundedGraceAddedSeconds = prior\<rparr>"

definition grant_row ::
  "ident \<Rightarrow> ident \<Rightarrow> time \<Rightarrow> InterruptionPolicyDecision \<Rightarrow> ident \<Rightarrow> AttemptTimeAdjustment" where
  "grant_row attemptId interruptionId before decision i =
     \<lparr>ta_id = i, ta_operationId = None, ta_attemptId = attemptId,
      ta_interruptionId = Some interruptionId, ta_incidentId = None, ta_policy = BoundedGrace,
      ta_source = SrcBoundedGrace, ta_beforeDeadline = before,
      ta_afterDeadline = (case pd_afterDeadline decision of None \<Rightarrow> before | Some t \<Rightarrow> t),
      ta_addedSeconds = pd_addedSeconds decision, ta_eligibleSeconds = Some (pd_eligibleSeconds decision),
      ta_reasonCode = pd_reasonCode decision, ta_reasonText = None, ta_actorId = None\<rparr>"

definition restore_grant ::
  "id_supply \<Rightarrow> ExamAttempt \<Rightarrow> Exam \<Rightarrow> AttemptTimingPolicySnapshot \<Rightarrow> ident \<Rightarrow> time \<Rightarrow> time \<Rightarrow>
     GrantDecision action" where
  "restore_grant uuid attempt exam snapshot interruptionId detectedAt now =
     (if tp_policy snapshot = BoundedGrace
      then
        bindC (getsC (findBoundedByInterruption interruptionId)) (\<lambda>existing.
        case existing of
          Some adj \<Rightarrow>
            bindC (guardC (\<not> (ta_attemptId adj \<noteq> at_id attempt \<or> ta_interruptionId adj \<noteq> Some interruptionId \<or>
                ta_source adj \<noteq> SrcBoundedGrace \<or> ta_policy adj \<noteq> BoundedGrace \<or> ta_addedSeconds adj \<le> 0))
              (ValidationError ''Existing bounded_grace adjustment failed identity validation'')) (\<lambda>_.
            returnC \<lparr>gd_addedSeconds = ta_addedSeconds adj, gd_adjustmentId = Some (ta_id adj),
              gd_eligibleSeconds = (case ta_eligibleSeconds adj of None \<Rightarrow> 0 | Some n \<Rightarrow> n),
              gd_reasonCode = ta_reasonCode adj\<rparr>)
        | None \<Rightarrow>
            bindC (getsC (sumBoundedGraceSeconds (at_id attempt))) (\<lambda>prior.
            bindC (liftC (evaluateInterruptionTimePolicy
              (policy_input attempt exam snapshot detectedAt now prior))) (\<lambda>decision.
            if pd_addedSeconds decision > 0
            then
              bindC (requireC (at_deadlineAt attempt)
                (ValidationError ''Cannot grant bounded_grace time without a deadline'')) (\<lambda>before.
              bindC (insert_adjustment uuid (grant_row (at_id attempt) interruptionId before decision)) (\<lambda>adjustment.
              bindC (update_attempt (at_id attempt) (\<lambda>a. a\<lparr>at_deadlineAt := pd_afterDeadline decision\<rparr>)) (\<lambda>_.
              returnC \<lparr>gd_addedSeconds = pd_addedSeconds decision, gd_adjustmentId = Some (ta_id adjustment),
                gd_eligibleSeconds = pd_eligibleSeconds decision, gd_reasonCode = pd_reasonCode decision\<rparr>)))
            else returnC \<lparr>gd_addedSeconds = pd_addedSeconds decision, gd_adjustmentId = None,
              gd_eligibleSeconds = pd_eligibleSeconds decision, gd_reasonCode = pd_reasonCode decision\<rparr>)))
      else
        bindC (liftC (evaluateInterruptionTimePolicy
          (policy_input attempt exam snapshot detectedAt now 0))) (\<lambda>decision.
        returnC \<lparr>gd_addedSeconds = pd_addedSeconds decision, gd_adjustmentId = None,
          gd_eligibleSeconds = pd_eligibleSeconds decision, gd_reasonCode = pd_reasonCode decision\<rparr>))"

section \<open>The composed command\<close>

definition grant_hint :: "AttemptTimingPolicySnapshot \<Rightarrow> GrantDecision \<Rightarrow> TerminalizationHint" where
  "grant_hint snapshot grant =
     \<lparr>th_policy = tp_policy snapshot, th_eligibleSeconds = Some (gd_eligibleSeconds grant),
      th_adjustmentId = gd_adjustmentId grant, th_reasonCode = gd_reasonCode grant\<rparr>"

definition restore_disrupted ::
  "(string \<Rightarrow> string) \<Rightarrow> (jsnum \<Rightarrow> string) \<Rightarrow> id_supply \<Rightarrow> repos \<Rightarrow> LockedEnrollmentAttemptIdentity \<Rightarrow> time \<Rightarrow>
     ExamAttempt \<Rightarrow> Exam \<Rightarrow> ident \<Rightarrow> AttemptTimingPolicySnapshot \<Rightarrow> time \<Rightarrow> RestoreInterruptionResult action" where
  "restore_disrupted lower num uuid repos capability now attempt exam interruptionId snapshot detectedAt =
     bindC (restore_grant uuid attempt exam snapshot interruptionId detectedAt now) (\<lambda>grant.
     bindC (ensureAttemptDeadlineReconciled lower num uuid repos capability now
       (ModeActiveInterruption (grant_hint snapshot grant))) (\<lambda>reconciled.
     if at_status reconciled = Submitted \<or> at_status reconciled = Graded
     then reconstructTerminalOutcome reconciled
     else
     bindC (restoreAttemptState attempt now) (\<lambda>lifecycleResult.
     bindC (insert_event uuid (outcome_event Restored (at_id attempt) interruptionId now
       (grant_hint snapshot grant))) (\<lambda>_.
     bindC (someC (find_attempt (at_id attempt)) (NotFoundError ''Attempt not found after restore'')) (\<lambda>restoredAttempt.
     returnC \<lparr>rr_attempt = restoredAttempt, rr_lifecycle = fst lifecycleResult,
       rr_compensation = \<lparr>rcp_policy = tp_policy snapshot, rcp_interruptionId = Some interruptionId,
         rcp_eligibleSeconds = gd_eligibleSeconds grant, rcp_addedSeconds = gd_addedSeconds grant,
         rcp_adjustmentId = gd_adjustmentId grant\<rparr>\<rparr>)))))"

definition restoreInterruptedAttempt ::
  "(string \<Rightarrow> string) \<Rightarrow> (jsnum \<Rightarrow> string) \<Rightarrow> id_supply \<Rightarrow> repos \<Rightarrow> LockedEnrollmentAttemptIdentity \<Rightarrow> time \<Rightarrow>
     RestoreInterruptionResult action" where
  "restoreInterruptedAttempt lower num uuid repos capability now =
     bindC (liftC (assertCapabilityFor capability repos)) (\<lambda>_.
     bindC (someC (find_attempt (lk_attemptId capability)) (NotFoundError ''Attempt not found'')) (\<lambda>attempt.
     bindC (someC (find_exam (at_examId attempt)) (NotFoundError ''Exam not found'')) (\<lambda>exam.
     if at_status attempt = InProgress then reconstructInProgressOutcome attempt
     else if at_status attempt = Submitted \<or> at_status attempt = Graded \<or> at_status attempt = Voided
     then reconstructTerminalOutcome attempt
     else
     bindC (guardC (at_status attempt = Disrupted) (ValidationError
       (''Cannot restore attempt in '' @ attempt_status_str (at_status attempt) @ '' state''))) (\<lambda>_.
     bindC (guardC (\<not> falsy (at_currentInterruptionId attempt))
       (ValidationError ''Disrupted attempt has no active interruption pointer'')) (\<lambda>_.
     bindC (requireC (at_interruptedAt attempt)
       (ValidationError ''Disrupted attempt has no interruptedAt timestamp'')) (\<lambda>interruptedAt.
     bindC (requireC (at_currentInterruptionId attempt)
       (ValidationError ''Disrupted attempt has no active interruption pointer'')) (\<lambda>interruptionId.
     bindC (requireC (at_interruptionTimingPolicySnapshot attempt)
       (ValidationError ''Disrupted attempt has no interruption timing policy snapshot'')) (\<lambda>snapshot.
     bindC (validate_active_episode attempt interruptionId interruptedAt) (\<lambda>detectedEvent.
     restore_disrupted lower num uuid repos capability now attempt exam interruptionId snapshot
       (ie_occurredAt detectedEvent))))))))))"

section \<open>Lemmas\<close>

lemma bounded_decision_nonneg: "0 < x \<Longrightarrow> 0 \<le> pd_addedSeconds (bounded_decision x y before close i)"
  by (simp add: bounded_decision_def Let_def pos_imp_zdiv_nonneg_iff)

lemma outcome_compensation_read_only: "outcome_compensation a o1 m s = Inr (r, s') \<Longrightarrow> s' = s"
  by (auto simp: outcome_compensation_def Let_def cmd_iff split: if_splits)

lemma reconstruct_read_only:
  "reconstructInProgressOutcome a s = Inr (r, s') \<Longrightarrow> s' = s"
  "reconstructTerminalOutcome a s = Inr (r, s') \<Longrightarrow> s' = s"
  by (auto simp: reconstructInProgressOutcome_def reconstructTerminalOutcome_def cmd_iff
      split: option.splits if_splits dest!: outcome_compensation_read_only)

lemma insert_adjustment_iff:
  "ta_operationId (row (uuid (st_drawn s))) = None \<Longrightarrow>
   insert_adjustment uuid row s = Inr (adj, s') \<longleftrightarrow>
     (let i = uuid (st_drawn s); op = uuid (Suc (st_drawn s)) in
      adj = uuid_columns ((row i)\<lparr>ta_operationId := Some op\<rparr>) \<and> findByOperationId op s = None \<and>
      (ta_source (row i) = SrcBoundedGrace \<longrightarrow> (\<forall>k. ta_interruptionId (row i) = Some k \<longrightarrow>
         findBoundedByInterruption k s = None)) \<and>
      s' = s\<lparr>st_drawn := Suc (Suc (st_drawn s)), st_adjustments := st_adjustments s @ [adj]\<rparr>)"
  by (auto simp: insert_adjustment_def Let_def bindC_run draw_run cmd_iff findByOperationId_def
      findBoundedByInterruption_def split: option.splits)

text \<open>The one way a restore adds time: a positive bounded-grace decision for an episode without a ledger
  row yet.\<close>

definition fresh_grant ::
  "id_supply \<Rightarrow> ExamAttempt \<Rightarrow> ident \<Rightarrow> time \<Rightarrow> InterruptionPolicyDecision \<Rightarrow> store \<Rightarrow> AttemptTimeAdjustment" where
  "fresh_grant uuid a j before d s =
     uuid_columns ((grant_row (at_id a) j before d (uuid (st_drawn s)))\<lparr>ta_operationId := Some (uuid (Suc (st_drawn s)))\<rparr>)"

definition granted_store ::
  "id_supply \<Rightarrow> ExamAttempt \<Rightarrow> ident \<Rightarrow> time \<Rightarrow> InterruptionPolicyDecision \<Rightarrow> store \<Rightarrow> store" where
  "granted_store uuid a j before d s =
     upd_attempt (at_id a) (\<lambda>x. x\<lparr>at_deadlineAt := pd_afterDeadline d\<rparr>)
       (s\<lparr>st_drawn := Suc (Suc (st_drawn s)), st_adjustments := st_adjustments s @ [fresh_grant uuid a j before d s]\<rparr>)"

definition grant_of :: "InterruptionPolicyDecision \<Rightarrow> ident option \<Rightarrow> GrantDecision" where
  "grant_of d i = \<lparr>gd_addedSeconds = pd_addedSeconds d, gd_adjustmentId = i,
     gd_eligibleSeconds = pd_eligibleSeconds d, gd_reasonCode = pd_reasonCode d\<rparr>"

lemma grant_insert_iff:
  "insert_adjustment uuid (grant_row (at_id a) j before d) s = Inr (adj, s') \<longleftrightarrow>
     adj = fresh_grant uuid a j before d s \<and> findByOperationId (uuid (Suc (st_drawn s))) s = None \<and>
     findBoundedByInterruption j s = None \<and>
     s' = s\<lparr>st_drawn := Suc (Suc (st_drawn s)), st_adjustments := st_adjustments s @ [adj]\<rparr>"
proof -
  have "ta_operationId (grant_row (at_id a) j before d (uuid (st_drawn s))) = None"
    by (simp add: grant_row_def)
  from insert_adjustment_iff [where row = "grant_row (at_id a) j before d" and uuid = uuid and s = s, OF this]
  show ?thesis by (simp add: Let_def fresh_grant_def) (auto simp: grant_row_def)
qed

lemma restore_grant_cases [consumes 1, case_names kept granted]:
  assumes "restore_grant uuid a x p j t now s = Inr (g, s')"
  obtains (kept) "s' = s" "gd_adjustmentId g = None \<longrightarrow> gd_addedSeconds g = 0"
      "\<forall>i. gd_adjustmentId g = Some i \<longrightarrow> (\<exists>adj. findBoundedByInterruption j s = Some adj \<and> i = ta_id adj \<and>
         gd_addedSeconds g = ta_addedSeconds adj)"
  | (granted) before d where "tp_policy p = BoundedGrace" "findBoundedByInterruption j s = None"
      "evaluateInterruptionTimePolicy (policy_input a x p t now (sumBoundedGraceSeconds (at_id a) s)) = Inr d"
      "0 < pd_addedSeconds d" "at_deadlineAt a = Some before" "s' = granted_store uuid a j before d s"
      "g = grant_of d (Some (uuid (st_drawn s)))"
proof (cases "tp_policy p = BoundedGrace")
  case False
  then obtain d where d: "evaluateInterruptionTimePolicy (policy_input a x p t now 0) = Inr d"
      "s' = s" "g = grant_of d None"
    using assms by (auto simp: restore_grant_def bindC_Inr_iff liftC_iff returnC_iff grant_of_def)
  moreover have "tp_policy (ev_snapshot (policy_input a x p t now 0)) \<noteq> BoundedGrace"
    using False by (simp add: policy_input_def)
  ultimately show thesis
    by (intro kept) (auto simp: evaluate_zero grant_of_def)
next
  case bounded: True
  show thesis
  proof (cases "findBoundedByInterruption j s")
    case (Some adj)
    then have "s' = s" "g = \<lparr>gd_addedSeconds = ta_addedSeconds adj, gd_adjustmentId = Some (ta_id adj),
              gd_eligibleSeconds = (case ta_eligibleSeconds adj of None \<Rightarrow> 0 | Some n \<Rightarrow> n),
              gd_reasonCode = ta_reasonCode adj\<rparr>"
      using assms bounded by (auto simp: restore_grant_def bindC_run returnC_iff split: if_splits)
    with Some show thesis by (intro kept) auto
  next
    case None
    then obtain d where d: "evaluateInterruptionTimePolicy (policy_input a x p t now (sumBoundedGraceSeconds (at_id a) s)) = Inr d"
      using assms bounded by (auto simp: restore_grant_def bindC_run split: sum.splits)
    show thesis
    proof (cases "0 < pd_addedSeconds d")
      case False
      then have out: "s' = s" "g = grant_of d None"
        using assms bounded None d by (auto simp: restore_grant_def bindC_run returnC_iff grant_of_def)
      have "0 \<le> pd_addedSeconds d"
        using d bounded by (auto simp: evaluate_bounded policy_input_def snapshot_ok_def is_integer_def
            bounded_decision_nonneg)
      with False out show thesis by (intro kept) (auto simp: grant_of_def)
    next
      case True
      then obtain before where b: "at_deadlineAt a = Some before"
        using assms bounded None d by (auto simp: restore_grant_def bindC_run split: option.splits)
      have "s' = granted_store uuid a j before d s" "g = grant_of d (Some (uuid (st_drawn s)))"
        using assms bounded None d True b
        by (auto simp: restore_grant_def bindC_run bindC_Inr_iff grant_insert_iff returnC_iff
            update_attempt_iff granted_store_def fresh_grant_def grant_of_def)
          (simp add: grant_row_def)
      with bounded None d True b show thesis by (intro granted)
    qed
  qed
qed

lemma sum_append_bounded:
  "sumBoundedGraceSeconds k (s\<lparr>st_adjustments := st_adjustments s @ [adj]\<rparr>) =
     sumBoundedGraceSeconds k s +
     (if ta_attemptId adj = k \<and> ta_source adj = SrcBoundedGrace then ta_addedSeconds adj else 0)"
  by (simp add: sumBoundedGraceSeconds_def)

lemma sum_frame: "st_adjustments s' = st_adjustments s \<Longrightarrow> sumBoundedGraceSeconds k s' = sumBoundedGraceSeconds k s"
  by (simp add: sumBoundedGraceSeconds_def)

lemma granted_store_facts:
  assumes "find_attempt (at_id a) s = Some a"
  shows "find_attempt i (granted_store uuid a j before d s) =
      (if i = at_id a then Some (a\<lparr>at_deadlineAt := pd_afterDeadline d\<rparr>) else find_attempt i s)"
    "sumBoundedGraceSeconds k (granted_store uuid a j before d s) =
      sumBoundedGraceSeconds k s + (if k = at_id a then pd_addedSeconds d else 0)"
    "st_events (granted_store uuid a j before d s) = st_events s"
    "st_episodes (granted_store uuid a j before d s) = st_episodes s"
    "st_exams (granted_store uuid a j before d s) = st_exams s"
  using assms
  by (simp_all add: granted_store_def store_simps sumBoundedGraceSeconds_def fresh_grant_def grant_row_def)

lemma bounded_after:
  "pd_afterDeadline (bounded_decision x y b c i) = Some (b + pd_addedSeconds (bounded_decision x y b c i) * 1000)"
  by (simp add: bounded_decision_def Let_def)

lemma evaluate_after:
  assumes "evaluateInterruptionTimePolicy (policy_input a x p t now n) = Inr d" "tp_policy p = BoundedGrace"
    "at_deadlineAt a = Some before"
  shows "pd_afterDeadline d = Some (before + pd_addedSeconds d * 1000)"
proof -
  have "tp_policy (ev_snapshot (policy_input a x p t now n)) = BoundedGrace"
    using assms(2) by (simp add: policy_input_def)
  then obtain b c where "ev_beforeDeadline (policy_input a x p t now n) = Some b"
      "\<exists>X Y. d = bounded_decision X Y b c (policy_input a x p t now n)"
    using assms(1) evaluate_bounded by blast
  moreover from this(1) have "b = before" using assms(3) by (simp add: policy_input_def)
  ultimately show ?thesis using bounded_after by blast
qed

lemma restoreAttemptState_disrupted:
  assumes "at_status a = Disrupted" "find_attempt (at_id a) s = Some b"
  shows "bindC (restoreAttemptState a now) f s =
    f (LifeRestored, resumed_row now b) (upd_attempt (at_id a) (resumed_row now) s)"
  using assms by (simp add: restoreAttemptState_def bindC_def guardC_def returnC_def requireC_def
      update_attempt_def updateC_def modifyC_def getsC_def store_simps)

text \<open>The attempt after the grant, and after the resume.\<close>

definition after_grant :: "GrantDecision \<Rightarrow> store \<Rightarrow> store \<Rightarrow> ExamAttempt \<Rightarrow> ExamAttempt" where
  "after_grant g s s1 a =
     a\<lparr>at_deadlineAt := map_option (\<lambda>d. d + 1000 * (sumBoundedGraceSeconds (at_id a) s1 - sumBoundedGraceSeconds (at_id a) s))
        (at_deadlineAt a)\<rparr>"

lemma restore_grant_store:
  assumes run: "restore_grant uuid a x p j t now s = Inr (g, s1)" and a: "find_attempt (at_id a) s = Some a"
  shows "find_attempt i s1 = (if i = at_id a then Some (after_grant g s s1 a) else find_attempt i s)"
    "st_events s1 = st_events s" "st_episodes s1 = st_episodes s" "st_exams s1 = st_exams s"
    "st_enrollments s1 = st_enrollments s" "st_entries s1 = st_entries s"
    "0 \<le> sumBoundedGraceSeconds (at_id a) s1 - sumBoundedGraceSeconds (at_id a) s"
    "k \<noteq> at_id a \<Longrightarrow> sumBoundedGraceSeconds k s1 = sumBoundedGraceSeconds k s"
proof -
  from run have "(find_attempt i s1 = (if i = at_id a then Some (after_grant g s s1 a) else find_attempt i s)) \<and>
    st_events s1 = st_events s \<and> st_episodes s1 = st_episodes s \<and> st_exams s1 = st_exams s \<and>
    st_enrollments s1 = st_enrollments s \<and> st_entries s1 = st_entries s \<and>
    0 \<le> sumBoundedGraceSeconds (at_id a) s1 - sumBoundedGraceSeconds (at_id a) s \<and>
    (k \<noteq> at_id a \<longrightarrow> sumBoundedGraceSeconds k s1 = sumBoundedGraceSeconds k s)"
  proof (cases rule: restore_grant_cases)
    case kept
    have "after_grant g s s a = a" by (cases "at_deadlineAt a") (simp_all add: after_grant_def)
    with kept a show ?thesis by simp
  next
    case (granted before d)
    have after: "pd_afterDeadline d = Some (before + pd_addedSeconds d * 1000)"
      using granted(3,1,5) by (rule evaluate_after)
    have "after_grant g s s1 a = a\<lparr>at_deadlineAt := pd_afterDeadline d\<rparr>"
      using granted(5,6) granted_store_facts(2) [OF a] after by (simp add: after_grant_def)
    with granted granted_store_facts [OF a] show ?thesis
      by (simp add: granted_store_def)
  qed
  then show "find_attempt i s1 = (if i = at_id a then Some (after_grant g s s1 a) else find_attempt i s)"
    "st_events s1 = st_events s" "st_episodes s1 = st_episodes s" "st_exams s1 = st_exams s"
    "st_enrollments s1 = st_enrollments s" "st_entries s1 = st_entries s"
    "0 \<le> sumBoundedGraceSeconds (at_id a) s1 - sumBoundedGraceSeconds (at_id a) s"
    "k \<noteq> at_id a \<Longrightarrow> sumBoundedGraceSeconds k s1 = sumBoundedGraceSeconds k s"
    by blast+
qed

lemma restoreInterruptedAttempt_disrupted:
  assumes a: "find_attempt (lk_attemptId c) s = Some a" "at_status a = Disrupted"
  shows "restoreInterruptedAttempt lower num uuid rs c now s = Inr (r, s') \<longleftrightarrow>
    lk_affinity c = rs \<and>
    (\<exists>x j t p d. find_exam (at_examId a) s = Some x \<and> at_currentInterruptionId a = Some j \<and> j \<noteq> [] \<and>
       at_interruptedAt a = Some t \<and> at_interruptionTimingPolicySnapshot a = Some p \<and> episode_open a j t d s \<and>
       restore_disrupted lower num uuid rs c now a x j p t s = Inr (r, s'))"
proof -
  have "ie_occurredAt d = t" if "episode_open a j t d s" for j t d
    using that by (simp add: episode_open_def)
  then show ?thesis
    unfolding restoreInterruptedAttempt_def using a
    by (cases "find_exam (at_examId a) s"; cases "at_currentInterruptionId a"; cases "at_interruptedAt a";
        cases "at_interruptionTimingPolicySnapshot a")
      (auto simp: bindC_Inr_iff liftC_iff someC_iff guardC_iff requireC_iff validate_active_episode_iff)
qed

definition restored_store ::
  "id_supply \<Rightarrow> ExamAttempt \<Rightarrow> ident \<Rightarrow> AttemptTimingPolicySnapshot \<Rightarrow> GrantDecision \<Rightarrow> time \<Rightarrow> store \<Rightarrow> store" where
  "restored_store uuid a j p g now s1 =
     (upd_attempt (at_id a) (resumed_row now) s1)\<lparr>st_drawn := Suc (st_drawn s1),
        st_events := st_events s1 @ [outcome_event Restored (at_id a) j now (grant_hint p g) (uuid (st_drawn s1))]\<rparr>"

lemma restore_disrupted_cases [consumes 3, case_names terminal restored]:
  assumes run: "restore_disrupted lower num uuid rs c now a x j p t s = Inr (r, s')"
    and a: "find_attempt (lk_attemptId c) s = Some a" "at_status a = Disrupted"
  obtains (terminal) g s1 d y where "restore_grant uuid a x p j t now s = Inr (g, s1)"
      "deadline_closed lower num uuid rs c now (ModeActiveInterruption (grant_hint p g)) (after_grant g s s1 a) d s1 (rr_attempt r) s'"
      "find_exam (at_examId a) s1 = Some y"
      "computeEffectiveDeadline (ex_closeAt y) (at_deadlineAt (after_grant g s s1 a)) = Inr (Some d)" "d \<le> now"
      "rr_lifecycle r = LifeTerminal"
  | (restored) g s1 y e where "restore_grant uuid a x p j t now s = Inr (g, s1)"
      "find_exam (at_examId a) s1 = Some y"
      "computeEffectiveDeadline (ex_closeAt y) (at_deadlineAt (after_grant g s s1 a)) = Inr e" "\<forall>d. e = Some d \<longrightarrow> now < d"
      "rr_lifecycle r = LifeRestored" "rr_attempt r = resumed_row now (after_grant g s s1 a)"
      "s' = restored_store uuid a j p g now s1" "findOutcome j s = None"
      "rr_compensation r = \<lparr>rcp_policy = tp_policy p, rcp_interruptionId = Some j,
         rcp_eligibleSeconds = gd_eligibleSeconds g, rcp_addedSeconds = gd_addedSeconds g,
         rcp_adjustmentId = gd_adjustmentId g\<rparr>"
proof -
  note k = find_attempt_id [OF a(1)]
  obtain g s1 rec s2 where grant: "restore_grant uuid a x p j t now s = Inr (g, s1)"
    and rec: "ensureAttemptDeadlineReconciled lower num uuid rs c now (ModeActiveInterruption (grant_hint p g)) s1 = Inr (rec, s2)"
    and rest: "(if at_status rec = Submitted \<or> at_status rec = Graded then reconstructTerminalOutcome rec
     else
     bindC (restoreAttemptState a now) (\<lambda>lifecycleResult.
     bindC (insert_event uuid (outcome_event Restored (at_id a) j now (grant_hint p g))) (\<lambda>_.
     bindC (someC (find_attempt (at_id a)) (NotFoundError ''Attempt not found after restore'')) (\<lambda>restoredAttempt.
     returnC \<lparr>rr_attempt = restoredAttempt, rr_lifecycle = fst lifecycleResult,
       rr_compensation = \<lparr>rcp_policy = tp_policy p, rcp_interruptionId = Some j,
         rcp_eligibleSeconds = gd_eligibleSeconds g, rcp_addedSeconds = gd_addedSeconds g,
         rcp_adjustmentId = gd_adjustmentId g\<rparr>\<rparr>)))) s2 = Inr (r, s')"
    using run unfolding restore_disrupted_def bindC_Inr_iff by blast
  note st1 = restore_grant_store [OF grant a(1) [folded k]]
  have own: "find_attempt (lk_attemptId c) s1 = Some (after_grant g s s1 a)" using st1(1) k by simp
  have same: "at_status (after_grant g s s1 a) = Disrupted" "at_examId (after_grant g s s1 a) = at_examId a"
      "at_id (after_grant g s s1 a) = at_id a"
    using a(2) by (simp_all add: after_grant_def)
  from rec show thesis
  proof (cases rule: reconcile_cases)
    case untouched
    then have eq: "rec = after_grant g s s1 a" and s2: "s2 = s1" using own by auto
    have out: "findOutcome i s3 = findOutcome i s" if "st_events s3 = st_events s" for i s3
      using that by (simp add: findOutcome_def)
    have step: "rr_lifecycle r = LifeRestored" "rr_attempt r = resumed_row now (after_grant g s s1 a)"
        "s' = restored_store uuid a j p g now s1" "findOutcome j s = None"
        "rr_compensation r = \<lparr>rcp_policy = tp_policy p, rcp_interruptionId = Some j,
         rcp_eligibleSeconds = gd_eligibleSeconds g, rcp_addedSeconds = gd_addedSeconds g,
         rcp_adjustmentId = gd_adjustmentId g\<rparr>"
      using rest own a(2) same k st1(2) out [of "upd_attempt (lk_attemptId c) (resumed_row now) s1"]
      by (auto simp: eq s2 restoreAttemptState_disrupted [of a s1 "after_grant g s s1 a"] bindC_Inr_iff insert_event_iff
          someC_iff returnC_iff restored_store_def store_simps)
    have "running rec" using same by (simp add: eq running_def)
    with untouched same show thesis using grant step by (auto simp: eq intro: restored)
  next
    case (closed b y d)
    then have b: "b = after_grant g s s1 a" using own by simp
    have st: "at_status rec = Submitted \<or> at_status rec = Graded"
      using deadline_closed_D(5) [OF closed(7,1,2)] by (auto split: if_splits)
    then have "reconstructTerminalOutcome rec s2 = Inr (r, s')" using rest by auto
    then have "rr_attempt r = rec" "rr_lifecycle r = LifeTerminal" "s' = s2"
      by (auto simp: reconstructTerminalOutcome_def cmd_iff split: option.splits if_splits
          dest: outcome_compensation_read_only)
    with closed b same grant show thesis by (intro terminal) auto
  qed
qed

lemma resumed_row_simps [simp]:
  "at_status (resumed_row now a) = InProgress" "at_currentInterruptionId (resumed_row now a) = None"
  "at_interruptedAt (resumed_row now a) = None" "at_answers (resumed_row now a) = at_answers a"
  "at_lastActivityAt (resumed_row now a) = Some now" "at_deadlineAt (resumed_row now a) = at_deadlineAt a"
  "at_examId (resumed_row now a) = at_examId a"
  "at_interruptionTimingPolicySnapshot (resumed_row now a) = at_interruptionTimingPolicySnapshot a"
  by (simp_all add: resumed_row_def)

lemma after_grant_simps [simp]:
  "at_id (after_grant g s s1 a) = at_id a" "at_answers (after_grant g s s1 a) = at_answers a"
  "at_status (after_grant g s s1 a) = at_status a" "at_examId (after_grant g s s1 a) = at_examId a"
  "at_questionSnapshot (after_grant g s s1 a) = at_questionSnapshot a"
  "at_interruptionTimingPolicySnapshot (after_grant g s s1 a) = at_interruptionTimingPolicySnapshot a"
  by (simp_all add: after_grant_def)

lemma restored_store_facts:
  "find_attempt i (restored_store uuid a j p g now s1) =
     (if i = at_id a then map_option (resumed_row now) (find_attempt i s1) else find_attempt i s1)"
  "find_exam i (restored_store uuid a j p g now s1) = find_exam i s1"
  "st_adjustments (restored_store uuid a j p g now s1) = st_adjustments s1"
  "sumBoundedGraceSeconds i (restored_store uuid a j p g now s1) = sumBoundedGraceSeconds i s1"
  "st_episodes (restored_store uuid a j p g now s1) = st_episodes s1"
  "st_events (restored_store uuid a j p g now s1) =
     st_events s1 @ [outcome_event Restored (at_id a) j now (grant_hint p g) (uuid (st_drawn s1))]"
  by (simp_all add: restored_store_def store_simps sumBoundedGraceSeconds_def)

text \<open>The latest outcome after one more outcome of the attempt.\<close>

lemma latest_event_snoc:
  "latest_event b (es @ [e]) =
     (case latest_event b es of
        None \<Rightarrow> Some e
      | Some x \<Rightarrow> if ie_occurredAt e \<ge> ie_occurredAt x then Some e else Some x)"
  by (induction b es rule: latest_event.induct) (auto split: option.splits)

lemma latest_event_in: "latest_event b es = Some e \<Longrightarrow> e \<in> set es \<or> b = Some e"
  by (induction b es rule: latest_event.induct) (auto split: option.splits if_splits)

lemma latest_outcome_snoc:
  assumes "is_outcome e" "ie_attemptId e = k" "st_events s' = st_events s @ [e]"
    and "\<forall>x\<in>set (st_events s). ie_attemptId x = k \<and> is_outcome x \<longrightarrow> ie_occurredAt x \<le> ie_occurredAt e"
  shows "findLatestOutcomeByAttempt k s' = Some e"
proof -
  let ?es = "filter (\<lambda>e. ie_attemptId e = k \<and> is_outcome e) (st_events s)"
  have "ie_occurredAt x \<le> ie_occurredAt e" if "latest_event None ?es = Some x" for x
    using latest_event_in [OF that] assms(4) by auto
  then show ?thesis
    using assms(1-3)
    by (auto simp: findLatestOutcomeByAttempt_def latest_event_snoc split: option.splits)
qed

text \<open>The ledger row a grant names is found again by its identifier.\<close>

lemma grant_row_found:
  assumes run: "restore_grant uuid a x p j t now s = Inr (g, s1)" and i: "gd_adjustmentId g = Some i"
    and keys: "tbl_keys_ok ta_id (st_adjustments s)" "\<forall>adj\<in>set (st_adjustments s). ta_id adj \<noteq> uuid (st_drawn s)"
    and j: "pg_uuid j = j"
  shows "\<exists>adj. find_adjustment i s1 = Some adj \<and> ta_attemptId adj = at_id a \<and> ta_interruptionId adj = Some j \<and>
    ta_source adj = SrcBoundedGrace \<and> ta_policy adj = BoundedGrace \<and> ta_addedSeconds adj = gd_addedSeconds g \<and>
    (case ta_eligibleSeconds adj of None \<Rightarrow> 0 | Some n \<Rightarrow> n) = gd_eligibleSeconds g"
proof (cases "findBoundedByInterruption j s")
  case None
  from run show ?thesis
  proof (cases rule: restore_grant_cases)
    case kept
    with None i show ?thesis by auto
  next
    case (granted before d)
    have "tbl_find ta_id (uuid (st_drawn s)) (st_adjustments s) = None"
      using keys(2) by (auto simp: tbl_find_None)
    moreover have "i = uuid (st_drawn s)" using granted(7) i by (simp add: grant_of_def)
    ultimately show ?thesis
      by (simp add: granted(6,7) granted_store_def find_adjustment_def tbl_find_append fresh_grant_def grant_row_def grant_of_def j)
  qed
next
  case (Some adj)
  have "tp_policy p = BoundedGrace"
    using run i by (auto simp: restore_grant_def bindC_Inr_iff liftC_iff returnC_iff split: if_splits)
  then have g: "g = \<lparr>gd_addedSeconds = ta_addedSeconds adj, gd_adjustmentId = Some (ta_id adj),
              gd_eligibleSeconds = (case ta_eligibleSeconds adj of None \<Rightarrow> 0 | Some n \<Rightarrow> n),
              gd_reasonCode = ta_reasonCode adj\<rparr>" and s1: "s1 = s"
      and ok: "ta_attemptId adj = at_id a" "ta_interruptionId adj = Some j" "ta_source adj = SrcBoundedGrace" "ta_policy adj = BoundedGrace"
    using run Some by (auto simp: restore_grant_def bindC_run returnC_iff split: if_splits)
  have "adj \<in> set (st_adjustments s)"
    using Some by (auto simp: findBoundedByInterruption_def find_Some_iff)
  then have "find_adjustment (ta_id adj) s = Some adj"
    unfolding find_adjustment_def by (rule tbl_find_unique [OF keys(1)])
  with g s1 ok i show ?thesis by auto
qed

section \<open>Properties\<close>

text \<open>C40: Restoring a disrupted attempt resumes it or closes it, as the deadline says. A successful restore
  leaves the returned attempt in the store, with the pointer cleared and the answers kept; its deadline moved by
  exactly the seconds the restore entered in the ledger, which are never negative; and its episode, which had no
  outcome, now has one. The effective deadline that results decides: if it lies in the future, or there is none,
  the attempt is in progress with the heartbeat renewed, and the outcome is a restoration at that instant;
  otherwise the deadline was reached, and the attempt is frozen by it: submitted at the instant of the deadline
  itself for that reason, with the snapshot of its answers, graded unless it awaits manual grading, and the
  outcome is a termination at the deadline.\<close>

theorem restore_resumes_or_closes:
  assumes run: "restoreInterruptedAttempt lower num uuid rs c now s = Inr (r, s')"
    and a: "find_attempt (lk_attemptId c) s = Some a" "at_status a = Disrupted"
  shows "find_attempt (lk_attemptId c) s' = Some (rr_attempt r) \<and>
    at_currentInterruptionId (rr_attempt r) = None \<and> at_interruptedAt (rr_attempt r) = None \<and>
    at_answers (rr_attempt r) = at_answers a \<and>
    (\<exists>n. 0 \<le> n \<and> sumBoundedGraceSeconds (at_id a) s' = sumBoundedGraceSeconds (at_id a) s + n \<and>
       at_deadlineAt (rr_attempt r) = map_option (\<lambda>d. d + 1000 * n) (at_deadlineAt a)) \<and>
    (\<exists>x e j ev. find_exam (at_examId a) s' = Some x \<and>
       computeEffectiveDeadline (ex_closeAt x) (at_deadlineAt (rr_attempt r)) = Inr e \<and>
       at_currentInterruptionId a = Some j \<and> findOutcome j s = None \<and> findOutcome j s' = Some ev \<and>
       (case rr_lifecycle r of
          LifeRestored \<Rightarrow>
            (\<forall>d. e = Some d \<longrightarrow> now < d) \<and> at_status (rr_attempt r) = InProgress \<and>
            at_lastActivityAt (rr_attempt r) = Some now \<and> ie_eventType ev = Restored \<and> ie_occurredAt ev = now
        | LifeTerminal \<Rightarrow>
            (\<exists>d. e = Some d \<and> d \<le> now \<and> at_submittedAt (rr_attempt r) = Some d \<and>
               ie_eventType ev = Terminalized \<and> ie_occurredAt ev = d) \<and>
            at_submissionReason (rr_attempt r) = Some ReasonDeadline \<and>
            at_status (rr_attempt r) = (if requiresManualGrading (at_questionSnapshot a) then Submitted else Graded) \<and>
            at_submittedAnswers (rr_attempt r) =
              Some (buildSubmittedAnswersSnapshot (at_answers a) (at_questionSnapshot a))
        | LifeAlreadyInProgress \<Rightarrow> False))"
proof -
  note k = find_attempt_id [OF a(1)]
  obtain x j t p where j: "at_currentInterruptionId a = Some j"
    and rd: "restore_disrupted lower num uuid rs c now a x j p t s = Inr (r, s')"
    using run restoreInterruptedAttempt_disrupted [OF a] by blast
  have moved: "\<exists>n. 0 \<le> n \<and> sumBoundedGraceSeconds (at_id a) s' = sumBoundedGraceSeconds (at_id a) s + n \<and>
        at_deadlineAt (rr_attempt r) = map_option (\<lambda>d. d + 1000 * n) (at_deadlineAt a)"
    if g: "restore_grant uuid a x p j t now s = Inr (g, s1)"
      and "st_adjustments s' = st_adjustments s1" "at_deadlineAt (rr_attempt r) = at_deadlineAt (after_grant g s s1 a)"
    for g s1
    using restore_grant_store(7) [OF g a(1) [folded k]] that(3) sum_frame [OF that(2), of "at_id a"]
    by (intro exI [of _ "sumBoundedGraceSeconds (at_id a) s1 - sumBoundedGraceSeconds (at_id a) s"])
      (simp add: after_grant_def)
  from rd a show ?thesis
  proof (cases rule: restore_disrupted_cases)
    case (terminal g s1 d y)
    note st1 = restore_grant_store [OF terminal(1) a(1) [folded k]]
    have own: "find_attempt (lk_attemptId c) s1 = Some (after_grant g s s1 a)" "running (after_grant g s s1 a)"
      using st1(1) k a(2) by (simp_all add: running_def)
    note closed = deadline_closed_D [OF terminal(2) own] and frame = deadline_closed_frame [OF terminal(2) own]
    have ptr: "at_currentInterruptionId (after_grant g s s1 a) = Some j" using j by (simp add: after_grant_def)
    have "active_interruption (after_grant g s s1 a) s1"
      using frame(8) by (simp add: submittable_def deadline_submit_def)
    then have fresh: "findOutcome j s1 = None" using ptr by (auto simp: active_interruption_def episode_open_def)
    then have none: "findOutcome j s = None" using st1(2) by (simp add: findOutcome_def)
    let ?ev = "outcome_event Terminalized (at_id a) j d (grant_hint p g) (uuid (st_drawn s1))"
    have "st_events s' = st_events s1 @ [?ev]"
      using frame(7) ptr by (simp add: resolved_store_def terminalize_def)
    then have out: "findOutcome j s' = Some ?ev"
      using fresh by (simp add: findOutcome_def find_append is_outcome_def)
    have "find_exam (at_examId a) s' = Some y" using terminal(3) frame(5) by (simp add: find_exam_def)
    then show ?thesis
      using closed frame(1-4) terminal(4-6) j none out moved [OF terminal(1) frame(6,1)] by simp
  next
    case (restored g s1 y e)
    note st1 = restore_grant_store [OF restored(1) a(1) [folded k]]
    let ?ev = "outcome_event Restored (at_id a) j now (grant_hint p g) (uuid (st_drawn s1))"
    have "findOutcome j s' = Some ?ev"
      using restored(8) st1(2)
      by (simp add: findOutcome_def restored(7) restored_store_facts find_append is_outcome_def)
    moreover have "find_attempt (lk_attemptId c) s' = Some (rr_attempt r)"
      using st1(1) k by (simp add: restored(6,7) restored_store_facts)
    moreover have "\<exists>n. 0 \<le> n \<and> sumBoundedGraceSeconds (at_id a) s' = sumBoundedGraceSeconds (at_id a) s + n \<and>
        at_deadlineAt (rr_attempt r) = map_option (\<lambda>d. d + 1000 * n) (at_deadlineAt a)"
      by (rule moved [OF restored(1)]) (simp_all add: restored(6,7) restored_store_facts)
    moreover have "find_exam (at_examId a) s' = Some y"
      using restored(2) by (simp add: restored(7) restored_store_facts)
    ultimately show ?thesis
      using restored j by simp
  qed
qed

definition sample_disrupted :: store where
  "sample_disrupted = snd (projr (markDisrupted sample_uuid ''a1'' 100000 60 sample_store))"

lemma sample_disrupted_attempt:
  "\<exists>a. find_attempt (lk_attemptId sample_cap) sample_disrupted = Some a \<and> at_status a = Disrupted \<and>
     requiresManualGrading (at_questionSnapshot a)"
proof -
  have "case find_attempt (lk_attemptId sample_cap) sample_disrupted of None \<Rightarrow> False
    | Some a \<Rightarrow> at_status a = Disrupted \<and> requiresManualGrading (at_questionSnapshot a)"
    by code_simp
  then show ?thesis by (auto split: option.splits)
qed

theorem restore_resumes_or_closes_witness:
  "(\<exists>r s'. restoreInterruptedAttempt id unary_num sample_uuid sample_repos sample_cap 150000 sample_disrupted = Inr (r, s') \<and>
     find_attempt ''a1'' s' = Some (rr_attempt r) \<and> at_deadlineAt (rr_attempt r) = Some 3651000) \<and>
   (\<exists>r s' d. restoreInterruptedAttempt id unary_num sample_uuid sample_repos sample_cap 9000000 sample_disrupted = Inr (r, s') \<and>
     rr_lifecycle r = LifeTerminal \<and> d \<le> 9000000 \<and> at_submittedAt (rr_attempt r) = Some d)"
proof -
  let ?run = "\<lambda>now. restoreInterruptedAttempt id unary_num sample_uuid sample_repos sample_cap now sample_disrupted"
  have ok: "?run 150000 = Inr (fst (projr (?run 150000)), snd (projr (?run 150000)))" by (rule run_result) code_simp
  have ok': "?run 9000000 = Inr (fst (projr (?run 9000000)), snd (projr (?run 9000000)))" by (rule run_result) code_simp
  obtain a where a: "find_attempt (lk_attemptId sample_cap) sample_disrupted = Some a" "at_status a = Disrupted"
    using sample_disrupted_attempt by blast
  have dl: "at_deadlineAt (rr_attempt (fst (projr (?run 150000)))) = Some 3651000" by code_simp
  have ended: "rr_lifecycle (fst (projr (?run 9000000))) = LifeTerminal" by code_simp
  have id: "lk_attemptId sample_cap = ''a1''" by (simp add: sample_cap_def)
  have "find_attempt ''a1'' (snd (projr (?run 150000))) = Some (rr_attempt (fst (projr (?run 150000))))"
    using restore_resumes_or_closes [OF ok a, THEN conjunct1] unfolding id .
  moreover have "\<exists>d. d \<le> 9000000 \<and> at_submittedAt (rr_attempt (fst (projr (?run 9000000)))) = Some d"
    using restore_resumes_or_closes [OF ok' a] unfolding ended by auto
  ultimately show ?thesis using ok ok' dl ended by blast
qed

text \<open>A repeated restore reports the same outcome. When a restore has resumed an attempt, a second
  call at any time finds it in progress, writes nothing and returns the same attempt and the same
  compensation, read back from the outcome event and the ledger; provided identifiers are fresh, distinct and
  in the case the database returns, the episode is the attempt's latest and earlier outcomes are not from the future.\<close>

lemma restore_replay:
  assumes run: "restoreInterruptedAttempt lower num uuid rs c now s = Inr (r, s')" "rr_lifecycle r = LifeRestored"
    and a: "find_attempt (lk_attemptId c) s = Some a" "at_status a = Disrupted"
    and ids: "tbl_keys_ok ta_id (st_adjustments s)" "\<forall>adj\<in>set (st_adjustments s). ta_id adj \<noteq> uuid (st_drawn s) \<and> ta_id adj \<noteq> []"
      "uuid (st_drawn s) \<noteq> []"
    and canonical: "map_option pg_uuid (at_currentInterruptionId a) = at_currentInterruptionId a"
    and latest: "map_option ai_id (find_latest_episode (lk_attemptId c) s) = at_currentInterruptionId a"
    and past: "\<forall>e\<in>set (st_events s). ie_attemptId e = lk_attemptId c \<and> is_outcome e \<longrightarrow> ie_occurredAt e \<le> now"
  shows "restoreInterruptedAttempt lower num uuid' rs c later s' =
    Inr (r\<lparr>rr_lifecycle := LifeAlreadyInProgress\<rparr>, s')"
proof -
  note k = find_attempt_id [OF a(1)]
  obtain x j t p where j: "at_currentInterruptionId a = Some j" and tx: "lk_affinity c = rs"
    and rd: "restore_disrupted lower num uuid rs c now a x j p t s = Inr (r, s')"
    using run(1) restoreInterruptedAttempt_disrupted [OF a] by blast
  from rd a show ?thesis
  proof (cases rule: restore_disrupted_cases)
    case terminal
    with run(2) show ?thesis by simp
  next
    case (restored g s1 y e)
    note st1 = restore_grant_store [OF restored(1) a(1) [folded k]]
    let ?ev = "outcome_event Restored (at_id a) j now (grant_hint p g) (uuid (st_drawn s1))"
    have own: "find_attempt (lk_attemptId c) s' = Some (rr_attempt r)" "find_exam (at_examId (rr_attempt r)) s' = Some y"
      using st1(1) k restored(2) by (simp_all add: restored(6,7) restored_store_facts)
    have r: "at_status (rr_attempt r) = InProgress" "at_id (rr_attempt r) = at_id a"
      by (simp_all add: restored(6))
    have latest_ev: "findLatestOutcomeByAttempt (at_id a) s' = Some ?ev"
      using past st1(2) k
      by (intro latest_outcome_snoc [of _ _ _ s]) (auto simp: is_outcome_def restored(7) restored_store_facts)
    have episode: "\<exists>ep. find_latest_episode (at_id a) s' = Some ep \<and> ai_id ep = j"
      using latest j k st1(3) by (auto simp: find_latest_episode_def restored(7) restored_store_facts)
    have comp: "outcome_compensation (rr_attempt r) ?ev m s' = Inr (rr_compensation r, s')" for m
    proof (cases "gd_adjustmentId g")
      case None
      have "gd_addedSeconds g = 0"
        using restored(1) None by (cases rule: restore_grant_cases) (simp_all add: grant_of_def)
      with None show ?thesis
        by (simp add: outcome_compensation_def outcome_event_def grant_hint_def restored(9) returnC_def)
    next
      case (Some i)
      have ne: "i \<noteq> []"
        using restored(1)
      proof (cases rule: restore_grant_cases)
        case kept
        then show ?thesis
          using Some ids(2) by (auto simp: findBoundedByInterruption_def find_Some_iff)
      next
        case granted
        then show ?thesis using Some ids(3) by (simp add: grant_of_def)
      qed
      obtain adj where "find_adjustment i s1 = Some adj" "ta_attemptId adj = at_id a" "ta_interruptionId adj = Some j"
          "ta_source adj = SrcBoundedGrace" "ta_policy adj = BoundedGrace" "ta_addedSeconds adj = gd_addedSeconds g"
          "(case ta_eligibleSeconds adj of None \<Rightarrow> 0 | Some n \<Rightarrow> n) = gd_eligibleSeconds g"
        using grant_row_found [OF restored(1) Some] ids canonical j by auto
      moreover have "find_adjustment i s' = find_adjustment i s1"
        by (simp add: find_adjustment_def restored(7) restored_store_facts)
      ultimately show ?thesis
        using Some ne r(2)
        by (simp add: outcome_compensation_def outcome_event_def grant_hint_def restored(9) bindC_run Let_def
            adjustment_matches_def returnC_def)
    qed
    have comp': "bindC (outcome_compensation (rr_attempt r) ?ev m) f s' = f (rr_compensation r) s'"
      for m and f :: "RestoreCompensation \<Rightarrow> RestoreInterruptionResult action"
      using comp [of m] by (simp add: bindC_def)
    have "reconstructInProgressOutcome (rr_attempt r) s' = Inr (r\<lparr>rr_lifecycle := LifeAlreadyInProgress\<rparr>, s')"
      using latest_ev episode r
      by (auto simp: reconstructInProgressOutcome_def bindC_run comp' returnC_def)
    moreover have cap: "assertCapabilityFor c rs = Inr ()" using tx by simp
    ultimately show ?thesis
      using own r by (simp add: restoreInterruptedAttempt_def bindC_run cap)
  qed
qed

lemma restore_replay_witness:
  "\<exists>r s'. restoreInterruptedAttempt id unary_num sample_uuid sample_repos sample_cap 150000 sample_disrupted = Inr (r, s') \<and>
     restoreInterruptedAttempt id unary_num sample_uuid sample_repos sample_cap 160000 s' =
       Inr (r\<lparr>rr_lifecycle := LifeAlreadyInProgress\<rparr>, s')"
proof -
  let ?run = "restoreInterruptedAttempt id unary_num sample_uuid sample_repos sample_cap 150000 sample_disrupted"
  have ok: "?run = Inr (fst (projr ?run), snd (projr ?run))" by (rule run_result) code_simp
  have life: "rr_lifecycle (fst (projr ?run)) = LifeRestored" by code_simp
  let ?a = "the (find_attempt (lk_attemptId sample_cap) sample_disrupted)"
  have "find_attempt (lk_attemptId sample_cap) sample_disrupted \<noteq> None" by code_simp
  then have a: "find_attempt (lk_attemptId sample_cap) sample_disrupted = Some ?a" by auto
  have st: "at_status ?a = Disrupted" by code_simp
  have ids: "st_adjustments sample_disrupted = []" "sample_uuid (st_drawn sample_disrupted) \<noteq> []"
    by code_simp+
  have latest: "map_option ai_id (find_latest_episode (lk_attemptId sample_cap) sample_disrupted) = at_currentInterruptionId ?a"
    by code_simp
  have past: "\<forall>e\<in>set (st_events sample_disrupted). ie_attemptId e = lk_attemptId sample_cap \<and> is_outcome e \<longrightarrow>
      ie_occurredAt e \<le> 150000"
    by code_simp
  have canonical: "map_option pg_uuid (at_currentInterruptionId ?a) = at_currentInterruptionId ?a" by code_simp
  have keys: "tbl_keys_ok ta_id (st_adjustments sample_disrupted)" by (simp add: ids(1) tbl_keys_ok_def)
  have fresh: "\<forall>adj\<in>set (st_adjustments sample_disrupted). ta_id adj \<noteq> sample_uuid (st_drawn sample_disrupted) \<and> ta_id adj \<noteq> []"
    by (simp add: ids(1))
  from restore_replay [OF ok life a st keys fresh ids(2) canonical latest past, of sample_uuid 160000] ok show ?thesis by blast
qed

end
