(* ===== verification/Admission.thy ===== *)
theory Admission
  imports Samples
begin

text \<open>
  The durable admission queue: \<^verbatim>\<open>packages/exam-engine/src/admissionCommands.ts\<close> over the table
  \<^verbatim>\<open>exam_admissions\<close> of \<^verbatim>\<open>packages/db/src/repository/examAdmissionRepo.ts\<close>. Candidates join, are
  admitted batch by batch as the clock runs, and the membership is consumed by the start of an
  attempt.

  The batch arithmetic divides two integers; a zero divisor gives infinity or not-a-number, so the
  quotients are extended integers.
\<close>

datatype xint = Fin int | PosInf | NegInf | NotANumber

fun sgn_inf :: "int \<Rightarrow> xint" where
  "sgn_inf n = (if n > 0 then PosInf else if n < 0 then NegInf else NotANumber)"

definition floor_div :: "int \<Rightarrow> int \<Rightarrow> xint" where
  "floor_div a b = (if b = 0 then sgn_inf a else Fin (a div b))"

definition ceil_div :: "int \<Rightarrow> int \<Rightarrow> xint" where
  "ceil_div a b = (if b = 0 then sgn_inf a else Fin (- ((- a) div b)))"

fun xneg :: "xint \<Rightarrow> xint" where
  "xneg (Fin a) = Fin (- a)"
| "xneg PosInf = NegInf"
| "xneg NegInf = PosInf"
| "xneg NotANumber = NotANumber"

fun xadd :: "xint \<Rightarrow> xint \<Rightarrow> xint" where
  "xadd (Fin a) (Fin b) = Fin (a + b)"
| "xadd NotANumber _ = NotANumber"
| "xadd _ NotANumber = NotANumber"
| "xadd PosInf NegInf = NotANumber"
| "xadd NegInf PosInf = NotANumber"
| "xadd (Fin _) y = y"
| "xadd x _ = x"

fun xscale :: "xint \<Rightarrow> int \<Rightarrow> xint" where
  "xscale (Fin a) b = Fin (a * b)"
| "xscale PosInf b = sgn_inf b"
| "xscale NegInf b = sgn_inf (- b)"
| "xscale NotANumber b = NotANumber"

text \<open>\<^verbatim>\<open>Math.max(0, x)\<close>\<close>

fun xmax0 :: "xint \<Rightarrow> xint" where
  "xmax0 (Fin a) = Fin (max 0 a)"
| "xmax0 PosInf = PosInf"
| "xmax0 NegInf = Fin 0"
| "xmax0 NotANumber = NotANumber"

text \<open>\<^verbatim>\<open>x > y\<close>, false as soon as one side is not a number.\<close>

fun xgt :: "xint \<Rightarrow> xint \<Rightarrow> bool" where
  "xgt (Fin a) (Fin b) = (a > b)"
| "xgt PosInf (Fin _) = True"
| "xgt PosInf NegInf = True"
| "xgt (Fin _) NegInf = True"
| "xgt _ _ = False"

section \<open>The repository\<close>

definition in_queue :: "ident \<Rightarrow> ident \<Rightarrow> ExamAdmissionRecord \<Rightarrow> bool" where
  "in_queue organizationId examId r \<longleftrightarrow> ad_organizationId r = organizationId \<and> ad_examId r = examId"

definition active_of :: "ident \<Rightarrow> ident \<Rightarrow> ident \<Rightarrow> ExamAdmissionRecord \<Rightarrow> bool" where
  "active_of organizationId examId candidateId r \<longleftrightarrow>
     in_queue organizationId examId r \<and> ad_candidateId r = candidateId \<and> ad_consumedAt r = None"

definition ahead :: "time \<Rightarrow> ident \<Rightarrow> ExamAdmissionRecord \<Rightarrow> bool" where
  "ahead joinedAt i r \<longleftrightarrow> ad_joinedAt r < joinedAt \<or> ad_joinedAt r = joinedAt \<and> ad_id r < i"

definition findActive :: "ident \<Rightarrow> ident \<Rightarrow> ident \<Rightarrow> store \<Rightarrow> ExamAdmissionRecord option" where
  "findActive organizationId examId candidateId s =
     find (active_of organizationId examId candidateId) (st_admissions s)"

definition listByExam :: "ident \<Rightarrow> ident \<Rightarrow> store \<Rightarrow> ExamAdmissionRecord list" where
  "listByExam organizationId examId s =
     sort_key ad_joinedAt (sort_key ad_id (filter (in_queue organizationId examId) (st_admissions s)))"

definition earliestJoinedAt :: "ident \<Rightarrow> ident \<Rightarrow> store \<Rightarrow> time option" where
  "earliestJoinedAt organizationId examId s =
     (case listByExam organizationId examId s of [] \<Rightarrow> None | r # _ \<Rightarrow> Some (ad_joinedAt r))"

definition countAllAhead :: "ident \<Rightarrow> ident \<Rightarrow> time \<Rightarrow> ident \<Rightarrow> store \<Rightarrow> int" where
  "countAllAhead organizationId examId joinedAt i s =
     int (length (filter (\<lambda>r. in_queue organizationId examId r \<and> ahead joinedAt i r) (st_admissions s)))"

definition countActiveAhead :: "ident \<Rightarrow> ident \<Rightarrow> time \<Rightarrow> ident \<Rightarrow> store \<Rightarrow> int" where
  "countActiveAhead organizationId examId joinedAt i s =
     int (length (filter (\<lambda>r. in_queue organizationId examId r \<and> ad_consumedAt r = None \<and>
       ahead joinedAt i r) (st_admissions s)))"

text \<open>\<^verbatim>\<open>INSERT ... ON CONFLICT DO NOTHING\<close> against the index of active memberships.\<close>

definition insert_membership ::
  "id_supply \<Rightarrow> ident \<Rightarrow> ident \<Rightarrow> ident \<Rightarrow> time \<Rightarrow> ExamAdmissionRecord option action" where
  "insert_membership uuid organizationId examId candidateId joinedAt =
     bindC (draw_id uuid) (\<lambda>i.
     bindC (getsC (findActive organizationId examId candidateId)) (\<lambda>conflict.
     if conflict \<noteq> None then returnC None
     else
       (let row = \<lparr>ad_id = i, ad_organizationId = organizationId, ad_examId = examId,
                   ad_candidateId = candidateId, ad_joinedAt = joinedAt, ad_admittedAt = None,
                   ad_consumedAt = None, ad_consumedAttemptId = None\<rparr>
        in bindC (modifyC (\<lambda>s. s\<lparr>st_admissions := st_admissions s @ [row]\<rparr>)) (\<lambda>_.
           returnC (Some row)))))"

text \<open>The bounded retry loop of \<^verbatim>\<open>joinActive\<close>; the serialization failures it also catches arise only
  between concurrent transactions.\<close>

fun join_loop ::
  "nat \<Rightarrow> id_supply \<Rightarrow> ident \<Rightarrow> ident \<Rightarrow> ident \<Rightarrow> time \<Rightarrow> ExamAdmissionRecord action" where
  "join_loop 0 uuid organizationId examId candidateId joinedAt =
     throwC (EngineError ''exam_admissions: joinActive did not converge'')"
| "join_loop (Suc n) uuid organizationId examId candidateId joinedAt =
     bindC (insert_membership uuid organizationId examId candidateId joinedAt) (\<lambda>inserted.
       case inserted of
         Some row \<Rightarrow> returnC row
       | None \<Rightarrow>
           bindC (getsC (findActive organizationId examId candidateId)) (\<lambda>existing.
             case existing of
               Some row \<Rightarrow> returnC row
             | None \<Rightarrow> join_loop n uuid organizationId examId candidateId joinedAt))"

definition joinActive ::
  "id_supply \<Rightarrow> ident \<Rightarrow> ident \<Rightarrow> ident \<Rightarrow> time \<Rightarrow> ExamAdmissionRecord action" where
  "joinActive uuid organizationId examId candidateId joinedAt =
     join_loop 3 uuid organizationId examId candidateId joinedAt"

text \<open>\<^verbatim>\<open>UPDATE ... WHERE cond RETURNING\<close>: the rows that satisfy the condition are rewritten and the
  first of them is answered.\<close>

definition update_where ::
  "(ExamAdmissionRecord \<Rightarrow> bool) \<Rightarrow> (ExamAdmissionRecord \<Rightarrow> ExamAdmissionRecord) \<Rightarrow>
     ExamAdmissionRecord option action" where
  "update_where cond write =
     bindC (getsC (\<lambda>s. map_option write (find cond (st_admissions s)))) (\<lambda>updated.
     bindC (modifyC (\<lambda>s. s\<lparr>st_admissions :=
         map (\<lambda>r. if cond r then write r else r) (st_admissions s)\<rparr>)) (\<lambda>_.
     returnC updated))"

definition admitOnce :: "ident \<Rightarrow> time \<Rightarrow> ExamAdmissionRecord option action" where
  "admitOnce i admittedAt =
     update_where (\<lambda>r. ad_id r = i \<and> ad_admittedAt r = None) (\<lambda>r. r\<lparr>ad_admittedAt := Some admittedAt\<rparr>)"

definition consumeActive ::
  "ident \<Rightarrow> ident \<Rightarrow> ident \<Rightarrow> time \<Rightarrow> ident \<Rightarrow> ExamAdmissionRecord option action" where
  "consumeActive organizationId examId candidateId consumedAt attemptId =
     update_where (active_of organizationId examId candidateId)
       (\<lambda>r. r\<lparr>ad_consumedAt := Some consumedAt, ad_consumedAttemptId := Some attemptId\<rparr>)"

section \<open>The commands\<close>

datatype AdmissionState = Waiting | Admitted | Consumed

record AdmissionQueueView =
  qv_state :: AdmissionState
  qv_position :: int
  qv_waitCount :: xint
  qv_estimatedWaitSeconds :: xint
  qv_ready :: bool

record BatchRelease =
  br_releasedBatches :: xint
  br_releasedCount :: xint

definition computeBatchRelease :: "time option \<Rightarrow> time \<Rightarrow> int \<Rightarrow> int \<Rightarrow> BatchRelease" where
  "computeBatchRelease anchor now batchSize batchIntervalSeconds =
     (case anchor of
        None \<Rightarrow> \<lparr>br_releasedBatches = Fin 0, br_releasedCount = Fin 0\<rparr>
      | Some t \<Rightarrow>
          (let elapsedSeconds = max 0 ((now - t) div 1000);
               releasedBatches = xadd (floor_div elapsedSeconds batchIntervalSeconds) (Fin 1)
           in \<lparr>br_releasedBatches = releasedBatches,
               br_releasedCount = xscale releasedBatches batchSize\<rparr>))"

definition computeBatchNumber :: "int \<Rightarrow> int \<Rightarrow> xint" where
  "computeBatchNumber ordinal batchSize = ceil_div ordinal batchSize"

definition deriveAdmissionState :: "ExamAdmissionRecord \<Rightarrow> AdmissionState" where
  "deriveAdmissionState r =
     (if ad_consumedAt r \<noteq> None then Consumed
      else if ad_admittedAt r = None then Waiting else Admitted)"

definition scheduleOrdinal :: "ident \<Rightarrow> ident \<Rightarrow> ExamAdmissionRecord \<Rightarrow> store \<Rightarrow> int" where
  "scheduleOrdinal organizationId examId r s =
     countAllAhead organizationId examId (ad_joinedAt r) (ad_id r) s + 1"

definition activePosition :: "ident \<Rightarrow> ident \<Rightarrow> ExamAdmissionRecord \<Rightarrow> store \<Rightarrow> int" where
  "activePosition organizationId examId r s =
     countActiveAhead organizationId examId (ad_joinedAt r) (ad_id r) s + 1"

definition joinAdmissionQueue :: "id_supply \<Rightarrow> Exam \<Rightarrow> ident \<Rightarrow> time \<Rightarrow> ExamAdmissionRecord action" where
  "joinAdmissionQueue uuid exam candidateId now =
     joinActive uuid (ex_organizationId exam) (ex_id exam) candidateId now"

definition previewAdmissionStatus :: "Exam \<Rightarrow> ident \<Rightarrow> time \<Rightarrow> AdmissionQueueView action" where
  "previewAdmissionStatus exam candidateId now =
     bindC (getsC (findActive (ex_organizationId exam) (ex_id exam) candidateId)) (\<lambda>active.
     bindC (getsC (earliestJoinedAt (ex_organizationId exam) (ex_id exam))) (\<lambda>anchor.
     let release = computeBatchRelease anchor now (cf_batchSize (ex_controlFlags exam))
           (cf_batchInterval (ex_controlFlags exam))
     in case active of
          None \<Rightarrow> returnC \<lparr>qv_state = Waiting, qv_position = 1, qv_waitCount = Fin 0,
                           qv_estimatedWaitSeconds = Fin 0, qv_ready = False\<rparr>
        | Some r \<Rightarrow>
            (let state = deriveAdmissionState r in
             bindC (getsC (scheduleOrdinal (ex_organizationId exam) (ex_id exam) r)) (\<lambda>ordinal.
             bindC (getsC (activePosition (ex_organizationId exam) (ex_id exam) r)) (\<lambda>position.
             let batchNumber = computeBatchNumber ordinal (cf_batchSize (ex_controlFlags exam));
                 batchesUntilReady = xmax0 (xadd batchNumber (xneg (br_releasedBatches release)))
             in returnC \<lparr>qv_state = state, qv_position = position,
                  qv_waitCount = xmax0 (xadd (Fin position) (xneg (br_releasedCount release))),
                  qv_estimatedWaitSeconds =
                    (if state = Waiting
                     then xscale batchesUntilReady (cf_batchInterval (ex_controlFlags exam))
                     else Fin 0),
                  qv_ready = (state = Admitted)\<rparr>)))))"

definition reconcileAdmission :: "Exam \<Rightarrow> ident \<Rightarrow> time \<Rightarrow> ExamAdmissionRecord option action" where
  "reconcileAdmission exam candidateId now =
     bindC (getsC (findActive (ex_organizationId exam) (ex_id exam) candidateId)) (\<lambda>active.
     case active of
       None \<Rightarrow> returnC None
     | Some r \<Rightarrow>
         (if ad_admittedAt r \<noteq> None then returnC (Some r)
          else
            bindC (getsC (earliestJoinedAt (ex_organizationId exam) (ex_id exam))) (\<lambda>anchor.
            let release = computeBatchRelease anchor now (cf_batchSize (ex_controlFlags exam))
                  (cf_batchInterval (ex_controlFlags exam)) in
            bindC (getsC (scheduleOrdinal (ex_organizationId exam) (ex_id exam) r)) (\<lambda>ordinal.
            let batchNumber = computeBatchNumber ordinal (cf_batchSize (ex_controlFlags exam)) in
            if xgt batchNumber (br_releasedBatches release) then returnC (Some r)
            else bindC (admitOnce (ad_id r) now) (\<lambda>admitted.
                 returnC (case admitted of None \<Rightarrow> Some r | Some a \<Rightarrow> Some a))))))"

definition ensureStartAdmission :: "Exam \<Rightarrow> ident \<Rightarrow> time \<Rightarrow> ExamAdmissionRecord action" where
  "ensureStartAdmission exam candidateId now =
     bindC (reconcileAdmission exam candidateId now) (\<lambda>admitted.
       case admitted of
         None \<Rightarrow> throwC QueueAdmissionRequiredError
       | Some r \<Rightarrow>
           (if ad_admittedAt r = None then throwC QueueAdmissionRequiredError else returnC r))"

record AdmissionViewItem =
  vi_candidateId :: ident
  vi_state :: AdmissionState
  vi_position :: "int option"
  vi_joinedAt :: time
  vi_admittedAt :: "time option"
  vi_consumedAt :: "time option"
  vi_consumedAttemptId :: "ident option"

definition deriveAdmissionViews :: "ExamAdmissionRecord list \<Rightarrow> AdmissionViewItem list" where
  "deriveAdmissionViews records =
     (let activeIndices =
            sort_key ad_joinedAt (sort_key ad_id (filter (\<lambda>r. ad_consumedAt r = None) records));
          positionOf = zip (map ad_id activeIndices) (map int [1..<Suc (length activeIndices)])
      in map (\<lambda>r. \<lparr>vi_candidateId = ad_candidateId r, vi_state = deriveAdmissionState r,
           vi_position = js_map_get positionOf (ad_id r), vi_joinedAt = ad_joinedAt r,
           vi_admittedAt = ad_admittedAt r, vi_consumedAt = ad_consumedAt r,
           vi_consumedAttemptId = ad_consumedAttemptId r\<rparr>) records)"

section \<open>What the repository operations do\<close>

lemma update_where_iff [cmd_iff]:
  "update_where c w s = Inr (r, s') \<longleftrightarrow> r = map_option w (find c (st_admissions s)) \<and>
     s' = s\<lparr>st_admissions := map (\<lambda>r. if c r then w r else r) (st_admissions s)\<rparr>"
  "update_where c w s = Inl e \<longleftrightarrow> False"
  by (auto simp: update_where_def cmd_iff)

definition new_membership :: "ident \<Rightarrow> ident \<Rightarrow> ident \<Rightarrow> ident \<Rightarrow> time \<Rightarrow> ExamAdmissionRecord" where
  "new_membership i organizationId examId candidateId joinedAt =
     \<lparr>ad_id = i, ad_organizationId = organizationId, ad_examId = examId,
      ad_candidateId = candidateId, ad_joinedAt = joinedAt, ad_admittedAt = None,
      ad_consumedAt = None, ad_consumedAttemptId = None\<rparr>"

lemma findActive_drawn [simp]: "findActive g x c (s\<lparr>st_drawn := n\<rparr>) = findActive g x c s"
  by (simp add: findActive_def)

text \<open>A join always ends in its first round: with the membership there is, or with a fresh one.\<close>

lemma joinActive_result:
  "joinActive uuid g x c now s =
     (case findActive g x c s of
        Some r \<Rightarrow> Inr (r, s\<lparr>st_drawn := Suc (st_drawn s)\<rparr>)
      | None \<Rightarrow>
          (let r = new_membership (uuid (st_drawn s)) g x c now
           in Inr (r, s\<lparr>st_drawn := Suc (st_drawn s), st_admissions := st_admissions s @ [r]\<rparr>)))"
proof (cases "findActive g x c s")
  case None
  then show ?thesis
    by (simp add: joinActive_def numeral_3_eq_3 bindC_def insert_membership_def draw_id_def getsC_def
        modifyC_def returnC_def new_membership_def Let_def)
next
  case (Some r)
  then show ?thesis
    by (simp add: joinActive_def numeral_3_eq_3 bindC_def insert_membership_def draw_id_def getsC_def
        modifyC_def returnC_def)
qed

lemma joinActive_iff:
  "joinActive uuid g x c now s = Inr (r, s') \<longleftrightarrow>
     findActive g x c s = Some r \<and> s' = s\<lparr>st_drawn := Suc (st_drawn s)\<rparr> \<or>
     findActive g x c s = None \<and> r = new_membership (uuid (st_drawn s)) g x c now \<and>
       s' = s\<lparr>st_drawn := Suc (st_drawn s), st_admissions := st_admissions s @ [r]\<rparr>"
  by (auto simp: joinActive_result Let_def split: option.splits)

section \<open>The order of the queue\<close>

text \<open>What a membership never changes, and the order statistics as functions of it.\<close>

definition join_key :: "ExamAdmissionRecord \<Rightarrow> ident \<times> ident \<times> ident \<times> ident \<times> time" where
  "join_key r = (ad_id r, ad_organizationId r, ad_examId r, ad_candidateId r, ad_joinedAt r)"

abbreviation queue :: "ident \<Rightarrow> ident \<Rightarrow> store \<Rightarrow> ExamAdmissionRecord list" where
  "queue g x s \<equiv> filter (in_queue g x) (st_admissions s)"

lemma hd_sort_key_Min:
  "xs \<noteq> [] \<Longrightarrow> f (hd (sort_key f xs)) = Min (f ` set xs)" for f :: "'a \<Rightarrow> 'b::linorder"
proof -
  assume "xs \<noteq> []"
  then have ne: "sort_key f xs \<noteq> []" by (metis length_0_conv length_sort)
  then obtain y ys where eq: "sort_key f xs = y # ys" by (cases "sort_key f xs") auto
  have "sorted (map f (sort_key f xs))" by simp
  then have "\<forall>z\<in>set (sort_key f xs). f y \<le> f z" by (simp add: eq)
  then have "\<forall>z\<in>set xs. f y \<le> f z" by (simp only: set_sort)
  moreover have "y \<in> set xs" using eq by (metis list.set_intros(1) set_sort)
  ultimately have "Min (f ` set xs) = f y" by (intro Min_eqI) auto
  with eq show ?thesis by simp
qed

lemma earliestJoinedAt_Min:
  "earliestJoinedAt g x s =
     (if queue g x s = [] then None else Some (Min (ad_joinedAt ` set (queue g x s))))"
proof (cases "queue g x s = []")
  case True
  then show ?thesis by (simp add: earliestJoinedAt_def listByExam_def)
next
  case False
  define xs where "xs = sort_key ad_id (queue g x s)"
  have ne: "xs \<noteq> []" and st: "set xs = set (queue g x s)"
    using False by (simp_all add: xs_def) (metis length_0_conv length_sort)
  then have "sort_key ad_joinedAt xs \<noteq> []" by (metis length_0_conv length_sort)
  then show ?thesis
    using hd_sort_key_Min [OF ne, of ad_joinedAt] False
    by (cases "sort_key ad_joinedAt xs") (simp_all add: earliestJoinedAt_def listByExam_def xs_def)
qed

lemma join_keys_queue:
  assumes "map join_key rows = map join_key rows'"
  shows "map join_key (filter (in_queue g x) rows) = map join_key (filter (in_queue g x) rows')"
    and "length (filter (\<lambda>r. in_queue g x r \<and> ahead j i r) rows) =
         length (filter (\<lambda>r. in_queue g x r \<and> ahead j i r) rows')"
  using assms
proof (induction rows arbitrary: rows')
  case (Cons r rows)
  case 1
  then show ?case using Cons by (cases rows') (auto simp: join_key_def in_queue_def)
next
  case (Cons r rows)
  case 2
  then show ?case using Cons by (cases rows') (auto simp: join_key_def in_queue_def ahead_def)
qed auto

lemma join_keys_statistics:
  assumes keys: "map join_key (st_admissions s') = map join_key (st_admissions s)"
  shows "earliestJoinedAt g x s' = earliestJoinedAt g x s"
    and "countAllAhead g x j i s' = countAllAhead g x j i s"
    and "scheduleOrdinal g x r s' = scheduleOrdinal g x r s"
proof -
  note q = join_keys_queue(1) [OF keys, of g x]
  have jt: "map ad_joinedAt (queue g x s') = map ad_joinedAt (queue g x s)"
    using arg_cong [OF q, of "map (\<lambda>(_, _, _, _, t). t)"] by (simp add: join_key_def comp_def)
  have "ad_joinedAt ` set (queue g x s') = ad_joinedAt ` set (queue g x s)"
    using arg_cong [OF jt, of set] by simp
  moreover have "queue g x s' = [] \<longleftrightarrow> queue g x s = []"
    using arg_cong [OF q, of length] by auto
  ultimately show "earliestJoinedAt g x s' = earliestJoinedAt g x s"
    by (simp add: earliestJoinedAt_Min)
  show c: "countAllAhead g x j i s' = countAllAhead g x j i s" for j i
    unfolding countAllAhead_def using join_keys_queue(2) [OF keys, of g x j i] by simp
  show "scheduleOrdinal g x r s' = scheduleOrdinal g x r s"
    by (simp add: scheduleOrdinal_def c)
qed

lemma update_where_keys:
  "(\<And>r. join_key (w r) = join_key r) \<Longrightarrow>
     map join_key (map (\<lambda>r. if c r then w r else r) rows) = map join_key rows"
  by (induction rows) auto

section \<open>The release schedule\<close>

definition batch_policy :: "Exam \<Rightarrow> bool" where
  "batch_policy exam \<longleftrightarrow>
     cf_batchSize (ex_controlFlags exam) \<ge> 1 \<and> cf_batchInterval (ex_controlFlags exam) \<ge> 1"

text \<open>The predicate under which a waiting membership is admitted.\<close>

definition eligible :: "Exam \<Rightarrow> time \<Rightarrow> ExamAdmissionRecord \<Rightarrow> store \<Rightarrow> bool" where
  "eligible exam now r s \<longleftrightarrow>
     \<not> xgt (computeBatchNumber (scheduleOrdinal (ex_organizationId exam) (ex_id exam) r s)
             (cf_batchSize (ex_controlFlags exam)))
          (br_releasedBatches (computeBatchRelease
             (earliestJoinedAt (ex_organizationId exam) (ex_id exam) s) now
             (cf_batchSize (ex_controlFlags exam)) (cf_batchInterval (ex_controlFlags exam))))"

text \<open>The instant at which the batch of an ordinal is released.\<close>

definition release_instant :: "Exam \<Rightarrow> time \<Rightarrow> int \<Rightarrow> time" where
  "release_instant exam anchor ordinal =
     anchor + (ordinal - 1) div cf_batchSize (ex_controlFlags exam) *
       cf_batchInterval (ex_controlFlags exam) * 1000"

text \<open>The number of memberships released by an instant.\<close>

definition released :: "Exam \<Rightarrow> time \<Rightarrow> time \<Rightarrow> int" where
  "released exam anchor now =
     (max 0 ((now - anchor) div 1000) div cf_batchInterval (ex_controlFlags exam) + 1) *
       cf_batchSize (ex_controlFlags exam)"

lemma ceil_div_pos: "b \<ge> 1 \<Longrightarrow> - ((- a) div b) = (a - 1) div b + 1" for a b :: int
proof -
  assume b: "b \<ge> 1"
  define q r where "q = (a - 1) div b" and "r = (a - 1) mod b"
  have a: "a - 1 = b * q + r" and r: "0 \<le> r" "r < b" using b by (simp_all add: q_def r_def)
  have "- a = b * (- (q + 1)) + (b - 1 - r)" using a by (simp add: algebra_simps)
  then have "(- a) div b = - (q + 1)" by (rule int_div_pos_eq) (use r in auto)
  then show ?thesis by (simp add: q_def)
qed

lemma le_div_pos: "i \<ge> 1 \<Longrightarrow> k \<le> x div i \<longleftrightarrow> k * i \<le> x" for i k x :: int
proof
  assume i: "i \<ge> 1" and "k \<le> x div i"
  then have "k * i \<le> x div i * i" by (simp add: mult_right_mono)
  also have "\<dots> \<le> x" using div_mult_mod_eq [of x i] pos_mod_sign [of i x] i by linarith
  finally show "k * i \<le> x" .
next
  assume i: "i \<ge> 1" and "k * i \<le> x"
  then have "k * i div i \<le> x div i" by (intro zdiv_mono1) simp_all
  with i show "k \<le> x div i" by simp
qed

lemma eligible_released:
  assumes "batch_policy exam" and "earliestJoinedAt (ex_organizationId exam) (ex_id exam) s = Some a"
  shows "eligible exam now r s \<longleftrightarrow>
    scheduleOrdinal (ex_organizationId exam) (ex_id exam) r s \<le> released exam a now"
proof -
  define o1 b i e where "o1 = scheduleOrdinal (ex_organizationId exam) (ex_id exam) r s"
    and "b = cf_batchSize (ex_controlFlags exam)" and "i = cf_batchInterval (ex_controlFlags exam)"
    and "e = max 0 ((now - a) div 1000)"
  have b: "b \<ge> 1" and i: "i \<ge> 1" using assms(1) by (simp_all add: batch_policy_def b_def i_def)
  have "eligible exam now r s \<longleftrightarrow> - ((- o1) div b) \<le> e div i + 1"
    using assms(2) b i
    by (auto simp: eligible_def computeBatchNumber_def computeBatchRelease_def ceil_div_def
        floor_div_def Let_def o1_def b_def i_def e_def not_less)
  also have "\<dots> \<longleftrightarrow> (o1 - 1) div b < e div i + 1" using ceil_div_pos [OF b, of o1] by linarith
  also have "\<dots> \<longleftrightarrow> \<not> (e div i + 1) * b \<le> o1 - 1" 
    using le_div_pos [OF b, of "e div i + 1" "o1 - 1"] by linarith
  finally show ?thesis by (auto simp: released_def o1_def b_def i_def e_def)
qed

lemma eligible_instant:
  assumes pol: "batch_policy exam" and anchor: "earliestJoinedAt (ex_organizationId exam) (ex_id exam) s = Some a"
  shows "eligible exam now r s \<longleftrightarrow>
    release_instant exam a (scheduleOrdinal (ex_organizationId exam) (ex_id exam) r s) \<le> max a now"
proof -
  define o1 b i e where "o1 = scheduleOrdinal (ex_organizationId exam) (ex_id exam) r s"
    and "b = cf_batchSize (ex_controlFlags exam)" and "i = cf_batchInterval (ex_controlFlags exam)"
    and "e = max 0 ((now - a) div 1000)"
  define k where "k = (o1 - 1) div b"
  have b: "b \<ge> 1" and i: "i \<ge> 1" using pol by (simp_all add: batch_policy_def b_def i_def)
  have e: "m \<le> e \<longleftrightarrow> m * 1000 \<le> max 0 (now - a)" for m
    using le_div_pos [of 1000 m "now - a"] by (auto simp: e_def max_def)
  have "eligible exam now r s \<longleftrightarrow> \<not> (e div i + 1) * b \<le> o1 - 1"
    using eligible_released [OF assms, of now r] by (auto simp: released_def o1_def b_def i_def e_def)
  also have "\<dots> \<longleftrightarrow> k \<le> e div i"
    unfolding k_def using le_div_pos [OF b, of "e div i + 1" "o1 - 1"] by linarith
  also have "\<dots> \<longleftrightarrow> k * i \<le> e" by (rule le_div_pos [OF i])
  also have "\<dots> \<longleftrightarrow> k * i * 1000 \<le> max 0 (now - a)" by (rule e)
  finally show ?thesis
    by (auto simp: release_instant_def o1_def [symmetric] b_def [symmetric] i_def [symmetric]
        k_def [symmetric] max_def)
qed

lemma released_mono: "batch_policy exam \<Longrightarrow> now \<le> now' \<Longrightarrow> released exam a now \<le> released exam a now'"
proof -
  assume pol: "batch_policy exam" and le: "now \<le> now'"
  have "max 0 ((now - a) div 1000) \<le> max 0 ((now' - a) div 1000)"
    using zdiv_mono1 [of "now - a" "now' - a" 1000] le by simp
  then show ?thesis
    unfolding released_def using pol
    by (intro mult_right_mono add_right_mono zdiv_mono1) (simp_all add: batch_policy_def)
qed

text \<open>What reconciliation does to the membership of a candidate.\<close>

definition admit_row :: "ident \<Rightarrow> time \<Rightarrow> store \<Rightarrow> store" where
  "admit_row i now s = s\<lparr>st_admissions := map (\<lambda>r. if ad_id r = i \<and> ad_admittedAt r = None
     then r\<lparr>ad_admittedAt := Some now\<rparr> else r) (st_admissions s)\<rparr>"

lemma findActive_D:
  "findActive g x c s = Some r \<Longrightarrow> active_of g x c r \<and> r \<in> set (st_admissions s)"
  by (auto simp: findActive_def find_Some_iff)

lemma active_anchor:
  "findActive g x c s = Some r \<Longrightarrow> \<exists>a. earliestJoinedAt g x s = Some a"
  by (auto simp: earliestJoinedAt_Min filter_empty_conv active_of_def dest!: findActive_D)

lemma find_unique_id:
  "distinct (map ad_id rows) \<Longrightarrow> r \<in> set rows \<Longrightarrow> P r \<Longrightarrow>
     find (\<lambda>q. ad_id q = ad_id r \<and> P q) rows = Some r"
  by (induction rows) (auto simp: image_iff)

lemma reconcileAdmission_cases:
  "reconcileAdmission exam c now s =
     (case findActive (ex_organizationId exam) (ex_id exam) c s of
        None \<Rightarrow> Inr (None, s)
      | Some r \<Rightarrow>
          (if ad_admittedAt r \<noteq> None \<or> \<not> eligible exam now r s then Inr (Some r, s)
           else Inr (Some (case find (\<lambda>q. ad_id q = ad_id r \<and> ad_admittedAt q = None) (st_admissions s) of
                         None \<Rightarrow> r | Some q \<Rightarrow> q\<lparr>ad_admittedAt := Some now\<rparr>),
                     admit_row (ad_id r) now s)))"
proof (cases "findActive (ex_organizationId exam) (ex_id exam) c s")
  case None
  then show ?thesis by (simp add: reconcileAdmission_def bindC_def getsC_def returnC_def)
next
  case (Some r)
  then show ?thesis
    by (auto simp: reconcileAdmission_def bindC_def getsC_def returnC_def eligible_def Let_def
        admitOnce_def update_where_def modifyC_def admit_row_def split: option.splits)
qed

text \<open>With unique identifiers the membership answered is the candidate's own.\<close>

lemma reconcileAdmission_active:
  assumes ids: "distinct (map ad_id (st_admissions s))"
    and act: "findActive (ex_organizationId exam) (ex_id exam) c s = Some r"
  shows "reconcileAdmission exam c now s =
    (if ad_admittedAt r \<noteq> None \<or> \<not> eligible exam now r s then Inr (Some r, s)
     else Inr (Some (r\<lparr>ad_admittedAt := Some now\<rparr>), admit_row (ad_id r) now s))"
proof -
  have "r \<in> set (st_admissions s)" using findActive_D [OF act] by simp
  then show ?thesis
    using find_unique_id [OF ids, of r "\<lambda>q. ad_admittedAt q = None"]
    by (auto simp: reconcileAdmission_cases act)
qed

section \<open>Histories of the queue of an exam\<close>

text \<open>The operations on the queue of one exam, under a clock that never runs backwards. Several candidates may
  join in the same millisecond.\<close>

inductive queue_step :: "id_supply \<Rightarrow> Exam \<Rightarrow> time \<times> store \<Rightarrow> time \<times> store \<Rightarrow> bool"
  for uuid exam where
  tick: "now \<le> now' \<Longrightarrow> queue_step uuid exam (now, s) (now', s)"
| join: "joinAdmissionQueue uuid exam c now s = Inr (r, s') \<Longrightarrow>
    queue_step uuid exam (now, s) (now, s')"
| reconcile: "reconcileAdmission exam c now s = Inr (r', s') \<Longrightarrow>
    queue_step uuid exam (now, s) (now, s')"
| consume: "consumeActive (ex_organizationId exam) (ex_id exam) c now k s = Inr (r', s') \<Longrightarrow>
    queue_step uuid exam (now, s) (now, s')"

text \<open>How the rows may develop: a membership keeps its identity and its place, an admission and a
  consumption are written once, new memberships come after the ones there are.\<close>

definition row_evolves :: "ExamAdmissionRecord \<Rightarrow> ExamAdmissionRecord \<Rightarrow> bool" where
  "row_evolves r r' \<longleftrightarrow> join_key r' = join_key r \<and>
     (ad_admittedAt r \<noteq> None \<longrightarrow> ad_admittedAt r' = ad_admittedAt r) \<and>
     (ad_consumedAt r \<noteq> None \<longrightarrow>
        ad_consumedAt r' = ad_consumedAt r \<and> ad_consumedAttemptId r' = ad_consumedAttemptId r)"

definition rows_evolve :: "ExamAdmissionRecord list \<Rightarrow> ExamAdmissionRecord list \<Rightarrow> bool" where
  "rows_evolve rows rows' \<longleftrightarrow>
     length rows \<le> length rows' \<and> list_all2 row_evolves rows (take (length rows) rows')"

lemma row_evolves_refl [simp]: "row_evolves r r"
  by (simp add: row_evolves_def)

lemma row_evolves_trans: "row_evolves a b \<Longrightarrow> row_evolves b c \<Longrightarrow> row_evolves a c"
  by (auto simp: row_evolves_def)

lemma rows_evolve_nth:
  "rows_evolve rows rows' \<longleftrightarrow>
     length rows \<le> length rows' \<and> (\<forall>i<length rows. row_evolves (rows ! i) (rows' ! i))"
  by (auto simp: rows_evolve_def list_all2_conv_all_nth)

lemma rows_evolve_refl [simp]: "rows_evolve rows rows"
  by (simp add: rows_evolve_nth)

lemma rows_evolve_trans: "rows_evolve a b \<Longrightarrow> rows_evolve b c \<Longrightarrow> rows_evolve a c"
  unfolding rows_evolve_nth by (meson le_trans less_le_trans row_evolves_trans)

lemma rows_evolve_append [simp]: "rows_evolve rows (rows @ new)"
  by (simp add: rows_evolve_nth nth_append)

lemma rows_evolve_map: "(\<And>r. row_evolves r (f r)) \<Longrightarrow> rows_evolve rows (map f rows)"
  by (simp add: rows_evolve_nth)

lemma admit_row_select [simp]:
  "st_drawn (admit_row i now s) = st_drawn s"
  "map join_key (st_admissions (admit_row i now s)) = map join_key (st_admissions s)"
  by (simp_all add: admit_row_def join_key_def)

lemma admit_row_evolves: "rows_evolve (st_admissions s) (st_admissions (admit_row i now s))"
  unfolding admit_row_def by simp (rule rows_evolve_map, simp add: row_evolves_def join_key_def)

lemma consume_evolves:
  "rows_evolve rows (map (\<lambda>r. if active_of g x c r
     then r\<lparr>ad_consumedAt := t, ad_consumedAttemptId := k\<rparr> else r) rows)"
  by (rule rows_evolve_map) (simp add: row_evolves_def join_key_def active_of_def)

lemma reconcile_store:
  "reconcileAdmission exam c now s = Inr (r, s') \<Longrightarrow>
     s' = s \<or> (\<exists>q. findActive (ex_organizationId exam) (ex_id exam) c s = Some q \<and>
       eligible exam now q s \<and> s' = admit_row (ad_id q) now s)"
  by (auto simp: reconcileAdmission_cases split: option.splits if_splits)

lemma step_evolves:
  "queue_step uuid exam p q \<Longrightarrow> rows_evolve (st_admissions (snd p)) (st_admissions (snd q))"
proof (induction rule: queue_step.induct)
  case (join c now s r s')
  then show ?case by (auto simp: joinAdmissionQueue_def joinActive_iff)
next
  case (reconcile c now s r s')
  then show ?case using admit_row_evolves by (auto dest!: reconcile_store)
next
  case (consume c now k s r s')
  then show ?case by (auto simp: consumeActive_def cmd_iff consume_evolves)
qed simp

text \<open>Along every history of an exam's queue no membership is lost, reordered or re-identified,
  the admission of a membership and its consumption (with the attempt that consumed it) are written
  at most once, and a join is idempotent: it always returns, with the active membership when the
  candidate has one, else with a new one that becomes the active membership.\<close>

lemma admission_write_once:
  "((queue_step uuid exam)\<^sup>*\<^sup>* p q \<longrightarrow>
      rows_evolve (st_admissions (snd p)) (st_admissions (snd q))) \<and>
   (\<exists>r s'. joinAdmissionQueue uuid exam c now s = Inr (r, s') \<and>
      findActive (ex_organizationId exam) (ex_id exam) c s' = Some r \<and>
      (\<forall>a. findActive (ex_organizationId exam) (ex_id exam) c s = Some a \<longrightarrow>
         r = a \<and> st_admissions s' = st_admissions s))"
proof (rule conjI)
  show "(queue_step uuid exam)\<^sup>*\<^sup>* p q \<longrightarrow>
      rows_evolve (st_admissions (snd p)) (st_admissions (snd q))"
  proof
    assume "(queue_step uuid exam)\<^sup>*\<^sup>* p q"
    then show "rows_evolve (st_admissions (snd p)) (st_admissions (snd q))"
      by (induction rule: rtranclp_induct) (auto intro: rows_evolve_trans dest: step_evolves)
  qed
  let ?g = "ex_organizationId exam" and ?x = "ex_id exam"
  show "\<exists>r s'. joinAdmissionQueue uuid exam c now s = Inr (r, s') \<and> findActive ?g ?x c s' = Some r \<and>
      (\<forall>a. findActive ?g ?x c s = Some a \<longrightarrow> r = a \<and> st_admissions s' = st_admissions s)"
  proof (cases "findActive ?g ?x c s")
    case None
    then have "findActive ?g ?x c
        (s\<lparr>st_drawn := Suc (st_drawn s), st_admissions := st_admissions s @ [new_membership i ?g ?x c now]\<rparr>)
      = Some (new_membership i ?g ?x c now)" for i
      unfolding findActive_def
      by (auto simp: find_None_iff find_Some_iff new_membership_def active_of_def in_queue_def
          nth_append intro!: exI [of _ "length (st_admissions s)"])
    with None show ?thesis by (simp add: joinAdmissionQueue_def joinActive_result Let_def)
  next
    case (Some a)
    then show ?thesis by (simp add: joinAdmissionQueue_def joinActive_result)
  qed
qed

section \<open>The invariant of the queue\<close>

definition active_key :: "ExamAdmissionRecord \<Rightarrow> ident \<times> ident \<times> ident" where
  "active_key r = (ad_organizationId r, ad_examId r, ad_candidateId r)"

text \<open>Identifiers are unique and were drawn from the supply; a candidate has at most one active
  membership per exam.\<close>

definition queue_ok :: "id_supply \<Rightarrow> store \<Rightarrow> bool" where
  "queue_ok uuid s \<longleftrightarrow> inj uuid \<and> distinct (map ad_id (st_admissions s)) \<and>
     ad_id ` set (st_admissions s) \<subseteq> uuid ` {..<st_drawn s} \<and>
     distinct (map active_key (filter (\<lambda>r. ad_consumedAt r = None) (st_admissions s)))"

text \<open>A membership is admitted only when fewer memberships had arrived strictly before it than the schedule has
  released. Its ordinal is no such invariant: memberships of the same millisecond are ordered by their identifiers,
  so a join can move an admitted membership down.\<close>

definition earlier :: "ident \<Rightarrow> ident \<Rightarrow> time \<Rightarrow> store \<Rightarrow> int" where
  "earlier g x t s = int (length (filter (\<lambda>q. ad_joinedAt q < t) (queue g x s)))"

definition on_schedule :: "Exam \<Rightarrow> time \<Rightarrow> store \<Rightarrow> bool" where
  "on_schedule exam now s \<longleftrightarrow>
     (let g = ex_organizationId exam; x = ex_id exam in
      \<forall>r\<in>set (queue g x s). ad_joinedAt r \<le> now \<and>
        (ad_admittedAt r \<noteq> None \<longrightarrow>
           earlier g x (ad_joinedAt r) s < released exam (the (earliestJoinedAt g x s)) now))"

lemma map_active_keys:
  assumes "\<And>r. ad_id (f r) = ad_id r" and "\<And>r. active_key (f r) = active_key r"
    and "\<And>r. ad_consumedAt (f r) = None \<Longrightarrow> ad_consumedAt r = None"
    and "distinct (map active_key (filter (\<lambda>r. ad_consumedAt r = None) rows))"
  shows "map ad_id (map f rows) = map ad_id rows"
    and "distinct (map active_key (filter (\<lambda>r. ad_consumedAt r = None) (map f rows)))"
proof -
  show "map ad_id (map f rows) = map ad_id rows" by (simp add: assms(1))
  let ?P = "\<lambda>r. ad_consumedAt r = None" and ?Q = "\<lambda>r. ad_consumedAt (f r) = None"
  have "map active_key (filter ?P (map f rows)) = map active_key (filter ?Q rows)"
    by (simp add: filter_map comp_def assms(2))
  also have "filter ?Q rows = filter ?Q (filter ?P rows)"
    unfolding filter_filter by (rule filter_cong) (use assms(3) in blast)+
  finally show "distinct (map active_key (filter ?P (map f rows)))"
    using distinct_map_filter [OF assms(4)] by simp
qed

lemma queue_ok_map:
  assumes "queue_ok uuid s" and "\<And>r. ad_id (f r) = ad_id r" and "\<And>r. active_key (f r) = active_key r"
    and "\<And>r. ad_consumedAt (f r) = None \<Longrightarrow> ad_consumedAt r = None"
  shows "queue_ok uuid (s\<lparr>st_admissions := map f (st_admissions s)\<rparr>)"
  using assms map_active_keys [of f "st_admissions s", OF assms(2,3,4)]
  by (simp add: queue_ok_def image_image comp_def)

lemma queue_ok_join:
  assumes ok: "queue_ok uuid s" and none: "findActive g x c s = None"
  shows "queue_ok uuid (s\<lparr>st_drawn := Suc (st_drawn s),
    st_admissions := st_admissions s @ [new_membership (uuid (st_drawn s)) g x c now]\<rparr>)"
proof -
  have "uuid (st_drawn s) \<notin> uuid ` {..<st_drawn s}"
    using ok by (auto simp: queue_ok_def dest: injD)
  moreover have "uuid ` {..<st_drawn s} \<subseteq> uuid ` {..<Suc (st_drawn s)}" by auto
  moreover have "(g, x, c) \<notin> active_key ` {r \<in> set (st_admissions s). ad_consumedAt r = None}"
    using none by (auto simp: findActive_def find_None_iff active_of_def in_queue_def active_key_def)
  ultimately show ?thesis
    using ok by (auto simp: queue_ok_def new_membership_def active_key_def)
qed

lemma step_queue_ok: "queue_step uuid exam p q \<Longrightarrow> queue_ok uuid (snd p) \<Longrightarrow> queue_ok uuid (snd q)"
proof (induction rule: queue_step.induct)
  case (join c now s r s')
  have "queue_ok uuid (s\<lparr>st_drawn := Suc (st_drawn s)\<rparr>)"
    using join(2) by (force simp: queue_ok_def)
  with join show ?case by (auto simp: joinAdmissionQueue_def joinActive_iff intro: queue_ok_join)
next
  case (reconcile c now s r s')
  have "queue_ok uuid (admit_row i now s)" for i
    unfolding admit_row_def using reconcile(2)
    by (simp, intro queue_ok_map) (auto simp: active_key_def split: if_splits)
  with reconcile show ?case by (auto dest!: reconcile_store)
next
  case (consume c now k s r s')
  then show ?case
    by (auto simp: consumeActive_def cmd_iff active_key_def split: if_splits intro!: queue_ok_map)
qed simp

interpretation queue_state: invariant_step "queue_step uuid exam" "\<lambda>p. queue_ok uuid (snd p)" for uuid exam
  by unfold_locales (rule step_queue_ok)

section \<open>Staying on schedule\<close>

lemma earlier_ordinal: "earlier g x (ad_joinedAt r) s < scheduleOrdinal g x r s"
proof -
  let ?P = "\<lambda>q. ad_joinedAt q < ad_joinedAt r" and ?Q = "ahead (ad_joinedAt r) (ad_id r)"
  have "filter ?P (queue g x s) = filter ?P (filter ?Q (queue g x s))"
    unfolding filter_filter by (intro filter_cong refl) (auto simp: ahead_def)
  then have "length (filter ?P (queue g x s)) \<le> length (filter ?Q (queue g x s))"
    by (metis length_filter_le)
  then show ?thesis by (simp add: earlier_def scheduleOrdinal_def countAllAhead_def)
qed

lemma earlier_keys:
  assumes "map join_key (st_admissions s') = map join_key (st_admissions s)"
  shows "earlier g x t s' = earlier g x t s"
proof -
  have count: "earlier g x t s = int (length (filter (\<lambda>(i, org, ex, c, j). org = g \<and> ex = x \<and> j < t) (map join_key (st_admissions s))))"
    for s
    by (simp add: earlier_def filter_map comp_def join_key_def in_queue_def conj_ac)
  show ?thesis unfolding count assms ..
qed

lemma on_schedule_tick:
  "batch_policy exam \<Longrightarrow> on_schedule exam now s \<Longrightarrow> now \<le> now' \<Longrightarrow> on_schedule exam now' s"
  unfolding on_schedule_def Let_def by (meson order_trans less_le_trans released_mono)

lemma on_schedule_frame:
  "st_admissions s' = st_admissions s \<Longrightarrow> on_schedule exam now s' = on_schedule exam now s"
  using join_keys_statistics [of s' s] earlier_keys [of s' s] by (simp add: on_schedule_def Let_def)

text \<open>Rewriting rows in place keeps the queue on schedule when every row it admits was due.\<close>

lemma on_schedule_map:
  assumes keys: "\<And>r. join_key (f r) = join_key r"
    and due: "\<And>r. r \<in> set (st_admissions s) \<Longrightarrow> ad_admittedAt (f r) \<noteq> None \<Longrightarrow> ad_admittedAt r = None \<Longrightarrow>
      earlier (ex_organizationId exam) (ex_id exam) (ad_joinedAt r) s
        < released exam (the (earliestJoinedAt (ex_organizationId exam) (ex_id exam) s)) now"
    and on: "on_schedule exam now s"
  shows "on_schedule exam now (s\<lparr>st_admissions := map f (st_admissions s)\<rparr>)"
proof -
  let ?g = "ex_organizationId exam" and ?x = "ex_id exam"
  let ?s = "s\<lparr>st_admissions := map f (st_admissions s)\<rparr>"
  have same: "map join_key (st_admissions ?s) = map join_key (st_admissions s)" using keys by simp
  note stat = join_keys_statistics [OF same] earlier_keys [OF same]
  have row: "in_queue ?g ?x (f r) = in_queue ?g ?x r" "ad_joinedAt (f r) = ad_joinedAt r" for r
    using keys [of r] by (simp_all add: join_key_def in_queue_def)
  have "ad_joinedAt r \<le> now \<and> (ad_admittedAt (f r) \<noteq> None \<longrightarrow>
      earlier ?g ?x (ad_joinedAt r) s < released exam (the (earliestJoinedAt ?g ?x s)) now)"
    if "r \<in> set (st_admissions s)" "in_queue ?g ?x r" for r
    using on that due [of r] by (cases "ad_admittedAt r = None") (auto simp: on_schedule_def Let_def)
  then show ?thesis
    unfolding on_schedule_def Let_def by (auto simp: stat row simp del: not_None_eq)
qed

lemma on_schedule_admit:
  assumes pol: "batch_policy exam" and ok: "queue_ok uuid s" and on: "on_schedule exam now s"
    and act: "findActive (ex_organizationId exam) (ex_id exam) c s = Some q" and el: "eligible exam now q s"
  shows "on_schedule exam now (admit_row (ad_id q) now s)"
proof -
  let ?g = "ex_organizationId exam" and ?x = "ex_id exam"
  obtain a where a: "earliestJoinedAt ?g ?x s = Some a" using active_anchor [OF act] by blast
  have "scheduleOrdinal ?g ?x q s \<le> released exam a now"
    using eligible_released [OF pol a] el by blast
  then have "earlier ?g ?x (ad_joinedAt q) s < released exam a now"
    using earlier_ordinal [of ?g ?x q s] by linarith
  moreover have "r = q" if "r \<in> set (st_admissions s)" "ad_id r = ad_id q" for r
    using that ok findActive_D [OF act] by (auto simp: queue_ok_def distinct_map dest: inj_onD)
  ultimately show ?thesis
    unfolding admit_row_def using a
    by (intro on_schedule_map [OF _ _ on]) (auto simp: join_key_def split: if_splits)
qed

lemma on_schedule_join:
  assumes on: "on_schedule exam now s"
    and r: "r = new_membership i (ex_organizationId exam) (ex_id exam) c now"
  shows "on_schedule exam now (s\<lparr>st_drawn := n, st_admissions := st_admissions s @ [r]\<rparr>)"
proof -
  let ?g = "ex_organizationId exam" and ?x = "ex_id exam"
  let ?s = "s\<lparr>st_drawn := n, st_admissions := st_admissions s @ [r]\<rparr>"
  have late: "\<forall>q\<in>set (queue ?g ?x s). ad_joinedAt q \<le> now"
    using on unfolding on_schedule_def Let_def by blast
  have inq: "in_queue ?g ?x r" "ad_joinedAt r = now" "ad_admittedAt r = None"
    by (simp_all add: r new_membership_def in_queue_def)
  have ord: "earlier ?g ?x (ad_joinedAt q) ?s = earlier ?g ?x (ad_joinedAt q) s" if "q \<in> set (queue ?g ?x s)" for q
  proof -
    have "\<not> now < ad_joinedAt q" using late that by fastforce
    with inq(1,2) show ?thesis by (simp add: earlier_def)
  qed
  have anchor: "earliestJoinedAt ?g ?x ?s = earliestJoinedAt ?g ?x s" if "queue ?g ?x s \<noteq> []"
  proof -
    obtain q where q: "q \<in> set (queue ?g ?x s)" using \<open>queue ?g ?x s \<noteq> []\<close> by fastforce
    have "Min (insert now (ad_joinedAt ` set (queue ?g ?x s))) = Min (ad_joinedAt ` set (queue ?g ?x s))"
    proof -
      have "Min (ad_joinedAt ` set (queue ?g ?x s)) \<le> ad_joinedAt q" using q by (intro Min_le) auto
      also have "\<dots> \<le> now" using late q by blast
      finally show ?thesis using q by (subst Min_insert) auto
    qed
    moreover have "set (queue ?g ?x ?s) = insert r (set (queue ?g ?x s))" using inq by auto
    ultimately show ?thesis using that inq
      unfolding earliestJoinedAt_Min by (simp only: image_insert) (simp add: inq)
  qed
  have old: "ad_joinedAt q \<le> now \<and> (ad_admittedAt q \<noteq> None \<longrightarrow>
      earlier ?g ?x (ad_joinedAt q) ?s < released exam (the (earliestJoinedAt ?g ?x ?s)) now)"
    if q: "q \<in> set (queue ?g ?x s)" for q
  proof -
    have "queue ?g ?x s \<noteq> []" using q by (metis empty_iff empty_set)
    note same = anchor [OF this]
    from on q show ?thesis
      unfolding ord [OF q] same unfolding on_schedule_def Let_def by blast
  qed
  have split: "set (queue ?g ?x ?s) = insert r (set (queue ?g ?x s))" using inq by auto
  show ?thesis
    unfolding on_schedule_def Let_def split using old inq by (simp only: ball_simps) simp
qed

text \<open>Both invariants together, for an exam whose batch policy is the one the contract admits.\<close>

definition queue_inv :: "id_supply \<Rightarrow> Exam \<Rightarrow> time \<times> store \<Rightarrow> bool" where
  "queue_inv uuid exam p \<longleftrightarrow>
     batch_policy exam \<and> queue_ok uuid (snd p) \<and> on_schedule exam (fst p) (snd p)"

lemma step_on_schedule:
  "queue_step uuid exam p q \<Longrightarrow> queue_inv uuid exam p \<Longrightarrow> on_schedule exam (fst q) (snd q)"
proof (induction rule: queue_step.induct)
  case (tick now now' s)
  then show ?case by (auto simp: queue_inv_def intro: on_schedule_tick)
next
  case (join c now s r s')
  then show ?case
    by (auto simp: queue_inv_def joinAdmissionQueue_def joinActive_iff list_all_iff
        on_schedule_frame [of "s\<lparr>st_drawn := Suc (st_drawn s)\<rparr>" s] intro!: on_schedule_join)
next
  case (reconcile c now s r s')
  then show ?case by (auto simp: queue_inv_def dest!: reconcile_store intro: on_schedule_admit)
next
  case (consume c now k s r s')
  then show ?case
    by (auto simp: queue_inv_def consumeActive_def cmd_iff join_key_def split: if_splits
        intro!: on_schedule_map)
qed

interpretation queue_run: invariant_step "queue_step uuid exam" "queue_inv uuid exam" for uuid exam
  by unfold_locales (auto simp: queue_inv_def intro: step_queue_ok step_on_schedule)

text \<open>The most memberships that joined in one millisecond.\<close>

definition largest_crowd :: "ident \<Rightarrow> ident \<Rightarrow> store \<Rightarrow> int" where
  "largest_crowd g x s =
     foldr max (map (\<lambda>r. int (length (filter (\<lambda>q. ad_joinedAt q = ad_joinedAt r) (queue g x s)))) (queue g x s)) 1"

lemma foldr_max: "y \<in> set ys \<Longrightarrow> y \<le> foldr max ys z" "z \<le> foldr max ys z" for y :: int
  by (induction ys) auto

lemma foldr_max_least: "foldr max ys z = z \<longleftrightarrow> (\<forall>y\<in>set ys. y \<le> z)" for z :: int
proof (induction ys)
  case (Cons a ys)
  have "z \<le> foldr max ys z" by (rule foldr_max(2))
  then have "max a (foldr max ys z) = z \<longleftrightarrow> a \<le> z \<and> foldr max ys z = z" by (simp only: max_def) auto
  with Cons show ?case by simp
qed simp

lemma no_ties: "(\<forall>r\<in>set xs. length (filter (\<lambda>q. f q = f r) xs) \<le> 1) \<longleftrightarrow> distinct (map f xs)"
proof (induction xs)
  case (Cons a xs)
  show ?case
  proof (cases "f a \<in> f ` set xs")
    case True
    then obtain b where b: "b \<in> set xs" "f b = f a" by force
    then have "filter (\<lambda>q. f q = f a) xs \<noteq> []" by (auto simp: filter_empty_conv)
    then have "1 < length (filter (\<lambda>q. f q = f a) (a # xs))" by (cases "filter (\<lambda>q. f q = f a) xs") auto
    with True show ?thesis by (metis distinct.simps(2) leD list.set_intros(1) list.set_map list.simps(9))
  next
    case False
    then have apart: "f r \<noteq> f a" if "r \<in> set xs" for r using that by (metis image_eqI)
    then have "filter (\<lambda>q. f q = f a) xs = []" "\<And>r. r \<in> set xs \<Longrightarrow> f a \<noteq> f r"
      by (auto simp: filter_empty_conv) metis
    with False Cons.IH show ?thesis by auto
  qed
qed simp

lemma crowd_one: "largest_crowd g x s = 1 \<longleftrightarrow> distinct (map ad_joinedAt (queue g x s))"
  unfolding largest_crowd_def foldr_max_least no_ties [symmetric] by auto

lemma length_filter_or:
  "\<forall>q\<in>set xs. P q \<longrightarrow> Q q \<or> R q \<Longrightarrow> length (filter P xs) \<le> length (filter Q xs) + length (filter R xs)"
  by (induction xs) auto

text \<open>The last to arrive among the admitted bounds their number.\<close>

lemma admitted_bound:
  assumes on: "on_schedule exam now s" and a: "earliestJoinedAt (ex_organizationId exam) (ex_id exam) s = Some a"
    and nonneg: "0 \<le> released exam a now"
  shows "int (length (filter (\<lambda>r. ad_admittedAt r \<noteq> None) (queue (ex_organizationId exam) (ex_id exam) s))) \<le>
    released exam a now + largest_crowd (ex_organizationId exam) (ex_id exam) s - 1"
proof -
  let ?g = "ex_organizationId exam" and ?x = "ex_id exam"
  let ?q = "queue ?g ?x s" and ?adm = "\<lambda>r. ad_admittedAt r \<noteq> None"
  have one: "1 \<le> largest_crowd ?g ?x s" by (simp add: largest_crowd_def foldr_max)
  show ?thesis
  proof (cases "filter ?adm ?q = []")
    case True
    show ?thesis using one nonneg unfolding True by simp
  next
    case False
    let ?times = "ad_joinedAt ` set (filter ?adm ?q)"
    have "Max ?times \<in> ?times" using False by (intro Max_in) (simp_all only: image_is_empty set_empty finite_imageI finite_set not_False_eq_True)
    then obtain r where r: "r \<in> set (filter ?adm ?q)" "ad_joinedAt r = Max ?times" by force
    have last: "ad_joinedAt q \<le> ad_joinedAt r" if "q \<in> set (filter ?adm ?q)" for q
      unfolding r(2) using that by (intro Max_ge) auto
    have "length (filter ?adm ?q) \<le>
        length (filter (\<lambda>q. ad_joinedAt q < ad_joinedAt r) ?q) + length (filter (\<lambda>q. ad_joinedAt q = ad_joinedAt r) ?q)"
      using last by (intro length_filter_or) (force simp: order.order_iff_strict)
    moreover have "int (length (filter (\<lambda>q. ad_joinedAt q < ad_joinedAt r) ?q)) < released exam a now"
      using on r(1) a unfolding on_schedule_def Let_def earlier_def by auto
    moreover have "int (length (filter (\<lambda>q. ad_joinedAt q = ad_joinedAt r) ?q)) \<le> largest_crowd ?g ?x s"
      unfolding largest_crowd_def using r(1) by (intro foldr_max(1)) auto
    ultimately show ?thesis by linarith
  qed
qed

text \<open>C6: Fairness of the schedule. Along every history of an exam's queue (joins, reconciliations, consumptions and
  the passing of time, in any order, under a clock that never runs backwards; joins may share an instant) a candidate never has two active memberships,
  identifiers stay unique, and the number of memberships admitted so far exceeds the number the batch schedule has
  released by then, one batch at the first join and one more per interval, by at most the size of the largest crowd
  that joined in one millisecond, less one. So it never exceeds it when no two candidates join in the same
  millisecond. Otherwise it can: an admitted membership may be overtaken by one of its millisecond.\<close>

theorem admission_capacity:
  assumes "(queue_step uuid exam)\<^sup>*\<^sup>* (now0, s0) (now, s)" and "queue_inv uuid exam (now0, s0)"
  shows "distinct (map ad_id (st_admissions s)) \<and>
    distinct (map active_key (filter (\<lambda>r. ad_consumedAt r = None) (st_admissions s))) \<and>
    int (length (filter (\<lambda>r. ad_admittedAt r \<noteq> None)
      (queue (ex_organizationId exam) (ex_id exam) s))) \<le>
      (case earliestJoinedAt (ex_organizationId exam) (ex_id exam) s of
         None \<Rightarrow> 0
       | Some a \<Rightarrow> (max 0 ((now - a) div 1000) div cf_batchInterval (ex_controlFlags exam) + 1) *
           cf_batchSize (ex_controlFlags exam) + largest_crowd (ex_organizationId exam) (ex_id exam) s - 1) \<and>
    (largest_crowd (ex_organizationId exam) (ex_id exam) s = 1 \<longleftrightarrow>
      distinct (map ad_joinedAt (queue (ex_organizationId exam) (ex_id exam) s)))"
proof -
  let ?g = "ex_organizationId exam" and ?x = "ex_id exam"
  have inv: "queue_inv uuid exam (now, s)" by (rule queue_run.reach_inv [OF assms])
  have "int (length (filter (\<lambda>r. ad_admittedAt r \<noteq> None) (queue ?g ?x s))) \<le>
      (case earliestJoinedAt ?g ?x s of None \<Rightarrow> 0 | Some a \<Rightarrow> released exam a now + largest_crowd ?g ?x s - 1)"
  proof (cases "earliestJoinedAt ?g ?x s")
    case None
    then have "queue ?g ?x s = []" by (simp add: earliestJoinedAt_Min split: if_splits)
    with None show ?thesis by simp
  next
    case (Some a)
    have "released exam a now \<ge> 0"
      using inv by (auto simp: queue_inv_def batch_policy_def released_def pos_imp_zdiv_nonneg_iff)
    moreover have "on_schedule exam now s" using inv by (simp add: queue_inv_def)
    ultimately show ?thesis using admitted_bound [OF _ Some] by (simp add: Some)
  qed
  with inv show ?thesis
    by (simp add: queue_inv_def queue_ok_def released_def crowd_one cong: option.case_cong)
qed

text \<open>C7: The release schedule in closed form. A waiting candidate who is number n of the queue
  is admitted by a reconciliation exactly when (n - 1) div batchSize intervals have passed since the
  first join (the first batch at once): from that instant on every reconciliation admits, before it
  none does and nothing is written. The start gate lets through exactly the candidates who are
  admitted or due, and refuses all others with QueueAdmissionRequiredError.\<close>

theorem admission_release:
  assumes pol: "batch_policy exam" and ids: "distinct (map ad_id (st_admissions s))"
    and act: "findActive (ex_organizationId exam) (ex_id exam) c s = Some r"
    and waiting: "ad_admittedAt r = None"
  shows "\<exists>a. earliestJoinedAt (ex_organizationId exam) (ex_id exam) s = Some a \<and>
    (let due = a + (scheduleOrdinal (ex_organizationId exam) (ex_id exam) r s - 1)
             div cf_batchSize (ex_controlFlags exam) * cf_batchInterval (ex_controlFlags exam) * 1000 \<le> max a now
     in (if due
         then reconcileAdmission exam c now s =
                Inr (Some (r\<lparr>ad_admittedAt := Some now\<rparr>), admit_row (ad_id r) now s) \<and>
              ensureStartAdmission exam c now s =
                Inr (r\<lparr>ad_admittedAt := Some now\<rparr>, admit_row (ad_id r) now s)
         else reconcileAdmission exam c now s = Inr (Some r, s) \<and>
              ensureStartAdmission exam c now s = Inl QueueAdmissionRequiredError))"
proof -
  obtain a where a: "earliestJoinedAt (ex_organizationId exam) (ex_id exam) s = Some a"
    using active_anchor [OF act] by blast
  show ?thesis
    using eligible_instant [OF pol a, of now r] waiting
    by (intro exI [of _ a])
      (auto simp: a reconcileAdmission_active [OF ids act] release_instant_def ensureStartAdmission_def
        bindC_def throwC_def returnC_def Let_def)
qed

section \<open>Instances\<close>

definition sample_queue_exam :: Exam where
  "sample_queue_exam = sample_exam\<lparr>ex_controlFlags :=
     sample_flags\<lparr>cf_requireQueue := True, cf_batchSize := 1, cf_batchInterval := 3\<rparr>\<rparr>"

definition sample_queue :: "ident \<Rightarrow> store" where
  "sample_queue c = sample_store\<lparr>st_drawn := 2,
     st_admissions := [new_membership ''i'' ''o1'' ''e1'' ''u0'' 1000,
                       new_membership ''ix'' ''o1'' ''e1'' c 1500]\<rparr>"

theorem admission_release_witness:
  "reconcileAdmission sample_queue_exam ''u1'' 3999 (sample_queue ''u1'') =
     Inr (Some (new_membership ''ix'' ''o1'' ''e1'' ''u1'' 1500), sample_queue ''u1'') \<and>
   (\<exists>r s'. ensureStartAdmission sample_queue_exam ''u1'' 4000 (sample_queue ''u1'') = Inr (r, s'))"
proof -
  have act: "findActive (ex_organizationId sample_queue_exam) (ex_id sample_queue_exam) ''u1''
      (sample_queue ''u1'') = Some (new_membership ''ix'' ''o1'' ''e1'' ''u1'' 1500)"
    and pol: "batch_policy sample_queue_exam"
    and ids: "distinct (map ad_id (st_admissions (sample_queue ''u1'')))"
    and w: "ad_admittedAt (new_membership ''ix'' ''o1'' ''e1'' ''u1'' 1500) = None"
    and a: "earliestJoinedAt (ex_organizationId sample_queue_exam) (ex_id sample_queue_exam)
      (sample_queue ''u1'') = Some 1000"
    and n: "scheduleOrdinal (ex_organizationId sample_queue_exam) (ex_id sample_queue_exam)
      (new_membership ''ix'' ''o1'' ''e1'' ''u1'' 1500) (sample_queue ''u1'') = 2"
    and b: "cf_batchSize (ex_controlFlags sample_queue_exam) = 1"
      "cf_batchInterval (ex_controlFlags sample_queue_exam) = 3"
    by code_simp+
  show ?thesis
    using admission_release [OF pol ids act w, of 3999] admission_release [OF pol ids act w, of 4000]
    by (simp add: a n b)
qed

definition sample_joined :: store where
  "sample_joined = sample_store\<lparr>st_drawn := Suc 0,
     st_admissions := [new_membership ''i'' ''o1'' ''e1'' ''u1'' 1000]\<rparr>"

lemma sample_queue_run:
  "(queue_step sample_uuid sample_queue_exam)\<^sup>*\<^sup>* (1000, sample_store) (1500, sample_joined)"
proof -
  have "joinAdmissionQueue sample_uuid sample_queue_exam ''u1'' 1000 sample_store =
      Inr (new_membership ''i'' ''o1'' ''e1'' ''u1'' 1000, sample_joined)"
    by code_simp
  then have "queue_step sample_uuid sample_queue_exam (1000, sample_store) (1000, sample_joined)"
    by (rule queue_step.join)
  moreover have "queue_step sample_uuid sample_queue_exam (1000, sample_joined) (1500, sample_joined)"
    by (rule queue_step.tick) simp
  ultimately show ?thesis by (meson converse_rtranclp_into_rtranclp rtranclp.rtrancl_refl)
qed

text \<open>Two candidates join in one millisecond, and the one who joined later draws the smaller identifier: both are
  admitted at once although the schedule, with batches of one, has released a single admission.\<close>

definition crowd_uuid :: id_supply where
  "crowd_uuid n = (if n = 0 then ''ix'' else if n = Suc 0 then ''i'' else sample_uuid n)"

definition crowd_run :: "store \<times> store \<times> store \<times> store" where
  "crowd_run =
     (let s1 = snd (projr (joinAdmissionQueue crowd_uuid sample_queue_exam ''u1'' 1000 sample_store));
          s2 = snd (projr (reconcileAdmission sample_queue_exam ''u1'' 1000 s1));
          s3 = snd (projr (joinAdmissionQueue crowd_uuid sample_queue_exam ''u2'' 1000 s2))
      in (s1, s2, s3, snd (projr (reconcileAdmission sample_queue_exam ''u2'' 1000 s3))))"

lemma crowd_uuid_inj: "inj crowd_uuid"
proof (rule injI)
  fix m n assume eq: "crowd_uuid m = crowd_uuid n"
  have len: "length (crowd_uuid k) = (if k = 0 then 2 else if k = Suc 0 then 1 else Suc k)" for k
    by (simp add: crowd_uuid_def sample_uuid_def)
  have "length (crowd_uuid m) = length (crowd_uuid n)" using eq by simp
  then show "m = n" unfolding len by (cases "m = 0"; cases "n = 0"; cases "m = Suc 0"; cases "n = Suc 0") simp_all
qed

lemma crowd_history:
  "(queue_step crowd_uuid sample_queue_exam)\<^sup>*\<^sup>* (1000, sample_store) (1000, snd (snd (snd crowd_run)))"
proof -
  let ?step = "queue_step crowd_uuid sample_queue_exam"
  let ?j1 = "joinAdmissionQueue crowd_uuid sample_queue_exam ''u1'' 1000 sample_store"
  let ?r1 = "reconcileAdmission sample_queue_exam ''u1'' 1000 (fst crowd_run)"
  let ?j2 = "joinAdmissionQueue crowd_uuid sample_queue_exam ''u2'' 1000 (fst (snd crowd_run))"
  let ?r2 = "reconcileAdmission sample_queue_exam ''u2'' 1000 (fst (snd (snd crowd_run)))"
  have runs: "?j1 = Inr (fst (projr ?j1), snd (projr ?j1))" "?r1 = Inr (fst (projr ?r1), snd (projr ?r1))"
    "?j2 = Inr (fst (projr ?j2), snd (projr ?j2))" "?r2 = Inr (fst (projr ?r2), snd (projr ?r2))"
    by (rule run_result, code_simp)+
  have "snd (projr ?j1) = fst crowd_run" "snd (projr ?r1) = fst (snd crowd_run)"
    "snd (projr ?j2) = fst (snd (snd crowd_run))" "snd (projr ?r2) = snd (snd (snd crowd_run))"
    by (simp_all add: crowd_run_def Let_def)
  then have "?step (1000, sample_store) (1000, fst crowd_run)" "?step (1000, fst crowd_run) (1000, fst (snd crowd_run))"
    "?step (1000, fst (snd crowd_run)) (1000, fst (snd (snd crowd_run)))"
    "?step (1000, fst (snd (snd crowd_run))) (1000, snd (snd (snd crowd_run)))"
    using queue_step.join [OF runs(1)] queue_step.reconcile [OF runs(2)] queue_step.join [OF runs(3)]
      queue_step.reconcile [OF runs(4)] by simp_all
  then show ?thesis by (meson converse_rtranclp_into_rtranclp rtranclp.rtrancl_refl)
qed

lemma crowd_start: "queue_inv crowd_uuid sample_queue_exam (1000, sample_store)"
  using crowd_uuid_inj
  by (simp add: queue_inv_def batch_policy_def sample_queue_exam_def queue_ok_def on_schedule_def sample_defs)

text \<open>The bound is attained: two admissions, one released, a crowd of two.\<close>

theorem admission_capacity_witness:
  "int (length (filter (\<lambda>r. ad_admittedAt r \<noteq> None) (queue ''o1'' ''e1'' (snd (snd (snd crowd_run)))))) \<le> 1 + 2 - 1 \<and>
   length (filter (\<lambda>r. ad_admittedAt r \<noteq> None) (queue ''o1'' ''e1'' (snd (snd (snd crowd_run))))) = 2"
proof -
  let ?s = "snd (snd (snd crowd_run))"
  have a: "earliestJoinedAt ''o1'' ''e1'' ?s = Some 1000" and n: "largest_crowd ''o1'' ''e1'' ?s = 2"
    and e: "ex_organizationId sample_queue_exam = ''o1''" "ex_id sample_queue_exam = ''e1''"
      "cf_batchSize (ex_controlFlags sample_queue_exam) = 1"
      "cf_batchInterval (ex_controlFlags sample_queue_exam) = 3"
    and two: "length (filter (\<lambda>r. ad_admittedAt r \<noteq> None) (queue ''o1'' ''e1'' ?s)) = 2"
    by code_simp+
  show ?thesis
    using admission_capacity [OF crowd_history crowd_start] two by (simp add: a e n)
qed

lemma admission_write_once_witness:
  "rows_evolve (st_admissions sample_store) (st_admissions sample_joined)"
  using admission_write_once [of sample_uuid sample_queue_exam "(1000, sample_store)" "(1500, sample_joined)"]
    sample_queue_run by auto

end
