(* ===== verification/Result_Visibility.thy ===== *)
theory Result_Visibility
  imports Samples
begin

text \<open>
  \<^verbatim>\<open>candidateResultVisibility.ts\<close> and \<^verbatim>\<open>candidateExamSummary.ts\<close>: when a candidate may see a result, and
  what the candidate is told about an exam. The grading facts of an enrollment exist before the
  publication policy lets the candidate see them; nothing the candidate is told in between may depend
  on them.
\<close>

datatype CandidateResultView = OwnView | AllView

datatype CandidateResultHiddenReason = HiddenNotStarted | HiddenNotGraded | HiddenPendingPublish

datatype CandidateResultVisibility = Visible | Hidden CandidateResultHiddenReason

definition resolveCandidateResultVisibility ::
  "Exam \<Rightarrow> ExamAttempt \<Rightarrow> CandidateResultView \<Rightarrow> CandidateResultVisibility" where
  "resolveCandidateResultVisibility exam attempt view =
     (if at_status attempt \<noteq> Graded then Hidden HiddenNotStarted
      else
        (let scoreFieldsPresent = at_score attempt \<noteq> None \<and> at_passed attempt \<noteq> None \<and>
               at_gradedAt attempt \<noteq> None \<and> at_gradingResult attempt \<noteq> None
         in if \<not> scoreFieldsPresent then Hidden HiddenNotGraded
            else
              (let gradingStatus =
                     (case at_gradingStatus attempt of None \<Rightarrow> AutoGraded | Some g \<Rightarrow> g)
               in if gradingStatus = PendingManual then Hidden HiddenNotGraded
                  else if ex_resultPublicationMode exam = AfterGrading \<and> gradingStatus \<noteq> FullyGraded
                  then Hidden HiddenNotGraded
                  else if view = AllView then Visible
                  else
                    (case ex_resultPublicationMode exam of
                       Immediate \<Rightarrow> Visible
                     | AfterGrading \<Rightarrow> Visible
                     | Manual \<Rightarrow>
                         (if ex_resultsPublishedAt exam \<noteq> None then Visible
                          else Hidden HiddenPendingPublish)))))"

definition resolveCandidateEnrollmentResultVisibility ::
  "Exam \<Rightarrow> ExamEnrollment option \<Rightarrow> ExamAttempt option \<Rightarrow> CandidateResultView \<Rightarrow>
     CandidateResultVisibility" where
  "resolveCandidateEnrollmentResultVisibility exam enrollment finalAttempt view =
     (case finalAttempt of
        Some a \<Rightarrow> resolveCandidateResultVisibility exam a view
      | None \<Rightarrow> Hidden HiddenNotGraded)"

definition isCandidateRetakeDeferred ::
  "Exam \<Rightarrow> ExamEnrollment option \<Rightarrow> ExamAttempt option \<Rightarrow> bool" where
  "isCandidateRetakeDeferred exam enrollment finalAttempt =
     (if ex_retakePolicy exam \<noteq> PassThenStop then False
      else
        (case enrollment of
           None \<Rightarrow> False
         | Some e \<Rightarrow>
             (if en_finalAttemptId e = None then False
              else resolveCandidateEnrollmentResultVisibility exam enrollment finalAttempt OwnView
                     \<noteq> Visible)))"

definition projectEnrollmentForLifecycleState ::
  "ExamEnrollment option \<Rightarrow> bool \<Rightarrow> ExamEnrollment option" where
  "projectEnrollmentForLifecycleState enrollment resultVisible =
     (if enrollment = None \<or> resultVisible then enrollment
      else map_option (\<lambda>e. e\<lparr>en_finalPassed := None\<rparr>) enrollment)"

section \<open>The candidate's summary of an exam\<close>

datatype AvailabilityStatus =
    Available | AvInProgress | AvResumable | AvSubmittedPendingGrade | AvGraded
  | AvMaxAttemptsExhausted | AvNotStartedYet | AvExpired | AvUnavailable

datatype PrimaryAction = ActStart | ActResume | ActViewResult | ActViewHistory | ActNone

record DeriveCandidateExamSummaryInput =
  si_exam :: Exam
  si_enrollment :: "ExamEnrollment option"
  si_activeAttempt :: "ExamAttempt option"
  si_resumableAttempt :: "ExamAttempt option"
  si_latestAttempt :: "ExamAttempt option"
  si_finalAttempt :: "ExamAttempt option"
  si_now :: time

definition deriveCandidateExamState ::
  "DeriveCandidateExamSummaryInput \<Rightarrow> AvailabilityStatus \<times> PrimaryAction" where
  "deriveCandidateExamState input =
     (let exam = si_exam input; enrollment = si_enrollment input;
          beforeWindow = si_now input < ex_openAt exam;
          afterWindow = (case ex_closeAt exam of None \<Rightarrow> False | Some c \<Rightarrow> si_now input \<ge> c);
          attemptsUsed = (case enrollment of None \<Rightarrow> 0 | Some e \<Rightarrow> en_attemptCount e);
          maxAttemptsExhausted =
            (ex_retakePolicy exam = MaxAttempts \<and> attemptsUsed \<ge> ex_maxAttempts exam);
          alreadyPassed = (ex_retakePolicy exam = PassThenStop \<and>
            (case enrollment of None \<Rightarrow> False | Some e \<Rightarrow> en_finalPassed e = Some True));
          blocked = (case enrollment of None \<Rightarrow> False | Some e \<Rightarrow> en_status e = Blocked);
          examOpen = (ex_status exam = Published \<or> ex_status exam = Open);
          examClosed = (ex_status exam = Closed);
          hasResult = (si_finalAttempt input \<noteq> None \<or>
            (case enrollment of
               None \<Rightarrow> False
             | Some e \<Rightarrow> \<not> falsy (en_finalAttemptId e) \<and> en_finalScore e \<noteq> None))
      in if (\<not> examOpen \<and> \<not> examClosed) \<or> blocked then (AvUnavailable, ActNone)
         else if beforeWindow then (AvNotStartedYet, ActNone)
         else if (case si_activeAttempt input of None \<Rightarrow> False | Some a \<Rightarrow> at_status a = InProgress)
         then (AvInProgress, ActResume)
         else if (case si_resumableAttempt input of None \<Rightarrow> False | Some a \<Rightarrow> at_status a = Disrupted)
         then (AvResumable, ActResume)
         else if (case si_latestAttempt input of None \<Rightarrow> False | Some a \<Rightarrow> at_status a = Submitted)
         then (AvSubmittedPendingGrade, ActViewHistory)
         else if maxAttemptsExhausted \<or> alreadyPassed
         then (AvMaxAttemptsExhausted, if hasResult then ActViewResult else ActNone)
         else if afterWindow
         then (AvExpired, if hasResult then ActViewResult else ActNone)
         else if attemptsUsed > 0 \<and>
           (case enrollment of None \<Rightarrow> False | Some e \<Rightarrow> en_finalScore e \<noteq> None)
         then (AvGraded, ActViewResult)
         else (Available, ActStart))"

definition pickDisplayAttempt :: "DeriveCandidateExamSummaryInput \<Rightarrow> ExamAttempt option" where
  "pickDisplayAttempt input =
     (case si_activeAttempt input of
        Some a \<Rightarrow> Some a
      | None \<Rightarrow>
          (case si_resumableAttempt input of
             Some a \<Rightarrow> Some a
           | None \<Rightarrow>
               (case si_latestAttempt input of
                  Some a \<Rightarrow> Some a
                | None \<Rightarrow> si_finalAttempt input)))"

section \<open>When a result is visible\<close>

text \<open>The declared rule: the result is complete, and the publication mode lets this view see it.\<close>

definition result_complete :: "ExamAttempt \<Rightarrow> bool" where
  "result_complete a \<longleftrightarrow> at_status a = Graded \<and> at_score a \<noteq> None \<and> at_passed a \<noteq> None \<and>
     at_gradedAt a \<noteq> None \<and> at_gradingResult a \<noteq> None \<and> at_gradingStatus a \<noteq> Some PendingManual"

definition publication_open :: "Exam \<Rightarrow> ExamAttempt \<Rightarrow> CandidateResultView \<Rightarrow> bool" where
  "publication_open exam a view \<longleftrightarrow>
     (ex_resultPublicationMode exam = AfterGrading \<longrightarrow> at_gradingStatus a = Some FullyGraded) \<and>
     (ex_resultPublicationMode exam = Manual \<and> view = OwnView \<longrightarrow> ex_resultsPublishedAt exam \<noteq> None)"

lemma visible_iff:
  "resolveCandidateResultVisibility exam a view = Visible \<longleftrightarrow>
     result_complete a \<and> publication_open exam a view"
  by (cases "ex_resultPublicationMode exam"; cases "at_gradingStatus a"; cases view)
    (auto simp: resolveCandidateResultVisibility_def result_complete_def publication_open_def Let_def)

lemma hidden_reason:
  "resolveCandidateResultVisibility exam a view = Hidden r \<Longrightarrow>
     r = (if at_status a \<noteq> Graded then HiddenNotStarted
          else if result_complete a \<and>
            (ex_resultPublicationMode exam = AfterGrading \<longrightarrow> at_gradingStatus a = Some FullyGraded)
          then HiddenPendingPublish else HiddenNotGraded)"
  by (cases "ex_resultPublicationMode exam"; cases "at_gradingStatus a"; cases view)
    (auto simp: resolveCandidateResultVisibility_def result_complete_def Let_def split: if_splits)

text \<open>The decision reads the result only through the presence of its fields.\<close>

definition same_but_result :: "ExamAttempt \<Rightarrow> ExamAttempt \<Rightarrow> bool" where
  "same_but_result a b \<longleftrightarrow>
     b = a\<lparr>at_score := at_score b, at_passed := at_passed b, at_gradingResult := at_gradingResult b\<rparr> \<and>
     (at_score b = None \<longleftrightarrow> at_score a = None) \<and> (at_passed b = None \<longleftrightarrow> at_passed a = None) \<and>
     (at_gradingResult b = None \<longleftrightarrow> at_gradingResult a = None)"

lemma same_but_result_D:
  assumes "same_but_result a b"
  shows "at_status b = at_status a" "at_gradedAt b = at_gradedAt a" "at_gradingStatus b = at_gradingStatus a"
    "at_score b = None \<longleftrightarrow> at_score a = None" "at_passed b = None \<longleftrightarrow> at_passed a = None"
    "at_gradingResult b = None \<longleftrightarrow> at_gradingResult a = None"
proof -
  from assms have b: "b = a\<lparr>at_score := at_score b, at_passed := at_passed b, at_gradingResult := at_gradingResult b\<rparr>"
    by (simp add: same_but_result_def)
  show "at_status b = at_status a" "at_gradedAt b = at_gradedAt a" "at_gradingStatus b = at_gradingStatus a"
    by (subst b, simp)+
qed (use assms in \<open>simp_all add: same_but_result_def\<close>)

lemma visibility_blind:
  assumes "same_but_result a b"
  shows "resolveCandidateResultVisibility exam b view = resolveCandidateResultVisibility exam a view"
  by (simp only: resolveCandidateResultVisibility_def same_but_result_D [OF assms] simp_thms)

text \<open>Two enrollments that differ only in the value of their final result.\<close>

definition same_but_final :: "ExamEnrollment \<Rightarrow> ExamEnrollment \<Rightarrow> bool" where
  "same_but_final e f \<longleftrightarrow>
     f = e\<lparr>en_finalScore := en_finalScore f, en_finalPassed := en_finalPassed f\<rparr> \<and>
     (en_finalScore f = None \<longleftrightarrow> en_finalScore e = None)"

lemma same_but_final_D:
  assumes "same_but_final e f"
  shows "en_status f = en_status e" "en_attemptCount f = en_attemptCount e"
    "en_finalAttemptId f = en_finalAttemptId e" "en_finalScore f = None \<longleftrightarrow> en_finalScore e = None"
proof -
  from assms have f: "f = e\<lparr>en_finalScore := en_finalScore f, en_finalPassed := en_finalPassed f\<rparr>"
    by (simp add: same_but_final_def)
  show "en_status f = en_status e" "en_attemptCount f = en_attemptCount e"
    "en_finalAttemptId f = en_finalAttemptId e"
    by (subst f, simp)+
qed (use assms in \<open>simp add: same_but_final_def\<close>)

definition summary_input :: "Exam \<Rightarrow> ExamEnrollment \<Rightarrow> bool \<Rightarrow> ExamAttempt option \<Rightarrow> ExamAttempt option \<Rightarrow>
    ExamAttempt option \<Rightarrow> ExamAttempt option \<Rightarrow> time \<Rightarrow> DeriveCandidateExamSummaryInput" where
  "summary_input exam e visible active resumable latest final now =
     \<lparr>si_exam = exam, si_enrollment = projectEnrollmentForLifecycleState (Some e) visible,
      si_activeAttempt = active, si_resumableAttempt = resumable, si_latestAttempt = latest,
      si_finalAttempt = final, si_now = now\<rparr>"

lemma status_only_cases:
  "map_option at_status a = map_option at_status b \<Longrightarrow>
     (case a of None \<Rightarrow> False | Some x \<Rightarrow> at_status x = st) = (case b of None \<Rightarrow> False | Some x \<Rightarrow> at_status x = st)"
  by (cases a; cases b) simp_all

text \<open>Visibility follows the declared rule. A result is visible exactly when grading is complete
  (graded, every score field present, nothing pending a manual grader) and the publication mode is
  satisfied: after_grading needs full grading, manual needs the publication of the results, from
  which only the administrative view is exempt. What the candidate may see the administrator may see.\<close>

lemma visibility_rule:
  "(resolveCandidateResultVisibility exam a OwnView = Visible \<longleftrightarrow>
      result_complete a \<and> publication_open exam a OwnView) \<and>
   (resolveCandidateResultVisibility exam a AllView = Visible \<longleftrightarrow>
      result_complete a \<and>
      \<not> (ex_resultPublicationMode exam = AfterGrading \<and> at_gradingStatus a \<noteq> Some FullyGraded)) \<and>
   (resolveCandidateResultVisibility exam a OwnView = Visible \<longrightarrow>
      resolveCandidateResultVisibility exam a AllView = Visible)"
  unfolding visible_iff by (auto simp: publication_open_def)


section \<open>Instances\<close>

definition sample_result :: "jsnum \<Rightarrow> bool \<Rightarrow> ExamAttempt" where
  "sample_result score passed = sample_attempt\<lparr>at_gradingResult := Some [], at_status := Graded,
     at_score := Some score, at_passed := Some passed, at_gradedAt := Some 9000,
     at_gradingStatus := Some FullyGraded\<rparr>"

definition sample_final :: "jsnum \<Rightarrow> bool \<Rightarrow> ExamEnrollment" where
  "sample_final score passed = sample_enrollment\<lparr>en_finalScore := Some score,
     en_finalPassed := Some passed, en_finalAttemptId := Some ''a1''\<rparr>"

lemma visibility_rule_witness:
  "resolveCandidateResultVisibility (sample_exam\<lparr>ex_resultsPublishedAt := Some 1\<rparr>) (sample_result 10 True) AllView
     = Visible"
proof -
  have "resolveCandidateResultVisibility (sample_exam\<lparr>ex_resultsPublishedAt := Some 1\<rparr>) (sample_result 10 True) OwnView
     = Visible"
    by (simp add: visible_iff result_complete_def publication_open_def sample_result_def sample_defs)
  then show ?thesis
    using visibility_rule [of "sample_exam\<lparr>ex_resultsPublishedAt := Some 1\<rparr>" "sample_result 10 True"] by blast
qed


end
