(* ===== verification/Attempt_Start.thy ===== *)
theory Attempt_Start
  imports Admission Result_Visibility Presentation Lifecycles Restore
begin

text \<open>
  \<^verbatim>\<open>startOrRestoreAttempt\<close> of \<^verbatim>\<open>attemptCommands.ts\<close>: entering an exam. An attempt in progress is handed
  back, a disrupted one is restored, otherwise eligibility is decided (retake policy, deferral while
  the result is hidden, queue admission, late entry, a non-empty window for submission) and a new
  attempt is created together with the consumption of the admission and the count on the enrollment.
\<close>

record StartAttemptResult =
  sa_attempt :: ExamAttempt
  sa_isNew :: bool

record StartAttemptOptions =
  sto_unassignedErrorFactory :: "(string \<Rightarrow> app_error) option"
  sto_rng :: RandomSource
  sto_admission :: bool \<comment> \<open>whether the admission repository was handed in\<close>

definition NOT_ENROLLED_MESSAGE :: string where
  "NOT_ENROLLED_MESSAGE =
     ''Candidate is not enrolled in this exam. An Admin must assign the candidate first.''"

definition OPEN_STATUSES :: "ExamStatus list" where
  "OPEN_STATUSES = [Published, Open]"

fun is_not_found :: "app_error \<Rightarrow> bool" where
  "is_not_found (NotFoundError _) = True"
| "is_not_found _ = False"

text \<open>The entry gate: the status of the exam, its window and, for a synchronized exam, the sitting.
  It answers with the shared deadline of the sitting.\<close>

definition entry_gate :: "Exam \<Rightarrow> time \<Rightarrow> app_error + time option" where
  "entry_gate exam now =
     bindR (guardR (List.member OPEN_STATUSES (ex_status exam)) (ExamNotOpenError ''Exam is not open'')) (\<lambda>_.
     bindR (guardR (\<not> (now < ex_openAt exam \<or>
         (case ex_closeAt exam of None \<Rightarrow> False | Some c \<Rightarrow> now \<ge> c)))
       (ExamNotOpenError ''Current time is outside exam open window'')) (\<lambda>_.
     if ex_timingMode exam = TimedSync
     then
       bindR (guardR (ex_syncStartedAt exam \<noteq> None)
         (ExamNotOpenError ''Synchronized exam has not been started'')) (\<lambda>_.
       bindR (computeSyncDeadline (ex_syncStartedAt exam) (ex_durationMinutes exam) (ex_closeAt exam))
         (\<lambda>syncDeadline.
       bindR (guardR (case syncDeadline of None \<Rightarrow> True | Some d \<Rightarrow> \<not> now \<ge> d)
         (ExamNotOpenError ''Synchronized exam deadline has passed'')) (\<lambda>_.
       Inr syncDeadline)))
     else Inr None))"

definition retake_gate :: "Exam \<Rightarrow> ExamEnrollment \<Rightarrow> unit action" where
  "retake_gate exam enrollment =
     bindC (guardC (\<not> (ex_retakePolicy exam = MaxAttempts \<and>
         en_attemptCount enrollment \<ge> ex_maxAttempts exam))
       (MaxAttemptsReachedError ''Maximum attempt count reached'')) (\<lambda>_.
     if ex_retakePolicy exam = PassThenStop
     then
       bindC (if falsy (en_finalAttemptId enrollment) then returnC None
              else getsC (find_attempt (the (en_finalAttemptId enrollment)))) (\<lambda>finalAttempt.
       bindC (guardC (\<not> isCandidateRetakeDeferred exam (Some enrollment) finalAttempt)
         RetakeDeferredError) (\<lambda>_.
       guardC (en_finalPassed enrollment \<noteq> Some True)
         (ExamAlreadyPassedError ''Already passed this exam'')))
     else returnC ())"

definition admission_gate :: "StartAttemptOptions \<Rightarrow> Exam \<Rightarrow> ident \<Rightarrow> time \<Rightarrow> unit action" where
  "admission_gate options exam candidateId now =
     (if cf_requireQueue (ex_controlFlags exam)
      then
        bindC (guardC (sto_admission options) (ValidationError
          ''Admission gate dependency is required when the exam requires queue admission'')) (\<lambda>_.
        bindC (ensureStartAdmission exam candidateId now) (\<lambda>_. returnC ()))
      else returnC ())"

definition late_entry_gate :: "Exam \<Rightarrow> time \<Rightarrow> app_error + unit" where
  "late_entry_gate exam now =
     (case ex_latestStartOffsetMinutes exam of
        None \<Rightarrow> Inr ()
      | Some offset \<Rightarrow>
          (case (if ex_timingMode exam = TimedSync then ex_syncStartedAt exam else Some (ex_openAt exam)) of
             None \<Rightarrow> Inr ()
           | Some anchor \<Rightarrow>
               (let latestStartAt = anchor + offset * 60000
                in guardR (\<not> now > latestStartAt) (AttemptLateEntryClosedError latestStartAt now))))"

definition attempt_deadline :: "Exam \<Rightarrow> time option \<Rightarrow> time \<Rightarrow> time option" where
  "attempt_deadline exam syncDeadline now =
     (if ex_timingMode exam = TimedWindow \<and> ex_durationMinutes exam \<noteq> None
      then Some (calculateDeadlineAt now (the (ex_durationMinutes exam)))
      else if ex_timingMode exam = TimedSync then syncDeadline else None)"

definition feasibility_gate :: "Exam \<Rightarrow> time option \<Rightarrow> time \<Rightarrow> app_error + unit" where
  "feasibility_gate exam deadlineAt now =
     (case ex_minSubmitAfterStartMinutes exam of
        None \<Rightarrow> Inr ()
      | Some m \<Rightarrow>
          bindR (computeEffectiveDeadline (ex_closeAt exam) deadlineAt) (\<lambda>effectiveDeadline.
            case effectiveDeadline of
              None \<Rightarrow> Inr ()
            | Some d \<Rightarrow>
                (let earliestSubmitAt = calculateDeadlineAt now m
                 in guardR (\<not> earliestSubmitAt \<ge> d)
                      (AttemptStartSubmitInfeasibleError earliestSubmitAt d))))"

text \<open>The row of a new attempt; the grading status is the default of its column.\<close>

definition new_attempt :: "Exam \<Rightarrow> ExamEnrollment \<Rightarrow> ident \<Rightarrow> int \<Rightarrow> QuestionSnapshot list \<Rightarrow> time \<Rightarrow>
    time option \<Rightarrow> AttemptTimingPolicySnapshot \<Rightarrow> ident \<Rightarrow> ExamAttempt" where
  "new_attempt exam enrollment candidateId attemptNo questions now deadlineAt snapshot i =
     \<lparr>at_id = i, at_organizationId = ex_organizationId exam, at_examId = ex_id exam,
      at_enrollmentId = en_id enrollment, at_candidateId = candidateId, at_attemptNo = attemptNo,
      at_status = InProgress, at_questionSnapshot = questions, at_answers = [],
      at_gradingResult = None, at_score = None, at_passed = None, at_startedAt = Some now,
      at_submittedAt = None, at_gradedAt = None, at_deadlineAt = deadlineAt,
      at_lastActivityAt = Some now, at_interruptionTimingPolicySnapshot = Some snapshot,
      at_currentInterruptionId = None, at_interruptedAt = None,
      at_gradingStatus = Some AutoGraded, at_submittedAnswers = None, at_submissionReason = None\<rparr>"

definition start_new :: "id_supply \<Rightarrow> StartAttemptOptions \<Rightarrow> Exam \<Rightarrow> time option \<Rightarrow> ExamEnrollment \<Rightarrow> ident \<Rightarrow>
    time \<Rightarrow> StartAttemptResult action" where
  "start_new uuid options exam syncDeadline enrollment candidateId now =
     bindC (retake_gate exam enrollment) (\<lambda>_.
     bindC (admission_gate options exam candidateId now) (\<lambda>_.
     bindC (liftC (late_entry_gate exam now)) (\<lambda>_.
     let attemptNo = en_attemptCount enrollment + 1;
         deadlineAt = attempt_deadline exam syncDeadline now in
     bindC (liftC (feasibility_gate exam deadlineAt now)) (\<lambda>_.
     bindC (liftC (resolveAttemptTimingPolicySnapshotFromExam exam)) (\<lambda>snapshot.
     bindC (create_attempt uuid (new_attempt exam enrollment candidateId attemptNo
       (materializeAttemptPresentation (ex_questionSnapshot exam) (ex_controlFlags exam) (sto_rng options))
       now deadlineAt snapshot)) (\<lambda>attempt.
     bindC (if cf_requireQueue (ex_controlFlags exam)
            then bindC (consumeActive (ex_organizationId exam) (ex_id exam) candidateId now (at_id attempt))
              (\<lambda>consumed. guardC (consumed \<noteq> None)
                (ValidationError ''Admission membership was not consumable for this start''))
            else returnC ()) (\<lambda>_.
     bindC (if en_status enrollment \<noteq> Started
            then liftC (enrollment_assertTransition (en_status enrollment) Started)
            else returnC ()) (\<lambda>_.
     bindC (update_enrollment (en_id enrollment)
       (\<lambda>e. e\<lparr>en_status := Started, en_attemptCount := attemptNo\<rparr>)) (\<lambda>updated.
     bindC (guardC (updated \<noteq> None) (ValidationError ''Enrollment not found after update'')) (\<lambda>_.
     returnC \<lparr>sa_attempt = attempt, sa_isNew = True\<rparr>))))))))))"

definition startOrRestoreAttempt :: "(string \<Rightarrow> string) \<Rightarrow> (jsnum \<Rightarrow> string) \<Rightarrow> id_supply \<Rightarrow> repos \<Rightarrow>
    StartAttemptOptions \<Rightarrow> ident \<Rightarrow> ident \<Rightarrow> time \<Rightarrow> StartAttemptResult action" where
  "startOrRestoreAttempt lower num uuid repos options examId candidateId now =
     bindC (someC (find_exam examId) (ValidationError ''Exam not found'')) (\<lambda>exam.
     bindC (liftC (entry_gate exam now)) (\<lambda>syncDeadline.
     bindC (catchC (lockEnrollmentAndActiveAttempt repos examId candidateId) (\<lambda>err.
       if is_not_found err
       then throwC (case sto_unassignedErrorFactory options of
                      Some f \<Rightarrow> f NOT_ENROLLED_MESSAGE
                    | None \<Rightarrow> ValidationError NOT_ENROLLED_MESSAGE)
       else throwC err)) (\<lambda>lockResult.
     case el_activeAttempt lockResult of
       Some active \<Rightarrow>
         (if at_status active = InProgress then returnC \<lparr>sa_attempt = active, sa_isNew = False\<rparr>
          else if at_status active = Disrupted \<and> el_capability lockResult \<noteq> None
          then bindC (restoreInterruptedAttempt lower num uuid repos (the (el_capability lockResult)) now)
                 (\<lambda>result. returnC \<lparr>sa_attempt = rr_attempt result, sa_isNew = False\<rparr>)
          else throwC (ValidationError (''Cannot start: active attempt in unexpected state '' @
                 attempt_status_str (at_status active))))
     | None \<Rightarrow> start_new uuid options exam syncDeadline (el_enrollment lockResult) candidateId now)))"

section \<open>Lemmas\<close>

lemma create_attempt_iff [cmd_iff]:
  "create_attempt uuid row s = Inr (a, s') \<longleftrightarrow>
     a = row (uuid (st_drawn s)) \<and>
     \<not> list_ex (\<lambda>b. at_enrollmentId b = at_enrollmentId a \<and> at_attemptNo b = at_attemptNo a) (st_attempts s) \<and>
     s' = s\<lparr>st_drawn := Suc (st_drawn s), st_attempts := st_attempts s @ [a]\<rparr>"
  by (auto simp: create_attempt_def cmd_iff)

lemma lockActive_iff [cmd_iff]:
  "lockEnrollmentAndActiveAttempt rs x c s = Inr (l, s') \<longleftrightarrow>
     s' = s \<and> (\<exists>e. findByExamAndCandidate x c s = Some e \<and> el_enrollment l = e \<and>
       (case findActiveByEnrollment (en_id e) s of
          None \<Rightarrow> el_activeAttempt l = None \<and> el_capability l = None
        | Some b \<Rightarrow> \<exists>a. find_attempt (at_id b) s = Some a \<and> at_enrollmentId a = en_id e \<and>
            el_activeAttempt l = Some a \<and>
            el_capability l = Some \<lparr>lk_enrollmentId = en_id e, lk_attemptId = at_id a, lk_affinity = rs\<rparr>))"
proof (cases "findByExamAndCandidate x c s")
  case None
  then show ?thesis by (simp add: lockEnrollmentAndActiveAttempt_def bindC_run)
next
  case (Some e)
  then show ?thesis
    by (cases "findActiveByEnrollment (en_id e) s"; cases l)
      (auto simp: lockEnrollmentAndActiveAttempt_def cmd_iff)
qed

lemma entry_gate_iff:
  "entry_gate exam now = Inr d \<longleftrightarrow>
     ex_status exam \<in> {Published, Open} \<and> ex_openAt exam \<le> now \<and>
     (\<forall>c. ex_closeAt exam = Some c \<longrightarrow> now < c) \<and>
     (if ex_timingMode exam = TimedSync
      then ex_syncStartedAt exam \<noteq> None \<and>
        computeSyncDeadline (ex_syncStartedAt exam) (ex_durationMinutes exam) (ex_closeAt exam) = Inr d \<and>
        (\<forall>t. d = Some t \<longrightarrow> now < t)
      else d = None)"
  by (auto simp: entry_gate_def cmd_iff OPEN_STATUSES_def not_less not_le split: option.splits if_splits)

lemma retake_gate_iff [cmd_iff]:
  "retake_gate exam e s = Inr (u, s') \<longleftrightarrow> s' = s \<and>
     (ex_retakePolicy exam = MaxAttempts \<longrightarrow> en_attemptCount e < ex_maxAttempts exam) \<and>
     (ex_retakePolicy exam = PassThenStop \<longrightarrow> en_finalPassed e \<noteq> Some True \<and>
        \<not> isCandidateRetakeDeferred exam (Some e)
          (if falsy (en_finalAttemptId e) then None else find_attempt (the (en_finalAttemptId e)) s))"
  by (auto simp: retake_gate_def cmd_iff)

lemma ensureStartAdmission_D:
  "ensureStartAdmission exam c now s = Inr (r, s') \<Longrightarrow>
     \<exists>q. findActive (ex_organizationId exam) (ex_id exam) c s = Some q \<and>
       (ad_admittedAt q \<noteq> None \<and> s' = s \<or>
        ad_admittedAt q = None \<and> eligible exam now q s \<and> s' = admit_row (ad_id q) now s)"
  by (auto simp: ensureStartAdmission_def bindC_Inr_iff reconcileAdmission_cases throwC_def returnC_def
      split: option.splits if_splits)

text \<open>The queue after an admitted candidate's start: the membership was admitted, then consumed.\<close>

definition admitted_store :: "Exam \<Rightarrow> ident \<Rightarrow> time \<Rightarrow> store \<Rightarrow> store" where
  "admitted_store exam c now s =
     (case findActive (ex_organizationId exam) (ex_id exam) c s of
        None \<Rightarrow> s
      | Some q \<Rightarrow> if cf_requireQueue (ex_controlFlags exam) \<and> ad_admittedAt q = None
                  then admit_row (ad_id q) now s else s)"

definition consumed_rows :: "Exam \<Rightarrow> ident \<Rightarrow> time \<Rightarrow> ident \<Rightarrow> ExamAdmissionRecord list \<Rightarrow> ExamAdmissionRecord list" where
  "consumed_rows exam c now k rows =
     (if cf_requireQueue (ex_controlFlags exam)
      then map (\<lambda>r. if active_of (ex_organizationId exam) (ex_id exam) c r
        then r\<lparr>ad_consumedAt := Some now, ad_consumedAttemptId := Some k\<rparr> else r) rows
      else rows)"

lemma admit_row_frame [simp]:
  "st_exams (admit_row i now s) = st_exams s" "st_enrollments (admit_row i now s) = st_enrollments s"
  "st_attempts (admit_row i now s) = st_attempts s" "st_entries (admit_row i now s) = st_entries s"
  by (simp_all add: admit_row_def)

lemma admitted_store_frame [simp]:
  "st_exams (admitted_store x c now s) = st_exams s" "st_enrollments (admitted_store x c now s) = st_enrollments s"
  "st_attempts (admitted_store x c now s) = st_attempts s" "st_drawn (admitted_store x c now s) = st_drawn s"
  by (simp_all add: admitted_store_def split: option.splits)

lemma admission_gate_iff:
  "admission_gate opts exam c now s = Inr (u, s') \<longleftrightarrow> s' = admitted_store exam c now s \<and>
     (cf_requireQueue (ex_controlFlags exam) \<longrightarrow> sto_admission opts \<and>
        (\<exists>q. findActive (ex_organizationId exam) (ex_id exam) c s = Some q \<and>
           (\<exists>r. ensureStartAdmission exam c now s = Inr (r, s'))))"
  by (auto simp: admission_gate_def bindC_Inr_iff guardC_iff returnC_iff admitted_store_def
      split: option.splits dest: ensureStartAdmission_D)

lemma start_new_D:
  assumes "start_new uuid opts exam d e c now s = Inr (r, s')"
  obtains a where "r = \<lparr>sa_attempt = a, sa_isNew = True\<rparr>"
    and "\<exists>p. resolveAttemptTimingPolicySnapshotFromExam exam = Inr p \<and>
      a = new_attempt exam e c (en_attemptCount e + 1)
        (materializeAttemptPresentation (ex_questionSnapshot exam) (ex_controlFlags exam) (sto_rng opts))
        now (attempt_deadline exam d now) p (uuid (st_drawn s))"
    and "\<not> list_ex (\<lambda>b. at_enrollmentId b = at_enrollmentId a \<and> at_attemptNo b = at_attemptNo a) (st_attempts s)"
    and "retake_gate exam e s = Inr ((), s)"
    and "admission_gate opts exam c now s = Inr ((), admitted_store exam c now s)"
    and "late_entry_gate exam now = Inr ()"
    and "feasibility_gate exam (attempt_deadline exam d now) now = Inr ()"
    and "en_status e = Started \<or> Started \<in> set (ENROLLMENT_VALID_TRANSITIONS (en_status e))"
    and "find_enrollment (en_id e) s \<noteq> None"
    and "s' = upd_enrollment (en_id e) (\<lambda>e'. e'\<lparr>en_status := Started, en_attemptCount := en_attemptCount e + 1\<rparr>)
      ((admitted_store exam c now s)\<lparr>st_drawn := Suc (st_drawn s), st_attempts := st_attempts s @ [a],
        st_admissions := consumed_rows exam c now (at_id a) (st_admissions (admitted_store exam c now s))\<rparr>)"
proof -
  note step = assms [unfolded start_new_def Let_def]
  obtain s1 where g1: "retake_gate exam e s = Inr ((), s)" and g2: "admission_gate opts exam c now s = Inr ((), s1)"
    and rest: "bindC (liftC (late_entry_gate exam now)) (\<lambda>_.
      bindC (liftC (feasibility_gate exam (attempt_deadline exam d now) now)) (\<lambda>_.
      bindC (liftC (resolveAttemptTimingPolicySnapshotFromExam exam)) (\<lambda>p.
      bindC (create_attempt uuid (new_attempt exam e c (en_attemptCount e + 1)
        (materializeAttemptPresentation (ex_questionSnapshot exam) (ex_controlFlags exam) (sto_rng opts))
        now (attempt_deadline exam d now) p)) (\<lambda>attempt.
      bindC (if cf_requireQueue (ex_controlFlags exam)
             then bindC (consumeActive (ex_organizationId exam) (ex_id exam) c now (at_id attempt))
               (\<lambda>consumed. guardC (consumed \<noteq> None)
                 (ValidationError ''Admission membership was not consumable for this start''))
             else returnC ()) (\<lambda>_.
      bindC (if en_status e \<noteq> Started then liftC (enrollment_assertTransition (en_status e) Started)
             else returnC ()) (\<lambda>_.
      bindC (update_enrollment (en_id e)
        (\<lambda>e'. e'\<lparr>en_status := Started, en_attemptCount := en_attemptCount e + 1\<rparr>)) (\<lambda>updated.
      bindC (guardC (updated \<noteq> None) (ValidationError ''Enrollment not found after update'')) (\<lambda>_.
      returnC \<lparr>sa_attempt = attempt, sa_isNew = True\<rparr>)))))))) s1 = Inr (r, s')"
    using step by (auto simp: bindC_Inr_iff retake_gate_iff)
  have s1: "s1 = admitted_store exam c now s" using g2 by (simp add: admission_gate_iff)
  show thesis
    using rest g1 g2
    by (intro that [of "sa_attempt r"])
      (auto simp: cmd_iff s1 consumed_rows_def consumeActive_def find_enrollment_def upd_enrollment_def
        split: if_splits)
qed

lemma start_cases:
  assumes run: "startOrRestoreAttempt lower num uuid rs opts x c now s = Inr (r, s')"
  obtains (resumed) exam d e a b where "find_exam x s = Some exam" "entry_gate exam now = Inr d"
      "findByExamAndCandidate x c s = Some e" "findActiveByEnrollment (en_id e) s = Some b"
      "find_attempt (at_id b) s = Some a" "at_enrollmentId a = en_id e" "at_status a = InProgress"
      "r = \<lparr>sa_attempt = a, sa_isNew = False\<rparr>" "s' = s"
  | (restored) exam d e a b q where "find_exam x s = Some exam" "entry_gate exam now = Inr d"
      "findByExamAndCandidate x c s = Some e" "findActiveByEnrollment (en_id e) s = Some b"
      "find_attempt (at_id b) s = Some a" "at_enrollmentId a = en_id e" "at_status a = Disrupted"
      "restoreInterruptedAttempt lower num uuid rs
         \<lparr>lk_enrollmentId = en_id e, lk_attemptId = at_id a, lk_affinity = rs\<rparr> now s = Inr (q, s')"
      "r = \<lparr>sa_attempt = rr_attempt q, sa_isNew = False\<rparr>"
  | (created) exam d e where "find_exam x s = Some exam" "entry_gate exam now = Inr d"
      "findByExamAndCandidate x c s = Some e" "findActiveByEnrollment (en_id e) s = None"
      "start_new uuid opts exam d e c now s = Inr (r, s')"
proof -
  note step = run [unfolded startOrRestoreAttempt_def]
  obtain exam d l where exam: "find_exam x s = Some exam" and gate: "entry_gate exam now = Inr d"
    and lock: "lockEnrollmentAndActiveAttempt rs x c s = Inr (l, s)"
    and rest: "(case el_activeAttempt l of
       Some active \<Rightarrow>
         (if at_status active = InProgress then returnC \<lparr>sa_attempt = active, sa_isNew = False\<rparr>
          else if at_status active = Disrupted \<and> el_capability l \<noteq> None
          then bindC (restoreInterruptedAttempt lower num uuid rs (the (el_capability l)) now)
                 (\<lambda>result. returnC \<lparr>sa_attempt = rr_attempt result, sa_isNew = False\<rparr>)
          else throwC (ValidationError (''Cannot start: active attempt in unexpected state '' @
                 attempt_status_str (at_status active))))
     | None \<Rightarrow> start_new uuid opts exam d (el_enrollment l) c now) s = Inr (r, s')"
    using step unfolding bindC_Inr_iff someC_iff liftC_iff catch_rethrow
    by (auto simp: lockActive_iff)
  from lock obtain e where e: "findByExamAndCandidate x c s = Some e" "el_enrollment l = e"
    by (auto simp: lockActive_iff)
  show thesis
  proof (cases "findActiveByEnrollment (en_id e) s")
    case None
    with lock e have "el_activeAttempt l = None" by (auto simp: lockActive_iff)
    with rest e show thesis by (intro created [OF exam gate e(1) None]) simp
  next
    case (Some b)
    with lock e obtain a where a: "find_attempt (at_id b) s = Some a" "at_enrollmentId a = en_id e"
      "el_activeAttempt l = Some a"
      "el_capability l = Some \<lparr>lk_enrollmentId = en_id e, lk_attemptId = at_id a, lk_affinity = rs\<rparr>"
      by (auto simp: lockActive_iff)
    show thesis
    proof (cases "at_status a = InProgress")
      case True
      with rest a show thesis
        by (intro resumed [OF exam gate e(1) Some a(1,2)]) (simp_all add: returnC_iff)
    next
      case False
      with rest a have d: "at_status a = Disrupted" by (auto simp: throwC_iff split: if_splits)
      with rest a obtain q where "restoreInterruptedAttempt lower num uuid rs
          \<lparr>lk_enrollmentId = en_id e, lk_attemptId = at_id a, lk_affinity = rs\<rparr> now s = Inr (q, s')"
        "r = \<lparr>sa_attempt = rr_attempt q, sa_isNew = False\<rparr>"
        by (auto simp: bindC_Inr_iff returnC_iff)
      then show thesis by (rule restored [OF exam gate e(1) Some a(1,2) d])
    qed
  qed
qed

lemma consumed_none:
  assumes "cf_requireQueue (ex_controlFlags exam)"
  shows "find (active_of (ex_organizationId exam) (ex_id exam) c) (consumed_rows exam c now k rows) = None"
proof -
  have spent: "\<not> active_of g x c (r\<lparr>ad_consumedAt := Some now, ad_consumedAttemptId := Some k\<rparr>)" for g x r
    by (simp add: active_of_def)
  show ?thesis
    using assms by (induction rows) (simp_all add: consumed_rows_def spent)
qed

lemma consumed_row:
  assumes req: "cf_requireQueue (ex_controlFlags exam)"
    and q: "findActive (ex_organizationId exam) (ex_id exam) c s = Some q"
  shows "\<exists>q'\<in>set (consumed_rows exam c now k (st_admissions (admitted_store exam c now s))).
    join_key q' = join_key q \<and> ad_admittedAt q' \<noteq> None \<and>
    (ad_admittedAt q \<noteq> None \<longrightarrow> ad_admittedAt q' = ad_admittedAt q) \<and>
    ad_consumedAt q' = Some now \<and> ad_consumedAttemptId q' = Some k"
proof -
  note act = findActive_D [OF q]
  define q1 where "q1 = (if ad_admittedAt q = None then q\<lparr>ad_admittedAt := Some now\<rparr> else q)"
  have "q1 \<in> set (st_admissions (admitted_store exam c now s))"
    using act req q by (auto simp: admitted_store_def admit_row_def q1_def image_iff intro!: bexI [of _ q])
  moreover have "active_of (ex_organizationId exam) (ex_id exam) c q1"
    using act by (simp add: q1_def active_of_def in_queue_def)
  ultimately have "q1\<lparr>ad_consumedAt := Some now, ad_consumedAttemptId := Some k\<rparr>
      \<in> set (consumed_rows exam c now k (st_admissions (admitted_store exam c now s)))"
    using req by (auto simp: consumed_rows_def image_iff intro!: bexI [of _ q1])
  then show ?thesis by (rule bexI [rotated]) (simp add: q1_def join_key_def)
qed

section \<open>Properties\<close>

text \<open>C4: Starting is exact. When entering an exam creates an attempt, the exam was published or open
  and inside its window, the candidate was enrolled with no running attempt, the retake policy allowed
  one more, and exactly one attempt was appended: in progress, numbered one above the count of the
  enrollment, over the presentation of the published paper, while the enrollment is started with the
  count raised. If the exam has a queue, the candidate's active membership is now admitted and
  consumed by this very attempt, and no active membership is left; otherwise the queue is untouched.\<close>

theorem start_is_exact:
  assumes run: "startOrRestoreAttempt lower num uuid rs opts x c now s = Inr (r, s')" and new: "sa_isNew r"
  shows "\<exists>exam e. find_exam x s = Some exam \<and> findByExamAndCandidate x c s = Some e \<and>
    (ex_status exam = Published \<or> ex_status exam = Open) \<and> ex_openAt exam \<le> now \<and>
    (\<forall>t. ex_closeAt exam = Some t \<longrightarrow> now < t) \<and>
    findActiveByEnrollment (en_id e) s = None \<and>
    (ex_retakePolicy exam = MaxAttempts \<longrightarrow> en_attemptCount e < ex_maxAttempts exam) \<and>
    (ex_retakePolicy exam = PassThenStop \<longrightarrow> en_finalPassed e \<noteq> Some True) \<and>
    st_attempts s' = st_attempts s @ [sa_attempt r] \<and>
    at_status (sa_attempt r) = InProgress \<and> at_enrollmentId (sa_attempt r) = en_id e \<and>
    at_attemptNo (sa_attempt r) = en_attemptCount e + 1 \<and> at_startedAt (sa_attempt r) = Some now \<and>
    at_questionSnapshot (sa_attempt r) =
      materializeAttemptPresentation (ex_questionSnapshot exam) (ex_controlFlags exam) (sto_rng opts) \<and>
    find_enrollment (en_id e) s' = map_option
      (\<lambda>e'. e'\<lparr>en_status := Started, en_attemptCount := en_attemptCount e + 1\<rparr>) (find_enrollment (en_id e) s) \<and>
    find_enrollment (en_id e) s \<noteq> None \<and>
    (if cf_requireQueue (ex_controlFlags exam)
     then findActive (ex_organizationId exam) (ex_id exam) c s' = None \<and>
       (\<exists>q. findActive (ex_organizationId exam) (ex_id exam) c s = Some q \<and>
         (\<exists>q'\<in>set (st_admissions s'). join_key q' = join_key q \<and> ad_admittedAt q' \<noteq> None \<and>
            ad_consumedAt q' = Some now \<and> ad_consumedAttemptId q' = Some (at_id (sa_attempt r))))
     else st_admissions s' = st_admissions s)"
  using run
proof (cases rule: start_cases)
  case (created exam d e)
  from created(5) obtain a where r: "r = \<lparr>sa_attempt = a, sa_isNew = True\<rparr>"
    and a: "\<exists>p. resolveAttemptTimingPolicySnapshotFromExam exam = Inr p \<and>
      a = new_attempt exam e c (en_attemptCount e + 1)
        (materializeAttemptPresentation (ex_questionSnapshot exam) (ex_controlFlags exam) (sto_rng opts))
        now (attempt_deadline exam d now) p (uuid (st_drawn s))"
    and g1: "retake_gate exam e s = Inr ((), s)"
    and g2: "admission_gate opts exam c now s = Inr ((), admitted_store exam c now s)"
    and en: "find_enrollment (en_id e) s \<noteq> None"
    and s': "s' = upd_enrollment (en_id e) (\<lambda>e'. e'\<lparr>en_status := Started, en_attemptCount := en_attemptCount e + 1\<rparr>)
      ((admitted_store exam c now s)\<lparr>st_drawn := Suc (st_drawn s), st_attempts := st_attempts s @ [a],
        st_admissions := consumed_rows exam c now (at_id a) (st_admissions (admitted_store exam c now s))\<rparr>)"
    by (rule start_new_D)
  have row: "at_status a = InProgress" "at_enrollmentId a = en_id e" "at_attemptNo a = en_attemptCount e + 1"
    "at_startedAt a = Some now" "at_questionSnapshot a =
      materializeAttemptPresentation (ex_questionSnapshot exam) (ex_controlFlags exam) (sto_rng opts)"
    using a by (auto simp: new_attempt_def)
  have enr: "find_enrollment (en_id e) s' = map_option
      (\<lambda>e'. e'\<lparr>en_status := Started, en_attemptCount := en_attemptCount e + 1\<rparr>) (find_enrollment (en_id e) s)"
    by (simp add: s' enrollments.find_update) (simp add: find_enrollment_def)
  have queue: "if cf_requireQueue (ex_controlFlags exam)
     then findActive (ex_organizationId exam) (ex_id exam) c s' = None \<and>
       (\<exists>q. findActive (ex_organizationId exam) (ex_id exam) c s = Some q \<and>
         (\<exists>q'\<in>set (st_admissions s'). join_key q' = join_key q \<and> ad_admittedAt q' \<noteq> None \<and>
            ad_consumedAt q' = Some now \<and> ad_consumedAttemptId q' = Some (at_id a)))
     else st_admissions s' = st_admissions s"
  proof (cases "cf_requireQueue (ex_controlFlags exam)")
    case True
    with g2 obtain q where q: "findActive (ex_organizationId exam) (ex_id exam) c s = Some q"
      by (auto simp: admission_gate_iff)
    show ?thesis
      using True q consumed_row [OF True q, of now "at_id a"] consumed_none [OF True, of c now "at_id a"]
      by (simp add: s' findActive_def) blast
  next
    case False
    then show ?thesis by (simp add: s' consumed_rows_def admitted_store_def split: option.splits)
  qed
  have att: "st_attempts s' = st_attempts s @ [a]" by (simp add: s')
  from row enr queue en att show ?thesis
    using created(1,3,4) created(2) [unfolded entry_gate_iff] g1 [unfolded retake_gate_iff]
    by (intro exI [of _ exam] exI [of _ e]) (simp add: r del: not_None_eq)
qed (use new in simp_all)

text \<open>A new attempt can be submitted by hand. When an exam asks candidates to wait some minutes
  before submitting, an attempt is only created if the earliest such instant lies strictly before its
  effective deadline, so there are instants before the deadline at which the candidate's early-submit
  guard lets go; and whatever the mode, an attempt whose duration is positive is not born expired.\<close>

lemma start_leaves_submit_window:
  assumes run: "startOrRestoreAttempt lower num uuid rs opts x c now s = Inr (r, s')" and new: "sa_isNew r"
    and exam: "find_exam x s = Some exam"
    and d: "computeEffectiveDeadline (ex_closeAt exam) (at_deadlineAt (sa_attempt r)) = Inr (Some d)"
  shows "(\<forall>m. ex_minSubmitAfterStartMinutes exam = Some m \<longrightarrow> now + m * 60000 < d \<and>
      (\<forall>sub. so_source sub = Some SrcCandidate \<and> so_minSubmitAfterStartMinutes sub = Some m \<longrightarrow>
        (\<exists>t<d. early_submit_guard sub (sa_attempt r) t = Inr ()))) \<and>
    ((\<forall>n. ex_durationMinutes exam = Some n \<longrightarrow> 0 < n) \<longrightarrow> now < d)"
  using run
proof (cases rule: start_cases)
  case (created exam' d' e)
  then have same: "exam' = exam" using exam by simp
  from created(5) obtain p where g: "feasibility_gate exam (attempt_deadline exam d' now) now = Inr ()"
    and row: "at_startedAt (sa_attempt r) = Some now" "at_deadlineAt (sa_attempt r) = attempt_deadline exam d' now"
    unfolding same by (rule start_new_D) (auto simp: new_attempt_def)
  have window: "now + m * 60000 < d" if "ex_minSubmitAfterStartMinutes exam = Some m" for m
    using g d that by (simp add: feasibility_gate_def row calculateDeadlineAt_def Let_def)
  have "\<exists>t<d. early_submit_guard sub (sa_attempt r) t = Inr ()"
    if "ex_minSubmitAfterStartMinutes exam = Some m" "so_source sub = Some SrcCandidate"
      "so_minSubmitAfterStartMinutes sub = Some m" for m sub
    using window [OF that(1)] that(2,3)
    by (intro exI [of _ "now + m * 60000"]) (simp add: early_submit_guard_def row Let_def)
  moreover have "now < d" if "\<forall>n. ex_durationMinutes exam = Some n \<longrightarrow> 0 < n"
    using created(2) [unfolded same entry_gate_iff] d that
    by (cases "ex_closeAt exam"; cases d')
      (auto simp: row attempt_deadline_def calculateDeadlineAt_def min_def split: option.splits if_splits)
  ultimately show ?thesis using window by blast
qed (use new in simp_all)

text \<open>Entering again, and the hidden result. A candidate with an attempt in progress gets that
  attempt back and nothing is written, whatever the retake policy, the queue or the late-entry cutoff
  say. Under pass-then-stop a candidate whose final result is not visible yet is refused with the same
  RetakeDeferredError whether the durable result is a pass or a fail; once it is visible a passed
  candidate is refused as passed.\<close>

lemma reentry_and_deferral:
  assumes exam: "find_exam x s = Some exam" "entry_gate exam now = Inr d"
    and e: "findByExamAndCandidate x c s = Some e"
  shows "(\<forall>a. findActiveByEnrollment (en_id e) s = Some a \<and> find_attempt (at_id a) s = Some a \<and>
       at_status a = InProgress \<longrightarrow>
      startOrRestoreAttempt lower num uuid rs opts x c now s = Inr (\<lparr>sa_attempt = a, sa_isNew = False\<rparr>, s)) \<and>
    (\<forall>k. findActiveByEnrollment (en_id e) s = None \<and> ex_retakePolicy exam = PassThenStop \<and>
       en_finalAttemptId e = Some k \<and> k \<noteq> [] \<longrightarrow>
      (if resolveCandidateEnrollmentResultVisibility exam (Some e) (find_attempt k s) OwnView \<noteq> Visible
       then startOrRestoreAttempt lower num uuid rs opts x c now s = Inl RetakeDeferredError
       else en_finalPassed e = Some True \<longrightarrow>
         (\<exists>m. startOrRestoreAttempt lower num uuid rs opts x c now s = Inl (ExamAlreadyPassedError m))))"
proof -
  have lock: "catchC (lockEnrollmentAndActiveAttempt rs x c) h s = lockEnrollmentAndActiveAttempt rs x c s"
    if "lockEnrollmentAndActiveAttempt rs x c s = Inr l" for h l
    using that by (simp add: catchC_def)
  have again: "startOrRestoreAttempt lower num uuid rs opts x c now s = Inr (\<lparr>sa_attempt = a, sa_isNew = False\<rparr>, s)"
    if "findActiveByEnrollment (en_id e) s = Some a" "find_attempt (at_id a) s = Some a" "at_status a = InProgress" for a
  proof -
    have "at_enrollmentId a = en_id e" using that(1) by (auto simp: findActiveByEnrollment_def find_Some_iff)
    then have "lockEnrollmentAndActiveAttempt rs x c s =
        Inr (\<lparr>el_enrollment = e, el_activeAttempt = Some a, el_capability = Some \<lparr>lk_enrollmentId = en_id e,
          lk_attemptId = at_id a, lk_affinity = rs\<rparr>\<rparr>, s)"
      using that e by (simp add: lockEnrollmentAndActiveAttempt_def cmd_run returnC_def)
    with that exam show ?thesis
      by (simp add: startOrRestoreAttempt_def cmd_run bindC_def [of "catchC m h" for m h] lock returnC_def)
  qed
  have fresh: "startOrRestoreAttempt lower num uuid rs opts x c now s = start_new uuid opts exam d e c now s"
    if "findActiveByEnrollment (en_id e) s = None"
  proof -
    have "lockEnrollmentAndActiveAttempt rs x c s =
        Inr (\<lparr>el_enrollment = e, el_activeAttempt = None, el_capability = None\<rparr>, s)"
      using that e by (simp add: lockEnrollmentAndActiveAttempt_def cmd_run returnC_def)
    with exam show ?thesis
      by (simp add: startOrRestoreAttempt_def cmd_run bindC_def [of "catchC m h" for m h] lock)
  qed
  have gate: "start_new uuid opts exam d e c now s = Inl err" if "retake_gate exam e s = Inl err" for err
    using that by (simp add: start_new_def bindC_def)
  show ?thesis
    by (auto simp: again fresh retake_gate_def cmd_run isCandidateRetakeDeferred_def guardC_def intro!: gate exI)
qed

section \<open>Instances\<close>

definition sample_start_options :: StartAttemptOptions where
  "sample_start_options = \<lparr>sto_unassignedErrorFactory = None, sto_rng = (\<lambda>_. 0), sto_admission = True\<rparr>"

text \<open>A queue exam with a second, assigned candidate whose membership waits.\<close>

definition sample_start_store :: store where
  "sample_start_store = (sample_queue ''u1'')\<lparr>
     st_exams := [sample_queue_exam\<lparr>ex_minSubmitAfterStartMinutes := Some 10\<rparr>],
     st_enrollments := [sample_enrollment\<lparr>en_status := Assigned, en_attemptCount := 0\<rparr>], st_attempts := []\<rparr>"

definition sample_start :: "StartAttemptResult \<times> store" where
  "sample_start = projr (startOrRestoreAttempt id unary_num sample_uuid sample_repos sample_start_options
     ''e1'' ''u1'' 5000 sample_start_store)"

lemma sample_start_run:
  "startOrRestoreAttempt id unary_num sample_uuid sample_repos sample_start_options ''e1'' ''u1'' 5000
     sample_start_store = Inr (fst sample_start, snd sample_start)" "sa_isNew (fst sample_start)"
  unfolding sample_start_def by (rule run_result, code_simp) code_simp

theorem start_is_exact_witness:
  "st_attempts (snd sample_start) = [sa_attempt (fst sample_start)] \<and>
   at_status (sa_attempt (fst sample_start)) = InProgress"
proof -
  have "st_attempts sample_start_store = []" by (simp add: sample_start_store_def)
  then show ?thesis using start_is_exact [OF sample_start_run] by auto
qed

lemma start_leaves_submit_window_witness:
  "5000 + 10 * 60000 < (3605000 :: int) \<and>
   computeEffectiveDeadline (Some 7200000) (at_deadlineAt (sa_attempt (fst sample_start))) = Inr (Some 3605000)"
proof -
  let ?x = "sample_queue_exam\<lparr>ex_minSubmitAfterStartMinutes := Some 10\<rparr>"
  have x: "find_exam ''e1'' sample_start_store = Some ?x" by code_simp
  have d: "computeEffectiveDeadline (ex_closeAt ?x) (at_deadlineAt (sa_attempt (fst sample_start))) = Inr (Some 3605000)"
    by code_simp
  have c: "ex_closeAt ?x = Some 7200000" by code_simp
  from start_leaves_submit_window [OF sample_start_run x d] d show ?thesis by (simp add: c)
qed

lemma reentry_and_deferral_witness:
  "startOrRestoreAttempt id unary_num sample_uuid sample_repos sample_start_options ''e1'' ''u1'' 5000 sample_store
     = Inr (\<lparr>sa_attempt = sample_attempt, sa_isNew = False\<rparr>, sample_store)"
proof -
  have "find_exam ''e1'' sample_store = Some sample_exam" "entry_gate sample_exam 5000 = Inr None"
    "findByExamAndCandidate ''e1'' ''u1'' sample_store = Some sample_enrollment"
    "findActiveByEnrollment (en_id sample_enrollment) sample_store = Some sample_attempt"
    "find_attempt (at_id sample_attempt) sample_store = Some sample_attempt" "at_status sample_attempt = InProgress"
    by code_simp+
  then show ?thesis using reentry_and_deferral [of "''e1''" sample_store sample_exam 5000 None "''u1''" sample_enrollment] by blast
qed

text \<open>A blocked enrollment is no obstacle: the start moves it to started, although the summary tells
  the candidate that the exam is unavailable.\<close>

lemma blocked_enrollment_starts:
  "deriveCandidateExamState \<lparr>si_exam = sample_exam,
     si_enrollment = Some (sample_enrollment\<lparr>en_status := Blocked\<rparr>), si_activeAttempt = None,
     si_resumableAttempt = None, si_latestAttempt = None, si_finalAttempt = None, si_now = 5000\<rparr>
     = (AvUnavailable, ActNone) \<and>
   (case startOrRestoreAttempt id unary_num sample_uuid sample_repos sample_start_options ''e1'' ''u1'' 5000
        (sample_store\<lparr>st_enrollments := [sample_enrollment\<lparr>en_status := Blocked\<rparr>], st_attempts := []\<rparr>) of
      Inl _ \<Rightarrow> False
    | Inr (r, s') \<Rightarrow> sa_isNew r \<and> map en_status (st_enrollments s') = [Started])"
  by code_simp

end
