(* ===== verification/Rich_Content.thy ===== *)
theory Rich_Content
  imports Answer_Identity Grading_Engine
begin

text \<open>
  The rich content kernel \<^verbatim>\<open>packages/domain/src/content/contentDocument.ts\<close>: the closed document grammar,
  the structural limits walk, the preflight of an unknown value, canonical normalization, the plain
  text projection, structural equality and the plain-to-rich upgrade.

  A document is a typed value: paragraphs, lists of items, code, math and tables. A list item holds
  paragraphs and lists only, as in the source's types. \<open>document_json\<close> is the JSON value a document is,
  the form in which it is stored and in which its size and its raw nesting are measured.
  \<^verbatim>\<open>String(n)\<close> of a number is the parameter \<open>num\<close>, as in \<open>Answer_Identity\<close>. A JSON value of the model
  is a finite tree, so the cyclic values that \<^verbatim>\<open>JSON.stringify\<close> refuses do not occur.
\<close>

section \<open>Grammar\<close>

datatype ContentMarkType = Bold | Italic | Underline | InlineCode

datatype ContentInline =
    TextRun string "ContentMarkType list option"
  | HardBreak
  | InlineMath string

type_synonym ContentParagraph = "ContentInline list"

datatype list_kind = BulletList | OrderedList

text \<open>A child of a list item; a list item is the list of its children.\<close>

datatype ContentListChild =
    ItemParagraph ContentParagraph
  | ItemList list_kind "ContentListChild list list"

type_synonym ContentListItem = "ContentListChild list"
type_synonym ContentTableCell = "ContentParagraph list"
type_synonym ContentTableRow = "ContentTableCell list"

datatype ContentBlock =
    Paragraph ContentParagraph
  | BlockList list_kind "ContentListItem list"
  | CodeBlock "string option" string
  | BlockMath string
  | Table "ContentTableRow list"

record ContentDocumentV1 =
  doc_docVersion :: jsnum
  doc_type :: string
  doc_content :: "ContentBlock list"

definition CONTENT_DOC_VERSION :: jsnum where "CONTENT_DOC_VERSION = 1"

text \<open>A list item child is one of the blocks.\<close>

fun child_block :: "ContentListChild \<Rightarrow> ContentBlock" where
  "child_block (ItemParagraph inlines) = Paragraph inlines"
| "child_block (ItemList k items) = BlockList k items"

subsection \<open>Marks\<close>

definition MARK_CANONICAL_ORDER :: "ContentMarkType list" where
  "MARK_CANONICAL_ORDER = [Bold, Italic, Underline, InlineCode]"

definition EXCLUSIVE_MARKS :: "ContentMarkType list" where
  "EXCLUSIVE_MARKS = [InlineCode]"

fun mark_name :: "ContentMarkType \<Rightarrow> string" where
  "mark_name Bold = ''bold''"
| "mark_name Italic = ''italic''"
| "mark_name Underline = ''underline''"
| "mark_name InlineCode = ''inlineCode''"

text \<open>\<^verbatim>\<open>xs.indexOf(x)\<close> for an element of the list.\<close>

fun index_of :: "'a list \<Rightarrow> 'a \<Rightarrow> nat" where
  "index_of [] x = 0"
| "index_of (y # ys) x = (if y = x then 0 else Suc (index_of ys x))"

section \<open>Documents as JSON\<close>

fun inline_json :: "ContentInline \<Rightarrow> json" where
  "inline_json (TextRun text marks) =
     JObj ([(''type'', JStr ''text''), (''text'', JStr text)] @
       (case marks of None \<Rightarrow> [] | Some ms \<Rightarrow> [(''marks'', JArr (map (JStr \<circ> mark_name) ms))]))"
| "inline_json HardBreak = JObj [(''type'', JStr ''hardBreak'')]"
| "inline_json (InlineMath latex) = JObj [(''type'', JStr ''inlineMath''), (''latex'', JStr latex)]"

definition node_json :: "string \<Rightarrow> json list \<Rightarrow> json" where
  "node_json ty content = JObj [(''type'', JStr ty), (''content'', JArr content)]"

definition paragraph_json :: "ContentParagraph \<Rightarrow> json" where
  "paragraph_json inlines = node_json ''paragraph'' (map inline_json inlines)"

fun list_type :: "list_kind \<Rightarrow> string" where
  "list_type BulletList = ''bulletList''"
| "list_type OrderedList = ''orderedList''"

fun child_json :: "ContentListChild \<Rightarrow> json" where
  "child_json (ItemParagraph inlines) = paragraph_json inlines"
| "child_json (ItemList k items) =
     node_json (list_type k) (map (\<lambda>item. node_json ''listItem'' (map child_json item)) items)"

fun block_json :: "ContentBlock \<Rightarrow> json" where
  "block_json (Paragraph inlines) = paragraph_json inlines"
| "block_json (BlockList k items) = child_json (ItemList k items)"
| "block_json (CodeBlock language text) =
     JObj [(''type'', JStr ''codeBlock''),
       (''language'', case language of None \<Rightarrow> JNull | Some l \<Rightarrow> JStr l), (''text'', JStr text)]"
| "block_json (BlockMath latex) = JObj [(''type'', JStr ''blockMath''), (''latex'', JStr latex)]"
| "block_json (Table rows) =
     node_json ''table'' (map (\<lambda>row. node_json ''tableRow''
       (map (\<lambda>cell. node_json ''tableCell'' (map paragraph_json cell)) row)) rows)"

definition document_json :: "ContentDocumentV1 \<Rightarrow> json" where
  "document_json doc = JObj [(''docVersion'', JNum (doc_docVersion doc)), (''type'', JStr (doc_type doc)),
     (''content'', JArr (map block_json (doc_content doc)))]"

section \<open>Structural limits\<close>

definition LIMIT_serializedChars :: nat where "LIMIT_serializedChars = 131072"
definition LIMIT_totalNodes :: nat where "LIMIT_totalNodes = 2000"
definition LIMIT_depth :: nat where "LIMIT_depth = 16"
definition LIMIT_listDepth :: nat where "LIMIT_listDepth = 8"
definition LIMIT_tableRows :: nat where "LIMIT_tableRows = 100"
definition LIMIT_tableCols :: nat where "LIMIT_tableCols = 20"
definition LIMIT_tableCells :: nat where "LIMIT_tableCells = 400"
definition LIMIT_textRun :: nat where "LIMIT_textRun = 20000"
definition LIMIT_codeBlock :: nat where "LIMIT_codeBlock = 40000"
definition LIMIT_latex :: nat where "LIMIT_latex = 5000"

lemmas LIMIT_defs = LIMIT_serializedChars_def LIMIT_totalNodes_def LIMIT_depth_def LIMIT_listDepth_def
  LIMIT_tableRows_def LIMIT_tableCols_def LIMIT_tableCells_def LIMIT_textRun_def LIMIT_codeBlock_def
  LIMIT_latex_def

record WalkState =
  ws_nodes :: nat
  ws_maxDepth :: nat
  ws_listDepth :: nat
  ws_violations :: "string list"

definition violation :: "bool \<Rightarrow> string \<Rightarrow> WalkState \<Rightarrow> WalkState" where
  "violation b msg st = (if b then st\<lparr>ws_violations := ws_violations st @ [msg]\<rparr> else st)"

definition count_node :: "WalkState \<Rightarrow> WalkState" where
  "count_node st = st\<lparr>ws_nodes := ws_nodes st + 1\<rparr>"

fun pushInlineViolation :: "ContentInline \<Rightarrow> WalkState \<Rightarrow> WalkState" where
  "pushInlineViolation (TextRun text marks) st =
     violation (length text > LIMIT_textRun) ''text run exceeds 20000 chars'' (count_node st)"
| "pushInlineViolation HardBreak st = count_node st"
| "pushInlineViolation (InlineMath latex) st =
     violation (length latex > LIMIT_latex) ''latex exceeds 5000 chars'' (count_node st)"

text \<open>What the walk does on entering any block, list item or table cell.\<close>

definition enter_node :: "nat \<Rightarrow> WalkState \<Rightarrow> WalkState" where
  "enter_node depth st =
     (let st' = (count_node st)\<lparr>ws_maxDepth := max (ws_maxDepth st) depth\<rparr>
      in violation (ws_maxDepth st' > LIMIT_depth) ''tree depth exceeds 16'' st')"

fun is_list_child :: "ContentListChild \<Rightarrow> bool" where
  "is_list_child (ItemParagraph _) = False"
| "is_list_child (ItemList _ _) = True"

text \<open>The walk below a list: \<open>walk_child\<close> is the walk on a paragraph or list, its inner loop the walk on a list
  item.\<close>

fun walk_child :: "nat \<Rightarrow> nat \<Rightarrow> ContentListChild \<Rightarrow> WalkState \<Rightarrow> WalkState" where
  "walk_child depth listDepth (ItemParagraph inlines) st = fold pushInlineViolation inlines (enter_node depth st)"
| "walk_child depth listDepth (ItemList k items) st =
     fold (\<lambda>item st.
       fold (\<lambda>child st.
           let childListDepth = (if is_list_child child then listDepth + 1 else listDepth)
           in walk_child (depth + 2) childListDepth child
                (violation (childListDepth > LIMIT_listDepth) ''list nesting exceeds 8'' st))
         item (enter_node (depth + 1) st))
       items (enter_node depth st)"

text \<open>The walk on a block of the document. A table counts its rows and enters its cells; the walk has no
  case for the content of a cell.\<close>

fun pushBlockViolations :: "nat \<Rightarrow> nat \<Rightarrow> ContentBlock \<Rightarrow> WalkState \<Rightarrow> WalkState" where
  "pushBlockViolations depth listDepth (Paragraph inlines) st = walk_child depth listDepth (ItemParagraph inlines) st"
| "pushBlockViolations depth listDepth (BlockList k items) st = walk_child depth listDepth (ItemList k items) st"
| "pushBlockViolations depth listDepth (CodeBlock language text) st =
     violation (length text > LIMIT_codeBlock) ''code block exceeds 40000 chars'' (enter_node depth st)"
| "pushBlockViolations depth listDepth (BlockMath latex) st =
     violation (length latex > LIMIT_latex) ''latex exceeds 5000 chars'' (enter_node depth st)"
| "pushBlockViolations depth listDepth (Table rows) st =
     violation (sum_list (map length rows) > LIMIT_tableCells) ''table exceeds 400 cells''
       (fold (\<lambda>row st.
           fold (\<lambda>cell. enter_node (depth + 2)) row
             (violation (length row > LIMIT_tableCols) ''table row exceeds 20 columns'' (count_node st)))
         rows
         (violation (length rows > LIMIT_tableRows) ''table exceeds 100 rows'' (enter_node depth st)))"

definition checkContentDocumentLimits :: "(jsnum \<Rightarrow> string) \<Rightarrow> ContentDocumentV1 \<Rightarrow> string list" where
  "checkContentDocumentLimits num doc =
     (let violations =
        (if doc_docVersion doc \<noteq> CONTENT_DOC_VERSION then [''docVersion must be 1''] else []) @
        (if length (json_stringify num (document_json doc)) > LIMIT_serializedChars
         then [''serialized document exceeds 131072 chars''] else []);
        state = fold (pushBlockViolations 1 1) (doc_content doc)
          \<lparr>ws_nodes = 0, ws_maxDepth = 0, ws_listDepth = 0, ws_violations = violations\<rparr>
      in ws_violations (violation (ws_nodes state > LIMIT_totalNodes) ''document exceeds 2000 nodes'' state))"

section \<open>Preflight\<close>

definition PREFLIGHT_RAW_DEPTH_BUDGET :: nat where
  "PREFLIGHT_RAW_DEPTH_BUDGET = (LIMIT_depth + 2) * 2 + 3"

fun json_children :: "json \<Rightarrow> json list" where
  "json_children (JArr vs) = vs"
| "json_children (JObj es) = map snd es"
| "json_children _ = []"

text \<open>The number of JSON values in a value, itself included.\<close>

fun json_values :: "json \<Rightarrow> nat" where
  "json_values (JArr vs) = Suc (sum_list (map json_values vs))"
| "json_values (JObj es) = Suc (sum_list (map (\<lambda>(k, v). json_values v) es))"
| "json_values _ = 1"

lemma json_values_children: "json_values v = Suc (sum_list (map json_values (json_children v)))"
  by (cases v) (auto simp: comp_def case_prod_unfold)

text \<open>The loop of the preflight: the head of the list is the top of the stack, and the children of a node are
  pushed in order. The result tells whether a node lies deeper than the budget.\<close>

function raw_walk :: "(json \<times> nat) list \<Rightarrow> bool" where
  "raw_walk [] = False"
| "raw_walk ((node, depth) # stack) =
     (if depth > PREFLIGHT_RAW_DEPTH_BUDGET then True
      else raw_walk (rev (map (\<lambda>child. (child, depth + 1)) (json_children node)) @ stack))"
  by pat_completeness auto

termination
proof (relation "measure (\<lambda>stack. sum_list (map (json_values \<circ> fst) stack))")
  fix node :: json and depth :: nat and stack
  show "(rev (map (\<lambda>child. (child, depth + 1)) (json_children node)) @ stack, (node, depth) # stack)
      \<in> measure (\<lambda>stack. sum_list (map (json_values \<circ> fst) stack))"
    using json_values_children [of node] by (simp add: comp_def rev_map [symmetric])
qed simp

definition preflightContentDocumentStructure :: "(jsnum \<Rightarrow> string) \<Rightarrow> json \<Rightarrow> string list" where
  "preflightContentDocumentStructure num value =
     (let oversized = length (json_stringify num value) > LIMIT_serializedChars;
          violations = (if oversized then [''serialized document exceeds 131072 chars''] else [])
      in case value of
           JObj envelope \<Rightarrow>
             let violations = violations @
               (if map_of envelope ''docVersion'' \<noteq> Some (JNum CONTENT_DOC_VERSION)
                then [''docVersion must be 1''] else []) @
               (if map_of envelope ''type'' \<noteq> Some (JStr ''doc'') then [''type must be \"doc\"''] else []) @
               (case map_of envelope ''content'' of Some (JArr _) \<Rightarrow> [] | _ \<Rightarrow> [''content must be an array''])
             in if oversized then violations
                else if raw_walk [(value, 0)] then violations @ [''document nesting exceeds 39 levels'']
                else violations
         | _ \<Rightarrow> violations @ [''document must be a ContentDocumentV1 object''])"

section \<open>Normalization\<close>

definition canonicalMarks :: "ContentMarkType list option \<Rightarrow> ContentMarkType list option" where
  "canonicalMarks marks =
     (case marks of
        None \<Rightarrow> None
      | Some ms \<Rightarrow>
          if ms = [] then None
          else
            let all = js_set ms;
                unique = filter (\<lambda>mark. if mark \<in> set EXCLUSIVE_MARKS then length all = 1 else True) all
            in if unique = [] then None
               else Some (sort_key (index_of MARK_CANONICAL_ORDER) unique))"

fun normalizeInline :: "ContentInline \<Rightarrow> ContentInline option" where
  "normalizeInline (TextRun text marks) =
     (if text = '''' then None else Some (TextRun text (canonicalMarks marks)))"
| "normalizeInline HardBreak = Some HardBreak"
| "normalizeInline (InlineMath latex) = Some (InlineMath latex)"

text \<open>\<^verbatim>\<open>marks?.join("|")\<close>\<close>

fun marks_join :: "ContentMarkType list \<Rightarrow> string" where
  "marks_join [] = ''''"
| "marks_join [m] = mark_name m"
| "marks_join (m # ms) = mark_name m @ ''|'' @ marks_join ms"

definition same_marks :: "ContentMarkType list option \<Rightarrow> ContentMarkType list option \<Rightarrow> bool" where
  "same_marks a b \<longleftrightarrow> map_option marks_join (canonicalMarks a) = map_option marks_join (canonicalMarks b)"

text \<open>One round of the loop of \<^verbatim>\<open>normalizeInlineList\<close>.\<close>

definition push_inline :: "ContentInline \<Rightarrow> ContentInline list \<Rightarrow> ContentInline list" where
  "push_inline raw result =
     (case normalizeInline raw of
        None \<Rightarrow> result
      | Some inline \<Rightarrow>
          (case (if result = [] then None else Some (last result), inline) of
             (Some (TextRun previous_text previous_marks), TextRun text marks) \<Rightarrow>
               if same_marks previous_marks marks
               then butlast result @ [TextRun (previous_text @ text) (canonicalMarks previous_marks)]
               else result @ [inline]
           | _ \<Rightarrow> result @ [inline]))"

definition normalizeInlineList :: "ContentInline list \<Rightarrow> ContentInline list" where
  "normalizeInlineList inlines = fold push_inline inlines []"

fun is_empty_text :: "ContentInline \<Rightarrow> bool" where
  "is_empty_text (TextRun text marks) \<longleftrightarrow> text = ''''"
| "is_empty_text _ = False"

fun isEmptyParagraph :: "ContentBlock \<Rightarrow> bool" where
  "isEmptyParagraph (Paragraph inlines) \<longleftrightarrow> inlines = [] \<or> list_all is_empty_text inlines"
| "isEmptyParagraph _ = False"

text \<open>The loop that pops the last element while it satisfies a test.\<close>

definition drop_trailing :: "('a \<Rightarrow> bool) \<Rightarrow> 'a list \<Rightarrow> 'a list" where
  "drop_trailing p xs = rev (dropWhile p (rev xs))"

text \<open>Collecting the results that are not null.\<close>

definition opt_list :: "'a option \<Rightarrow> 'a list" where
  "opt_list x = (case x of None \<Rightarrow> [] | Some y \<Rightarrow> [y])"

text \<open>\<^verbatim>\<open>normalizeList\<close> on a list, and the normalization of one child of a list item; \<open>normalizeListItemChildren\<close> is
  the normalization of all of them.\<close>

fun normalize_child :: "ContentListChild \<Rightarrow> ContentListChild option" where
  "normalize_child (ItemParagraph inlines) = Some (ItemParagraph (normalizeInlineList inlines))"
| "normalize_child (ItemList k items) =
     (let items' = filter (\<lambda>content. content \<noteq> [])
            (map (\<lambda>item. drop_trailing (\<lambda>c. c = ItemParagraph [])
               (concat (map (\<lambda>child. opt_list (normalize_child child)) item))) items)
      in if items' = [] then None else Some (ItemList k items'))"

definition normalizeListItemChildren :: "ContentListItem \<Rightarrow> ContentListItem" where
  "normalizeListItemChildren item = drop_trailing (\<lambda>c. c = ItemParagraph [])
     (concat (map (\<lambda>child. opt_list (normalize_child child)) item))"

text \<open>\<^verbatim>\<open>CODE_LANGUAGE_PATTERN\<close>: one to 32 letters, digits or \<open>+ # . _ -\<close>.\<close>

definition code_language_chars :: string where
  "code_language_chars =
     ''ABCDEFGHIJKLMNOPQRSTUVWXYZabcdefghijklmnopqrstuvwxyz0123456789+#._-''"

definition CODE_LANGUAGE_PATTERN :: "string \<Rightarrow> bool" where
  "CODE_LANGUAGE_PATTERN s \<longleftrightarrow> 1 \<le> length s \<and> length s \<le> 32 \<and> (\<forall>c \<in> set s. c \<in> set code_language_chars)"

fun normalize_block :: "ContentBlock \<Rightarrow> ContentBlock option" where
  "normalize_block (Paragraph inlines) = Some (Paragraph (normalizeInlineList inlines))"
| "normalize_block (BlockList k items) = map_option child_block (normalize_child (ItemList k items))"
| "normalize_block (CodeBlock language text) =
     Some (CodeBlock (case language of
         None \<Rightarrow> None
       | Some l \<Rightarrow> if l \<noteq> '''' \<and> CODE_LANGUAGE_PATTERN l then Some l else None) text)"
| "normalize_block (BlockMath latex) = Some (BlockMath latex)"
| "normalize_block (Table rows) = Some (Table (map (map (map normalizeInlineList)) rows))"

definition normalizeContentDocument :: "ContentDocumentV1 \<Rightarrow> app_error + ContentDocumentV1" where
  "normalizeContentDocument doc =
     (if doc_docVersion doc \<noteq> CONTENT_DOC_VERSION \<or> doc_type doc \<noteq> ''doc''
      then Inl (EngineError ''normalizeContentDocument: unsupported document envelope'')
      else Inr \<lparr>doc_docVersion = CONTENT_DOC_VERSION, doc_type = ''doc'',
        doc_content = drop_trailing isEmptyParagraph
          (concat (map (\<lambda>block. opt_list (normalize_block block)) (doc_content doc)))\<rparr>)"

section \<open>Plain-text projection\<close>

abbreviation newline :: string where "newline \<equiv> [CHR 0x0A]"

text \<open>\<^verbatim>\<open>xs.join(sep)\<close>\<close>

fun join_with :: "string \<Rightarrow> string list \<Rightarrow> string" where
  "join_with sep [] = ''''"
| "join_with sep [x] = x"
| "join_with sep (x # xs) = x @ sep @ join_with sep xs"

fun inline_text :: "ContentInline \<Rightarrow> string" where
  "inline_text (TextRun text marks) = text"
| "inline_text HardBreak = newline"
| "inline_text (InlineMath latex) = latex"

definition projectInline :: "ContentInline list \<Rightarrow> string" where
  "projectInline inlines = concat (map inline_text inlines)"

fun project_child :: "ContentListChild \<Rightarrow> string" where
  "project_child (ItemParagraph inlines) = projectInline inlines"
| "project_child (ItemList k items) =
     join_with newline (map (\<lambda>item. join_with newline (map project_child item)) items)"

definition projectListItems :: "ContentListItem list \<Rightarrow> string" where
  "projectListItems items = join_with newline (map (\<lambda>item. join_with newline (map project_child item)) items)"

fun projectBlock :: "ContentBlock \<Rightarrow> string" where
  "projectBlock (Paragraph inlines) = projectInline inlines"
| "projectBlock (BlockList k items) = projectListItems items"
| "projectBlock (CodeBlock language text) = text"
| "projectBlock (BlockMath latex) = latex"
| "projectBlock (Table rows) =
     join_with newline (map (\<lambda>row. join_with '' '' (map (\<lambda>cell. join_with '' '' (map projectInline cell)) row)) rows)"

definition plainTextProjection :: "ContentDocumentV1 \<Rightarrow> string" where
  "plainTextProjection doc = join_with newline (map projectBlock (doc_content doc))"

section \<open>Structural equality\<close>

definition marksEqual :: "ContentMarkType list option \<Rightarrow> ContentMarkType list option \<Rightarrow> bool" where
  "marksEqual a b \<longleftrightarrow>
     (if a = None \<or> a = Some [] then b = None \<or> b = Some []
      else if b = None \<or> length (the b) \<noteq> length (the a) then False
      else list_all2 (=) (the a) (the b))"

fun inline_equal :: "ContentInline \<Rightarrow> ContentInline \<Rightarrow> bool" where
  "inline_equal (TextRun text marks) (TextRun text' marks') \<longleftrightarrow> text = text' \<and> marksEqual marks marks'"
| "inline_equal (InlineMath latex) (InlineMath latex') \<longleftrightarrow> latex = latex'"
| "inline_equal HardBreak HardBreak = True"
| "inline_equal _ _ = False"

definition inlinesEqual :: "ContentInline list \<Rightarrow> ContentInline list \<Rightarrow> bool" where
  "inlinesEqual a b \<longleftrightarrow> list_all2 inline_equal a b"

text \<open>The cases of \<^verbatim>\<open>blocksEqual\<close> that apply to the children of a list item.\<close>

fun child_equal :: "ContentListChild \<Rightarrow> ContentListChild \<Rightarrow> bool" where
  "child_equal (ItemParagraph a) (ItemParagraph b) \<longleftrightarrow> inlinesEqual a b"
| "child_equal (ItemList k items) (ItemList k' items') \<longleftrightarrow> k = k' \<and>
     list_all2 (\<lambda>item item'. list_all2 child_equal item item') items items'"
| "child_equal _ _ = False"

fun block_equal :: "ContentBlock \<Rightarrow> ContentBlock \<Rightarrow> bool" where
  "block_equal (Paragraph a) (Paragraph b) \<longleftrightarrow> inlinesEqual a b"
| "block_equal (BlockList k items) (BlockList k' items') \<longleftrightarrow> child_equal (ItemList k items) (ItemList k' items')"
| "block_equal (CodeBlock language text) (CodeBlock language' text') \<longleftrightarrow> language = language' \<and> text = text'"
| "block_equal (BlockMath latex) (BlockMath latex') \<longleftrightarrow> latex = latex'"
| "block_equal (Table rows) (Table rows') \<longleftrightarrow> list_all2 (list_all2 (list_all2 inlinesEqual)) rows rows'"
| "block_equal _ _ = False"

definition contentDocumentsEqual :: "ContentDocumentV1 \<Rightarrow> ContentDocumentV1 \<Rightarrow> bool" where
  "contentDocumentsEqual a b \<longleftrightarrow> list_all2 block_equal (doc_content a) (doc_content b)"

section \<open>Mode helpers\<close>

text \<open>Splitting a text at its newlines.\<close>

fun split_lines :: "string \<Rightarrow> string list" where
  "split_lines [] = [[]]"
| "split_lines (c # cs) =
     (if c = CHR 0x0A then [] # split_lines cs
      else case split_lines cs of [] \<Rightarrow> [[c]] | line # lines \<Rightarrow> (c # line) # lines)"

definition plainTextToDocument :: "string \<Rightarrow> ContentDocumentV1" where
  "plainTextToDocument text = \<lparr>doc_docVersion = CONTENT_DOC_VERSION, doc_type = ''doc'',
     doc_content = map (\<lambda>line. Paragraph (if line = '''' then [] else [TextRun line None])) (split_lines text)\<rparr>"

definition isContentDocumentV1 :: "json \<Rightarrow> bool" where
  "isContentDocumentV1 value \<longleftrightarrow>
     (case value of
        JObj es \<Rightarrow> map_of es ''docVersion'' = Some (JNum CONTENT_DOC_VERSION) \<and>
          map_of es ''type'' = Some (JStr ''doc'') \<and>
          (case map_of es ''content'' of Some (JArr _) \<Rightarrow> True | _ \<Rightarrow> False)
      | _ \<Rightarrow> False)"

section \<open>The preflight walk\<close>

text \<open>The raw nesting of a JSON value: the number of container levels on its longest path.\<close>

fun json_height :: "json \<Rightarrow> nat" where
  "json_height (JArr vs) = foldr (\<lambda>v. max (Suc (json_height v))) vs 0"
| "json_height (JObj es) = foldr (\<lambda>(k, v). max (Suc (json_height v))) es 0"
| "json_height _ = 0"

lemma foldr_max_le: "foldr (\<lambda>x. max (f x)) xs 0 \<le> (n::nat) \<longleftrightarrow> (\<forall>x\<in>set xs. f x \<le> n)"
  by (induction xs) auto

lemma json_height_le:
  "json_height v \<le> n \<longleftrightarrow> (\<forall>c\<in>set (json_children v). Suc (json_height c) \<le> n)"
  by (cases v) (auto simp: foldr_max_le case_prod_unfold)

lemma json_height_less:
  "n < json_height v \<longleftrightarrow> (\<exists>c\<in>set (json_children v). n < Suc (json_height c))"
  using json_height_le [of v n] by (auto simp: not_le [symmetric])

lemma raw_walk_iff:
  "raw_walk stack \<longleftrightarrow> (\<exists>(v, d)\<in>set stack. d + json_height v > PREFLIGHT_RAW_DEPTH_BUDGET)"
proof (induction stack rule: raw_walk.induct)
  case (2 node depth stack)
  let ?B = PREFLIGHT_RAW_DEPTH_BUDGET
  have "?B < depth + json_height node \<longleftrightarrow>
      (\<exists>c\<in>set (json_children node). ?B < Suc depth + json_height c)" if "depth \<le> ?B"
    using that json_height_less [of "?B - depth" node] by (auto simp: less_diff_conv2 add.commute)
  then show ?case using 2 by (cases "depth \<le> ?B") (simp_all add: bex_Un not_le)
qed simp

text \<open>The same loop with a bound on the number of its rounds; \<open>None\<close> when the bound is hit.\<close>

fun raw_walk_within :: "nat \<Rightarrow> (json \<times> nat) list \<Rightarrow> bool option" where
  "raw_walk_within n [] = Some False"
| "raw_walk_within 0 (_ # _) = None"
| "raw_walk_within (Suc n) ((node, depth) # stack) =
     (if depth > PREFLIGHT_RAW_DEPTH_BUDGET then Some True
      else raw_walk_within n (rev (map (\<lambda>child. (child, depth + 1)) (json_children node)) @ stack))"

lemma raw_walk_within_enough:
  "sum_list (map (json_values \<circ> fst) stack) \<le> n \<Longrightarrow> raw_walk_within n stack = Some (raw_walk stack)"
proof (induction n stack rule: raw_walk_within.induct)
  case (2 x stack)
  then show ?case using json_values_children [of "fst x"] by simp
next
  case (3 n node depth stack)
  then show ?case using json_values_children [of node] by (auto simp: comp_def rev_map [symmetric])
qed simp

text \<open>Every value prints to at least one character.\<close>

lemma js_join_length: "(\<Sum>x\<leftarrow>xs. length x) \<le> length (js_join xs)"
  by (induction xs rule: js_join.induct) auto

lemma json_values_stringify:
  assumes "num_ok num"
  shows "json_values v \<le> length (json_stringify num v)"
proof (induction v rule: json_values.induct)
  case (1 vs)
  then have "(\<Sum>v\<leftarrow>vs. json_values v) \<le> (\<Sum>v\<leftarrow>vs. length (json_stringify num v))"
    by (intro sum_list_mono) auto
  also have "\<dots> \<le> length (js_join (map (json_stringify num) vs))"
    using js_join_length [of "map (json_stringify num) vs"] by (simp add: comp_def)
  finally show ?case by simp
next
  case (2 es)
  let ?entry = "\<lambda>(key, v). json_quote key @ CHR 0x3A # json_stringify num v"
  have "(\<Sum>(k, v)\<leftarrow>es. json_values v) \<le> (\<Sum>e\<leftarrow>es. length (?entry e))"
  proof (rule sum_list_mono)
    fix e assume e: "e \<in> set es"
    have "json_values (snd e) \<le> length (json_stringify num (snd e))"
      by (rule 2 [OF e surjective_pairing [symmetric]])
    then show "(case e of (k, v) \<Rightarrow> json_values v) \<le> length (?entry e)" by (simp add: case_prod_unfold)
  qed
  also have "\<dots> \<le> length (js_join (map ?entry es))"
    using js_join_length [of "map ?entry es"] by (simp add: comp_def)
  finally show ?case by simp
qed (use assms in \<open>simp_all add: json_quote_def num_ok_def Suc_le_eq\<close>)

text \<open>The preflight terminates. On a value within the serialized budget, the stack-driven walk over the raw
  value empties its stack or gives up within as many rounds as the budget has characters, and it tells
  exactly whether the value nests deeper than the budget.\<close>

lemma preflight_walk_terminates:
  assumes "num_ok num" and "length (json_stringify num v) \<le> LIMIT_serializedChars"
  shows "raw_walk_within LIMIT_serializedChars [(v, 0)] =
    Some (json_height v > PREFLIGHT_RAW_DEPTH_BUDGET)"
proof -
  have "json_values v \<le> LIMIT_serializedChars"
    using json_values_stringify [OF assms(1), of v] assms(2) by (rule order.trans)
  then have "raw_walk_within LIMIT_serializedChars [(v, 0)] = Some (raw_walk [(v, 0)])"
    by (intro raw_walk_within_enough) simp
  also have "raw_walk [(v, 0)] \<longleftrightarrow> json_height v > PREFLIGHT_RAW_DEPTH_BUDGET"
    by (subst raw_walk_iff) simp
  finally show ?thesis .
qed

section \<open>Legal documents pass the preflight\<close>

text \<open>A walk that ends without violations started without any, and every node it met was within bounds.\<close>

lemma fold_clean:
  assumes "ws_violations (fold f xs st) = []"
    and "\<And>x st. x \<in> set xs \<Longrightarrow> ws_violations (f x st) = [] \<Longrightarrow> ws_violations st = [] \<and> P x"
  shows "ws_violations st = [] \<and> (\<forall>x\<in>set xs. P x)"
  using assms
proof (induction xs arbitrary: st)
  case (Cons x xs)
  have "ws_violations (f x st) = [] \<and> (\<forall>x\<in>set xs. P x)"
    by (rule Cons.IH) (use Cons.prems in auto)
  with Cons.prems(2) [of x st] show ?case by simp
qed simp

lemma violation_clean [simp]: "ws_violations (violation b msg st) = [] \<longleftrightarrow> \<not> b \<and> ws_violations st = []"
  by (simp add: violation_def)

lemma count_node_violations [simp]: "ws_violations (count_node st) = ws_violations st"
  by (simp add: count_node_def)

lemma enter_node_clean: "ws_violations (enter_node d st) = [] \<Longrightarrow> d \<le> LIMIT_depth \<and> ws_violations st = []"
  by (simp add: enter_node_def Let_def not_less)

lemma pushInline_clean: "ws_violations (pushInlineViolation i st) = [] \<Longrightarrow> ws_violations st = []"
  by (cases "(i, st)" rule: pushInlineViolation.cases) simp_all

lemma foldr_max_less: "foldr (\<lambda>x. max (f x)) xs 0 < (n::nat) \<longleftrightarrow> 0 < n \<and> (\<forall>x\<in>set xs. f x < n)"
  by (induction xs) auto

lemma node_json_height:
  "json_height (node_json ty cs) \<le> n \<longleftrightarrow> 1 \<le> n \<and> (\<forall>c\<in>set cs. json_height c + 2 \<le> n)"
  by (auto simp: node_json_def foldr_max_less Suc_le_eq)

lemma node_json_height_add:
  "json_height (node_json ty cs) + m \<le> n \<longleftrightarrow> 1 + m \<le> n \<and> (\<forall>c\<in>set cs. json_height c + (2 + m) \<le> n)"
  using node_json_height [of ty cs "n - m"] by (cases "m \<le> n") (auto simp: le_diff_conv2)

lemma inline_json_height: "json_height (inline_json i) \<le> 2"
proof -
  have "foldr (\<lambda>m. max (Suc (json_height ((JStr \<circ> mark_name) m)))) ms 0 \<le> 1" for ms
    by (simp add: foldr_max_le)
  then show ?thesis by (cases i) (auto simp: foldr_map comp_def split: option.splits)
qed

lemma paragraph_json_height: "json_height (paragraph_json inlines) \<le> 4"
  using inline_json_height by (auto simp: paragraph_json_def node_json_height)

lemma walk_child_clean:
  "ws_violations (walk_child d ld c st) = [] \<Longrightarrow>
   ws_violations st = [] \<and> json_height (child_json c) + 2 * d \<le> 36"
proof (induction c arbitrary: d ld st rule: child_json.induct)
  case (1 inlines)
  have "ws_violations (enter_node d st) = []"
    using fold_clean [OF "1.prems" [unfolded walk_child.simps], of "\<lambda>_. True"] pushInline_clean by auto
  from enter_node_clean [OF this] paragraph_json_height [of inlines] show ?case by (simp add: LIMIT_depth_def)
next
  case (2 k items)
  let ?P = "\<lambda>c. json_height (child_json c) + 2 * (d + 2) \<le> 36"
  have item: "ws_violations st = [] \<and> d + 1 \<le> 16 \<and> (\<forall>c\<in>set item. ?P c)"
    if "item \<in> set items" and
      "ws_violations (fold (\<lambda>child st.
           let childListDepth = (if is_list_child child then ld + 1 else ld)
           in walk_child (d + 2) childListDepth child
                (violation (childListDepth > LIMIT_listDepth) ''list nesting exceeds 8'' st))
         item (enter_node (d + 1) st)) = []" for item st
  proof -
    have "ws_violations (enter_node (d + 1) st) = [] \<and> (\<forall>c\<in>set item. ?P c)"
      by (rule fold_clean [OF that(2)]) (auto simp: Let_def dest!: "2.IH" [OF that(1)])
    then show ?thesis using enter_node_clean [of "d + 1" st] by (auto simp: LIMIT_depth_def)
  qed
  have "ws_violations (enter_node d st) = [] \<and>
      (\<forall>item\<in>set items. d + 1 \<le> 16 \<and> (\<forall>c\<in>set item. ?P c))"
    by (rule fold_clean [OF "2.prems" [unfolded walk_child.simps]]) (use item in blast)
  then show ?case using enter_node_clean [of d st] by (auto simp: node_json_height_add LIMIT_depth_def)
qed

lemma pushBlock_clean:
  assumes "ws_violations (pushBlockViolations d ld b st) = []"
  shows "ws_violations st = [] \<and> json_height (block_json b) + 2 * d \<le> 38"
proof (cases b)
  case (Table rows)
  have row: "ws_violations st = [] \<and> (\<forall>cell\<in>set row. d + 2 \<le> LIMIT_depth)"
    if "ws_violations (fold (\<lambda>cell. enter_node (d + 2)) row
      (violation (length row > LIMIT_tableCols) ''table row exceeds 20 columns'' (count_node st))) = []" for row st
    using fold_clean [OF that, of "\<lambda>_. d + 2 \<le> LIMIT_depth"] enter_node_clean by simp
  have clean: "ws_violations (fold (\<lambda>row st. fold (\<lambda>cell. enter_node (d + 2)) row
      (violation (length row > LIMIT_tableCols) ''table row exceeds 20 columns'' (count_node st))) rows
      (violation (length rows > LIMIT_tableRows) ''table exceeds 100 rows'' (enter_node d st))) = []"
    using assms by (simp add: Table)
  have "ws_violations (enter_node d st) = [] \<and> (\<forall>row\<in>set rows. \<forall>cell\<in>set row. d + 2 \<le> LIMIT_depth)"
    using fold_clean [OF clean, of "\<lambda>row. \<forall>cell\<in>set row. d + 2 \<le> LIMIT_depth"] row by auto
  then show ?thesis
    using enter_node_clean [of d st] paragraph_json_height
    by (fastforce simp: Table node_json_height_add LIMIT_depth_def intro: order.trans [OF add_right_mono])
next
  case (Paragraph inlines)
  then show ?thesis using assms walk_child_clean [of d ld "ItemParagraph inlines" st] by simp
next
  case (BlockList k items)
  then show ?thesis
    using assms walk_child_clean [of d ld "ItemList k items" st] by (simp del: walk_child.simps child_json.simps)
qed (use assms enter_node_clean [of d st] in \<open>auto simp: LIMIT_depth_def split: option.splits\<close>)

lemma preflight_of_legal:
  assumes "checkContentDocumentLimits num doc = []" and "doc_type doc = ''doc''"
  shows "preflightContentDocumentStructure num (document_json doc) = []"
proof -
  let ?st = "\<lambda>vs. \<lparr>ws_nodes = 0, ws_maxDepth = 0, ws_listDepth = 0, ws_violations = vs\<rparr>"
  obtain vs where vs: "vs = (if doc_docVersion doc \<noteq> CONTENT_DOC_VERSION then [''docVersion must be 1''] else []) @
      (if length (json_stringify num (document_json doc)) > LIMIT_serializedChars
       then [''serialized document exceeds 131072 chars''] else [])" by blast
  have "ws_violations (fold (pushBlockViolations 1 1) (doc_content doc) (?st vs)) = []"
    using assms(1) by (simp add: checkContentDocumentLimits_def Let_def vs)
  from fold_clean [OF this, of "\<lambda>b. json_height (block_json b) + 2 * 1 \<le> 38"] pushBlock_clean [of 1 1]
  have "vs = []" and blocks: "\<forall>b\<in>set (doc_content doc). json_height (block_json b) + 2 \<le> 38" by auto
  then have env: "doc_docVersion doc = CONTENT_DOC_VERSION"
      "\<not> length (json_stringify num (document_json doc)) > LIMIT_serializedChars"
    by (auto simp: vs split: if_splits)
  have "json_height (document_json doc) \<le> 38"
    using blocks by (auto simp: document_json_def foldr_max_le foldr_max_less Suc_le_eq)
  then have "\<not> raw_walk [(document_json doc, 0)]"
    by (subst raw_walk_iff) (simp add: PREFLIGHT_RAW_DEPTH_BUDGET_def LIMIT_depth_def)
  with env assms(2) show ?thesis
    by (simp add: preflightContentDocumentStructure_def document_json_def del: raw_walk.simps)
qed

text \<open>The preflight is not stricter than the contract it fronts. A document with a version 1 envelope that is
  within every structural limit passes the preflight of its JSON form without a violation: nesting budget,
  size budget and envelope checks all hold.\<close>

lemma legal_documents_pass_preflight:
  assumes "checkContentDocumentLimits num doc = []" and "doc_type doc = ''doc''"
  shows "preflightContentDocumentStructure num (document_json doc) = []"
  using assms by (rule preflight_of_legal)

lemma legal_documents_pass_preflight_witness:
  "preflightContentDocumentStructure unary_num (document_json \<lparr>doc_docVersion = 1, doc_type = ''doc'',
     doc_content = [BlockList BulletList [[ItemParagraph [TextRun ''a'' (Some [Bold])]]]]\<rparr>) = []"
  by (rule legal_documents_pass_preflight)
    (simp_all add: checkContentDocumentLimits_def CONTENT_DOC_VERSION_def LIMIT_defs violation_def enter_node_def
      count_node_def document_json_def node_json_def paragraph_json_def json_quote_def json_escape_def unary_num_def)

lemma preflight_walk_terminates_witness:
  "raw_walk_within LIMIT_serializedChars [(JArr [JNull], 0)] = Some False"
proof -
  have "length (json_stringify unary_num (JArr [JNull])) \<le> LIMIT_serializedChars" by (simp add: LIMIT_defs)
  from preflight_walk_terminates [OF num_ok_unary this] show ?thesis
    by (simp add: PREFLIGHT_RAW_DEPTH_BUDGET_def)
qed

end
