(* ===== verification/Rich_Canonical.thy ===== *)
theory Rich_Canonical
  imports Rich_Content
begin

text \<open>
  Laws of the rich content kernel: the canonical form that normalization produces and fixes, what
  normalization keeps of the text, structural equality on canonical documents, the plain text round
  trip, and what the limits walk does not see.
\<close>

section \<open>Marks\<close>

lemma js_set_distinct [simp]: "distinct (js_set xs)" "set (js_set xs) = set xs"
  by (simp_all add: js_set_def)

lemma js_set_id: "distinct xs \<Longrightarrow> js_set xs = xs"
  by (simp add: js_set_def distinct_remdups_id)

lemma canonicalMarks_idem [simp]: "canonicalMarks (canonicalMarks marks) = canonicalMarks marks"
proof (cases marks)
  case (Some ms)
  define all where "all = js_set ms"
  define u where "u = filter (\<lambda>mark. if mark \<in> set EXCLUSIVE_MARKS then length all = 1 else True) all"
  define s where "s = sort_key (index_of MARK_CANONICAL_ORDER) u"
  have set_s: "distinct s" "set s = set u" "length s = length u" by (simp_all add: s_def u_def all_def)
  have fixed: "filter (\<lambda>mark. if mark \<in> set EXCLUSIVE_MARKS then length s = 1 else True) s = s"
  proof (rule filter_True, rule ballI)
    fix mark assume "mark \<in> set s"
    then have "mark \<in> set u" using set_s by simp
    then have "mark \<in> set EXCLUSIVE_MARKS \<Longrightarrow> length all = 1" "mark \<in> set u" by (auto simp: u_def)
    moreover have "length u \<le> length all" by (simp add: u_def)
    ultimately have "mark \<in> set EXCLUSIVE_MARKS \<Longrightarrow> length u = 1"
      by (metis length_0_conv length_greater_0_conv less_one list.set(1) empty_iff le_neq_implies_less)
    then show "if mark \<in> set EXCLUSIVE_MARKS then length s = 1 else True" using set_s by simp
  qed
  have "sort_key (index_of MARK_CANONICAL_ORDER) s = s"
    by (simp add: s_def sort_key_id_if_sorted)
  then have "s \<noteq> [] \<Longrightarrow> canonicalMarks (Some s) = Some s"
    using fixed set_s(1) by (simp add: canonicalMarks_def js_set_id)
  moreover have "canonicalMarks marks = (if ms = [] \<or> u = [] then None else Some s)"
    by (simp add: Some canonicalMarks_def Let_def all_def u_def s_def)
  moreover have "u \<noteq> [] \<Longrightarrow> s \<noteq> []" using set_s by auto
  ultimately show ?thesis by (simp add: canonicalMarks_def [of None])
qed (simp add: canonicalMarks_def)

lemma canonicalMarks_nonempty: "canonicalMarks marks \<noteq> Some []"
proof
  assume *: "canonicalMarks marks = Some []"
  then have "canonicalMarks (Some []) = Some []" using canonicalMarks_idem [of marks] by simp
  then show False by (simp add: canonicalMarks_def)
qed

lemma mark_name_nonempty [simp]: "mark_name m \<noteq> []" "[] \<noteq> mark_name m"
  by (cases m; simp)+

lemma mark_name_split:
  "mark_name m = mark_name n \<longleftrightarrow> m = n"
  "mark_name m @ CHR ''|'' # x = mark_name n @ CHR ''|'' # y \<longleftrightarrow> m = n \<and> x = y"
  "mark_name m = mark_name n @ CHR ''|'' # y \<longleftrightarrow> False"
  "mark_name m @ CHR ''|'' # x = mark_name n \<longleftrightarrow> False"
  by (cases m; cases n; simp)+

lemma marks_join_inj: "marks_join a = marks_join b \<Longrightarrow> a = b"
proof (induction a arbitrary: b rule: marks_join.induct)
  case 1
  then show ?case by (cases b rule: marks_join.cases) (auto simp: mark_name_split)
next
  case (2 m)
  then show ?case by (cases b rule: marks_join.cases) (auto simp: mark_name_split)
next
  case (3 m m' ms)
  then show ?case by (cases b rule: marks_join.cases) (auto simp: mark_name_split)
qed

lemma same_marks_iff: "same_marks a b \<longleftrightarrow> canonicalMarks a = canonicalMarks b"
proof -
  have "inj marks_join" by (rule injI) (rule marks_join_inj)
  then show ?thesis unfolding same_marks_def by (simp add: inj_eq option.inj_map)
qed

section \<open>Canonical inline content\<close>

fun inline_canonical :: "ContentInline \<Rightarrow> bool" where
  "inline_canonical (TextRun text marks) \<longleftrightarrow> text \<noteq> '''' \<and> canonicalMarks marks = marks"
| "inline_canonical _ = True"

fun mergeable :: "ContentInline \<Rightarrow> ContentInline \<Rightarrow> bool" where
  "mergeable (TextRun _ marks) (TextRun _ marks') \<longleftrightarrow> marks = marks'"
| "mergeable _ _ = False"

definition inlines_canonical :: "ContentInline list \<Rightarrow> bool" where
  "inlines_canonical inlines \<longleftrightarrow>
     list_all inline_canonical inlines \<and> successively (\<lambda>i j. \<not> mergeable i j) inlines"

lemma inlines_canonical_Nil [simp]: "inlines_canonical []"
  by (simp add: inlines_canonical_def)

lemma inlines_canonical_snoc:
  "inlines_canonical (xs @ [x]) \<longleftrightarrow>
     inlines_canonical xs \<and> inline_canonical x \<and> (xs \<noteq> [] \<longrightarrow> \<not> mergeable (last xs) x)"
  by (auto simp: inlines_canonical_def successively_append_iff)

lemma normalizeInline_canonical: "normalizeInline raw = Some i \<Longrightarrow> inline_canonical i"
  by (cases raw) (auto split: if_splits)

lemma normalizeInline_fixed: "inline_canonical i \<Longrightarrow> normalizeInline i = Some i"
  by (cases i) auto

text \<open>One round of the loop, on a result that is canonical so far.\<close>

lemma push_inline_cases:
  assumes "inlines_canonical result"
  obtains (empty) "normalizeInline raw = None" "push_inline raw result = result"
  | (merge) t t' marks xs where "normalizeInline raw = Some (TextRun t marks)"
      "result = xs @ [TextRun t' marks]" "push_inline raw result = xs @ [TextRun (t' @ t) marks]"
  | (push) inline where "normalizeInline raw = Some inline" "push_inline raw result = result @ [inline]"
      "result \<noteq> [] \<longrightarrow> \<not> mergeable (last result) inline"
proof (cases "normalizeInline raw")
  case None
  then show ?thesis using empty by (simp add: push_inline_def)
next
  case (Some inline)
  show ?thesis
  proof (cases "result \<noteq> [] \<and> mergeable (last result) inline")
    case True
    then obtain t t' marks where m: "last result = TextRun t' marks" "inline = TextRun t marks"
      by (cases "(last result, inline)" rule: mergeable.cases) auto
    have split: "result = butlast result @ [TextRun t' marks]" using True m(1) by (metis append_butlast_last_id)
    then have "inlines_canonical (butlast result @ [TextRun t' marks])" using assms by simp
    then have "canonicalMarks marks = marks" by (simp add: inlines_canonical_snoc)
    then have "push_inline raw result = butlast result @ [TextRun (t' @ t) marks]"
      using True m by (simp add: push_inline_def Some same_marks_iff)
    with merge [OF Some [unfolded m(2)] split] show ?thesis .
  next
    case False
    have "push_inline raw result = result @ [inline]"
    proof (cases "result \<noteq> []")
      case True
      then have "inlines_canonical (butlast result @ [last result])" using assms by simp
      then have "inline_canonical (last result)" by (simp add: inlines_canonical_snoc)
      then show ?thesis
        using False normalizeInline_canonical [OF Some]
        by (cases "last result"; cases inline) (auto simp: push_inline_def Some same_marks_iff)
    qed (simp add: push_inline_def Some)
    then show ?thesis using push [OF Some] False by blast
  qed
qed

lemma push_inline_canonical:
  assumes "inlines_canonical result"
  shows "inlines_canonical (push_inline raw result)"
  using assms
proof (cases rule: push_inline_cases [of result raw])
  case (merge t t' marks xs)
  have "\<not> mergeable (last xs) (TextRun (t' @ t) marks)" if "\<not> mergeable (last xs) (TextRun t' marks)"
    using that by (cases "last xs") auto
  then show ?thesis
    using assms normalizeInline_canonical [OF merge(1)] merge(2,3) by (auto simp: inlines_canonical_snoc)
next
  case (push inline)
  then show ?thesis using assms normalizeInline_canonical [OF push(1)] by (simp add: inlines_canonical_snoc)
qed (use assms in simp)

lemma normalizeInlineList_canonical [simp]: "inlines_canonical (normalizeInlineList inlines)"
proof -
  have "inlines_canonical result \<Longrightarrow> inlines_canonical (fold push_inline inlines result)" for result
    by (induction inlines arbitrary: result) (simp_all add: push_inline_canonical)
  then show ?thesis by (simp add: normalizeInlineList_def)
qed

lemma push_inline_append:
  assumes "inlines_canonical (result @ [i])"
  shows "push_inline i result = result @ [i]"
proof -
  have r: "inlines_canonical result" "inline_canonical i" "result \<noteq> [] \<longrightarrow> \<not> mergeable (last result) i"
    using assms by (simp_all add: inlines_canonical_snoc)
  from r(1) show ?thesis
  proof (cases rule: push_inline_cases [of result i])
    case (merge t t' marks xs)
    then show ?thesis using r(3) normalizeInline_fixed [OF r(2)] by simp
  qed (use normalizeInline_fixed [OF r(2)] in simp_all)
qed

lemma normalizeInlineList_fixed: "inlines_canonical inlines \<Longrightarrow> normalizeInlineList inlines = inlines"
proof -
  have "inlines_canonical (result @ inlines) \<Longrightarrow> fold push_inline inlines result = result @ inlines" for result
  proof (induction inlines arbitrary: result)
    case (Cons i inlines)
    have "inlines_canonical (result @ [i])"
      using Cons.prems by (auto simp: inlines_canonical_def successively_append_iff successively_Cons)
    then show ?case using Cons.IH [of "result @ [i]"] Cons.prems by (simp add: push_inline_append)
  qed simp
  from this [of "[]"] show "inlines_canonical inlines \<Longrightarrow> ?thesis" by (simp add: normalizeInlineList_def)
qed

text \<open>Normalization keeps the text of a paragraph.\<close>

lemma projectInline_append [simp]: "projectInline (a @ b) = projectInline a @ projectInline b"
  by (simp add: projectInline_def)

lemma normalizeInline_text: "concat (map inline_text (opt_list (normalizeInline raw))) = inline_text raw"
  by (cases raw) (simp_all add: opt_list_def)

lemma push_inline_text:
  assumes "inlines_canonical result"
  shows "projectInline (push_inline raw result) = projectInline result @ inline_text raw"
  using assms
proof (cases rule: push_inline_cases [of result raw])
qed (use normalizeInline_text [of raw] in \<open>simp_all add: opt_list_def projectInline_def\<close>)

lemma normalizeInlineList_text [simp]: "projectInline (normalizeInlineList inlines) = projectInline inlines"
proof -
  have "inlines_canonical result \<Longrightarrow>
      projectInline (fold push_inline inlines result) = projectInline result @ projectInline inlines" for result
  proof (induction inlines arbitrary: result)
    case (Cons i inlines)
    from Cons.IH [OF push_inline_canonical [OF Cons.prems]] push_inline_text [OF Cons.prems, of i]
    show ?case by (simp add: projectInline_def)
  qed (simp add: projectInline_def)
  from this [of "[]"] show ?thesis by (simp add: normalizeInlineList_def projectInline_def)
qed

section \<open>Canonical documents\<close>

lemma drop_trailing_fixed: "xs = [] \<or> \<not> p (last xs) \<Longrightarrow> drop_trailing p xs = xs"
  by (cases xs rule: rev_cases) (auto simp: drop_trailing_def)

lemma drop_trailing_last: "drop_trailing p xs \<noteq> [] \<Longrightarrow> \<not> p (last (drop_trailing p xs))"
  by (simp add: drop_trailing_def last_rev hd_dropWhile)

lemma drop_trailing_set: "x \<in> set (drop_trailing p xs) \<Longrightarrow> x \<in> set xs"
  by (auto simp: drop_trailing_def dest: set_dropWhileD)

lemma opt_list_simps [simp]: "opt_list None = []" "opt_list (Some x) = [x]"
  by (simp_all add: opt_list_def)

lemma set_opt_list: "x \<in> set (opt_list y) \<longleftrightarrow> y = Some x"
  by (cases y) auto

lemma concat_opt_list_fixed: "(\<And>x. x \<in> set xs \<Longrightarrow> f x = Some x) \<Longrightarrow> concat (map (\<lambda>x. opt_list (f x)) xs) = xs"
  by (induction xs) simp_all

fun child_canonical :: "ContentListChild \<Rightarrow> bool" where
  "child_canonical (ItemParagraph inlines) = inlines_canonical inlines"
| "child_canonical (ItemList k items) \<longleftrightarrow> items \<noteq> [] \<and>
     (\<forall>item\<in>set items. item \<noteq> [] \<and> last item \<noteq> ItemParagraph [] \<and> (\<forall>child\<in>set item. child_canonical child))"

lemma normalize_child_canonical: "normalize_child c = Some c' \<Longrightarrow> child_canonical c'"
proof (induction c arbitrary: c' rule: normalize_child.induct)
  case (2 k items)
  let ?norm = "\<lambda>item. drop_trailing (\<lambda>c. c = ItemParagraph [])
    (concat (map (\<lambda>child. opt_list (normalize_child child)) item))"
  have "child_canonical child" if "item \<in> set items" "child \<in> set (?norm item)" for item child
    using drop_trailing_set [OF that(2)] "2.IH" [OF that(1)] by (auto simp: set_opt_list)
  moreover have "last (?norm item) \<noteq> ItemParagraph []" if "?norm item \<noteq> []" for item
    using drop_trailing_last [OF that] .
  ultimately show ?case using "2.prems" by (auto simp: Let_def split: if_splits)
qed auto

lemma normalize_child_fixed: "child_canonical c \<Longrightarrow> normalize_child c = Some c"
proof (induction c rule: normalize_child.induct)
  case (2 k items)
  have "drop_trailing (\<lambda>c. c = ItemParagraph []) (concat (map (\<lambda>child. opt_list (normalize_child child)) item)) = item"
    if "item \<in> set items" for item
    using that 2 by (simp add: concat_opt_list_fixed drop_trailing_fixed)
  then have "map (\<lambda>item. drop_trailing (\<lambda>c. c = ItemParagraph [])
      (concat (map (\<lambda>child. opt_list (normalize_child child)) item))) items = items"
    by (simp add: map_idI)
  moreover have "filter (\<lambda>content. content \<noteq> []) items = items" using "2.prems" by (simp add: filter_id_conv)
  ultimately show ?case using "2.prems" by (simp add: Let_def)
qed (simp add: normalizeInlineList_fixed)

fun block_canonical :: "ContentBlock \<Rightarrow> bool" where
  "block_canonical (Paragraph inlines) = inlines_canonical inlines"
| "block_canonical (BlockList k items) = child_canonical (ItemList k items)"
| "block_canonical (CodeBlock language text) = (case language of None \<Rightarrow> True | Some l \<Rightarrow> CODE_LANGUAGE_PATTERN l)"
| "block_canonical (BlockMath latex) = True"
| "block_canonical (Table rows) = (\<forall>row\<in>set rows. \<forall>cell\<in>set row. \<forall>paragraph\<in>set cell. inlines_canonical paragraph)"

definition doc_canonical :: "ContentDocumentV1 \<Rightarrow> bool" where
  "doc_canonical doc \<longleftrightarrow> doc_docVersion doc = CONTENT_DOC_VERSION \<and> doc_type doc = ''doc'' \<and>
     list_all block_canonical (doc_content doc) \<and>
     (doc_content doc = [] \<or> last (doc_content doc) \<noteq> Paragraph [])"

lemma normalize_block_canonical: "normalize_block b = Some b' \<Longrightarrow> block_canonical b'"
proof (cases b)
  case (BlockList k items)
  assume "normalize_block b = Some b'"
  then obtain c where c: "normalize_child (ItemList k items) = Some c" "b' = child_block c"
    by (auto simp: BlockList simp del: normalize_child.simps)
  then obtain items' where "c = ItemList k items'" by (auto simp: Let_def split: if_splits)
  with normalize_child_canonical [OF c(1)] c(2) show ?thesis by simp
qed (auto split: option.splits if_splits)

lemma normalize_block_fixed: "block_canonical b \<Longrightarrow> normalize_block b = Some b"
proof (cases b)
  case (CodeBlock language t)
  assume "block_canonical b"
  then show ?thesis by (auto simp: CodeBlock CODE_LANGUAGE_PATTERN_def split: option.splits)
qed (auto simp: normalizeInlineList_fixed normalize_child_fixed map_idI simp del: normalize_child.simps)

lemma isEmptyParagraph_canonical: "block_canonical b \<Longrightarrow> isEmptyParagraph b \<longleftrightarrow> b = Paragraph []"
proof (cases b)
  case (Paragraph inlines)
  have "inline_canonical i \<Longrightarrow> \<not> is_empty_text i" for i by (cases i) simp_all
  moreover assume "block_canonical b"
  ultimately show ?thesis
    by (cases inlines) (auto simp: Paragraph inlines_canonical_def)
qed simp_all

lemma normalize_canonical:
  assumes "normalizeContentDocument doc = Inr doc'"
  shows "doc_canonical doc'"
proof -
  let ?bs = "concat (map (\<lambda>block. opt_list (normalize_block block)) (doc_content doc))"
  have d: "doc_content doc' = drop_trailing isEmptyParagraph ?bs"
    "doc_docVersion doc' = CONTENT_DOC_VERSION" "doc_type doc' = ''doc''"
    using assms by (auto simp: normalizeContentDocument_def split: if_splits)
  have "b \<in> set ?bs \<Longrightarrow> block_canonical b" for b by (auto simp: set_opt_list normalize_block_canonical)
  then have "block_canonical b" if "b \<in> set (doc_content doc')" for b
    using that d(1) drop_trailing_set by metis
  moreover have "doc_content doc' \<noteq> [] \<Longrightarrow> \<not> isEmptyParagraph (last (doc_content doc'))"
    unfolding d(1) by (rule drop_trailing_last)
  ultimately show ?thesis using d by (auto simp: doc_canonical_def list_all_iff)
qed

lemma normalize_fixed:
  assumes "doc_canonical doc"
  shows "normalizeContentDocument doc = Inr doc"
proof -
  have "concat (map (\<lambda>block. opt_list (normalize_block block)) (doc_content doc)) = doc_content doc"
    using assms by (auto simp: doc_canonical_def list_all_iff intro!: concat_opt_list_fixed normalize_block_fixed)
  moreover have "drop_trailing isEmptyParagraph (doc_content doc) = doc_content doc"
    using assms by (intro drop_trailing_fixed)
      (auto simp: doc_canonical_def list_all_iff isEmptyParagraph_canonical)
  ultimately show ?thesis using assms by (simp add: normalizeContentDocument_def doc_canonical_def)
qed

text \<open>C31: Normalization produces the canonical form and fixes it. Its result has no empty text runs, no two adjacent
  runs with the same marks, marks in canonical order, no empty list items or lists, only well-formed code
  languages and no trailing empty paragraph; normalizing again changes nothing; a document is left as it is
  exactly when it is in this form; and only a document with another envelope is refused.\<close>

theorem normalization_is_canonical_form:
  "(case normalizeContentDocument doc of
      Inl e \<Rightarrow> \<not> (doc_docVersion doc = CONTENT_DOC_VERSION \<and> doc_type doc = ''doc'')
    | Inr doc' \<Rightarrow> doc_canonical doc' \<and> normalizeContentDocument doc' = Inr doc') \<and>
   (normalizeContentDocument doc = Inr doc \<longleftrightarrow> doc_canonical doc)"
proof (rule conjI)
  show "case normalizeContentDocument doc of
      Inl e \<Rightarrow> \<not> (doc_docVersion doc = CONTENT_DOC_VERSION \<and> doc_type doc = ''doc'')
    | Inr doc' \<Rightarrow> doc_canonical doc' \<and> normalizeContentDocument doc' = Inr doc'"
  proof (cases "normalizeContentDocument doc")
    case (Inl e)
    then show ?thesis by (auto simp: normalizeContentDocument_def split: if_splits)
  qed (simp add: normalize_canonical normalize_fixed)
  show "normalizeContentDocument doc = Inr doc \<longleftrightarrow> doc_canonical doc"
    using normalize_canonical normalize_fixed by blast
qed

section \<open>Normalization keeps the text\<close>

text \<open>The characters of a text other than its line breaks.\<close>

definition visible :: "string \<Rightarrow> string" where
  "visible s = filter (\<lambda>c. c \<noteq> CHR 0x0A) s"

lemma visible_simps [simp]: "visible [] = []" "visible (a @ b) = visible a @ visible b" "visible newline = []"
  by (simp_all add: visible_def)

lemma visible_join [simp]: "visible (join_with newline xs) = concat (map visible xs)"
  by (induction xs rule: induct_list012) (simp_all add: visible_def)

lemma concat_map_concat: "concat (map f (concat (map g xs))) = concat (map (\<lambda>x. concat (map f (g x))) xs)"
  by (induction xs) simp_all

lemma concat_map_filter_empty: "(\<And>x. \<not> p x \<Longrightarrow> f x = []) \<Longrightarrow> concat (map f (filter p xs)) = concat (map f xs)"
  by (induction xs) simp_all

lemma concat_map_drop_trailing:
  assumes "\<And>x. p x \<Longrightarrow> f x = []"
  shows "concat (map f (drop_trailing p xs)) = concat (map f xs)"
proof (induction xs rule: rev_induct)
  case (snoc x xs)
  then show ?case using assms by (cases "p x") (auto simp: drop_trailing_def)
qed (simp add: drop_trailing_def)

lemma normalize_child_visible:
  "visible (concat (map project_child (opt_list (normalize_child c)))) = visible (project_child c)"
proof (induction c rule: normalize_child.induct)
  case (2 k items)
  let ?v = "\<lambda>item. concat (map (visible \<circ> project_child) item)"
  let ?norm = "\<lambda>item. drop_trailing (\<lambda>c. c = ItemParagraph [])
    (concat (map (\<lambda>child. opt_list (normalize_child child)) item))"
  have child: "concat (map (visible \<circ> project_child) (opt_list (normalize_child c))) = visible (project_child c)"
    if "item \<in> set items" "c \<in> set item" for item c
    using 2 [OF that] by (cases "normalize_child c") simp_all
  have item: "?v (?norm item) = ?v item" if "item \<in> set items" for item
  proof -
    have "?v (?norm item) = ?v (concat (map (\<lambda>child. opt_list (normalize_child child)) item))"
      by (rule concat_map_drop_trailing) (auto simp: projectInline_def)
    also have "\<dots> = concat (map (\<lambda>c. ?v (opt_list (normalize_child c))) item)"
      by (rule concat_map_concat)
    also have "\<dots> = ?v item" using child [OF that] by (auto intro!: arg_cong [where f = concat] map_cong)
    finally show ?thesis .
  qed
  have "concat (map ?v (filter (\<lambda>content. content \<noteq> []) (map ?norm items))) = concat (map ?v (map ?norm items))"
    by (rule concat_map_filter_empty) simp
  also have "map ?v (map ?norm items) = map ?v items" using item by simp
  finally show ?case by (auto simp: Let_def comp_def)
qed simp

lemma normalize_block_visible:
  "visible (concat (map projectBlock (opt_list (normalize_block b)))) = visible (projectBlock b)"
proof (cases b)
  case (BlockList k items)
  have "projectBlock (child_block c) = project_child c" for c
    by (cases c) (simp_all add: projectListItems_def)
  then show ?thesis
    using normalize_child_visible [of "ItemList k items"]
    by (cases "normalize_child (ItemList k items)")
      (simp_all add: BlockList projectListItems_def del: normalize_child.simps)
qed (simp_all add: comp_def)

text \<open>Normalization never alters the visible text. The plain text projection of the normalized document has
  exactly the characters of the projection of the original, in the same order, up to line breaks (the
  dropped empty paragraphs and list items have no other characters).\<close>

lemma normalization_keeps_text:
  assumes "normalizeContentDocument doc = Inr doc'"
  shows "visible (plainTextProjection doc') = visible (plainTextProjection doc)"
proof -
  let ?v = "\<lambda>bs. concat (map (visible \<circ> projectBlock) bs)"
  have "isEmptyParagraph b \<Longrightarrow> projectBlock b = []" for b
    by (cases b) (auto simp: projectInline_def list_all_iff elim!: is_empty_text.elims)
  then have "?v (doc_content doc') =
      ?v (concat (map (\<lambda>block. opt_list (normalize_block block)) (doc_content doc)))"
    using assms by (auto simp: normalizeContentDocument_def concat_map_drop_trailing split: if_splits)
  also have "\<dots> = concat (map (\<lambda>b. ?v (opt_list (normalize_block b))) (doc_content doc))"
    by (rule concat_map_concat)
  also have "(\<lambda>b. ?v (opt_list (normalize_block b))) = visible \<circ> projectBlock"
  proof
    fix b show "?v (opt_list (normalize_block b)) = (visible \<circ> projectBlock) b"
      using normalize_block_visible [of b] by (cases "normalize_block b") simp_all
  qed
  finally show ?thesis by (simp add: plainTextProjection_def comp_def)
qed

lemma normalization_keeps_text_witness:
  "visible (plainTextProjection \<lparr>doc_docVersion = 1, doc_type = ''doc'',
     doc_content = [Paragraph [TextRun ''ab'' (Some [Bold, Bold])], Paragraph [TextRun '''' None]]\<rparr>) = ''ab''"
proof -
  let ?d = "\<lparr>doc_docVersion = 1, doc_type = ''doc'',
     doc_content = [Paragraph [TextRun ''ab'' (Some [Bold, Bold])], Paragraph [TextRun '''' None]]\<rparr>"
  have "normalizeContentDocument ?d = Inr \<lparr>doc_docVersion = 1, doc_type = ''doc'',
      doc_content = [Paragraph [TextRun ''ab'' (Some [Bold])]]\<rparr>" by code_simp
  from normalization_keeps_text [OF this, symmetric] show ?thesis
    by (simp add: plainTextProjection_def projectInline_def visible_def)
qed

section \<open>Structural equality\<close>

lemma marksEqual_canonical:
  assumes "canonicalMarks a = a" "canonicalMarks b = b"
  shows "marksEqual a b \<longleftrightarrow> a = b"
proof -
  have "a \<noteq> Some []" "b \<noteq> Some []" using canonicalMarks_nonempty [of a] canonicalMarks_nonempty [of b] assms by auto
  then show ?thesis by (cases a; cases b) (auto simp: marksEqual_def list.rel_eq)
qed

lemma list_all2_eq_on:
  assumes "\<And>x y. x \<in> set xs \<Longrightarrow> y \<in> set ys \<Longrightarrow> R x y \<longleftrightarrow> x = y"
  shows "list_all2 R xs ys \<longleftrightarrow> xs = ys"
proof -
  have "list_all2 R xs ys \<longleftrightarrow> list_all2 (=) xs ys" using assms by (intro list.rel_cong) auto
  then show ?thesis by (simp add: list.rel_eq)
qed

lemma inline_equal_canonical:
  "inline_canonical a \<Longrightarrow> inline_canonical b \<Longrightarrow> inline_equal a b \<longleftrightarrow> a = b"
  by (cases "(a, b)" rule: inline_equal.cases) (auto simp: marksEqual_canonical)

lemma inlinesEqual_canonical:
  "inlines_canonical a \<Longrightarrow> inlines_canonical b \<Longrightarrow> inlinesEqual a b \<longleftrightarrow> a = b"
  unfolding inlinesEqual_def
  by (rule list_all2_eq_on) (auto simp: inlines_canonical_def list_all_iff inline_equal_canonical)

lemma child_equal_canonical:
  "child_canonical a \<Longrightarrow> child_canonical b \<Longrightarrow> child_equal a b \<longleftrightarrow> a = b"
proof (induction a b rule: child_equal.induct)
  case (2 k items k' items')
  have "list_all2 (list_all2 child_equal) items items' \<longleftrightarrow> items = items'"
    using 2 by (intro list_all2_eq_on) (auto intro!: list_all2_eq_on)
  then show ?case by simp
qed (auto simp: inlinesEqual_canonical)

lemma block_equal_canonical:
  "block_canonical a \<Longrightarrow> block_canonical b \<Longrightarrow> block_equal a b \<longleftrightarrow> a = b"
proof (cases "(a, b)" rule: block_equal.cases)
  case (2 k items k' items')
  assume "block_canonical a" "block_canonical b"
  with 2 child_equal_canonical [of "ItemList k items" "ItemList k' items'"] show ?thesis
    by (simp del: child_equal.simps child_canonical.simps)
next
  case (5 rows rows')
  assume "block_canonical a" "block_canonical b"
  with 5 have "list_all2 (list_all2 (list_all2 inlinesEqual)) rows rows' \<longleftrightarrow> rows = rows'"
    by (intro list_all2_eq_on) (auto simp: inlinesEqual_canonical)
  with 5 show ?thesis by simp
qed (auto simp: inlinesEqual_canonical)

lemma canonical_documents_equal:
  assumes "doc_canonical a" and "doc_canonical b"
  shows "contentDocumentsEqual a b \<longleftrightarrow> a = b"
proof -
  have "contentDocumentsEqual a b \<longleftrightarrow> doc_content a = doc_content b"
    unfolding contentDocumentsEqual_def
    using assms by (intro list_all2_eq_on) (auto simp: doc_canonical_def list_all_iff block_equal_canonical)
  then show ?thesis using assms by (auto simp: doc_canonical_def)
qed

text \<open>On canonical documents the structural comparison is equality: it tells apart any two canonical documents
  that differ anywhere, and no two that agree.\<close>

lemma structural_equality_decides:
  assumes "doc_canonical a" and "doc_canonical b"
  shows "contentDocumentsEqual a b \<longleftrightarrow> a = b"
  using assms by (rule canonical_documents_equal)

lemma structural_equality_decides_witness:
  "\<not> contentDocumentsEqual
     \<lparr>doc_docVersion = 1, doc_type = ''doc'', doc_content = [Paragraph [TextRun ''a'' (Some [Bold, Italic])]]\<rparr>
     \<lparr>doc_docVersion = 1, doc_type = ''doc'', doc_content = [Paragraph [TextRun ''a'' (Some [Bold])]]\<rparr>"
proof -
  have "doc_canonical \<lparr>doc_docVersion = 1, doc_type = ''doc'',
      doc_content = [Paragraph [TextRun ''a'' (Some [Bold, Italic])]]\<rparr>"
    "doc_canonical \<lparr>doc_docVersion = 1, doc_type = ''doc'', doc_content = [Paragraph [TextRun ''a'' (Some [Bold])]]\<rparr>"
    by code_simp+
  from structural_equality_decides [OF this] show ?thesis by simp
qed

section \<open>Plain text as a document\<close>

lemma split_lines_nonempty [simp]: "split_lines s \<noteq> []"
  by (cases s) (auto split: list.splits)

lemma join_with_Cons: "xs \<noteq> [] \<Longrightarrow> join_with sep (x # xs) = x @ sep @ join_with sep xs"
  by (cases xs) simp_all

lemma join_split_lines: "join_with newline (split_lines s) = s"
proof (induction s)
  case (Cons c s)
  show ?case
  proof (cases "c = CHR 0x0A")
    case False
    obtain l ls where split: "split_lines s = l # ls" by (cases "split_lines s") simp_all
    then show ?thesis using Cons False by (cases ls) (simp_all add: join_with_Cons)
  qed (simp add: Cons join_with_Cons)
qed simp

lemma last_split_lines: "last (split_lines s) = '''' \<longleftrightarrow> s = '''' \<or> last s = CHR 0x0A"
proof (induction s)
  case (Cons c s)
  show ?case
  proof (cases "c = CHR 0x0A")
    case False
    obtain l ls where split: "split_lines s = l # ls" by (cases "split_lines s") simp_all
    then show ?thesis using Cons False join_split_lines [of s] by (cases ls) (auto split: if_splits)
  qed (use Cons in auto)
qed simp

text \<open>Plain text survives the upgrade to a rich document. The projection of the document made of a text is the
  text, whatever its line breaks; and the document is already canonical exactly when the text is not empty
  and does not end in a line break.\<close>

lemma plain_text_round_trip:
  "plainTextProjection (plainTextToDocument s) = s \<and>
   (doc_canonical (plainTextToDocument s) \<longleftrightarrow> s \<noteq> '''' \<and> last s \<noteq> CHR 0x0A)"
proof -
  have "map (projectBlock \<circ> (\<lambda>line. Paragraph (if line = '''' then [] else [TextRun line None]))) ls = ls" for ls
    by (rule map_idI) (simp add: projectInline_def)
  then have "plainTextProjection (plainTextToDocument s) = s"
    by (simp add: plainTextProjection_def plainTextToDocument_def join_split_lines)
  moreover have "inlines_canonical [TextRun line None]" if "line \<noteq> ''''" for line
    using that by (simp add: inlines_canonical_def canonicalMarks_def)
  then have "doc_canonical (plainTextToDocument s) \<longleftrightarrow> last (split_lines s) \<noteq> ''''"
    by (auto simp: doc_canonical_def plainTextToDocument_def list_all_iff last_map)
  ultimately show ?thesis by (simp add: last_split_lines)
qed

section \<open>What the limits walk does not see\<close>

text \<open>A document with one table of one cell of one paragraph.\<close>

definition cell_document :: "ContentInline list \<Rightarrow> ContentDocumentV1" where
  "cell_document inlines = \<lparr>doc_docVersion = CONTENT_DOC_VERSION, doc_type = ''doc'',
     doc_content = [Table [[[inlines]]]]\<rparr>"

lemma cell_document_limits:
  "checkContentDocumentLimits num (cell_document inlines) = [] \<longleftrightarrow>
     length (json_stringify num (document_json (cell_document inlines))) \<le> LIMIT_serializedChars"
  by (simp add: checkContentDocumentLimits_def cell_document_def Let_def enter_node_def count_node_def
      LIMIT_defs violation_def del: json_stringify.simps)

lemma js_join_replicate: "length (js_join (replicate n s)) \<le> n * Suc (length s)"
proof (induction n)
  case (Suc n)
  then show ?case by (cases n) simp_all
qed simp

text \<open>The content of a table cell is outside the node and text limits. Whatever inline nodes a table cell
  holds, the only limit a document with that cell is held to is its serialized size: neither the number of
  nodes nor the length of a text run or formula in the cell is counted. In particular a document with
  three thousand nodes in a cell is reported to be within limits.\<close>

lemma table_cells_escape_limits:
  assumes "num 1 = ''1''"
  shows "(checkContentDocumentLimits num (cell_document inlines) = [] \<longleftrightarrow>
      length (json_stringify num (document_json (cell_document inlines))) \<le> LIMIT_serializedChars) \<and>
    checkContentDocumentLimits num (cell_document (replicate 3000 HardBreak)) = []"
proof -
  have "length (json_stringify num (inline_json HardBreak)) = 20"
    by (simp add: json_quote_def json_escape_def)
  then have "length (js_join (replicate 3000 (json_stringify num (inline_json HardBreak)))) \<le> 63000"
    using js_join_replicate [of 3000 "json_stringify num (inline_json HardBreak)"] by simp
  then show ?thesis
    using assms by (simp only: cell_document_limits)
      (simp add: cell_document_def document_json_def node_json_def paragraph_json_def json_quote_def json_escape_def
        CONTENT_DOC_VERSION_def LIMIT_defs map_replicate)
qed

lemma table_cells_escape_limits_witness:
  "checkContentDocumentLimits (\<lambda>n. ''1'') (cell_document (replicate 3000 HardBreak)) = []"
  using table_cells_escape_limits [of "\<lambda>n. ''1''"] by (simp only: refl)

end
