(* ===== verification/Content_Seams.thy ===== *)
theory Content_Seams
  imports Rich_Canonical Domain
begin

text \<open>
  The seams at which rich content is written and read: the wire schema and the canonicalization of
  \<^verbatim>\<open>packages/contracts/src/contentDocument.ts\<close>, the read classifiers of \<^verbatim>\<open>persistedQuestionContent.ts\<close> and
  \<^verbatim>\<open>persistedRichAnswer.ts\<close>, and the API's answer validation, question content write and export view
  (\<^verbatim>\<open>validateAnswerForQuestion.ts\<close>, \<^verbatim>\<open>questionContent.ts\<close>, \<^verbatim>\<open>attemptExportAnswer.ts\<close>).

  The schema library that parses a JSON value against the declared object shapes is a parameter,
  \<open>grammar\<close>; the locale \<open>content_grammar\<close> states what it promises: it accepts the JSON form of a document
  exactly as that document when the declared restrictions (\<open>document_schema\<close>) hold, it returns only
  documents that satisfy them, and it does not transform.
\<close>

section \<open>Durable strings\<close>

text \<open>Code units: the regular expression \<^verbatim>\<open>UNREPRESENTABLE_CHAR\<close> looks for a zero, a high surrogate that
  no low surrogate follows, or a low surrogate that no high surrogate precedes. \<open>prev\<close> is the unit before
  the position.\<close>

definition high_surrogate :: "nat \<Rightarrow> bool" where
  "high_surrogate u \<longleftrightarrow> 0xD800 \<le> u \<and> u \<le> 0xDBFF"

definition low_surrogate :: "nat \<Rightarrow> bool" where
  "low_surrogate u \<longleftrightarrow> 0xDC00 \<le> u \<and> u \<le> 0xDFFF"

fun unrepresentable :: "nat option \<Rightarrow> nat list \<Rightarrow> bool" where
  "unrepresentable prev [] = False"
| "unrepresentable prev (u # us) \<longleftrightarrow>
     u = 0 \<or>
     high_surrogate u \<and> \<not> (case us of [] \<Rightarrow> False | v # _ \<Rightarrow> low_surrogate v) \<or>
     low_surrogate u \<and> \<not> (case prev of None \<Rightarrow> False | Some p \<Rightarrow> high_surrogate p) \<or>
     unrepresentable (Some u) us"

definition durable_units :: "nat list \<Rightarrow> bool" where
  "durable_units units \<longleftrightarrow> \<not> unrepresentable None units"

definition isDurableRichString :: "string \<Rightarrow> bool" where
  "isDurableRichString value \<longleftrightarrow> durable_units (map of_char value)"

section \<open>The wire schema\<close>

text \<open>The restrictions that the schemas declare on the nodes of a document.\<close>

fun inline_schema :: "ContentInline \<Rightarrow> bool" where
  "inline_schema (TextRun text marks) \<longleftrightarrow> length text \<le> LIMIT_textRun \<and> isDurableRichString text \<and>
     (case marks of None \<Rightarrow> True | Some ms \<Rightarrow> \<not> (InlineCode \<in> set ms \<and> length ms > 1))"
| "inline_schema HardBreak = True"
| "inline_schema (InlineMath latex) \<longleftrightarrow> 1 \<le> length latex \<and> length latex \<le> LIMIT_latex \<and> isDurableRichString latex"

fun child_schema :: "ContentListChild \<Rightarrow> bool" where
  "child_schema (ItemParagraph inlines) = list_all inline_schema inlines"
| "child_schema (ItemList k items) = list_all (list_all child_schema) items"

fun block_schema :: "ContentBlock \<Rightarrow> bool" where
  "block_schema (Paragraph inlines) = list_all inline_schema inlines"
| "block_schema (BlockList k items) = list_all (list_all child_schema) items"
| "block_schema (CodeBlock language text) \<longleftrightarrow>
     (case language of None \<Rightarrow> True | Some l \<Rightarrow> CODE_LANGUAGE_PATTERN l) \<and>
     length text \<le> LIMIT_codeBlock \<and> isDurableRichString text"
| "block_schema (BlockMath latex) \<longleftrightarrow> 1 \<le> length latex \<and> length latex \<le> LIMIT_latex \<and> isDurableRichString latex"
| "block_schema (Table rows) \<longleftrightarrow> rows \<noteq> [] \<and>
     list_all (\<lambda>row. row \<noteq> [] \<and> list_all (\<lambda>cell. cell \<noteq> [] \<and> list_all (list_all inline_schema) cell) row) rows \<and>
     list_all (\<lambda>row. length row = length (hd rows)) rows"

definition document_schema :: "ContentDocumentV1 \<Rightarrow> bool" where
  "document_schema doc \<longleftrightarrow> doc_docVersion doc = CONTENT_DOC_VERSION \<and> doc_type doc = ''doc'' \<and>
     list_all block_schema (doc_content doc)"

type_synonym grammar = "json \<Rightarrow> string + ContentDocumentV1"

text \<open>\<^verbatim>\<open>ContentDocumentV1Schema\<close>: the preflight, then the grammar, then the structural limits. The result carries the
  first issue.\<close>

definition ContentDocumentV1Schema :: "(jsnum \<Rightarrow> string) \<Rightarrow> grammar \<Rightarrow> json \<Rightarrow> string + ContentDocumentV1" where
  "ContentDocumentV1Schema num grammar value =
     (case preflightContentDocumentStructure num value of
        issue # _ \<Rightarrow> Inl issue
      | [] \<Rightarrow>
          (case grammar value of
             Inl issue \<Rightarrow> Inl issue
           | Inr doc \<Rightarrow>
               (case checkContentDocumentLimits num doc of issue # _ \<Rightarrow> Inl issue | [] \<Rightarrow> Inr doc)))"

text \<open>The result is \<open>Inl reason\<close> when the canonical form is refused.\<close>

definition canonicalizeContentDocument ::
  "(jsnum \<Rightarrow> string) \<Rightarrow> grammar \<Rightarrow> ContentDocumentV1 \<Rightarrow> app_error + (string + ContentDocumentV1)" where
  "canonicalizeContentDocument num grammar doc =
     bindR (normalizeContentDocument doc) (\<lambda>canonical.
     Inr (ContentDocumentV1Schema num grammar (document_json canonical)))"

section \<open>Read classifiers\<close>

text \<open>The interpretation of a value that is not null where rich content is expected; both classifiers end in it.\<close>

datatype rich_read =
    ReadValid ContentDocumentV1 | ReadNoncanonical ContentDocumentV1 | ReadUnsupported | ReadCorrupt

fun unsupported_version :: "json \<Rightarrow> bool" where
  "unsupported_version (JObj es) =
     (case map_of es ''docVersion'' of Some (JNum n) \<Rightarrow> n \<noteq> CONTENT_DOC_VERSION | _ \<Rightarrow> False)"
| "unsupported_version _ = False"

definition classify_rich :: "(jsnum \<Rightarrow> string) \<Rightarrow> grammar \<Rightarrow> json \<Rightarrow> app_error + rich_read" where
  "classify_rich num grammar value =
     (if unsupported_version value then Inr ReadUnsupported
      else if \<not> isContentDocumentV1 value then Inr ReadCorrupt
      else if preflightContentDocumentStructure num value \<noteq> [] then Inr ReadCorrupt
      else case ContentDocumentV1Schema num grammar value of
          Inl _ \<Rightarrow> Inr ReadCorrupt
        | Inr doc \<Rightarrow>
            bindR (canonicalizeContentDocument num grammar doc) (\<lambda>canonical.
            case canonical of
              Inl _ \<Rightarrow> Inr (ReadNoncanonical doc)
            | Inr value' \<Rightarrow> Inr (if contentDocumentsEqual doc value' then ReadValid doc else ReadNoncanonical doc)))"

datatype PersistedQuestionContentReadState =
    QuestionPlain | RichValid ContentDocumentV1 | RichNoncanonical ContentDocumentV1
  | UnsupportedVersion json | CorruptContent json

definition classifyPersistedQuestionContent ::
  "(jsnum \<Rightarrow> string) \<Rightarrow> grammar \<Rightarrow> json option \<Rightarrow> app_error + PersistedQuestionContentReadState" where
  "classifyPersistedQuestionContent num grammar value =
     (case value of
        None \<Rightarrow> Inr QuestionPlain
      | Some JNull \<Rightarrow> Inr QuestionPlain
      | Some v \<Rightarrow>
          bindR (classify_rich num grammar v) (\<lambda>r.
          Inr (case r of
             ReadValid doc \<Rightarrow> RichValid doc
           | ReadNoncanonical doc \<Rightarrow> RichNoncanonical doc
           | ReadUnsupported \<Rightarrow> UnsupportedVersion v
           | ReadCorrupt \<Rightarrow> CorruptContent v)))"

definition resolvePersistedQuestionDocument ::
  "(jsnum \<Rightarrow> string) \<Rightarrow> grammar \<Rightarrow> json option \<Rightarrow> app_error + ContentDocumentV1 option" where
  "resolvePersistedQuestionDocument num grammar value =
     bindR (classifyPersistedQuestionContent num grammar value) (\<lambda>r.
     Inr (case r of RichValid doc \<Rightarrow> Some doc | RichNoncanonical doc \<Rightarrow> Some doc | _ \<Rightarrow> None))"

datatype RichAnswerReadState =
    AnswerEmpty | AnswerPlain string | AnswerLegacyPlain string
  | AnswerRichValid ContentDocumentV1 | AnswerRichNoncanonical ContentDocumentV1
  | AnswerUnsupportedVersion json | AnswerCorrupt json

definition classifyPersistedRichAnswer ::
  "(jsnum \<Rightarrow> string) \<Rightarrow> grammar \<Rightarrow> json option \<Rightarrow> ContentMode option \<Rightarrow> bool \<Rightarrow> app_error + RichAnswerReadState" where
  "classifyPersistedRichAnswer num grammar value answerMode legacyPlainProvenance =
     (case value of
        None \<Rightarrow> Inr AnswerEmpty
      | Some JNull \<Rightarrow> Inr AnswerEmpty
      | Some v \<Rightarrow>
          if answerMode \<noteq> Some RichMode
          then (case v of JStr s \<Rightarrow> Inr (AnswerPlain s) | _ \<Rightarrow> Inr (AnswerCorrupt v))
          else (case v of
             JStr s \<Rightarrow> if legacyPlainProvenance then Inr (AnswerLegacyPlain s) else Inr (AnswerCorrupt v)
           | _ \<Rightarrow>
               bindR (classify_rich num grammar v) (\<lambda>r.
               Inr (case r of
                  ReadValid doc \<Rightarrow> AnswerRichValid doc
                | ReadNoncanonical doc \<Rightarrow> AnswerRichNoncanonical doc
                | ReadUnsupported \<Rightarrow> AnswerUnsupportedVersion v
                | ReadCorrupt \<Rightarrow> AnswerCorrupt v))))"

definition resolveRichAnswerDocument ::
  "(jsnum \<Rightarrow> string) \<Rightarrow> grammar \<Rightarrow> json option \<Rightarrow> ContentMode option \<Rightarrow> app_error + ContentDocumentV1 option" where
  "resolveRichAnswerDocument num grammar answer answerMode =
     bindR (classifyPersistedRichAnswer num grammar answer answerMode False) (\<lambda>r.
     Inr (case r of AnswerRichValid doc \<Rightarrow> Some doc | AnswerRichNoncanonical doc \<Rightarrow> Some doc | _ \<Rightarrow> None))"

section \<open>Answer validation\<close>

text \<open>The number of separators \<^verbatim>\<open>____\<close> at which the text of a question splits.\<close>

fun blank_count :: "string \<Rightarrow> nat" where
  "blank_count (a # b # c # d # cs) =
     (if [a, b, c, d] = ''____'' then Suc (blank_count cs) else blank_count (b # c # d # cs))"
| "blank_count _ = 0"

definition blankUniverse :: "(jsnum \<Rightarrow> string) \<Rightarrow> string \<Rightarrow> string list" where
  "blankUniverse num content = map (\<lambda>i. ''blank-'' @ num (of_nat i)) [1..<blank_count content + 1]"

fun json_is_string :: "json \<Rightarrow> bool" where
  "json_is_string (JStr _) = True"
| "json_is_string _ = False"

fun json_string :: "json \<Rightarrow> string" where
  "json_string (JStr s) = s"
| "json_string _ = ''''"

text \<open>The loop over the entries of a fill-blank answer: the reason of the first entry that is refused.\<close>

fun check_blanks :: "string list \<Rightarrow> (string \<times> json) list \<Rightarrow> string option" where
  "check_blanks allowed [] = None"
| "check_blanks allowed ((key, value) # es) =
     (if \<not> json_is_string value then Some ''fill_blank answer values must be strings''
      else if key \<notin> set allowed
      then Some (''fill_blank answer key '' @ key @ '' is outside the question's blank universe'')
      else check_blanks allowed es)"

text \<open>\<open>Inl\<close> carries the reason of a refusal, \<open>Inr\<close> the value to persist.\<close>

definition validate_rich_answer :: "(jsnum \<Rightarrow> string) \<Rightarrow> grammar \<Rightarrow> json \<Rightarrow> app_error + (string + json)" where
  "validate_rich_answer num grammar answer =
     (case preflightContentDocumentStructure num answer of
        issue # _ \<Rightarrow> Inr (Inl (''rich text_response answer is not a valid ContentDocumentV1: '' @ issue))
      | [] \<Rightarrow>
          (case ContentDocumentV1Schema num grammar answer of
             Inl _ \<Rightarrow> Inr (Inl ''rich text_response answer must be a valid ContentDocumentV1'')
           | Inr doc \<Rightarrow>
               bindR (canonicalizeContentDocument num grammar doc) (\<lambda>canonical.
               Inr (case canonical of
                  Inl _ \<Rightarrow> Inl ''rich text_response answer must be a valid ContentDocumentV1''
                | Inr value \<Rightarrow> Inr (document_json value)))))"

definition validateAnswerForQuestion ::
  "(jsnum \<Rightarrow> string) \<Rightarrow> grammar \<Rightarrow> QuestionSnapshot \<Rightarrow> json \<Rightarrow> app_error + (string + json)" where
  "validateAnswerForQuestion num grammar question answer =
     (if answer = JNull then Inr (Inr JNull)
      else
        let optionIds = map op_id (qs_options question)
        in case qs_type question of
          SingleChoice \<Rightarrow>
            (case answer of
               JStr s \<Rightarrow>
                 if s \<in> set optionIds then Inr (Inr answer)
                 else Inr (Inl ''single_choice answer must be an option id'')
             | _ \<Rightarrow> Inr (Inl ''single_choice answer must be an option id''))
        | MultipleChoice \<Rightarrow>
            (case answer of
               JArr vs \<Rightarrow>
                 if \<not> list_all json_is_string vs
                 then Inr (Inl ''multiple_choice answer must be an array of option ids'')
                 else if \<not> list_all (\<lambda>v. json_string v \<in> set optionIds) vs
                 then Inr (Inl ''multiple_choice answer references an unknown option'')
                 else Inr (Inr answer)
             | _ \<Rightarrow> Inr (Inl ''multiple_choice answer must be an array of option ids''))
        | TrueFalse \<Rightarrow>
            (case answer of
               JBool _ \<Rightarrow> Inr (Inr answer)
             | _ \<Rightarrow> Inr (Inl ''true_false answer must be a boolean''))
        | FillBlank \<Rightarrow>
            (case answer of
               JStr _ \<Rightarrow> Inr (Inr answer)
             | JObj es \<Rightarrow>
                 (case check_blanks (blankUniverse num (qs_content question)) es of
                    Some reason \<Rightarrow> Inr (Inl reason)
                  | None \<Rightarrow> Inr (Inr answer))
             | _ \<Rightarrow> Inr (Inl ''fill_blank answer must be a string or a Record<string,string>''))
        | TextResponse \<Rightarrow>
            if qs_answerMode question \<noteq> Some RichMode
            then (case answer of
                JStr _ \<Rightarrow> Inr (Inr answer)
              | _ \<Rightarrow> Inr (Inl ''plain text_response answer must be a string''))
            else validate_rich_answer num grammar answer)"

section \<open>Question content writes\<close>

record OptionWriteInput =
  ow_id :: ident
  ow_content :: "string option"
  ow_contentDocument :: "ContentDocumentV1 option"
  ow_isCorrect :: "bool option"

record ResolvedOption =
  ro_id :: ident
  ro_content :: string
  ro_contentDocument :: "ContentDocumentV1 option"
  ro_isCorrect :: "bool option"

record QuestionContentInput =
  qi_content :: "string option"
  qi_contentDocument :: "ContentDocumentV1 option"
  qi_answerMode :: "ContentMode option"
  qi_options :: "OptionWriteInput list"

record ResolvedQuestionContent =
  rc_content :: string
  rc_contentDocument :: "ContentDocumentV1 option"
  rc_answerMode :: "ContentMode option"
  rc_options :: "ResolvedOption list"

definition resolveOption ::
  "(jsnum \<Rightarrow> string) \<Rightarrow> grammar \<Rightarrow> OptionWriteInput \<Rightarrow> app_error + ResolvedOption" where
  "resolveOption num grammar opt =
     (case ow_contentDocument opt of
        Some doc \<Rightarrow>
          bindR (canonicalizeContentDocument num grammar doc) (\<lambda>canonical.
          case canonical of
            Inl reason \<Rightarrow> Inl (ValidationError
              (''option '' @ ow_id opt @ '' contentDocument violates canonical limits: '' @ reason))
          | Inr value \<Rightarrow> Inr \<lparr>ro_id = ow_id opt, ro_content = plainTextProjection value,
              ro_contentDocument = Some value, ro_isCorrect = ow_isCorrect opt\<rparr>)
      | None \<Rightarrow>
          (case ow_content opt of
             None \<Rightarrow> Inl (ValidationError (''option '' @ ow_id opt @ '' requires content''))
           | Some content \<Rightarrow> Inr \<lparr>ro_id = ow_id opt, ro_content = content, ro_contentDocument = None,
               ro_isCorrect = ow_isCorrect opt\<rparr>))"

definition resolveQuestionContentWrite ::
  "(jsnum \<Rightarrow> string) \<Rightarrow> grammar \<Rightarrow> QuestionContentInput \<Rightarrow> app_error + ResolvedQuestionContent" where
  "resolveQuestionContentWrite num grammar input =
     bindR (mapR (resolveOption num grammar) (qi_options input)) (\<lambda>options.
     case qi_contentDocument input of
       Some doc \<Rightarrow>
         bindR (canonicalizeContentDocument num grammar doc) (\<lambda>canonical.
         case canonical of
           Inl reason \<Rightarrow> Inl (ValidationError (''contentDocument violates canonical limits: '' @ reason))
         | Inr value \<Rightarrow> Inr \<lparr>rc_content = plainTextProjection value, rc_contentDocument = Some value,
             rc_answerMode = qi_answerMode input, rc_options = options\<rparr>)
     | None \<Rightarrow>
         (case qi_content input of
            None \<Rightarrow> Inl (ValidationError ''content is required'')
          | Some content \<Rightarrow> Inr \<lparr>rc_content = content, rc_contentDocument = None,
              rc_answerMode = qi_answerMode input, rc_options = options\<rparr>))"

text \<open>The guard of a partial update; the outer option of \<open>updateDocument\<close> tells whether the field is present.\<close>

definition assertRichContentUpdateAllowed ::
  "ContentDocumentV1 option \<Rightarrow> string option \<Rightarrow> ContentDocumentV1 option option \<Rightarrow> app_error + unit" where
  "assertRichContentUpdateAllowed storedDocument updateContent updateDocument =
     guardR (\<not> (storedDocument \<noteq> None \<and> updateContent \<noteq> None \<and> updateDocument = None))
       (ValidationError ''content is derived from contentDocument for rich questions; send contentDocument or clear it (null) instead'')"

section \<open>Export\<close>

fun string_of_json :: "(jsnum \<Rightarrow> string) \<Rightarrow> json \<Rightarrow> string" where
  "string_of_json num JNull = ''null''"
| "string_of_json num (JBool b) = (if b then ''true'' else ''false'')"
| "string_of_json num (JNum n) = num n"
| "string_of_json num (JStr s) = s"
| "string_of_json num (JArr vs) = js_join (map (\<lambda>v. if v = JNull then '''' else string_of_json num v) vs)"
| "string_of_json num (JObj es) = ''[object Object]''"

fun formatPlainExportValue :: "(jsnum \<Rightarrow> string) \<Rightarrow> json option \<Rightarrow> string" where
  "formatPlainExportValue num None = ''''"
| "formatPlainExportValue num (Some JNull) = ''''"
| "formatPlainExportValue num (Some (JStr s)) = s"
| "formatPlainExportValue num (Some (JArr vs)) = join_with ''; '' (map (string_of_json num) vs)"
| "formatPlainExportValue num (Some v) = json_stringify num v"

datatype PersistedRichAnswerState =
    StateEmpty | StatePlain | StateLegacyPlain | StateRichValid | StateRichNoncanonical
  | StateUnsupportedVersion | StateCorrupt

record ExportAnswerView =
  ev_mode :: ContentMode
  ev_integrity :: PersistedRichAnswerState
  ev_projection :: "string option"

definition export_view :: "ContentMode \<Rightarrow> RichAnswerReadState \<Rightarrow> ExportAnswerView" where
  "export_view mode r =
     (case r of
        AnswerEmpty \<Rightarrow> \<lparr>ev_mode = mode, ev_integrity = StateEmpty, ev_projection = None\<rparr>
      | AnswerPlain s \<Rightarrow> \<lparr>ev_mode = mode, ev_integrity = StatePlain, ev_projection = Some s\<rparr>
      | AnswerLegacyPlain s \<Rightarrow> \<lparr>ev_mode = mode, ev_integrity = StateLegacyPlain, ev_projection = Some s\<rparr>
      | AnswerRichValid doc \<Rightarrow> \<lparr>ev_mode = mode, ev_integrity = StateRichValid,
          ev_projection = Some (plainTextProjection doc)\<rparr>
      | AnswerRichNoncanonical doc \<Rightarrow> \<lparr>ev_mode = mode, ev_integrity = StateRichNoncanonical,
          ev_projection = Some (plainTextProjection doc)\<rparr>
      | AnswerUnsupportedVersion _ \<Rightarrow> \<lparr>ev_mode = mode, ev_integrity = StateUnsupportedVersion, ev_projection = None\<rparr>
      | AnswerCorrupt _ \<Rightarrow> \<lparr>ev_mode = mode, ev_integrity = StateCorrupt, ev_projection = None\<rparr>)"

definition resolveExportAnswerView ::
  "(jsnum \<Rightarrow> string) \<Rightarrow> grammar \<Rightarrow> QuestionType \<Rightarrow> ContentMode option \<Rightarrow> json option \<Rightarrow> app_error + ExportAnswerView" where
  "resolveExportAnswerView num grammar questionType answerMode value =
     (let mode = (if answerMode = Some RichMode then RichMode else PlainMode);
          absent = (value = None \<or> value = Some JNull)
      in if questionType \<noteq> TextResponse
         then Inr \<lparr>ev_mode = PlainMode, ev_integrity = (if absent then StateEmpty else StatePlain),
           ev_projection = (if absent then None else Some (formatPlainExportValue num value))\<rparr>
         else
           bindR (classifyPersistedRichAnswer num grammar value answerMode False) (\<lambda>r.
           Inr (export_view mode r)))"

section \<open>Laws of the seams\<close>

text \<open>What the schema library promises of parsing against the declared shapes.\<close>

locale content_grammar =
  fixes grammar :: grammar
  assumes accepts: "document_schema doc \<Longrightarrow> grammar (document_json doc) = Inr doc"
    and returns_valid: "grammar value = Inr doc \<Longrightarrow> document_schema doc"
    and no_transform: "grammar (document_json doc) = Inr doc' \<Longrightarrow> doc' = doc"
begin

lemma schema_Inr_iff:
  "ContentDocumentV1Schema num grammar (document_json doc) = Inr doc' \<longleftrightarrow>
     doc' = doc \<and> document_schema doc \<and> checkContentDocumentLimits num doc = []"
proof
  assume "ContentDocumentV1Schema num grammar (document_json doc) = Inr doc'"
  then have "grammar (document_json doc) = Inr doc'" "checkContentDocumentLimits num doc' = []"
    by (auto simp: ContentDocumentV1Schema_def split: list.splits sum.splits)
  with no_transform returns_valid show "doc' = doc \<and> document_schema doc \<and> checkContentDocumentLimits num doc = []"
    by blast
next
  assume *: "doc' = doc \<and> document_schema doc \<and> checkContentDocumentLimits num doc = []"
  then have "preflightContentDocumentStructure num (document_json doc) = []"
    by (intro preflight_of_legal) (auto simp: document_schema_def)
  then show "ContentDocumentV1Schema num grammar (document_json doc) = Inr doc'"
    using * accepts [of doc] by (simp add: ContentDocumentV1Schema_def)
qed

lemma schema_returns_valid:
  assumes "ContentDocumentV1Schema num grammar value = Inr doc"
  shows "document_schema doc" "checkContentDocumentLimits num doc = []"
  using assms returns_valid by (auto simp: ContentDocumentV1Schema_def split: list.splits sum.splits)

lemma canonicalize_accepted_iff:
  "canonicalizeContentDocument num grammar doc = Inr (Inr value) \<longleftrightarrow>
     normalizeContentDocument doc = Inr value \<and> document_schema value \<and> checkContentDocumentLimits num value = []"
  by (auto simp: canonicalizeContentDocument_def schema_Inr_iff bindR_Inr_iff)

lemma canonicalize_total:
  assumes "document_schema doc"
  shows "\<exists>r. canonicalizeContentDocument num grammar doc = Inr r"
  using assms by (simp add: canonicalizeContentDocument_def normalizeContentDocument_def document_schema_def)

lemma classify_total: "\<exists>r. classify_rich num grammar value = Inr r"
proof (cases "ContentDocumentV1Schema num grammar value")
  case (Inr doc)
  obtain r where "canonicalizeContentDocument num grammar doc = Inr r"
    using canonicalize_total schema_returns_valid(1) [OF Inr] by blast
  then show ?thesis by (cases r) (simp_all add: classify_rich_def Inr)
qed (simp add: classify_rich_def)

text \<open>Reading the JSON form of a document.\<close>

lemma document_json_envelope:
  assumes "document_schema doc"
  shows "isContentDocumentV1 (document_json doc)" "\<not> unsupported_version (document_json doc)"
  using assms by (simp_all add: document_schema_def document_json_def isContentDocumentV1_def)

lemma classify_valid_iff:
  "classify_rich num grammar (document_json doc) = Inr (ReadValid doc') \<longleftrightarrow>
     doc' = doc \<and> document_schema doc \<and> checkContentDocumentLimits num doc = [] \<and>
     (\<exists>value. canonicalizeContentDocument num grammar doc = Inr (Inr value) \<and> contentDocumentsEqual doc value)"
proof
  assume "classify_rich num grammar (document_json doc) = Inr (ReadValid doc')"
  then obtain d r where c: "ContentDocumentV1Schema num grammar (document_json doc) = Inr d"
      "canonicalizeContentDocument num grammar d = Inr r"
      "(case r of Inl _ \<Rightarrow> Inr (ReadNoncanonical d)
        | Inr v \<Rightarrow> Inr (if contentDocumentsEqual d v then ReadValid d else ReadNoncanonical d)) =
       (Inr (ReadValid doc') :: app_error + rich_read)"
    by (cases "ContentDocumentV1Schema num grammar (document_json doc)")
      (auto simp: classify_rich_def bindR_Inr_iff split: if_split_asm)
  then show "doc' = doc \<and> document_schema doc \<and> checkContentDocumentLimits num doc = [] \<and>
      (\<exists>value. canonicalizeContentDocument num grammar doc = Inr (Inr value) \<and> contentDocumentsEqual doc value)"
    by (cases r) (auto simp: schema_Inr_iff split: if_splits)
next
  assume *: "doc' = doc \<and> document_schema doc \<and> checkContentDocumentLimits num doc = [] \<and>
      (\<exists>value. canonicalizeContentDocument num grammar doc = Inr (Inr value) \<and> contentDocumentsEqual doc value)"
  then have "preflightContentDocumentStructure num (document_json doc) = []"
    by (intro preflight_of_legal) (auto simp: document_schema_def)
  with * show "classify_rich num grammar (document_json doc) = Inr (ReadValid doc')"
    using document_json_envelope [of doc] schema_Inr_iff [of num doc doc] by (auto simp: classify_rich_def)
qed

lemma accepted_reads_valid:
  assumes "canonicalizeContentDocument num grammar doc = Inr (Inr value)"
  shows "classify_rich num grammar (document_json value) = Inr (ReadValid value)"
proof -
  have v: "doc_canonical value" "document_schema value" "checkContentDocumentLimits num value = []"
    using assms normalize_canonical by (auto simp: canonicalize_accepted_iff)
  moreover have "canonicalizeContentDocument num grammar value = Inr (Inr value)"
    using v normalize_fixed by (simp add: canonicalize_accepted_iff)
  moreover have "contentDocumentsEqual value value" using canonical_documents_equal [OF v(1) v(1)] by simp
  ultimately show ?thesis by (auto simp: classify_valid_iff)
qed

end

section \<open>A parser that keeps the promises\<close>

text \<open>A strict object: exactly the declared keys, in any order.\<close>

definition strict_fields :: "string list \<Rightarrow> (string \<times> json) list \<Rightarrow> bool" where
  "strict_fields ks es \<longleftrightarrow> distinct (map fst es) \<and> set (map fst es) = set ks"

fun mark_of :: "json \<Rightarrow> ContentMarkType option" where
  "mark_of (JStr s) = map_of [(''bold'', Bold), (''italic'', Italic), (''underline'', Underline),
     (''inlineCode'', InlineCode)] s"
| "mark_of _ = None"

fun parse_inline :: "json \<Rightarrow> ContentInline option" where
  "parse_inline (JObj es) =
     (case (map_of es ''type'', map_of es ''text'', map_of es ''marks'', map_of es ''latex'') of
        (Some (JStr ty), Some (JStr t), marks, None) \<Rightarrow>
          if ty \<noteq> ''text'' then None
          else (case marks of
             None \<Rightarrow> if strict_fields [''type'', ''text''] es then Some (TextRun t None) else None
           | Some (JArr ms) \<Rightarrow>
               if strict_fields [''type'', ''text'', ''marks''] es
               then map_option (\<lambda>ms. TextRun t (Some ms)) (those (map mark_of ms)) else None
           | Some _ \<Rightarrow> None)
      | (Some (JStr ty), None, None, Some (JStr l)) \<Rightarrow>
          if ty = ''inlineMath'' \<and> strict_fields [''type'', ''latex''] es then Some (InlineMath l) else None
      | (Some (JStr ty), None, None, None) \<Rightarrow>
          if ty = ''hardBreak'' \<and> strict_fields [''type''] es then Some HardBreak else None
      | _ \<Rightarrow> None)"
| "parse_inline _ = None"

text \<open>The children of a strict node of the given type.\<close>

definition node_children :: "string \<Rightarrow> json \<Rightarrow> json list option" where
  "node_children ty value =
     (case value of
        JObj es \<Rightarrow>
          (case (map_of es ''type'', map_of es ''content'') of
             (Some (JStr t), Some (JArr vs)) \<Rightarrow>
               if t = ty \<and> strict_fields [''type'', ''content''] es then Some vs else None
           | _ \<Rightarrow> None)
      | _ \<Rightarrow> None)"

lemma node_children_size:
  assumes "node_children ty value = Some vs" "v \<in> set vs"
  shows "size v < size value"
proof -
  from assms(1) obtain es where es: "value = JObj es" "map_of es ''content'' = Some (JArr vs)"
    by (auto simp: node_children_def split: json.splits option.splits if_splits)
  have "size v < size (JArr vs)"
    using size_list_estimation' [OF assms(2), of "size v" size] by (simp add: less_Suc_eq_le)
  also have "\<dots> < size (JObj es)" using json_obj_size [OF map_of_SomeD [OF es(2)]] by simp
  finally show ?thesis by (simp add: es)
qed

lemma node_children_json [simp]:
  "node_children ty (node_json ty' vs) = (if ty' = ty then Some vs else None)"
  by (simp add: node_children_def node_json_def strict_fields_def)

definition parse_paragraph :: "json \<Rightarrow> ContentParagraph option" where
  "parse_paragraph value =
     (case node_children ''paragraph'' value of None \<Rightarrow> None | Some vs \<Rightarrow> those (map parse_inline vs))"

text \<open>A child of a list item: the schemas of the union are tried in order.\<close>

definition list_node :: "json \<Rightarrow> (list_kind \<times> json list) option" where
  "list_node value =
     (case node_children ''bulletList'' value of
        Some vs \<Rightarrow> Some (BulletList, vs)
      | None \<Rightarrow> map_option (Pair OrderedList) (node_children ''orderedList'' value))"

lemma list_node_size:
  assumes "list_node value = Some (k, items)" "item \<in> set items"
    "node_children ''listItem'' item = Some cs" "c \<in> set cs"
  shows "size c < size value"
proof -
  have "size item < size value"
    using assms(1,2) by (auto simp: list_node_def node_children_size split: option.splits)
  with node_children_size [OF assms(3,4)] show ?thesis by simp
qed

lemma list_node_json [simp]: "list_node (node_json (list_type k) vs) = Some (k, vs)"
  by (cases k) (simp_all add: list_node_def)

function parse_child :: "json \<Rightarrow> ContentListChild option" where
  "parse_child value =
     (case parse_paragraph value of
        Some inlines \<Rightarrow> Some (ItemParagraph inlines)
      | None \<Rightarrow>
          (case list_node value of
             None \<Rightarrow> None
           | Some (k, items) \<Rightarrow>
               map_option (ItemList k) (those (map (\<lambda>item. case node_children ''listItem'' item of
                 None \<Rightarrow> None | Some cs \<Rightarrow> those (map parse_child cs)) items))))"
  by pat_completeness auto

termination
  by (relation "measure size") (auto dest: list_node_size)

declare parse_child.simps [simp del]

fun parse_language :: "json \<Rightarrow> string option option" where
  "parse_language JNull = Some None"
| "parse_language (JStr s) = Some (Some s)"
| "parse_language _ = None"

definition parse_code :: "json \<Rightarrow> ContentBlock option" where
  "parse_code value =
     (case value of
        JObj es \<Rightarrow>
          if strict_fields [''type'', ''language'', ''text''] es \<and> map_of es ''type'' = Some (JStr ''codeBlock'')
          then (case (Option.bind (map_of es ''language'') parse_language, map_of es ''text'') of
              (Some language, Some (JStr t)) \<Rightarrow> Some (CodeBlock language t)
            | _ \<Rightarrow> None)
          else None
      | _ \<Rightarrow> None)"

definition parse_math :: "json \<Rightarrow> ContentBlock option" where
  "parse_math value =
     (case value of
        JObj es \<Rightarrow>
          if strict_fields [''type'', ''latex''] es \<and> map_of es ''type'' = Some (JStr ''blockMath'')
          then (case map_of es ''latex'' of Some (JStr l) \<Rightarrow> Some (BlockMath l) | _ \<Rightarrow> None)
          else None
      | _ \<Rightarrow> None)"

definition parse_node :: "string \<Rightarrow> (json \<Rightarrow> 'a option) \<Rightarrow> json \<Rightarrow> 'a list option" where
  "parse_node ty f value = (case node_children ty value of None \<Rightarrow> None | Some vs \<Rightarrow> those (map f vs))"

definition parse_block :: "json \<Rightarrow> ContentBlock option" where
  "parse_block value =
     (case parse_child value of
        Some c \<Rightarrow> Some (child_block c)
      | None \<Rightarrow>
          (case parse_code value of
             Some b \<Rightarrow> Some b
           | None \<Rightarrow>
               (case parse_math value of
                  Some b \<Rightarrow> Some b
                | None \<Rightarrow> map_option Table
                    (parse_node ''table'' (parse_node ''tableRow'' (parse_node ''tableCell'' parse_paragraph)) value))))"

definition parse_document :: grammar where
  "parse_document value =
     (case value of
        JObj es \<Rightarrow>
          if strict_fields [''docVersion'', ''type'', ''content''] es
          then (case (map_of es ''docVersion'', map_of es ''type'', map_of es ''content'') of
              (Some (JNum n), Some (JStr ty), Some (JArr vs)) \<Rightarrow>
                (case those (map parse_block vs) of
                   None \<Rightarrow> Inl ''Invalid input''
                 | Some bs \<Rightarrow>
                     let doc = \<lparr>doc_docVersion = n, doc_type = ty, doc_content = bs\<rparr>
                     in if document_schema doc then Inr doc else Inl ''Invalid input'')
            | _ \<Rightarrow> Inl ''Invalid input'')
          else Inl ''Invalid input''
      | _ \<Rightarrow> Inl ''Invalid input'')"

lemma those_map_inv: "(\<And>x. x \<in> set xs \<Longrightarrow> f (g x) = Some x) \<Longrightarrow> those (map (f \<circ> g) xs) = Some xs"
  by (induction xs) simp_all

lemma parse_inline_json [simp]: "parse_inline (inline_json i) = Some i"
proof (cases i)
  case (TextRun t marks)
  have "mark_of (JStr (mark_name m)) = Some m" for m by (cases m) simp_all
  then have "those (map (mark_of \<circ> (JStr \<circ> mark_name)) ms) = Some ms" for ms by (intro those_map_inv) simp
  then show ?thesis by (cases marks) (auto simp: TextRun strict_fields_def comp_def)
qed (simp_all add: strict_fields_def)

lemma parse_paragraph_json [simp]: "parse_paragraph (paragraph_json p) = Some p"
  using those_map_inv [of p parse_inline inline_json]
  by (simp add: parse_paragraph_def paragraph_json_def comp_def)

lemma parse_paragraph_other: "ty \<noteq> ''paragraph'' \<Longrightarrow> parse_paragraph (node_json ty vs) = None"
  by (simp add: parse_paragraph_def)

lemma parse_child_json [simp]: "parse_child (child_json c) = Some c"
proof (induction c rule: child_json.induct)
  case (1 inlines)
  then show ?case by (simp add: parse_child.simps)
next
  case (2 k items)
  have "those (map (parse_child \<circ> child_json) item) = Some item" if "item \<in> set items" for item
    using 2 that by (intro those_map_inv) auto
  then have "those (map ((\<lambda>item. case node_children ''listItem'' item of None \<Rightarrow> None
        | Some cs \<Rightarrow> those (map parse_child cs)) \<circ> (\<lambda>item. node_json ''listItem'' (map child_json item))) items) =
      Some items"
    by (intro those_map_inv) simp
  moreover have "parse_paragraph (node_json (list_type k) vs) = None" for vs
    by (cases k) (simp_all add: parse_paragraph_other)
  ultimately show ?case by (subst parse_child.simps) (simp add: comp_def)
qed

lemma parse_node_json: "(\<And>x. x \<in> set xs \<Longrightarrow> f (g x) = Some x) \<Longrightarrow> parse_node ty f (node_json ty (map g xs)) = Some xs"
  using those_map_inv [of xs f g] by (simp add: parse_node_def comp_def)

lemma leaf_node_children:
  "map_of es ''content'' = None \<Longrightarrow> node_children ty (JObj es) = None"
  by (simp add: node_children_def split: option.splits json.splits)

lemma parse_child_leaf: "map_of es ''content'' = None \<Longrightarrow> parse_child (JObj es) = None"
  by (simp add: parse_child.simps parse_paragraph_def list_node_def leaf_node_children)

lemma parse_table_other:
  "parse_child (node_json ''table'' vs) = None" "parse_code (node_json ty vs) = None" "parse_math (node_json ty vs) = None"
proof -
  show "parse_child (node_json ''table'' vs) = None"
    by (simp add: parse_child.simps parse_paragraph_other list_node_def)
qed (auto simp: parse_code_def parse_math_def node_json_def strict_fields_def)

lemma parse_block_json [simp]: "parse_block (block_json b) = Some b"
proof (cases b)
  case (Paragraph inlines)
  then show ?thesis using parse_child_json [of "ItemParagraph inlines"] by (simp add: parse_block_def)
next
  case (BlockList k items)
  then show ?thesis
    using parse_child_json [of "ItemList k items"] by (simp add: parse_block_def del: parse_child_json child_json.simps)
next
  case (CodeBlock language t)
  then show ?thesis
    by (cases language) (simp_all add: parse_block_def parse_child_leaf parse_code_def strict_fields_def)
next
  case (BlockMath l)
  then show ?thesis
    by (simp add: parse_block_def parse_child_leaf parse_code_def parse_math_def strict_fields_def)
next
  case (Table rows)
  then show ?thesis
    by (simp add: parse_block_def parse_table_other parse_node_json)
qed

lemma parse_document_json:
  "parse_document (document_json doc) = (if document_schema doc then Inr doc else Inl ''Invalid input'')"
  using those_map_inv [of "doc_content doc" parse_block block_json]
  by (cases doc) (auto simp: parse_document_def document_json_def strict_fields_def comp_def)

interpretation strict_parser: content_grammar parse_document
proof unfold_locales
  fix json doc
  assume "parse_document json = Inr doc"
  then show "document_schema doc"
    by (auto simp: parse_document_def Let_def split: json.splits option.splits if_splits)
qed (auto simp: parse_document_json split: if_splits)

section \<open>What the seams guarantee\<close>

text \<open>C32: What the write seam accepts, every read seam trusts. A document accepted by canonicalization is canonical
  and within all limits, canonicalizing it again returns it unchanged, and its persisted JSON form is read
  back by the question classifier and the answer classifier as valid rich content with exactly that
  document.\<close>

theorem write_seam_reads_back:
  assumes "content_grammar grammar" and "canonicalizeContentDocument num grammar doc = Inr (Inr v)"
  shows "doc_canonical v \<and> document_schema v \<and> checkContentDocumentLimits num v = [] \<and>
    canonicalizeContentDocument num grammar v = Inr (Inr v) \<and>
    classifyPersistedQuestionContent num grammar (Some (document_json v)) = Inr (RichValid v) \<and>
    classifyPersistedRichAnswer num grammar (Some (document_json v)) (Some RichMode) False = Inr (AnswerRichValid v)"
proof -
  note accepted = content_grammar.canonicalize_accepted_iff [OF assms(1)]
  have v: "doc_canonical v" "document_schema v" "checkContentDocumentLimits num v = []"
    using assms(2) normalize_canonical by (auto simp: accepted)
  moreover have "classify_rich num grammar (document_json v) = Inr (ReadValid v)"
    by (rule content_grammar.accepted_reads_valid [OF assms])
  moreover obtain es where "document_json v = JObj es" by (simp add: document_json_def)
  ultimately show ?thesis
    by (simp add: accepted normalize_fixed classifyPersistedQuestionContent_def classifyPersistedRichAnswer_def)
qed

text \<open>A document as an editor sends it and its canonical form.\<close>

definition sample_rich_input :: ContentDocumentV1 where
  "sample_rich_input = \<lparr>doc_docVersion = 1, doc_type = ''doc'',
     doc_content = [Paragraph [TextRun ''a'' (Some [Bold, Bold]), TextRun ''b'' (Some [Bold])], Paragraph []]\<rparr>"

definition sample_rich :: ContentDocumentV1 where
  "sample_rich = \<lparr>doc_docVersion = 1, doc_type = ''doc'', doc_content = [Paragraph [TextRun ''ab'' (Some [Bold])]]\<rparr>"

lemma sample_rich_accepted:
  "canonicalizeContentDocument unary_num parse_document sample_rich_input = Inr (Inr sample_rich)"
proof -
  have "normalizeContentDocument sample_rich_input = Inr sample_rich" by code_simp
  moreover have "document_schema sample_rich"
    by (simp add: sample_rich_def document_schema_def CONTENT_DOC_VERSION_def LIMIT_defs isDurableRichString_def
        durable_units_def high_surrogate_def low_surrogate_def)
  moreover have "checkContentDocumentLimits unary_num sample_rich = []"
    by (simp add: sample_rich_def checkContentDocumentLimits_def CONTENT_DOC_VERSION_def LIMIT_defs violation_def
        enter_node_def count_node_def document_json_def node_json_def paragraph_json_def json_quote_def json_escape_def
        unary_num_def)
  ultimately show ?thesis by (simp only: strict_parser.canonicalize_accepted_iff)
qed

theorem write_seam_reads_back_witness:
  "classifyPersistedQuestionContent unary_num parse_document (Some (document_json sample_rich)) =
   Inr (RichValid sample_rich)"
  using write_seam_reads_back [OF strict_parser.content_grammar_axioms sample_rich_accepted] by blast

context content_grammar
begin

lemma validate_rich_total: "\<exists>r. validate_rich_answer num grammar answer = Inr r"
proof (cases "ContentDocumentV1Schema num grammar answer")
  case (Inr doc)
  obtain r where "canonicalizeContentDocument num grammar doc = Inr r"
    using canonicalize_total schema_returns_valid(1) [OF Inr] by blast
  then show ?thesis by (simp add: validate_rich_answer_def Inr split: list.splits)
qed (simp add: validate_rich_answer_def split: list.splits)

lemma validate_rich_stable:
  assumes "validate_rich_answer num grammar answer = Inr (Inr stored)"
  obtains v where "stored = document_json v" "validate_rich_answer num grammar stored = Inr (Inr stored)"
    "classify_rich num grammar stored = Inr (ReadValid v)"
proof -
  obtain doc r where "canonicalizeContentDocument num grammar doc = Inr r"
      "(case r of Inl _ \<Rightarrow> Inl ''rich text_response answer must be a valid ContentDocumentV1''
        | Inr v \<Rightarrow> Inr (document_json v)) = Inr stored"
    using assms by (cases "ContentDocumentV1Schema num grammar answer")
      (auto simp: validate_rich_answer_def bindR_Inr_iff split: list.splits)
  then obtain v where v: "canonicalizeContentDocument num grammar doc = Inr (Inr v)" "stored = document_json v"
    by (cases r) auto
  then have ok: "document_schema v" "checkContentDocumentLimits num v = []" "normalizeContentDocument v = Inr v"
    using normalize_canonical normalize_fixed by (auto simp: canonicalize_accepted_iff)
  then have "ContentDocumentV1Schema num grammar (document_json v) = Inr v"
      "canonicalizeContentDocument num grammar v = Inr (Inr v)"
    by (simp_all add: canonicalize_accepted_iff schema_Inr_iff)
  moreover have "preflightContentDocumentStructure num (document_json v) = []"
    using ok by (intro preflight_of_legal) (auto simp: document_schema_def)
  ultimately have "validate_rich_answer num grammar stored = Inr (Inr stored)"
    by (simp add: validate_rich_answer_def v(2))
  with v(2) accepted_reads_valid [OF v(1)] that show ?thesis by simp
qed

lemma document_json_not_null [simp]: "document_json v \<noteq> JNull"
  by (simp add: document_json_def)

end

lemma classify_answer_valid:
  "classify_rich num grammar (document_json v) = Inr (ReadValid d) \<Longrightarrow>
   classifyPersistedRichAnswer num grammar (Some (document_json v)) (Some RichMode) False = Inr (AnswerRichValid d)"
  by (simp add: classifyPersistedRichAnswer_def document_json_def)

text \<open>On the other kinds of slot, validation returns the value it was given.\<close>

lemma validate_not_rich:
  assumes "\<not> (qs_type question = TextResponse \<and> qs_answerMode question = Some RichMode)"
  shows "validateAnswerForQuestion num grammar question answer = Inr (Inr answer) \<or>
    (\<exists>reason. validateAnswerForQuestion num grammar question answer = Inr (Inl reason))"
  using assms by (cases "qs_type question"; cases answer)
    (auto simp: validateAnswerForQuestion_def Let_def split: option.splits)

text \<open>Validated answers are stable and readable. An answer that the save route accepts for a question is accepted
  again unchanged, so a stored answer is a fixed point of validation; for a text question the stored value is
  read by the answer classifier as empty, as plain text on a plain slot, or as valid rich content on a rich
  slot, never as corrupt.\<close>

lemma validated_answer_stable:
  assumes "content_grammar grammar"
    and "validateAnswerForQuestion num grammar question answer = Inr (Inr stored)"
  shows "validateAnswerForQuestion num grammar question stored = Inr (Inr stored) \<and>
    (qs_type question = TextResponse \<longrightarrow>
      (case classifyPersistedRichAnswer num grammar (Some stored) (qs_answerMode question) False of
         Inr AnswerEmpty \<Rightarrow> stored = JNull
       | Inr (AnswerPlain s) \<Rightarrow> stored = JStr s \<and> qs_answerMode question \<noteq> Some RichMode
       | Inr (AnswerRichValid doc) \<Rightarrow> stored = document_json doc \<and> qs_answerMode question = Some RichMode
       | _ \<Rightarrow> False))"
proof (cases "answer \<noteq> JNull \<and> qs_type question = TextResponse \<and> qs_answerMode question = Some RichMode")
  case True
  then have "validate_rich_answer num grammar answer = Inr (Inr stored)"
    using assms(2) by (simp add: validateAnswerForQuestion_def Let_def)
  then obtain v where v: "stored = document_json v" "validate_rich_answer num grammar stored = Inr (Inr stored)"
      "classify_rich num grammar stored = Inr (ReadValid v)"
    by (rule content_grammar.validate_rich_stable [OF assms(1)])
  then have "classifyPersistedRichAnswer num grammar (Some stored) (Some RichMode) False = Inr (AnswerRichValid v)"
    by (simp add: classify_answer_valid)
  with v True show ?thesis by (simp add: validateAnswerForQuestion_def Let_def)
next
  case False
  have "stored = answer"
    using False assms(2) validate_not_rich [of question num grammar answer]
    by (auto simp: validateAnswerForQuestion_def [of _ _ _ JNull])
  with False assms(2) show ?thesis
    by (cases answer) (auto simp: validateAnswerForQuestion_def Let_def classifyPersistedRichAnswer_def split: if_splits)
qed

lemma validated_answer_stable_witness:
  "validateAnswerForQuestion unary_num parse_document
     \<lparr>qs_originalQuestionId = ''q'', qs_type = SingleChoice, qs_content = ''?'', qs_contentDocument = None,
      qs_answerMode = None, qs_attachments = [],
      qs_options = [\<lparr>op_id = ''A'', op_content = ''x'', op_contentDocument = None\<rparr>], qs_standardAnswer = None,
      qs_score = 1, qs_gradingRule = \<lparr>gr_multiSelectScoring = PartialHalf, gr_fillBlankMatchMode = Exact,
        gr_fillBlankCaseSensitive = None\<rparr>, qs_order = 0, qs_rubric = None\<rparr> (JStr ''A'') = Inr (Inr (JStr ''A''))"
  using validated_answer_stable [OF strict_parser.content_grammar_axioms, of unary_num
     "\<lparr>qs_originalQuestionId = ''q'', qs_type = SingleChoice, qs_content = ''?'', qs_contentDocument = None,
      qs_answerMode = None, qs_attachments = [],
      qs_options = [\<lparr>op_id = ''A'', op_content = ''x'', op_contentDocument = None\<rparr>], qs_standardAnswer = None,
      qs_score = 1, qs_gradingRule = \<lparr>gr_multiSelectScoring = PartialHalf, gr_fillBlankMatchMode = Exact,
        gr_fillBlankCaseSensitive = None\<rparr>, qs_order = 0, qs_rubric = None\<rparr>" "JStr ''A''" "JStr ''A''"]
  by (simp add: validateAnswerForQuestion_def)

section \<open>Durable strings are well-formed texts\<close>

definition unicode_scalar :: "nat \<Rightarrow> bool" where
  "unicode_scalar c \<longleftrightarrow> c < 0x110000 \<and> \<not> (0xD800 \<le> c \<and> c \<le> 0xDFFF)"

text \<open>The UTF-16 code units of a Unicode scalar value.\<close>

definition utf16 :: "nat \<Rightarrow> nat list" where
  "utf16 c = (if c < 0x10000 then [c]
     else [0xD800 + (c - 0x10000) div 0x400, 0xDC00 + (c - 0x10000) mod 0x400])"

lemma utf16_durable:
  assumes "\<forall>c\<in>set cs. unicode_scalar c \<and> c \<noteq> 0" and "case prev of None \<Rightarrow> True | Some p \<Rightarrow> \<not> high_surrogate p"
  shows "\<not> unrepresentable prev (concat (map utf16 cs))"
  using assms
proof (induction cs arbitrary: prev)
  case (Cons c cs)
  show ?case
  proof (cases "c < 0x10000")
    case True
    then have "\<not> high_surrogate c" "\<not> low_surrogate c"
      using Cons.prems(1) by (auto simp: unicode_scalar_def high_surrogate_def low_surrogate_def)
    then show ?thesis using Cons True by (simp add: utf16_def)
  next
    case False
    let ?h = "0xD800 + (c - 0x10000) div 0x400" and ?l = "0xDC00 + (c - 0x10000) mod 0x400"
    have "c < 0x110000" using Cons.prems(1) by (simp add: unicode_scalar_def)
    then have "(c - 0x10000) div 0x400 < 0x400" using False by linarith
    moreover have "(c - 0x10000) mod 0x400 < 0x400" by simp
    ultimately have s: "high_surrogate ?h" "\<not> low_surrogate ?h" "low_surrogate ?l" "\<not> high_surrogate ?l"
      unfolding high_surrogate_def low_surrogate_def by linarith+
    then show ?thesis using Cons False by (simp add: utf16_def)
  qed
qed simp

lemma durable_utf16:
  assumes "\<not> unrepresentable prev units" "\<forall>u\<in>set units. u < 0x10000"
    and "case prev of None \<Rightarrow> True | Some p \<Rightarrow> \<not> high_surrogate p"
  shows "\<exists>cs. (\<forall>c\<in>set cs. unicode_scalar c \<and> c \<noteq> 0) \<and> concat (map utf16 cs) = units"
  using assms
proof (induction units arbitrary: prev rule: length_induct)
  case (1 units)
  show ?case
  proof (cases units)
    case Nil
    then show ?thesis by (intro exI [of _ "[]"]) simp
  next
    case (Cons u us)
    show ?thesis
    proof (cases "high_surrogate u")
      case True
      then obtain l rest where us: "us = l # rest" "low_surrogate l" using 1(2) Cons by (cases us) auto
      then have "\<not> high_surrogate l" by (auto simp: high_surrogate_def low_surrogate_def)
      then have "\<exists>cs. (\<forall>c\<in>set cs. unicode_scalar c \<and> c \<noteq> 0) \<and> concat (map utf16 cs) = rest"
        using 1(1) [rule_format, of rest "Some l"] 1(2,3) Cons us True by simp
      then obtain cs where cs: "\<forall>c\<in>set cs. unicode_scalar c \<and> c \<noteq> 0" "concat (map utf16 cs) = rest" by blast
      let ?c = "0x10000 + ((u - 0xD800) * 0x400 + (l - 0xDC00))"
      have lo: "l - 0xDC00 < 0x400" and hi: "u - 0xD800 < 0x400"
        using True us(2) by (auto simp: high_surrogate_def low_surrogate_def)
      have "((u - 0xD800) * 0x400 + (l - 0xDC00)) div 0x400 = u - 0xD800"
          "((u - 0xD800) * 0x400 + (l - 0xDC00)) mod 0x400 = l - 0xDC00"
        using lo by (simp_all only: div_mult_self3 mod_mult_self3 div_less mod_less)
      then have "utf16 ?c = [u, l]"
        using True us(2) unfolding utf16_def high_surrogate_def low_surrogate_def by (simp only: diff_add_inverse) simp
      moreover have "unicode_scalar ?c" using lo hi by (simp add: unicode_scalar_def)
      ultimately show ?thesis using cs us(1) Cons by (intro exI [of _ "?c # cs"]) auto
    next
      case False
      then have u: "u \<noteq> 0" "\<not> low_surrogate u" "\<not> unrepresentable (Some u) us"
        using 1(2,4) Cons by (auto split: option.splits)
      then have "\<exists>cs. (\<forall>c\<in>set cs. unicode_scalar c \<and> c \<noteq> 0) \<and> concat (map utf16 cs) = us"
        using 1(1) [rule_format, of us "Some u"] 1(3) Cons False by simp
      then obtain cs where "\<forall>c\<in>set cs. unicode_scalar c \<and> c \<noteq> 0" "concat (map utf16 cs) = us" by blast
      moreover have "unicode_scalar u" "utf16 u = [u]"
        using u(2) False 1(3) Cons by (auto simp: unicode_scalar_def utf16_def high_surrogate_def low_surrogate_def)
      ultimately show ?thesis using u(1) Cons by (intro exI [of _ "u # cs"]) auto
    qed
  qed
qed

text \<open>The durable-string test is exact. A sequence of 16-bit code units passes the test exactly when it is the
  UTF-16 encoding of a sequence of Unicode scalar values other than zero, which is what the durable platform
  can hold.\<close>

lemma durable_strings_are_well_formed:
  assumes "\<forall>u\<in>set units. u < 0x10000"
  shows "durable_units units \<longleftrightarrow>
    (\<exists>cs. (\<forall>c\<in>set cs. unicode_scalar c \<and> c \<noteq> 0) \<and> concat (map utf16 cs) = units)"
  using durable_utf16 [of None units] utf16_durable [of _ None] assms by (auto simp: durable_units_def)

lemma durable_strings_are_well_formed_witness:
  "\<exists>cs. (\<forall>c\<in>set cs. unicode_scalar c \<and> c \<noteq> 0) \<and> concat (map utf16 cs) = [0x41, 0xD83D, 0xDE00]"
proof -
  have "durable_units [0x41, 0xD83D, 0xDE00]"
    by (simp add: durable_units_def high_surrogate_def low_surrogate_def)
  then show ?thesis by (subst durable_strings_are_well_formed [symmetric]) simp_all
qed

end
