(* ===== verification/Exam_Commands.thy ===== *)
theory Exam_Commands
  imports Exam_Policy Lifecycles Grading_Engine Samples Content_Seams
begin

text \<open>
  \<^verbatim>\<open>packages/exam-engine/src/examCommands.ts\<close>: the administrator's commands on an exam (publish, open,
  close, cancel, unpublish, extend, archive, publish results), the check on access that opens and
  closes an exam by the clock, and the snapshot of the paper that publication freezes.

  Rich content is read by the classifier of \<open>Content_Seams\<close>, whose parameters \<open>num\<close> and \<open>grammar\<close> the
  publication takes over.
\<close>

section \<open>The frozen paper\<close>

text \<open>The placeholders that can be written with 8-bit code units; the list of the source has two
  Chinese words more, which no string of the model equals.\<close>

definition PLACEHOLDER_VALUES :: "string list" where
  "PLACEHOLDER_VALUES = [''n/a'', ''na'', ''null'', ''none'']"

fun isEmptyOrPlaceholder :: "(string \<Rightarrow> string) \<Rightarrow> json option \<Rightarrow> bool" where
  "isEmptyOrPlaceholder lower None = True"
| "isEmptyOrPlaceholder lower (Some JNull) = True"
| "isEmptyOrPlaceholder lower (Some (JStr s)) =
     (let trimmed = lower (js_trim s) in trimmed = [] \<or> List.member PLACEHOLDER_VALUES trimmed)"
| "isEmptyOrPlaceholder lower (Some (JArr xs)) = (xs = [])"
| "isEmptyOrPlaceholder lower (Some (JObj kvs)) = (kvs = [])"
| "isEmptyOrPlaceholder lower (Some (JNum _)) = False"
| "isEmptyOrPlaceholder lower (Some (JBool _)) = False"

definition snapshot_of :: "int \<Rightarrow> QuestionRow \<Rightarrow> QuestionSnapshot" where
  "snapshot_of index q =
     \<lparr>qs_originalQuestionId = qn_id q, qs_type = qn_type q, qs_content = qn_content q,
      qs_contentDocument = qn_contentDocument q, qs_answerMode = qn_answerMode q,
      qs_attachments = qn_attachments q, qs_options = qn_options q,
      qs_standardAnswer = qn_standardAnswer q, qs_score = qn_score q,
      qs_gradingRule = qn_gradingRule q, qs_order = index, qs_rubric = qn_rubric q\<rparr>"

definition buildQuestionSnapshot ::
  "ident list \<Rightarrow> QuestionRow list \<Rightarrow> app_error + QuestionSnapshot list" where
  "buildQuestionSnapshot questionIds questions =
     (let questionMap = map (\<lambda>q. (qn_id q, q)) questions
      in mapR (\<lambda>(index, qid).
           case js_map_get questionMap qid of
             None \<Rightarrow> Inl (ValidationError (''Question '' @ qid @ '' not found''))
           | Some q \<Rightarrow> Inr (snapshot_of (int index) q)) (List.enumerate 0 questionIds))"

definition assertPublishableRichDocument ::
  "(jsnum \<Rightarrow> string) \<Rightarrow> grammar \<Rightarrow> string \<Rightarrow> json option \<Rightarrow> app_error + ContentDocumentV1" where
  "assertPublishableRichDocument num grammar subject contentDocument =
     bindR (classifyPersistedQuestionContent num grammar contentDocument) (\<lambda>state.
     case state of
        RichValid document \<Rightarrow> Inr document
      | RichNoncanonical _ \<Rightarrow> Inl (ValidationError (subject @
          '' contentDocument is not canonical Rich; publish freezes only canonical Rich documents''))
      | UnsupportedVersion _ \<Rightarrow> Inl (ValidationError (subject @
          '' contentDocument carries an unsupported docVersion''))
      | CorruptContent _ \<Rightarrow> Inl (ValidationError (subject @
          '' contentDocument is corrupt or not valid Rich content''))
      | QuestionPlain \<Rightarrow> Inl (ValidationError (subject @ '' contentDocument is missing'')))"

text \<open>A rich question or option must carry the projection of its document as its text.\<close>

definition assert_projection ::
  "(jsnum \<Rightarrow> string) \<Rightarrow> grammar \<Rightarrow> string \<Rightarrow> string \<Rightarrow> json option \<Rightarrow> app_error + unit" where
  "assert_projection num grammar subject content contentDocument =
     (if contentDocument \<noteq> None
      then
        bindR (assertPublishableRichDocument num grammar subject contentDocument) (\<lambda>document.
        guardR (content = plainTextProjection document) (ValidationError (subject @
          '' content must equal plainTextProjection(contentDocument) at publish'')))
      else Inr ())"

definition autoGradedTypes :: "QuestionType list" where
  "autoGradedTypes = [SingleChoice, MultipleChoice, TrueFalse, FillBlank]"

text \<open>The checks of one question in the publication loop.\<close>

definition assert_question_publishable ::
  "(jsnum \<Rightarrow> string) \<Rightarrow> grammar \<Rightarrow> (string \<Rightarrow> string) \<Rightarrow> QuestionRow \<Rightarrow> app_error + unit" where
  "assert_question_publishable num grammar lower q =
     bindR (guardR (\<not> (qn_type q = FillBlank \<and> qn_contentDocument q \<noteq> None))
       (ValidationError (''fill_blank question '' @ qn_id q @ '' must not carry rich content at publish''))) (\<lambda>_.
     bindR (guardR (\<not> (qn_answerMode q \<noteq> None \<and> qn_type q \<noteq> TextResponse))
       (ValidationError (''question '' @ qn_id q @ '' carries answerMode but is not text_response''))) (\<lambda>_.
     bindR (assert_projection num grammar (''rich question '' @ qn_id q) (qn_content q)
       (qn_contentDocument q)) (\<lambda>_.
     bindR (forR (qn_options q) (\<lambda>opt. assert_projection num grammar
         (''rich option '' @ op_id opt @ '' of question '' @ qn_id q) (op_content opt)
         (op_contentDocument opt))) (\<lambda>_.
     if qn_type q = TextResponse
     then guardR (\<not> isEmptyOrPlaceholder lower (map_option JStr (qn_rubric q)))
       (ValidationError (''text_response question '' @ qn_id q @ '' requires a non-empty rubric at publish''))
     else if List.member autoGradedTypes (qn_type q)
     then guardR (\<not> isEmptyOrPlaceholder lower (qn_standardAnswer q))
       (ValidationError (''auto-graded question '' @ qn_id q @ '' requires a non-empty standardAnswer at publish''))
     else Inr ()))))"

section \<open>Commands\<close>

definition load_exam :: "ident \<Rightarrow> Exam action" where
  "load_exam examId = someC (find_exam examId) (ValidationError ''Exam not found'')"

definition write_exam :: "ident \<Rightarrow> (Exam \<Rightarrow> Exam) \<Rightarrow> Exam action" where
  "write_exam examId f = bindC (update_exam examId f) (\<lambda>updated.
     requireC updated (ValidationError ''Exam not found after update''))"

definition publishExam :: "(jsnum \<Rightarrow> string) \<Rightarrow> grammar \<Rightarrow> (string \<Rightarrow> string) \<Rightarrow> ident \<Rightarrow>
    QuestionRow list \<Rightarrow> Exam action" where
  "publishExam num grammar lower examId questions =
     bindC (load_exam examId) (\<lambda>exam.
     bindC (liftC (exam_assertTransition (ex_status exam) Published)) (\<lambda>_.
     bindC (guardC (ex_questionIds exam \<noteq> [])
       (ValidationError ''Exam must have at least one question'')) (\<lambda>_.
     bindC (guardC (ex_timingMode exam \<noteq> TimedSync)
       (ValidationError ''timed_sync exams are not supported'')) (\<lambda>_.
     bindC (guardC (ex_questionSelectionMode exam = ManualSelection)
       (ValidationError ''Phase 1 only supports manual question selection'')) (\<lambda>_.
     bindC (guardC (List.member [Unlimited, MaxAttempts, PassThenStop] (ex_retakePolicy exam))
       (ValidationError ''Retake policy is not supported in Phase 1'')) (\<lambda>_.
     bindC (guardC (case ex_durationMinutes exam of None \<Rightarrow> True | Some d \<Rightarrow> \<not> d \<le> 0)
       (ValidationError ''Duration must be positive'')) (\<lambda>_.
     bindC (liftC (assertExamPolicyValid exam)) (\<lambda>_.
     bindC (guardC (\<not> list_ex (\<lambda>q. qn_courseId q \<noteq> ex_courseId exam) questions)
       (ValidationError ''Exam questions must belong to its course'')) (\<lambda>_.
     bindC (liftC (forR questions (assert_question_publishable num grammar lower))) (\<lambda>_.
     bindC (liftC (buildQuestionSnapshot (ex_questionIds exam) questions)) (\<lambda>questionSnapshot.
     let totalScore = sum_list (map qs_score questionSnapshot) in
     bindC (guardC (ex_totalScore exam = totalScore)
       (ValidationError ''Exam totalScore must match question scores'')) (\<lambda>_.
     bindC (guardC (\<not> ex_passingScore exam > totalScore)
       (ValidationError ''Passing score cannot exceed total score'')) (\<lambda>_.
     write_exam examId (\<lambda>e. e\<lparr>ex_status := Published, ex_questionSnapshot := questionSnapshot\<rparr>))))))))))))))"

definition openExam :: "ident \<Rightarrow> Exam action" where
  "openExam examId =
     bindC (load_exam examId) (\<lambda>exam.
     bindC (liftC (exam_assertTransition (ex_status exam) Open)) (\<lambda>_.
     write_exam examId (\<lambda>e. e\<lparr>ex_status := Open\<rparr>)))"

definition closeExam :: "ident \<Rightarrow> Exam action" where
  "closeExam examId =
     bindC (load_exam examId) (\<lambda>exam.
     if ex_status exam = Closed then returnC exam
     else
       bindC (liftC (exam_assertTransition (ex_status exam) Closed)) (\<lambda>_.
       write_exam examId (\<lambda>e. e\<lparr>ex_status := Closed\<rparr>)))"

definition cancelExam :: "ident \<Rightarrow> Exam action" where
  "cancelExam examId =
     bindC (load_exam examId) (\<lambda>exam.
     bindC (liftC (exam_assertTransition (ex_status exam) Canceled)) (\<lambda>_.
     write_exam examId (\<lambda>e. e\<lparr>ex_status := Canceled\<rparr>)))"

definition unpublishExam :: "ident \<Rightarrow> Exam action" where
  "unpublishExam examId =
     bindC (load_exam examId) (\<lambda>exam.
     bindC (liftC (exam_assertTransition (ex_status exam) Draft)) (\<lambda>_.
     write_exam examId (\<lambda>e. e\<lparr>ex_status := Draft\<rparr>)))"

definition extendExam :: "ident \<Rightarrow> jsnum \<Rightarrow> Exam action" where
  "extendExam examId extendMinutes =
     bindC (guardC (\<not> (\<not> is_integer extendMinutes \<or> extendMinutes \<le> 0))
       (ValidationError ''extendMinutes must be a positive integer'')) (\<lambda>_.
     bindC (load_exam examId) (\<lambda>exam.
     bindC (guardC (ex_status exam = Open) (InvalidStateTransitionError
       (''Cannot extend exam in '' @ exam_status_str (ex_status exam) @ '' state''))) (\<lambda>_.
     bindC (requireC (ex_closeAt exam)
       (ValidationError ''Cannot extend an untimed exam (no closeAt)'')) (\<lambda>oldCloseAt.
     let newCloseAt = oldCloseAt + \<lfloor>extendMinutes\<rfloor> * 60000 in
     write_exam examId (\<lambda>e. e\<lparr>ex_closeAt := Some newCloseAt\<rparr>)))))"

record CheckAndUpdateResult =
  cu_exam :: Exam
  cu_transition :: "ExamStatus option"
  cu_previousStatus :: "ExamStatus option"

definition checkAndUpdateExamStatus :: "ident \<Rightarrow> time \<Rightarrow> CheckAndUpdateResult option action" where
  "checkAndUpdateExamStatus examId now =
     bindC (getsC (find_exam examId)) (\<lambda>found.
     case found of
       None \<Rightarrow> returnC None
     | Some exam0 \<Rightarrow>
         bindC (if ex_status exam0 = Published \<and> now \<ge> ex_openAt exam0 \<and> ex_timingMode exam0 \<noteq> TimedSync
                then bindC (openExam examId) (\<lambda>e. returnC (e, Some Open))
                else returnC (exam0, None)) (\<lambda>(exam1, transition1).
         bindC (if ex_status exam1 = Open \<and>
                  (case ex_closeAt exam1 of None \<Rightarrow> False | Some c \<Rightarrow> now \<ge> c)
                then bindC (closeExam examId) (\<lambda>e. returnC (e, Some Closed))
                else returnC (exam1, transition1)) (\<lambda>(exam, transition).
         returnC (Some \<lparr>cu_exam = exam, cu_transition = transition,
           cu_previousStatus = (if transition \<noteq> None then Some (ex_status exam0) else None)\<rparr>))))"

definition archiveExam :: "ident \<Rightarrow> Exam action" where
  "archiveExam examId =
     bindC (load_exam examId) (\<lambda>exam.
     bindC (liftC (exam_assertTransition (ex_status exam) Archived)) (\<lambda>_.
     write_exam examId (\<lambda>e. e\<lparr>ex_status := Archived\<rparr>)))"

definition publishResults :: "ident \<Rightarrow> time \<Rightarrow> (Exam \<times> bool) action" where
  "publishResults examId now =
     bindC (load_exam examId) (\<lambda>exam.
     bindC (guardC (List.member [Published, Open, Closed] (ex_status exam)) (InvalidStateTransitionError
       (''Cannot publish results for exam in '' @ exam_status_str (ex_status exam) @ '' state''))) (\<lambda>_.
     if ex_resultsPublishedAt exam \<noteq> None then returnC (exam, True)
     else bindC (write_exam examId (\<lambda>e. e\<lparr>ex_resultsPublishedAt := Some now\<rparr>)) (\<lambda>updated.
       returnC (updated, False))))"

section \<open>Lemmas\<close>

lemma load_exam_iff [cmd_iff]: "load_exam k s = Inr (x, s') \<longleftrightarrow> find_exam k s = Some x \<and> s' = s"
  by (simp add: load_exam_def cmd_iff)

lemma write_exam_iff [cmd_iff]:
  "(\<And>r. ex_id (f r) = ex_id r) \<Longrightarrow> write_exam k f s = Inr (x, s') \<longleftrightarrow>
     (\<exists>e. find_exam k s = Some e \<and> x = f e \<and> s' = upd_exam k f s)"
  by (auto simp: write_exam_def cmd_iff)

text \<open>What one command may do to an exam.\<close>

definition exam_evolves :: "Exam \<Rightarrow> Exam \<Rightarrow> bool" where
  "exam_evolves e e' \<longleftrightarrow> ex_id e' = ex_id e \<and>
     exam_machine.move\<^sup>*\<^sup>* (ex_status e) (ex_status e') \<and>
     (ex_resultsPublishedAt e \<noteq> None \<longrightarrow> ex_resultsPublishedAt e' = ex_resultsPublishedAt e) \<and>
     (ex_status e \<noteq> Draft \<longrightarrow> ex_questionSnapshot e' = ex_questionSnapshot e)"

definition exams_evolve :: "store \<Rightarrow> store \<Rightarrow> bool" where
  "exams_evolve s s' \<longleftrightarrow> s' = s\<lparr>st_exams := st_exams s'\<rparr> \<and>
     (\<forall>k. rel_option exam_evolves (find_exam k s) (find_exam k s'))"

lemma exam_evolves_refl [simp]: "exam_evolves e e"
  by (simp add: exam_evolves_def)

lemma exams_evolve_refl [simp]: "exams_evolve s s"
  by (simp add: exams_evolve_def option.rel_refl)

text \<open>The single write of a command: the row of one exam, moved along the status table or not at all.\<close>

lemma exams_evolve_write:
  assumes "find_exam k s = Some e" and "\<And>r. ex_id (f r) = ex_id r" and "exam_evolves e (f e)"
  shows "exams_evolve s (upd_exam k f s)"
  using assms
  by (auto simp: exams_evolve_def exams.find_update option.rel_refl rel_option_iff split: option.splits)
    (simp add: upd_exam_def)

lemma allowed_evolves:
  "t \<in> set (EXAM_VALID_TRANSITIONS (ex_status e)) \<Longrightarrow> exam_evolves e (e\<lparr>ex_status := t\<rparr>)"
  by (auto simp: exam_evolves_def exam_machine.move_def)

text \<open>The four commands that only move the status share one shape.\<close>

lemma move_command_iff:
  "bindC (load_exam k) (\<lambda>exam. bindC (liftC (exam_assertTransition (ex_status exam) t)) (\<lambda>_.
     write_exam k (\<lambda>e. e\<lparr>ex_status := t\<rparr>))) s = Inr (x, s') \<longleftrightarrow>
   (\<exists>e. find_exam k s = Some e \<and> t \<in> set (EXAM_VALID_TRANSITIONS (ex_status e)) \<and>
     x = e\<lparr>ex_status := t\<rparr> \<and> s' = upd_exam k (\<lambda>e. e\<lparr>ex_status := t\<rparr>) s)"
  by (auto simp: cmd_iff)

lemmas move_defs = openExam_def cancelExam_def unpublishExam_def archiveExam_def

lemma openExam_iff [cmd_iff]:
  "openExam k s = Inr (x, s') \<longleftrightarrow> (\<exists>e. find_exam k s = Some e \<and> ex_status e = Published \<and>
     x = e\<lparr>ex_status := Open\<rparr> \<and> s' = upd_exam k (\<lambda>e. e\<lparr>ex_status := Open\<rparr>) s)"
proof -
  have "Open \<in> set (EXAM_VALID_TRANSITIONS st) \<longleftrightarrow> st = Published" for st by (cases st) simp_all
  then show ?thesis by (simp add: openExam_def move_command_iff)
qed

lemma closeExam_iff [cmd_iff]:
  "closeExam k s = Inr (x, s') \<longleftrightarrow> (\<exists>e. find_exam k s = Some e \<and>
     (ex_status e = Closed \<and> x = e \<and> s' = s \<or>
      ex_status e = Open \<and> x = e\<lparr>ex_status := Closed\<rparr> \<and> s' = upd_exam k (\<lambda>e. e\<lparr>ex_status := Closed\<rparr>) s))"
proof -
  have "Closed \<in> set (EXAM_VALID_TRANSITIONS st) \<longleftrightarrow> st = Open" for st by (cases st) simp_all
  then show ?thesis by (auto simp: closeExam_def bindC_Inr_iff load_exam_iff liftC_iff returnC_iff write_exam_iff
      exam_assertTransition_ok split: if_splits)
qed

lemma extendExam_iff [cmd_iff]:
  "extendExam k m s = Inr (x, s') \<longleftrightarrow> is_integer m \<and> m > 0 \<and>
     (\<exists>e c. find_exam k s = Some e \<and> ex_status e = Open \<and> ex_closeAt e = Some c \<and>
        x = e\<lparr>ex_closeAt := Some (c + \<lfloor>m\<rfloor> * 60000)\<rparr> \<and>
        s' = upd_exam k (\<lambda>e. e\<lparr>ex_closeAt := Some (c + \<lfloor>m\<rfloor> * 60000)\<rparr>) s)"
  by (auto simp: extendExam_def cmd_iff Let_def not_le)

lemma publishResults_iff [cmd_iff]:
  "publishResults k now s = Inr ((x, already), s') \<longleftrightarrow> (\<exists>e. find_exam k s = Some e \<and>
     ex_status e \<in> {Published, Open, Closed} \<and>
     (if ex_resultsPublishedAt e \<noteq> None then x = e \<and> already \<and> s' = s
      else x = e\<lparr>ex_resultsPublishedAt := Some now\<rparr> \<and> \<not> already \<and>
        s' = upd_exam k (\<lambda>e. e\<lparr>ex_resultsPublishedAt := Some now\<rparr>) s))"
  by (auto simp: publishResults_def cmd_iff split: if_splits)

text \<open>What publication demands of the exam and its questions.\<close>

definition publishable ::
  "(jsnum \<Rightarrow> string) \<Rightarrow> grammar \<Rightarrow> (string \<Rightarrow> string) \<Rightarrow> Exam \<Rightarrow> QuestionRow list \<Rightarrow> bool" where
  "publishable num grammar lower exam questions \<longleftrightarrow>
     ex_status exam = Draft \<and> ex_questionIds exam \<noteq> [] \<and> ex_timingMode exam \<noteq> TimedSync \<and>
     ex_questionSelectionMode exam = ManualSelection \<and>
     ex_retakePolicy exam \<in> {Unlimited, MaxAttempts, PassThenStop} \<and>
     (\<forall>d. ex_durationMinutes exam = Some d \<longrightarrow> 0 < d) \<and> policy_ok (resolveExamPolicy exam) \<and>
     (\<forall>q\<in>set questions. qn_courseId q = ex_courseId exam \<and>
        assert_question_publishable num grammar lower q = Inr ())"

lemma publishExam_iff:
  "publishExam num grammar lower k questions s = Inr (x, s') \<longleftrightarrow>
     (\<exists>e qs. find_exam k s = Some e \<and> publishable num grammar lower e questions \<and>
        buildQuestionSnapshot (ex_questionIds e) questions = Inr qs \<and>
        ex_totalScore e = sum_list (map qs_score qs) \<and> ex_passingScore e \<le> ex_totalScore e \<and>
        x = e\<lparr>ex_status := Published, ex_questionSnapshot := qs\<rparr> \<and>
        s' = upd_exam k (\<lambda>e. e\<lparr>ex_status := Published, ex_questionSnapshot := qs\<rparr>) s)"
proof -
  have pub: "Published \<in> set (EXAM_VALID_TRANSITIONS st) \<longleftrightarrow> st = Draft" for st by (cases st) simp_all
  have dur: "(case ex_durationMinutes e of None \<Rightarrow> True | Some d \<Rightarrow> \<not> d \<le> 0) \<longleftrightarrow>
      (\<forall>d. ex_durationMinutes e = Some d \<longrightarrow> 0 < d)" for e
    by (auto split: option.splits)
  have id: "ex_id (r\<lparr>ex_status := t, ex_questionSnapshot := qs\<rparr>) = ex_id r" for r :: Exam and t qs by simp
  show ?thesis
    unfolding publishExam_def publishable_def Let_def bindC_Inr_iff load_exam_iff liftC_iff guardC_iff
      exam_assertTransition_ok assertExamPolicyValid_iff forR_Inr_iff write_exam_iff [OF id] pub dur
    by (auto simp: list_ex_iff not_less)
qed

text \<open>The status the clock gives an exam.\<close>

definition clock_status :: "Exam \<Rightarrow> time \<Rightarrow> ExamStatus" where
  "clock_status e now =
     (let opened = (if ex_status e = Published \<and> ex_openAt e \<le> now \<and> ex_timingMode e \<noteq> TimedSync
                    then Open else ex_status e)
      in if opened = Open \<and> (\<exists>c\<in>set_option (ex_closeAt e). c \<le> now) then Closed else opened)"

lemma upd_exam_twice:
  "upd_exam k (\<lambda>e. e\<lparr>ex_status := b\<rparr>) (upd_exam k (\<lambda>e. e\<lparr>ex_status := a\<rparr>) s) =
     upd_exam k (\<lambda>e. e\<lparr>ex_status := b\<rparr>) s"
  by (simp add: upd_exam_def tbl_update_def)

lemma check_result:
  assumes e: "find_exam k s = Some e"
  shows "checkAndUpdateExamStatus k now s =
    Inr (Some (if clock_status e now = ex_status e
               then \<lparr>cu_exam = e, cu_transition = None, cu_previousStatus = None\<rparr>
               else \<lparr>cu_exam = e\<lparr>ex_status := clock_status e now\<rparr>,
                     cu_transition = Some (clock_status e now), cu_previousStatus = Some (ex_status e)\<rparr>),
         if clock_status e now = ex_status e then s
         else upd_exam k (\<lambda>r. r\<lparr>ex_status := clock_status e now\<rparr>) s)"
proof -
  have op: "openExam k s = Inr (e\<lparr>ex_status := Open\<rparr>, upd_exam k (\<lambda>e. e\<lparr>ex_status := Open\<rparr>) s)"
    if "ex_status e = Published"
    using e that by (simp add: openExam_iff)
  have cl: "closeExam k s' = Inr (x\<lparr>ex_status := Closed\<rparr>, upd_exam k (\<lambda>e. e\<lparr>ex_status := Closed\<rparr>) s')"
    if "find_exam k s' = Some x" "ex_status x = Open" for x s'
    using that by (simp add: closeExam_iff)
  let ?w = "\<lambda>t. upd_exam k (\<lambda>e. e\<lparr>ex_status := t\<rparr>) s"
  have opened: "find_exam k (?w Open) = Some (e\<lparr>ex_status := Open\<rparr>)"
    using e by (simp add: exams.find_update)
  show ?thesis
  proof (cases "ex_status e = Published \<and> ex_openAt e \<le> now \<and> ex_timingMode e \<noteq> TimedSync")
    case True
    then show ?thesis
      using e op cl [OF opened] upd_exam_twice [of k Closed Open s]
      by (cases "ex_closeAt e")
        (simp_all add: checkAndUpdateExamStatus_def bindC_def getsC_def returnC_def clock_status_def)
  next
    case False
    then show ?thesis
      using e cl [OF e]
      by (cases "ex_closeAt e")
        (auto simp: checkAndUpdateExamStatus_def bindC_def getsC_def returnC_def clock_status_def Let_def
          split: if_splits)
  qed
qed

lemma clock_status_cases:
  "clock_status e now = ex_status e \<or>
   ex_status e = Published \<and> clock_status e now = Open \<and> (\<forall>c\<in>set_option (ex_closeAt e). now < c) \<or>
   (ex_status e = Published \<or> ex_status e = Open) \<and> clock_status e now = Closed"
  by (cases "ex_closeAt e") (auto simp: clock_status_def Let_def)

lemma clock_reachable: "exam_machine.move\<^sup>*\<^sup>* (ex_status e) (clock_status e now)"
proof -
  have op: "exam_machine.move Published Open" and cl: "exam_machine.move Open Closed"
    by (simp_all add: exam_machine.move_def)
  note r_into_rtranclp [of exam_machine.move, OF op] r_into_rtranclp [of exam_machine.move, OF cl]
    rtranclp_trans [of exam_machine.move, OF r_into_rtranclp r_into_rtranclp, OF op cl]
  with clock_status_cases [of e now] show ?thesis by (elim disjE conjE) simp_all
qed

lemma clock_status_stable: "clock_status (e\<lparr>ex_status := clock_status e now\<rparr>) now = clock_status e now"
proof -
  have fixed: "clock_status (e\<lparr>ex_status := Closed\<rparr>) now = Closed" by (simp add: clock_status_def)
  have open_stays: "clock_status (e\<lparr>ex_status := Open\<rparr>) now = Open" if "\<forall>c\<in>set_option (ex_closeAt e). now < c"
    using that by (fastforce simp: clock_status_def)
  from clock_status_cases [of e now] show ?thesis
  proof (elim disjE conjE)
    assume same: "clock_status e now = ex_status e"
    have "e\<lparr>ex_status := ex_status e\<rparr> = e" by simp
    with same show ?thesis by metis
  qed (simp_all add: fixed open_stays)
qed

section \<open>Histories\<close>

inductive exam_command :: "(jsnum \<Rightarrow> string) \<Rightarrow> grammar \<Rightarrow> (string \<Rightarrow> string) \<Rightarrow> store \<Rightarrow> store \<Rightarrow> bool"
  for num grammar lower where
  "publishExam num grammar lower k qs s = Inr (x, s') \<Longrightarrow> exam_command num grammar lower s s'"
| "openExam k s = Inr (x, s') \<Longrightarrow> exam_command num grammar lower s s'"
| "closeExam k s = Inr (x, s') \<Longrightarrow> exam_command num grammar lower s s'"
| "cancelExam k s = Inr (x, s') \<Longrightarrow> exam_command num grammar lower s s'"
| "unpublishExam k s = Inr (x, s') \<Longrightarrow> exam_command num grammar lower s s'"
| "extendExam k m s = Inr (x, s') \<Longrightarrow> exam_command num grammar lower s s'"
| "checkAndUpdateExamStatus k now s = Inr (c, s') \<Longrightarrow> exam_command num grammar lower s s'"
| "archiveExam k s = Inr (x, s') \<Longrightarrow> exam_command num grammar lower s s'"
| "publishResults k now s = Inr (p, s') \<Longrightarrow> exam_command num grammar lower s s'"

lemma exam_command_evolves: "exam_command num grammar lower s s' \<Longrightarrow> exams_evolve s s'"
proof (induction rule: exam_command.induct)
  case (1 k qs s x s')
  have "exam_machine.move\<^sup>*\<^sup>* Draft Published" by (rule r_into_rtranclp) (simp add: exam_machine.move_def)
  with 1 show ?case
    by (auto simp: publishExam_iff publishable_def exam_evolves_def intro!: exams_evolve_write)
next
  case (6 k m s x s')
  then show ?case by (auto simp: extendExam_iff exam_evolves_def intro!: exams_evolve_write)
next
  case (7 k now s c s')
  show ?case
  proof (cases "find_exam k s")
    case None
    with 7 show ?thesis by (simp add: checkAndUpdateExamStatus_def bindC_def getsC_def returnC_def)
  next
    case (Some e)
    have "exam_evolves e (e\<lparr>ex_status := clock_status e now\<rparr>)"
      by (simp add: exam_evolves_def clock_reachable)
    with 7 Some show ?thesis by (auto simp: check_result split: if_splits intro!: exams_evolve_write)
  qed
next
  case (9 k now s p s')
  then show ?case
    by (cases p) (auto simp: publishResults_iff exam_evolves_def split: if_splits intro!: exams_evolve_write)
qed (auto simp: move_defs move_command_iff closeExam_iff intro!: exams_evolve_write allowed_evolves)

text \<open>C8: The exam commands implement the exam lifecycle. Whatever sequence of commands succeeds
  (publish, open, close, cancel, unpublish, extend, archive, publish results, check on access), every
  exam keeps its identity and its status has moved along the transition table only; an archived exam
  stays archived; the instant at which results were published, once set, never changes; and nothing
  but the exams is written. A single command changes the frozen paper of an exam only while it is a
  draft.\<close>

theorem exam_commands_refine_lifecycle:
  assumes run: "(exam_command num grammar lower)\<^sup>*\<^sup>* s s'"
  shows "s' = s\<lparr>st_exams := st_exams s'\<rparr> \<and>
    (\<forall>k e. find_exam k s = Some e \<longrightarrow>
      (\<exists>e'. find_exam k s' = Some e' \<and> exam_machine.move\<^sup>*\<^sup>* (ex_status e) (ex_status e') \<and>
        (ex_status e = Archived \<longrightarrow> ex_status e' = Archived) \<and>
        (ex_resultsPublishedAt e \<noteq> None \<longrightarrow> ex_resultsPublishedAt e' = ex_resultsPublishedAt e))) \<and>
    (\<forall>t k e e'. exam_command num grammar lower s' t \<and> find_exam k s' = Some e \<and> find_exam k t = Some e' \<and>
      ex_status e \<noteq> Draft \<longrightarrow> ex_questionSnapshot e' = ex_questionSnapshot e)"
proof -
  have frame: "s' = s\<lparr>st_exams := st_exams s'\<rparr>"
    using run
  proof (induction rule: rtranclp_induct)
    case (step t u)
    have "u = t\<lparr>st_exams := st_exams u\<rparr>"
      using exam_command_evolves [OF step(2)] by (simp add: exams_evolve_def)
    then have "u = s\<lparr>st_exams := st_exams t\<rparr>\<lparr>st_exams := st_exams u\<rparr>" using step(3) by simp
    then show ?case by simp
  qed simp
  have rows: "\<exists>e'. find_exam k s' = Some e' \<and> exam_machine.move\<^sup>*\<^sup>* (ex_status e) (ex_status e') \<and>
      (ex_resultsPublishedAt e \<noteq> None \<longrightarrow> ex_resultsPublishedAt e' = ex_resultsPublishedAt e)"
    if "find_exam k s = Some e" for k e
    using run
  proof (induction rule: rtranclp_induct)
    case (step t u)
    then obtain e1 where e1: "find_exam k t = Some e1" "exam_machine.move\<^sup>*\<^sup>* (ex_status e) (ex_status e1)"
      "ex_resultsPublishedAt e \<noteq> None \<longrightarrow> ex_resultsPublishedAt e1 = ex_resultsPublishedAt e" by blast
    moreover obtain e2 where "find_exam k u = Some e2" "exam_evolves e1 e2"
      using exam_command_evolves [OF step(2)] e1(1) unfolding exams_evolve_def
      by (metis option.rel_cases option.sel option.simps(3))
    ultimately show ?case
      by (intro exI [of _ e2]) (auto simp: exam_evolves_def intro: rtranclp_trans)
  qed (use that in simp)
  have paper: "ex_questionSnapshot e' = ex_questionSnapshot e"
    if "exam_command num grammar lower s' t" "find_exam k s' = Some e" "find_exam k t = Some e'"
      "ex_status e \<noteq> Draft" for t k e e'
  proof -
    have "rel_option exam_evolves (find_exam k s') (find_exam k t)"
      using exam_command_evolves [OF that(1)] by (simp add: exams_evolve_def)
    with that(2-4) show ?thesis by (simp add: exam_evolves_def)
  qed
  have archived: "st = Archived" if "exam_machine.move\<^sup>*\<^sup>* Archived st" for st
    using exam_machine.terminal_reach [OF that] by simp
  show ?thesis
  proof (intro conjI allI impI)
    fix k e assume "find_exam k s = Some e"
    from rows [OF this] show "\<exists>e'. find_exam k s' = Some e' \<and> exam_machine.move\<^sup>*\<^sup>* (ex_status e) (ex_status e') \<and>
        (ex_status e = Archived \<longrightarrow> ex_status e' = Archived) \<and>
        (ex_resultsPublishedAt e \<noteq> None \<longrightarrow> ex_resultsPublishedAt e' = ex_resultsPublishedAt e)"
      by (metis archived)
  qed (use frame paper in blast)+
qed

text \<open>C9: Publication freezes a gradable paper. Only a draft that passes the policy
  gate is published; the frozen paper, with question identifiers being unique, then lists, in the order of the
  exam, for each question identifier a copy of the question with that identifier, its total is the
  total of the exam, which bounds the passing score, and every question on it can be graded: a text
  question has a rubric, every other question a standard answer that is not a placeholder.\<close>

theorem publication_freezes_paper:
  assumes run: "publishExam num grammar lower k questions s = Inr (x, s')"
    and ids: "distinct (map qn_id questions)"
  shows "\<exists>e. find_exam k s = Some e \<and> ex_status e = Draft \<and> policy_ok (resolveExamPolicy e) \<and>
    find_exam k s' = Some x \<and> ex_status x = Published \<and>
    list_all2 (\<lambda>(i, qid) qs. \<exists>q\<in>set questions. qn_id q = qid \<and> qs = snapshot_of (int i) q \<and>
        qn_courseId q = ex_courseId e \<and>
        (if qs_type qs = TextResponse
         then \<not> isEmptyOrPlaceholder lower (map_option JStr (qs_rubric qs))
         else \<not> isEmptyOrPlaceholder lower (qs_standardAnswer qs)))
      (List.enumerate 0 (ex_questionIds e)) (ex_questionSnapshot x) \<and>
    sum_list (map qs_score (ex_questionSnapshot x)) = ex_totalScore x \<and>
    ex_passingScore x \<le> ex_totalScore x"
proof -
  from run obtain e qs where e: "find_exam k s = Some e"
    and pub: "publishable num grammar lower e questions"
    and qs: "buildQuestionSnapshot (ex_questionIds e) questions = Inr qs"
    and tot: "ex_totalScore e = sum_list (map qs_score qs)" "ex_passingScore e \<le> ex_totalScore e"
    and x: "x = e\<lparr>ex_status := Published, ex_questionSnapshot := qs\<rparr>"
    and s': "s' = upd_exam k (\<lambda>e. e\<lparr>ex_status := Published, ex_questionSnapshot := qs\<rparr>) s"
    by (auto simp: publishExam_iff)
  have gradable: "if qn_type q = TextResponse
      then \<not> isEmptyOrPlaceholder lower (map_option JStr (qn_rubric q))
      else \<not> isEmptyOrPlaceholder lower (qn_standardAnswer q)"
    if "assert_question_publishable num grammar lower q = Inr ()" for q
    using that unfolding assert_question_publishable_def bindR_Inr_iff guardR_iff
    by (cases "qn_type q") (auto simp: autoGradedTypes_def)
  have look: "js_map_get (map (\<lambda>q. (qn_id q, q)) questions) i = Some q \<Longrightarrow> q \<in> set questions \<and> qn_id q = i" for i q
    using ids by (auto simp: js_map_get_def dest!: map_of_SomeD)
  let ?ok = "\<lambda>i qid y. \<exists>q\<in>set questions. qn_id q = qid \<and> y = snapshot_of (int i) q \<and>
        qn_courseId q = ex_courseId e \<and>
        (if qs_type y = TextResponse
         then \<not> isEmptyOrPlaceholder lower (map_option JStr (qs_rubric y))
         else \<not> isEmptyOrPlaceholder lower (qs_standardAnswer y))"
  have row: "?ok i qid y" if h: "(case js_map_get (map (\<lambda>q. (qn_id q, q)) questions) qid of
        None \<Rightarrow> Inl (ValidationError (''Question '' @ qid @ '' not found''))
      | Some q \<Rightarrow> Inr (snapshot_of (int i) q)) = Inr y" for i qid y
  proof (cases "js_map_get (map (\<lambda>q. (qn_id q, q)) questions) qid")
    case (Some q)
    with h have "y = snapshot_of (int i) q" by simp
    with look [OF Some] pub gradable [of q] show ?thesis
      by (intro bexI [of _ q]) (simp_all add: publishable_def snapshot_of_def)
  qed (use h in simp)
  have "list_all2 (\<lambda>p y. (case p of (index, qid) \<Rightarrow>
      case js_map_get (map (\<lambda>q. (qn_id q, q)) questions) qid of
        None \<Rightarrow> Inl (ValidationError (''Question '' @ qid @ '' not found''))
      | Some q \<Rightarrow> Inr (snapshot_of (int index) q)) = Inr y) (List.enumerate 0 (ex_questionIds e)) qs"
    using mapR_Inr_D [OF qs [unfolded buildQuestionSnapshot_def Let_def]] .
  then have rows: "list_all2 (\<lambda>(i, qid) y. ?ok i qid y) (List.enumerate 0 (ex_questionIds e)) qs"
    by (rule list_all2_mono) (use row in \<open>simp only: case_prod_beta\<close>)
  have "find_exam k s' = Some x" using e by (simp add: s' x exams.find_update)
  with e pub rows tot show ?thesis by (intro exI [of _ e]) (simp add: x publishable_def)
qed

text \<open>The check on access brings the status up to the clock, once. It always answers; for a known
  exam the status afterwards is the one the clock gives (published exams that are not synchronized
  open at their opening, open exams with a close are closed from that instant on), the transition
  and the previous status are reported exactly when something changed, and checking again at the same
  instant changes nothing and reports nothing.\<close>

lemma check_on_access_settles:
  assumes e: "find_exam k s = Some e"
  shows "\<exists>r s'. checkAndUpdateExamStatus k now s = Inr (Some r, s') \<and>
    find_exam k s' = Some (cu_exam r) \<and> cu_exam r = e\<lparr>ex_status := clock_status e now\<rparr> \<and>
    (cu_transition r \<noteq> None \<longleftrightarrow> ex_status (cu_exam r) \<noteq> ex_status e) \<and>
    (cu_transition r \<noteq> None \<longrightarrow>
       cu_transition r = Some (ex_status (cu_exam r)) \<and> cu_previousStatus r = Some (ex_status e)) \<and>
    checkAndUpdateExamStatus k now s' =
      Inr (Some \<lparr>cu_exam = cu_exam r, cu_transition = None, cu_previousStatus = None\<rparr>, s')"
proof (cases "clock_status e now = ex_status e")
  case True
  moreover have "e\<lparr>ex_status := ex_status e\<rparr> = e" by simp
  ultimately show ?thesis using e check_result [OF e, of now] by simp
next
  case False
  let ?s = "upd_exam k (\<lambda>r. r\<lparr>ex_status := clock_status e now\<rparr>) s"
  have f: "find_exam k ?s = Some (e\<lparr>ex_status := clock_status e now\<rparr>)"
    using e by (simp add: exams.find_update)
  show ?thesis
    using False check_result [OF e, of now] check_result [OF f, of now] f by (simp add: clock_status_stable)
qed

text \<open>The checks of publication on content that came through the write seam.\<close>

lemma assert_projection_resolved:
  assumes "content_grammar grammar" "canonicalizeContentDocument num grammar doc = Inr (Inr v)"
  shows "assert_projection num grammar subject (plainTextProjection v) (Some (document_json v)) = Inr ()"
proof -
  have "classify_rich num grammar (document_json v) = Inr (ReadValid v)"
    by (rule content_grammar.accepted_reads_valid [OF assms])
  then have "classifyPersistedQuestionContent num grammar (Some (document_json v)) = Inr (RichValid v)"
    by (simp add: classifyPersistedQuestionContent_def document_json_def)
  then show ?thesis by (simp add: assert_projection_def assertPublishableRichDocument_def)
qed

lemma resolveOption_projection:
  assumes "content_grammar grammar" "resolveOption num grammar opt = Inr r"
  shows "assert_projection num grammar subject (ro_content r) (map_option document_json (ro_contentDocument r)) = Inr ()"
proof (cases "ow_contentDocument opt")
  case None
  then show ?thesis using assms(2) by (auto simp: resolveOption_def assert_projection_def split: option.splits)
next
  case (Some doc)
  then obtain c where "canonicalizeContentDocument num grammar doc = Inr c"
    using assms(2) by (auto simp: resolveOption_def bindR_Inr_iff)
  then show ?thesis
    using Some assms assert_projection_resolved [OF assms(1), of num doc]
    by (cases c) (auto simp: resolveOption_def)
qed

text \<open>Authored content always passes the content checks of publication. Whatever the question write seam resolves,
  for the prompt and for every option, is stored with a text that is the projection of the stored document,
  or as plain text, and the publication gate accepts it; a rejection at publication for corrupt,
  noncanonical or divergent content therefore means the row did not come through the seam.\<close>

lemma authored_content_publishable:
  assumes "content_grammar grammar" and "resolveQuestionContentWrite num grammar input = Inr r"
  shows "assert_projection num grammar subject (rc_content r) (map_option document_json (rc_contentDocument r)) = Inr () \<and>
    (\<forall>opt\<in>set (rc_options r).
      assert_projection num grammar subject (ro_content opt) (map_option document_json (ro_contentDocument opt)) = Inr ())"
proof -
  from assms(2) obtain opts where opts: "mapR (resolveOption num grammar) (qi_options input) = Inr opts"
    by (auto simp: resolveQuestionContentWrite_def bindR_Inr_iff)
  have each: "\<exists>o'. resolveOption num grammar o' = Inr opt" if "opt \<in> set opts" for opt
    using mapR_Inr_D [OF opts] that by (auto simp: list_all2_conv_all_nth in_set_conv_nth)
  have "rc_options r = opts \<and>
      assert_projection num grammar subject (rc_content r) (map_option document_json (rc_contentDocument r)) = Inr ()"
  proof (cases "qi_contentDocument input")
    case None
    then show ?thesis
      using assms(2) opts by (auto simp: resolveQuestionContentWrite_def assert_projection_def split: option.splits)
  next
    case (Some doc)
    then obtain c where "canonicalizeContentDocument num grammar doc = Inr c"
      using assms(2) opts by (auto simp: resolveQuestionContentWrite_def bindR_Inr_iff)
    then show ?thesis
      using Some assms opts assert_projection_resolved [OF assms(1), of num doc]
      by (cases c) (auto simp: resolveQuestionContentWrite_def)
  qed
  with each resolveOption_projection [OF assms(1)] show ?thesis by blast
qed

section \<open>Instances\<close>

definition sample_row :: "ident \<Rightarrow> QuestionType \<Rightarrow> json option \<Rightarrow> QuestionRow" where
  "sample_row k ty std = \<lparr>qn_id = k, qn_courseId = ''c1'', qn_type = ty, qn_content = k,
     qn_contentDocument = None, qn_answerMode = None, qn_options = [], qn_standardAnswer = std,
     qn_attachments = [], qn_score = 5,
     qn_gradingRule = \<lparr>gr_multiSelectScoring = PartialHalf, gr_fillBlankMatchMode = Exact,
       gr_fillBlankCaseSensitive = None\<rparr>, qn_rubric = Some ''r''\<rparr>"

definition sample_draft_store :: store where
  "sample_draft_store = sample_store\<lparr>st_exams := [sample_exam\<lparr>ex_status := Draft, ex_questionSnapshot := []\<rparr>]\<rparr>"

definition sample_bank :: "QuestionRow list" where
  "sample_bank = [sample_row ''q2'' TextResponse None, sample_row ''q1'' TrueFalse (Some (JBool True))]"

definition sample_publish :: "app_error + Exam \<times> store" where
  "sample_publish = publishExam unary_num parse_document id ''e1'' sample_bank sample_draft_store"

lemma sample_publish_run:
  "publishExam unary_num parse_document id ''e1'' sample_bank sample_draft_store =
     Inr (fst (projr sample_publish), snd (projr sample_publish))"
  unfolding sample_publish_def by (rule run_result) code_simp

theorem publication_freezes_paper_witness:
  "sum_list (map qs_score (ex_questionSnapshot (fst (projr sample_publish)))) =
     ex_totalScore (fst (projr sample_publish)) \<and> ex_status (fst (projr sample_publish)) = Published"
proof -
  have "distinct (map qn_id sample_bank)" by code_simp
  from publication_freezes_paper [OF sample_publish_run this] show ?thesis by blast
qed

theorem exam_commands_refine_lifecycle_witness:
  "snd (projr sample_publish) = sample_draft_store\<lparr>st_exams := st_exams (snd (projr sample_publish))\<rparr>"
proof -
  have "exam_command unary_num parse_document id sample_draft_store (snd (projr sample_publish))"
    by (rule exam_command.intros(1) [OF sample_publish_run])
  from exam_commands_refine_lifecycle [OF r_into_rtranclp [of "exam_command unary_num parse_document id", OF this]]
  show ?thesis by blast
qed

lemma check_on_access_settles_witness:
  "\<exists>r s'. checkAndUpdateExamStatus ''e1'' 7200000 sample_store = Inr (Some r, s') \<and>
     ex_status (cu_exam r) = Closed"
proof -
  have e: "find_exam ''e1'' sample_store = Some sample_exam" by code_simp
  have "clock_status sample_exam 7200000 = Closed" by (simp add: clock_status_def sample_exam_def)
  with check_on_access_settles [OF e, of 7200000] show ?thesis by auto
qed

lemma authored_content_publishable_witness:
  "assert_projection unary_num parse_document ''q'' ''ab'' (Some (document_json sample_rich)) = Inr ()"
proof -
  have ab: "plainTextProjection sample_rich = ''ab''" by code_simp
  have "resolveQuestionContentWrite unary_num parse_document
      \<lparr>qi_content = None, qi_contentDocument = Some sample_rich_input, qi_answerMode = None, qi_options = []\<rparr> =
    Inr \<lparr>rc_content = ''ab'', rc_contentDocument = Some sample_rich, rc_answerMode = None, rc_options = []\<rparr>"
    by (simp add: resolveQuestionContentWrite_def sample_rich_accepted ab)
  from authored_content_publishable [OF strict_parser.content_grammar_axioms this] show ?thesis by simp
qed

end
