(* ===== verification/Operator_Grant.thy ===== *)
theory Operator_Grant
  imports Restore
begin

text \<open>
  \<^verbatim>\<open>packages/exam-engine/src/operatorGrant.ts\<close>: an operator adds time to an attempt that was started under the
  \<^verbatim>\<open>operator_incident\<close> policy. The row of the ledger carries the operation, so that a repeated grant is answered
  from the ledger. The port that reads the incident a grant refers to is the argument \<open>validator\<close>.
\<close>

section \<open>Input\<close>

definition POSTGRES_INTEGER_MAX :: int where "POSTGRES_INTEGER_MAX = 2147483647"

definition OPERATOR_GRANT_DEADLINE_RECONCILIATION_REASON :: string where
  "OPERATOR_GRANT_DEADLINE_RECONCILIATION_REASON = ''operator_grant_deadline_reconciliation''"

definition hex_char :: "char \<Rightarrow> bool" where
  "hex_char c \<longleftrightarrow> c \<in> set ''0123456789abcdefABCDEF''"

text \<open>\<^verbatim>\<open>UUID_RE\<close>: groups of 8, 4, 4, 4 and 12 hexadecimal digits of either case, with hyphens between.\<close>

fun hex_groups :: "nat list \<Rightarrow> string \<Rightarrow> bool" where
  "hex_groups [] s = (s = [])"
| "hex_groups [n] s = (length s = n \<and> list_all hex_char s)"
| "hex_groups (n # ns) s = (list_all hex_char (take n s) \<and>
     (case drop n s of [] \<Rightarrow> False | c # rest \<Rightarrow> c = CHR ''-'' \<and> hex_groups ns rest))"

definition UUID_RE :: "string \<Rightarrow> bool" where
  "UUID_RE = hex_groups [8, 4, 4, 4, 12]"

record GrantAttemptTimeInput =
  gi_attemptId :: ident
  gi_operationId :: ident
  gi_addedSeconds :: jsnum
  gi_reasonCode :: string
  gi_reasonText :: string
  gi_interruptionId :: "ident option"
  gi_incidentId :: "ident option"
  gi_actorId :: ident
  gi_now :: time

record GrantIncident =
  gn_examId :: ident
  gn_attemptId :: "ident option"
  gn_candidateId :: "ident option"

type_synonym IncidentGrantValidator = "ident \<Rightarrow> GrantIncident option"

datatype GrantOutcome = Granted | GrantTerminal | GrantReplay

record GrantAttemptTimeResult =
  gt_attempt :: ExamAttempt
  gt_outcome :: GrantOutcome
  gt_adjustment :: "AttemptTimeAdjustment option"
  gt_addedSeconds :: int

definition isSameOperatorGrantOperation ::
  "AttemptTimeAdjustment \<Rightarrow> ident \<Rightarrow> int \<Rightarrow> string \<Rightarrow> string \<Rightarrow> ident \<Rightarrow> ident option \<Rightarrow> ident option \<Rightarrow> bool" where
  "isSameOperatorGrantOperation existing attemptId addedSeconds reasonCode reasonText actorId interruptionId incidentId \<longleftrightarrow>
     ta_attemptId existing = attemptId \<and> ta_addedSeconds existing = addedSeconds \<and> ta_reasonCode existing = reasonCode \<and>
     ta_reasonText existing = Some reasonText \<and> ta_actorId existing = Some actorId \<and>
     ta_interruptionId existing = interruptionId \<and> ta_incidentId existing = incidentId \<and>
     ta_source existing = SrcOperator \<and> ta_policy existing = OperatorIncident \<and> ta_eligibleSeconds existing = None"

text \<open>Step 3, the normalization and validation of the input; the answer is the whole number of seconds, the
  reason code and the reason text. An instant of the model is always a valid date.\<close>

definition validate_grant_input ::
  "LockedEnrollmentAttemptIdentity \<Rightarrow> GrantAttemptTimeInput \<Rightarrow> app_error + int \<times> string \<times> string" where
  "validate_grant_input capability input =
     bindR (guardR (gi_attemptId input = lk_attemptId capability)
       (ValidationError ''Grant attemptId does not match the locked attempt'')) (\<lambda>_.
     bindR (guardR (UUID_RE (gi_operationId input)) (ValidationError ''operationId must be a valid UUID'')) (\<lambda>_.
     bindR (guardR (case gi_incidentId input of None \<Rightarrow> True | Some i \<Rightarrow> UUID_RE i)
       (ValidationError ''incidentId must be a valid UUID'')) (\<lambda>_.
     bindR (guardR (length (js_trim (gi_actorId input)) \<noteq> 0) (ValidationError ''actorId must not be empty'')) (\<lambda>_.
     let reasonCode = js_trim (gi_reasonCode input) in
     bindR (guardR (length reasonCode \<noteq> 0) (ValidationError ''reasonCode must not be empty'')) (\<lambda>_.
     bindR (guardR (\<not> length reasonCode > 100) (ValidationError ''reasonCode must be at most 100 chars'')) (\<lambda>_.
     let reasonText = js_trim (gi_reasonText input) in
     bindR (guardR (length reasonText \<noteq> 0) (ValidationError ''reasonText must not be empty'')) (\<lambda>_.
     bindR (guardR (\<not> length reasonText > 1000) (ValidationError ''reasonText must be at most 1000 chars'')) (\<lambda>_.
     let addedSeconds = gi_addedSeconds input in
     bindR (guardR (\<not> (\<not> is_integer addedSeconds \<or> addedSeconds \<le> 0 \<or> addedSeconds > of_int POSTGRES_INTEGER_MAX))
       (ValidationError ''addedSeconds must be a positive PostgreSQL integer'')) (\<lambda>_.
     Inr (\<lfloor>addedSeconds\<rfloor>, reasonCode, reasonText))))))))))"

text \<open>Step 5b, the scope of the incident the grant refers to.\<close>

definition validate_grant_incident ::
  "IncidentGrantValidator option \<Rightarrow> ident option \<Rightarrow> ExamAttempt \<Rightarrow> app_error + unit" where
  "validate_grant_incident validator incidentId attempt =
     (case incidentId of
        None \<Rightarrow> Inr ()
      | Some k \<Rightarrow>
          (case validator of
             None \<Rightarrow> Inl (ValidationError ''incidentId requires an incident grant validator'')
           | Some find_incident_row \<Rightarrow>
               (case find_incident_row k of
                  None \<Rightarrow> Inl (NotFoundError ''Incident not found'')
                | Some incident \<Rightarrow>
                    bindR (guardR (gn_examId incident = at_examId attempt)
                      (ValidationError ''Incident belongs to a different exam than the attempt'')) (\<lambda>_.
                    bindR (guardR (gn_attemptId incident = None \<or> gn_attemptId incident = Some (at_id attempt))
                      (ValidationError ''Incident is anchored to a different attempt'')) (\<lambda>_.
                    guardR (gn_candidateId incident = None \<or> gn_candidateId incident = Some (at_candidateId attempt))
                      (ValidationError ''Incident candidate does not match the attempt candidate''))))))"

text \<open>Step 10: \<^verbatim>\<open>Number.isSafeInteger\<close>, and the largest instant a \<^verbatim>\<open>Date\<close> holds.\<close>

definition MAX_SAFE_INTEGER :: int where "MAX_SAFE_INTEGER = 9007199254740991"
definition MAX_DATE :: int where "MAX_DATE = 8640000000000000"

definition grant_deadline :: "time option \<Rightarrow> int \<Rightarrow> time option \<Rightarrow> app_error + time \<times> time" where
  "grant_deadline deadlineAt addedSeconds closeAt =
     (case deadlineAt of
        None \<Rightarrow> Inl (ValidationError ''Cannot grant operator time without an attempt deadline'')
      | Some beforeDeadline \<Rightarrow>
          let afterMs = beforeDeadline + addedSeconds * 1000 in
          bindR (guardR (\<bar>afterMs\<bar> \<le> MAX_SAFE_INTEGER) (ValidationError ''Calculated deadline is out of range'')) (\<lambda>_.
          bindR (guardR (\<bar>afterMs\<bar> \<le> MAX_DATE) (ValidationError ''Calculated deadline is invalid'')) (\<lambda>_.
          case closeAt of
            None \<Rightarrow> Inl (ValidationError ''Cannot grant operator time on an exam without closeAt'')
          | Some c \<Rightarrow>
              if afterMs > c then Inl (AttemptDeadlineExceedsExamCloseError afterMs c)
              else Inr (beforeDeadline, afterMs))))"

section \<open>The grant\<close>

definition grant_reconciliation :: "ExamAttempt \<Rightarrow> AttemptTimingPolicySnapshot \<Rightarrow> SubmitInterruptionResolution" where
  "grant_reconciliation attempt snapshot =
     (if at_status attempt = Disrupted
      then ModeActiveInterruption \<lparr>th_policy = tp_policy snapshot, th_eligibleSeconds = None, th_adjustmentId = None,
        th_reasonCode = OPERATOR_GRANT_DEADLINE_RECONCILIATION_REASON\<rparr>
      else ModeNone)"

definition operator_row ::
  "GrantAttemptTimeInput \<Rightarrow> AttemptTimingPolicySnapshot \<Rightarrow> time \<Rightarrow> time \<Rightarrow> int \<Rightarrow> string \<Rightarrow> string \<Rightarrow> ident \<Rightarrow>
     AttemptTimeAdjustment" where
  "operator_row input snapshot beforeDeadline afterDeadline addedSeconds reasonCode reasonText i =
     \<lparr>ta_id = i, ta_operationId = Some (gi_operationId input), ta_attemptId = gi_attemptId input,
      ta_interruptionId = gi_interruptionId input, ta_incidentId = gi_incidentId input, ta_policy = tp_policy snapshot,
      ta_source = SrcOperator, ta_beforeDeadline = beforeDeadline, ta_afterDeadline = afterDeadline,
      ta_addedSeconds = addedSeconds, ta_eligibleSeconds = None, ta_reasonCode = reasonCode,
      ta_reasonText = Some reasonText, ta_actorId = Some (gi_actorId input)\<rparr>"

text \<open>Steps 8 to 14, on the reconciled attempt.\<close>

definition apply_grant ::
  "id_supply \<Rightarrow> GrantAttemptTimeInput \<Rightarrow> ExamAttempt \<Rightarrow> Exam \<Rightarrow> AttemptTimingPolicySnapshot \<Rightarrow> int \<Rightarrow> string \<Rightarrow> string \<Rightarrow>
     ExamAttempt \<Rightarrow> GrantAttemptTimeResult action" where
  "apply_grant uuid input attempt exam snapshot addedSeconds reasonCode reasonText reconciled =
     bindC (guardC (case gi_interruptionId input of None \<Rightarrow> True | Some j \<Rightarrow> UUID_RE j)
       (ValidationError ''interruptionId must be a valid UUID'')) (\<lambda>_.
     bindC (getsC (\<lambda>s. case gi_interruptionId input of None \<Rightarrow> True | Some j \<Rightarrow> find_episode (at_id attempt) j s \<noteq> None)) (\<lambda>owned.
     bindC (guardC owned (ValidationError ''Interruption episode does not belong to this attempt'')) (\<lambda>_.
     bindC (guardC (at_status reconciled = InProgress \<or> at_status reconciled = Disrupted)
       (InvalidStateTransitionError
         (''Cannot grant time for attempt in '' @ attempt_status_str (at_status reconciled) @ '' state''))) (\<lambda>_.
     bindC (liftC (grant_deadline (at_deadlineAt reconciled) addedSeconds (ex_closeAt exam))) (\<lambda>(beforeDeadline, afterDeadline).
     bindC (insert_adjustment uuid
       (operator_row input snapshot beforeDeadline afterDeadline addedSeconds reasonCode reasonText)) (\<lambda>adjustment.
     bindC (update_attempt (gi_attemptId input) (\<lambda>a. a\<lparr>at_deadlineAt := Some afterDeadline\<rparr>)) (\<lambda>updated.
     bindC (guardC (updated \<noteq> None) (NotFoundError ''Attempt not found after deadline update'')) (\<lambda>_.
     bindC (someC (find_attempt (gi_attemptId input)) (NotFoundError ''Attempt not found after grant'')) (\<lambda>finalAttempt.
     returnC \<lparr>gt_attempt = finalAttempt, gt_outcome = Granted, gt_adjustment = Some adjustment,
       gt_addedSeconds = addedSeconds\<rparr>)))))))))"

text \<open>Steps 5 to 14, for an operation the ledger does not know.\<close>

definition grant_fresh ::
  "(string \<Rightarrow> string) \<Rightarrow> (jsnum \<Rightarrow> string) \<Rightarrow> id_supply \<Rightarrow> repos \<Rightarrow> IncidentGrantValidator option \<Rightarrow>
     LockedEnrollmentAttemptIdentity \<Rightarrow> GrantAttemptTimeInput \<Rightarrow> ExamAttempt \<Rightarrow> Exam \<Rightarrow> int \<Rightarrow> string \<Rightarrow> string \<Rightarrow>
     GrantAttemptTimeResult action" where
  "grant_fresh lower num uuid repos validator capability input attempt exam addedSeconds reasonCode reasonText =
     bindC (requireC (at_interruptionTimingPolicySnapshot attempt)
       (ValidationError ''Attempt has no interruption timing policy snapshot'')) (\<lambda>snapshot.
     bindC (guardC (tp_policy snapshot = OperatorIncident)
       (InvalidStateTransitionError ''Operator time grant requires operator_incident policy'')) (\<lambda>_.
     bindC (liftC (validate_grant_incident validator (gi_incidentId input) attempt)) (\<lambda>_.
     bindC (ensureAttemptDeadlineReconciled lower num uuid repos capability (gi_now input)
       (grant_reconciliation attempt snapshot)) (\<lambda>reconciled.
     if at_status reconciled = Submitted \<or> at_status reconciled = Graded \<or> at_status reconciled = Voided
     then returnC \<lparr>gt_attempt = reconciled, gt_outcome = GrantTerminal, gt_adjustment = None, gt_addedSeconds = 0\<rparr>
     else apply_grant uuid input attempt exam snapshot addedSeconds reasonCode reasonText reconciled))))"

definition grantAttemptTime ::
  "(string \<Rightarrow> string) \<Rightarrow> (jsnum \<Rightarrow> string) \<Rightarrow> id_supply \<Rightarrow> repos \<Rightarrow> IncidentGrantValidator option \<Rightarrow>
     LockedEnrollmentAttemptIdentity \<Rightarrow> GrantAttemptTimeInput \<Rightarrow> GrantAttemptTimeResult action" where
  "grantAttemptTime lower num uuid repos validator capability input =
     bindC (liftC (assertCapabilityFor capability repos)) (\<lambda>_.
     bindC (someC (find_attempt (lk_attemptId capability)) (NotFoundError ''Attempt not found'')) (\<lambda>attempt.
     bindC (someC (find_exam (at_examId attempt)) (NotFoundError ''Exam not found'')) (\<lambda>exam.
     bindC (liftC (validate_grant_input capability input)) (\<lambda>(addedSeconds, reasonCode, reasonText).
     bindC (getsC (findByOperationId (gi_operationId input))) (\<lambda>existing.
     case existing of
       Some row \<Rightarrow>
         bindC (guardC (isSameOperatorGrantOperation row (gi_attemptId input) addedSeconds reasonCode reasonText
           (gi_actorId input) (gi_interruptionId input) (gi_incidentId input))
           (IdempotencyConflictError ''Operation id reused with a different payload'')) (\<lambda>_.
         bindC (someC (find_attempt (gi_attemptId input))
           (NotFoundError ''Attempt not found during idempotent replay'')) (\<lambda>replayedAttempt.
         returnC \<lparr>gt_attempt = replayedAttempt, gt_outcome = GrantReplay, gt_adjustment = Some row,
           gt_addedSeconds = ta_addedSeconds row\<rparr>))
     | None \<Rightarrow> grant_fresh lower num uuid repos validator capability input attempt exam addedSeconds reasonCode reasonText)))))"

section \<open>What a grant does\<close>

text \<open>The row of the ledger as it is stored and answered.\<close>

definition granted_row ::
  "GrantAttemptTimeInput \<Rightarrow> AttemptTimingPolicySnapshot \<Rightarrow> time \<Rightarrow> time \<Rightarrow> int \<Rightarrow> string \<Rightarrow> string \<Rightarrow> ident \<Rightarrow>
     AttemptTimeAdjustment" where
  "granted_row input p b d n rc rt i = uuid_columns (operator_row input p b d n rc rt i)"

lemma granted_row_simps [simp]:
  "ta_operationId (granted_row input p b d n rc rt i) = Some (pg_uuid (gi_operationId input))"
  "ta_interruptionId (granted_row input p b d n rc rt i) = map_option pg_uuid (gi_interruptionId input)"
  "ta_incidentId (granted_row input p b d n rc rt i) = map_option pg_uuid (gi_incidentId input)"
  "ta_attemptId (granted_row input p b d n rc rt i) = gi_attemptId input"
  "ta_policy (granted_row input p b d n rc rt i) = tp_policy p" "ta_source (granted_row input p b d n rc rt i) = SrcOperator"
  "ta_beforeDeadline (granted_row input p b d n rc rt i) = b" "ta_afterDeadline (granted_row input p b d n rc rt i) = d"
  "ta_addedSeconds (granted_row input p b d n rc rt i) = n" "ta_eligibleSeconds (granted_row input p b d n rc rt i) = None"
  "ta_reasonCode (granted_row input p b d n rc rt i) = rc" "ta_reasonText (granted_row input p b d n rc rt i) = Some rt"
  "ta_actorId (granted_row input p b d n rc rt i) = Some (gi_actorId input)"
  by (simp_all add: granted_row_def operator_row_def)

lemma operator_insert_iff:
  "insert_adjustment uuid (operator_row input p b d n rc rt) s = Inr (adj, s') \<longleftrightarrow>
     findByOperationId (gi_operationId input) s = None \<and> adj = granted_row input p b d n rc rt (uuid (st_drawn s)) \<and>
     s' = s\<lparr>st_drawn := Suc (st_drawn s), st_adjustments := st_adjustments s @ [adj]\<rparr>"
  by (auto simp: insert_adjustment_def granted_row_def operator_row_def uuid_columns_def Let_def bindC_run draw_run cmd_iff
      findByOperationId_def)

definition operator_store ::
  "GrantAttemptTimeInput \<Rightarrow> time \<Rightarrow> AttemptTimeAdjustment \<Rightarrow> store \<Rightarrow> store" where
  "operator_store input d adj s = upd_attempt (gi_attemptId input) (\<lambda>a. a\<lparr>at_deadlineAt := Some d\<rparr>)
     (s\<lparr>st_drawn := Suc (st_drawn s), st_adjustments := st_adjustments s @ [adj]\<rparr>)"

lemma operator_store_facts:
  assumes "find_attempt (gi_attemptId input) s = Some a"
  shows "find_attempt k (operator_store input d adj s) =
      (if k = gi_attemptId input then Some (a\<lparr>at_deadlineAt := Some d\<rparr>) else find_attempt k s)"
    "st_adjustments (operator_store input d adj s) = st_adjustments s @ [adj]"
    "st_exams (operator_store input d adj s) = st_exams s"
    "st_enrollments (operator_store input d adj s) = st_enrollments s"
    "st_entries (operator_store input d adj s) = st_entries s"
    "st_events (operator_store input d adj s) = st_events s"
    "st_episodes (operator_store input d adj s) = st_episodes s"
  using assms find_attempt_id [OF assms]
  by (auto simp: operator_store_def store_simps)

lemma operator_store_frame:
  "map at_id (st_attempts (operator_store input d adj s)) = map at_id (st_attempts s)"
  "(operator_store input d adj s)\<lparr>st_attempts := st_attempts s, st_adjustments := st_adjustments s, st_drawn := st_drawn s\<rparr> = s"
  by (simp_all add: operator_store_def upd_attempt_def tbl_update_def)

lemma validate_grant_input_D:
  assumes "validate_grant_input c input = Inr (n, rc, rt)"
  shows "gi_attemptId input = lk_attemptId c" "gi_addedSeconds input = of_int n" "0 < n" "n \<le> POSTGRES_INTEGER_MAX"
    "rc = js_trim (gi_reasonCode input)" "rt = js_trim (gi_reasonText input)" "rc \<noteq> []" "rt \<noteq> []"
  using assms by (auto simp: validate_grant_input_def cmd_iff Let_def is_integer_def floor_le_iff)

lemma grant_deadline_iff:
  "grant_deadline b n close = Inr (x, y) \<longleftrightarrow> b = Some x \<and> y = x + n * 1000 \<and> \<bar>y\<bar> \<le> MAX_DATE \<and>
     (\<exists>c. close = Some c \<and> y \<le> c)"
  by (auto simp: grant_deadline_def cmd_iff Let_def MAX_DATE_def MAX_SAFE_INTEGER_def split: option.splits if_splits)

lemma apply_grant_iff:
  assumes "find_attempt (gi_attemptId input) s = Some r" "running r"
  shows "apply_grant uuid input r x p n rc rt r s = Inr (res, s') \<longleftrightarrow>
    (\<forall>j. gi_interruptionId input = Some j \<longrightarrow> UUID_RE j \<and> find_episode (at_id r) j s \<noteq> None) \<and>
    findByOperationId (gi_operationId input) s = None \<and>
    (\<exists>b d adj. grant_deadline (at_deadlineAt r) n (ex_closeAt x) = Inr (b, d) \<and>
       adj = granted_row input p b d n rc rt (uuid (st_drawn s)) \<and> s' = operator_store input d adj s \<and>
       res = \<lparr>gt_attempt = r\<lparr>at_deadlineAt := Some d\<rparr>, gt_outcome = Granted, gt_adjustment = Some adj,
         gt_addedSeconds = n\<rparr>)"
  using assms find_attempt_id [OF assms(1)] unfolding running_def
  by (auto simp: apply_grant_def cmd_iff operator_insert_iff update_attempt_iff operator_store_def store_simps
      split: option.splits)

lemma grant_cases [consumes 1, case_names replay terminal granted]:
  assumes "grantAttemptTime lower num uuid rs validator c input s = Inr (r, s')"
  obtains (replay) a n rc rt row where "validate_grant_input c input = Inr (n, rc, rt)"
      "findByOperationId (gi_operationId input) s = Some row"
      "isSameOperatorGrantOperation row (gi_attemptId input) n rc rt (gi_actorId input) (gi_interruptionId input)
         (gi_incidentId input)"
      "find_attempt (lk_attemptId c) s = Some a" "s' = s" "lk_affinity c = rs"
      "r = \<lparr>gt_attempt = a, gt_outcome = GrantReplay, gt_adjustment = Some row, gt_addedSeconds = ta_addedSeconds row\<rparr>"
  | (terminal) a n rc rt p rec where "validate_grant_input c input = Inr (n, rc, rt)"
      "findByOperationId (gi_operationId input) s = None"
      "find_attempt (lk_attemptId c) s = Some a" "at_interruptionTimingPolicySnapshot a = Some p"
      "tp_policy p = OperatorIncident" "validate_grant_incident validator (gi_incidentId input) a = Inr ()"
      "ensureAttemptDeadlineReconciled lower num uuid rs c (gi_now input) (grant_reconciliation a p) s = Inr (rec, s')"
      "at_status rec \<in> {Submitted, Graded, Voided}"
      "r = \<lparr>gt_attempt = rec, gt_outcome = GrantTerminal, gt_adjustment = None, gt_addedSeconds = 0\<rparr>"
  | (granted) a x n rc rt p b d where "validate_grant_input c input = Inr (n, rc, rt)"
      "findByOperationId (gi_operationId input) s = None"
      "find_attempt (lk_attemptId c) s = Some a" "at_interruptionTimingPolicySnapshot a = Some p"
      "tp_policy p = OperatorIncident" "validate_grant_incident validator (gi_incidentId input) a = Inr ()"
      "ensureAttemptDeadlineReconciled lower num uuid rs c (gi_now input) (grant_reconciliation a p) s = Inr (a, s)"
      "running a" "find_exam (at_examId a) s = Some x"
      "\<forall>j. gi_interruptionId input = Some j \<longrightarrow> UUID_RE j \<and> find_episode (at_id a) j s \<noteq> None"
      "grant_deadline (at_deadlineAt a) n (ex_closeAt x) = Inr (b, d)"
      "s' = operator_store input d (granted_row input p b d n rc rt (uuid (st_drawn s))) s"
      "r = \<lparr>gt_attempt = a\<lparr>at_deadlineAt := Some d\<rparr>, gt_outcome = Granted,
         gt_adjustment = Some (granted_row input p b d n rc rt (uuid (st_drawn s))), gt_addedSeconds = n\<rparr>"
proof -
  obtain a x n rc rt where a: "find_attempt (lk_attemptId c) s = Some a" "find_exam (at_examId a) s = Some x"
      "validate_grant_input c input = Inr (n, rc, rt)" "lk_affinity c = rs"
    using assms by (auto simp: grantAttemptTime_def cmd_iff)
  note v = validate_grant_input_D [OF a(3)]
  show thesis
  proof (cases "findByOperationId (gi_operationId input) s")
    case (Some row)
    then show thesis using assms a v by (intro replay [of n rc rt row a]) (auto simp: grantAttemptTime_def cmd_iff)
  next
    case None
    then have "grant_fresh lower num uuid rs validator c input a x n rc rt s = Inr (r, s')"
      using assms a by (auto simp: grantAttemptTime_def cmd_iff)
    then obtain p rec s1 where p: "at_interruptionTimingPolicySnapshot a = Some p" "tp_policy p = OperatorIncident"
        "validate_grant_incident validator (gi_incidentId input) a = Inr ()"
      and rec: "ensureAttemptDeadlineReconciled lower num uuid rs c (gi_now input) (grant_reconciliation a p) s = Inr (rec, s1)"
      and rest: "if at_status rec \<in> {Submitted, Graded, Voided}
        then r = \<lparr>gt_attempt = rec, gt_outcome = GrantTerminal, gt_adjustment = None, gt_addedSeconds = 0\<rparr> \<and> s' = s1
        else apply_grant uuid input a x p n rc rt rec s1 = Inr (r, s')"
      by (auto simp: grant_fresh_def cmd_iff split: if_splits)
    show thesis
    proof (cases "at_status rec \<in> {Submitted, Graded, Voided}")
      case True
      then show thesis using None a p rec rest by (intro terminal) auto
    next
      case False
      then have run: "apply_grant uuid input a x p n rc rt rec s1 = Inr (r, s')" using rest by simp
      then have live: "running rec" by (auto simp: apply_grant_def cmd_iff running_def)
      from rec have same: "rec = a \<and> s1 = s"
        using live a(1) by (cases rule: reconcile_cases) (auto dest: deadline_closed_D)
      have k: "find_attempt (gi_attemptId input) s = Some a" using a(1) v(1) by simp
      from run obtain b d where d: "grant_deadline (at_deadlineAt a) n (ex_closeAt x) = Inr (b, d)"
          "\<forall>j. gi_interruptionId input = Some j \<longrightarrow> UUID_RE j \<and> find_episode (at_id a) j s \<noteq> None"
          "s' = operator_store input d (granted_row input p b d n rc rt (uuid (st_drawn s))) s"
          "r = \<lparr>gt_attempt = a\<lparr>at_deadlineAt := Some d\<rparr>, gt_outcome = Granted,
             gt_adjustment = Some (granted_row input p b d n rc rt (uuid (st_drawn s))), gt_addedSeconds = n\<rparr>"
        using live same by (auto simp: apply_grant_iff [OF k])
      show thesis
        using rec live same d by (intro granted [OF a(3) None a(1) p _ _ a(2)]) simp_all
    qed
  qed
qed

text \<open>The attempt's effective deadline, if it has one, lies after \<open>now\<close>.\<close>

definition unexpired :: "ExamAttempt \<Rightarrow> time \<Rightarrow> store \<Rightarrow> bool" where
  "unexpired a now s \<longleftrightarrow> (\<exists>x e. find_exam (at_examId a) s = Some x \<and>
     computeEffectiveDeadline (ex_closeAt x) (at_deadlineAt a) = Inr e \<and> (\<forall>d. e = Some d \<longrightarrow> now < d))"

text \<open>C10: A grant of time is exact. When an operator grants time, the attempt was running, had not expired and was
  started under the operator policy; the whole positive number of seconds asked for is added to its deadline, which
  stays within the close of the exam; exactly one row with these deadlines is appended to the ledger, under the
  operation, the interruption and the incident of the request as the database writes identifiers (in lower case),
  and no row was there under that operation; the attempt is else as it was, and so are all other attempts and,
  but for one drawn identifier, the rest of the store: exams, enrollments, receipts, entries, episodes, events and
  admissions. The bounded-grace account is not touched.\<close>

theorem operator_grant_exact:
  assumes "grantAttemptTime lower num uuid rs validator c input s = Inr (r, s')" "gt_outcome r = Granted"
  shows "\<exists>a x n d adj. find_attempt (lk_attemptId c) s = Some a \<and> running a \<and> unexpired a (gi_now input) s \<and>
    map_option tp_policy (at_interruptionTimingPolicySnapshot a) = Some OperatorIncident \<and>
    gi_addedSeconds input = of_int n \<and> 0 < n \<and> n \<le> 2147483647 \<and>
    at_deadlineAt a = Some d \<and> find_exam (at_examId a) s = Some x \<and> (\<exists>close. ex_closeAt x = Some close \<and> d + 1000 * n \<le> close) \<and>
    gt_adjustment r = Some adj \<and> ta_operationId adj = Some (pg_uuid (gi_operationId input)) \<and>
    ta_interruptionId adj = map_option pg_uuid (gi_interruptionId input) \<and>
    ta_incidentId adj = map_option pg_uuid (gi_incidentId input) \<and> ta_actorId adj = Some (gi_actorId input) \<and>
    ta_reasonCode adj = js_trim (gi_reasonCode input) \<and> ta_reasonText adj = Some (js_trim (gi_reasonText input)) \<and>
    ta_source adj = SrcOperator \<and> ta_policy adj = OperatorIncident \<and> ta_eligibleSeconds adj = None \<and>
    ta_attemptId adj = at_id a \<and> ta_beforeDeadline adj = d \<and> ta_afterDeadline adj = d + 1000 * n \<and> ta_addedSeconds adj = n \<and>
    findByOperationId (gi_operationId input) s = None \<and> st_adjustments s' = st_adjustments s @ [adj] \<and>
    gt_attempt r = a\<lparr>at_deadlineAt := Some (d + 1000 * n)\<rparr> \<and> map at_id (st_attempts s') = map at_id (st_attempts s) \<and>
    (\<forall>k. find_attempt k s' = (if k = at_id a then Some (gt_attempt r) else find_attempt k s)) \<and>
    (\<forall>k. sumBoundedGraceSeconds k s' = sumBoundedGraceSeconds k s) \<and>
    s'\<lparr>st_attempts := st_attempts s, st_adjustments := st_adjustments s, st_drawn := st_drawn s\<rparr> = s"
  using assms(1)
proof (cases rule: grant_cases)
  case (granted a x n rc rt p b d)
  note v = validate_grant_input_D [OF granted(1)] and k = find_attempt_id [OF granted(3)]
  have a: "find_attempt (gi_attemptId input) s = Some a" using granted(3) v(1) by simp
  note facts = operator_store_facts [OF a]
  have "unexpired a (gi_now input) s"
    using granted(7) \<open>running a\<close> by (cases rule: reconcile_cases) (auto simp: unexpired_def dest: deadline_closed_D)
  then show ?thesis
    using granted v k facts
    by (intro exI [of _ a] exI [of _ x] exI [of _ n] exI [of _ b]
        exI [of _ "granted_row input p b d n rc rt (uuid (st_drawn s))"])
      (auto simp: grant_deadline_iff POSTGRES_INTEGER_MAX_def sumBoundedGraceSeconds_def operator_store_frame)
qed (use assms(2) in simp_all)

text \<open>The answer to a request whose operation the ledger knows.\<close>

lemma known_operation:
  assumes "findByOperationId (gi_operationId input) s = Some row" "find_attempt (lk_attemptId c) s = Some a"
    and "find_exam (at_examId a) s = Some x" "lk_affinity c = rs" "validate_grant_input c input = Inr (n, rc, rt)"
  shows "grantAttemptTime lower num uuid rs validator c input s =
    (if isSameOperatorGrantOperation row (gi_attemptId input) n rc rt (gi_actorId input) (gi_interruptionId input)
          (gi_incidentId input)
     then Inr (\<lparr>gt_attempt = a, gt_outcome = GrantReplay, gt_adjustment = Some row, gt_addedSeconds = ta_addedSeconds row\<rparr>, s)
     else Inl (IdempotencyConflictError ''Operation id reused with a different payload''))"
proof -
  have "assertCapabilityFor c rs = Inr ()" using assms(4) by simp
  then show ?thesis
    using assms validate_grant_input_D(1) [OF assms(5)] by (simp add: grantAttemptTime_def cmd_run returnC_def del: assertCapabilityFor_iff)
qed

lemma same_operator_row:
  assumes "validate_grant_input c input = Inr (n, rc, rt)" "validate_grant_input c' input' = Inr (n', rc', rt')"
    and "tp_policy p = OperatorIncident"
  shows "isSameOperatorGrantOperation (granted_row input p b d n rc rt i) (gi_attemptId input') n' rc' rt'
      (gi_actorId input') (gi_interruptionId input') (gi_incidentId input') \<longleftrightarrow>
    gi_attemptId input' = gi_attemptId input \<and> gi_addedSeconds input' = gi_addedSeconds input \<and>
    js_trim (gi_reasonCode input') = js_trim (gi_reasonCode input) \<and>
    js_trim (gi_reasonText input') = js_trim (gi_reasonText input) \<and> gi_actorId input' = gi_actorId input \<and>
    gi_interruptionId input' = map_option pg_uuid (gi_interruptionId input) \<and>
    gi_incidentId input' = map_option pg_uuid (gi_incidentId input)"
  using validate_grant_input_D [OF assms(1)] validate_grant_input_D [OF assms(2)] assms(3)
  by (auto simp: isSameOperatorGrantOperation_def)

section \<open>A sample grant\<close>

definition sample_operator_store :: store where
  "sample_operator_store = sample_store\<lparr>st_attempts := [sample_attempt\<lparr>at_interruptionTimingPolicySnapshot :=
     Some \<lparr>tp_policy = OperatorIncident, tp_perIncidentCapSeconds = None, tp_perAttemptAggregateCapSeconds = None\<rparr>\<rparr>]\<rparr>"

definition sample_grant :: "string \<Rightarrow> GrantAttemptTimeInput" where
  "sample_grant reason = \<lparr>gi_attemptId = ''a1'', gi_operationId = ''0A000000-0000-0000-0000-00000000000f'',
     gi_addedSeconds = 600, gi_reasonCode = ''power'', gi_reasonText = reason, gi_interruptionId = None,
     gi_incidentId = None, gi_actorId = ''u9'', gi_now = 100000\<rparr>"

text \<open>The same request with an incident, written in upper case.\<close>

definition sample_incident_grant :: "string \<Rightarrow> GrantAttemptTimeInput" where
  "sample_incident_grant incident = (sample_grant ''cut'')\<lparr>gi_incidentId := Some incident\<rparr>"

definition sample_validator :: "IncidentGrantValidator" where
  "sample_validator k = Some \<lparr>gn_examId = ''e1'', gn_attemptId = None, gn_candidateId = None\<rparr>"

definition sample_granted :: "GrantAttemptTimeResult \<times> store" where
  "sample_granted = projr (grantAttemptTime id unary_num sample_uuid sample_repos None sample_cap (sample_grant ''cut'')
     sample_operator_store)"

lemma sample_granted_run:
  "grantAttemptTime id unary_num sample_uuid sample_repos None sample_cap (sample_grant ''cut'') sample_operator_store =
     Inr (fst sample_granted, snd sample_granted)"
proof -
  have "\<not> isl (grantAttemptTime id unary_num sample_uuid sample_repos None sample_cap (sample_grant ''cut'')
      sample_operator_store)" by code_simp
  then show ?thesis by (simp add: sample_granted_def)
qed

lemma sample_granted_outcome: "gt_outcome (fst sample_granted) = Granted" by code_simp

theorem operator_grant_exact_witness:
  "\<exists>a x n d adj. find_attempt ''a1'' sample_operator_store = Some a \<and> running a \<and> at_deadlineAt a = Some d \<and>
     find_exam (at_examId a) sample_operator_store = Some x \<and> (\<exists>close. ex_closeAt x = Some close \<and> d + 1000 * n \<le> close) \<and>
     st_adjustments (snd sample_granted) = st_adjustments sample_operator_store @ [adj] \<and> ta_addedSeconds adj = n \<and> 0 < n"
proof -
  have "lk_attemptId sample_cap = ''a1''" by code_simp
  with operator_grant_exact [OF sample_granted_run sample_granted_outcome] show ?thesis by auto
qed

end
