(* ===== verification/Engine_Steps.thy ===== *)
theory Engine_Steps
  imports Attempt_Start Exam_Commands Operator_Grant
begin

text \<open>
  The composition of the engine: one step relation over the commands of all components (answer saves,
  heartbeats, submission, disruption, deadline reconciliation, restoration, operator grants, manual and automatic
  grading, start, the admission queue and the exam commands), and what every step keeps: attempts move along
  the attempt machine, frozen answers stay frozen, a candidate never has two running attempts, and the
  ledger of compensated seconds stays below the cap of the attempt.
\<close>

section \<open>The steps\<close>

text \<open>Each command runs in one transaction, so a history is a sequence of successful commands, issued by
  anybody, at any time and in any order. Identifiers drawn for new attempts are fresh.\<close>

definition fresh_attempt_id :: "id_supply \<Rightarrow> store \<Rightarrow> bool" where
  "fresh_attempt_id uuid s \<longleftrightarrow>
     list_all (\<lambda>a. at_id a \<noteq> uuid (st_drawn s)) (st_attempts s) \<and>
     list_all (\<lambda>d. ta_attemptId d \<noteq> uuid (st_drawn s)) (st_adjustments s)"

inductive engine_step :: "(string \<Rightarrow> string) \<Rightarrow> (jsnum \<Rightarrow> string) \<Rightarrow> (string \<Rightarrow> string) \<Rightarrow> id_supply \<Rightarrow>
    store \<Rightarrow> store \<Rightarrow> bool" for lower num sha uuid where
  save: "saveAnswer num sha rs ctx req can s = Inr (r1, s') \<Longrightarrow> engine_step lower num sha uuid s s'"
| heartbeat: "refreshLastActivityIfInProgress k now s = Inr (r2, s') \<Longrightarrow> engine_step lower num sha uuid s s'"
| submit: "submitAttempt lower num uuid k now opts s = Inr (r3, s') \<Longrightarrow> engine_step lower num sha uuid s s'"
| disrupt: "markDisrupted uuid k tick tmo s = Inr (r4, s') \<Longrightarrow> engine_step lower num sha uuid s s'"
| reconcile: "ensureAttemptDeadlineReconciled lower num uuid rs c now res s = Inr (r5, s') \<Longrightarrow>
    engine_step lower num sha uuid s s'"
| restore: "restoreInterruptedAttempt lower num uuid rs c now s = Inr (r6, s') \<Longrightarrow>
    engine_step lower num sha uuid s s'"
| grade: "grading_step s s' \<Longrightarrow> engine_step lower num sha uuid s s'"
| start: "startOrRestoreAttempt lower num uuid rs sopts x cand now s = Inr (r7, s') \<Longrightarrow>
    fresh_attempt_id uuid s \<Longrightarrow> engine_step lower num sha uuid s s'"
| join: "joinAdmissionQueue uuid exam cand now s = Inr (r8, s') \<Longrightarrow> engine_step lower num sha uuid s s'"
| admit: "reconcileAdmission exam cand now s = Inr (r9, s') \<Longrightarrow> engine_step lower num sha uuid s s'"
| grant: "grantAttemptTime lower num uuid rs validator c input s = Inr (r10, s') \<Longrightarrow> engine_step lower num sha uuid s s'"
| administer: "exam_command num grammar lower s s' \<Longrightarrow> engine_step lower num sha uuid s s'"

section \<open>How an attempt develops\<close>

definition attempt_evolves :: "ExamAttempt \<Rightarrow> ExamAttempt \<Rightarrow> bool" where
  "attempt_evolves a b \<longleftrightarrow>
     at_id b = at_id a \<and> at_examId b = at_examId a \<and> at_enrollmentId b = at_enrollmentId a \<and>
     at_candidateId b = at_candidateId a \<and> at_attemptNo b = at_attemptNo a \<and>
     at_questionSnapshot b = at_questionSnapshot a \<and> at_startedAt b = at_startedAt a \<and>
     at_interruptionTimingPolicySnapshot b = at_interruptionTimingPolicySnapshot a \<and>
     attempt_step\<^sup>*\<^sup>* (at_status a) (at_status b) \<and>
     (attempt_frozen (at_status a) \<longrightarrow>
        at_answers b = at_answers a \<and> at_submittedAnswers b = at_submittedAnswers a \<and>
        at_submittedAt b = at_submittedAt a \<and> at_submissionReason b = at_submissionReason a)"

definition attempts_evolve :: "store \<Rightarrow> store \<Rightarrow> bool" where
  "attempts_evolve s s' \<longleftrightarrow> (\<forall>k. rel_option attempt_evolves (find_attempt k s) (find_attempt k s'))"

lemma attempt_evolves_refl [simp]: "attempt_evolves a a"
  by (simp add: attempt_evolves_def)

lemma attempt_evolves_trans: "attempt_evolves a b \<Longrightarrow> attempt_evolves b c \<Longrightarrow> attempt_evolves a c"
  using frozen_step.reach_inv [of "at_status a" "at_status b"]
  by (auto simp: attempt_evolves_def intro: rtranclp_trans)

lemma attempts_evolve_refl [simp]: "attempts_evolve s s"
  by (simp add: attempts_evolve_def option.rel_refl)

lemma attempts_evolve_trans:
  assumes "attempts_evolve s t" "attempts_evolve t u"
  shows "attempts_evolve s u"
proof -
  have "rel_option attempt_evolves x z" if "rel_option attempt_evolves x y" "rel_option attempt_evolves y z" for x y z
    using that by (cases x; cases y; cases z) (auto intro: attempt_evolves_trans)
  with assms show ?thesis unfolding attempts_evolve_def by blast
qed

lemma attempts_evolve_frame: "st_attempts s' = st_attempts s \<Longrightarrow> attempts_evolve s s'"
  by (simp add: attempts_evolve_def find_attempt_def option.rel_refl)

lemma attempts_evolve_row:
  assumes "find_attempt k s = Some a" and "\<And>j. find_attempt j s' = (if j = k then Some b else find_attempt j s)"
    and "attempt_evolves a b"
  shows "attempts_evolve s s'"
  using assms by (simp add: attempts_evolve_def option.rel_refl)

lemma attempts_evolve_D:
  "attempts_evolve s s' \<Longrightarrow> find_attempt k s = Some a \<Longrightarrow> \<exists>b. find_attempt k s' = Some b \<and> attempt_evolves a b"
  unfolding attempts_evolve_def by (metis option.rel_cases option.inject option.distinct(1))

lemma attempts_evolve_back:
  "attempts_evolve s s' \<Longrightarrow> find_attempt k s' = Some b \<Longrightarrow> \<exists>a. find_attempt k s = Some a \<and> attempt_evolves a b"
  unfolding attempts_evolve_def by (metis option.rel_cases option.inject option.distinct(1))

text \<open>The rows that the commands write.\<close>

lemma step1: "attempt_step x y \<Longrightarrow> attempt_step\<^sup>*\<^sup>* x y"
  by (rule r_into_rtranclp)

lemma evolves_save: "\<not> attempt_frozen (at_status a) \<Longrightarrow> attempt_evolves a (save_write req v t a a)"
  by (simp add: attempt_evolves_def save_write_def)

lemma evolves_submit:
  "running a \<Longrightarrow> attempt_evolves a (submitted_row now sub reason g a)"
  by (auto simp: attempt_evolves_def submitted_row_def running_def attempt_frozen_def attempt_step_cases intro!: step1)

lemma evolves_disrupt: "at_status a = InProgress \<Longrightarrow> attempt_evolves a (disrupted_row j tick a)"
  by (auto simp: attempt_evolves_def disrupted_row_def attempt_frozen_def attempt_step_cases intro!: step1)

lemma evolves_resume: "at_status a = Disrupted \<Longrightarrow> attempt_evolves a (resumed_row now a)"
  by (auto simp: attempt_evolves_def resumed_row_def attempt_frozen_def attempt_step_cases intro!: step1)

lemma evolves_grade: "at_status a = Submitted \<Longrightarrow> attempt_evolves a (graded_row ag g now a)"
  by (auto simp: attempt_evolves_def graded_row_def attempt_step_cases intro!: step1)

lemma evolves_grant: "attempt_evolves a (after_grant g s s1 a)"
  by (simp add: attempt_evolves_def after_grant_def)

section \<open>What each command does to the attempts\<close>

lemma save_evolves:
  assumes "saveAnswer num sha rs ctx req can s = Inr (r, s')"
  shows "attempts_evolve s s'"
  using assms
proof (cases rule: saveAnswer_cases)
  case (written a q answer i)
  have a: "find_attempt (rq_attemptId req) s = Some a" using written(1) by (rule save_ready_attempt)
  show ?thesis
    using written(2) by (intro attempts_evolve_row [OF a])
      (auto simp: written(11) find_after_save [OF a] save_open_def attempt_frozen_def intro!: evolves_save)
qed simp_all

lemma heartbeat_evolves: "refreshLastActivityIfInProgress k now s = Inr (r, s') \<Longrightarrow> attempts_evolve s s'"
proof (cases "find_attempt k s")
  case None
  assume "refreshLastActivityIfInProgress k now s = Inr (r, s')"
  with None show ?thesis by (simp add: refreshLastActivityIfInProgress_def cmd_run returnC_iff)
next
  case (Some a)
  assume run: "refreshLastActivityIfInProgress k now s = Inr (r, s')"
  have "attempt_evolves a (a\<lparr>at_lastActivityAt := Some now\<rparr>)" by (simp add: attempt_evolves_def)
  with Some run show ?thesis
    by (auto simp: refreshLastActivityIfInProgress_def cmd_run returnC_iff update_attempt_iff store_simps
        split: if_splits intro!: attempts_evolve_row [OF Some])
qed

lemma submit_evolves: "submitAttempt lower num uuid k now opts s = Inr (r, s') \<Longrightarrow> attempts_evolve s s'"
proof -
  assume run: "submitAttempt lower num uuid k now opts s = Inr (r, s')"
  then obtain a where a: "find_attempt k s = Some a" by (auto simp: submitAttempt_def bindC_Inr_iff someC_iff)
  show ?thesis
  proof (cases "at_status a = Submitted \<or> at_status a = Graded")
    case True
    with run show ?thesis by (simp add: submitAttempt_iff [OF a])
  next
    case False
    with run have s': "s' = frozen_store lower uuid now opts a s" and "running a"
      by (auto simp: submitAttempt_iff [OF a] submittable_def running_def split: SubmitInterruptionResolution.splits)
    then show ?thesis
      using a find_attempt_id [OF a] frozen_store_own [of a s]
      by (intro attempts_evolve_row [OF a, where b = "frozen_row now opts a"])
        (auto simp: frozen_store_attempt frozen_row_def intro: evolves_submit)
  qed
qed

lemma disrupt_evolves: "markDisrupted uuid k tick tmo s = Inr (r, s') \<Longrightarrow> attempts_evolve s s'"
proof (cases "find_attempt k s")
  case (Some a)
  assume "markDisrupted uuid k tick tmo s = Inr (r, s')"
  with Some show ?thesis
    by (auto simp: markDisrupted_iff disrupted_store_def Let_def store_simps split: if_splits
        intro!: attempts_evolve_row [OF Some] evolves_disrupt)
qed (simp add: markDisrupted_iff)

lemma finalize_evolves: "finalizeTerminalGrading rs c exam now s = Inr (r, s') \<Longrightarrow> attempts_evolve s s'"
proof -
  assume run: "finalizeTerminalGrading rs c exam now s = Inr (r, s')"
  then obtain a where a: "find_attempt (lk_attemptId c) s = Some a" by (auto simp: finalizeTerminalGrading_iff)
  note k = find_attempt_id [OF a]
  show ?thesis
    using run a k
    by (auto simp: finalizeTerminalGrading_iff closed_store_attempt split: if_splits
        intro!: attempts_evolve_row [OF a] evolves_grade)
qed

lemma deadline_evolves:
  "deadline_closed lower num uuid rs c now res a d s r s' \<Longrightarrow> attempts_evolve s s'"
  unfolding deadline_closed_def
  by (auto simp: finalizeGrading_iff split: if_splits
      dest!: submit_evolves finalize_evolves intro: attempts_evolve_trans)

lemma reconcile_evolves:
  assumes "ensureAttemptDeadlineReconciled lower num uuid rs c now res s = Inr (r, s')"
  shows "attempts_evolve s s'"
  using assms by (cases rule: reconcile_cases) (auto dest: deadline_evolves)

lemma restore_evolves: "restoreInterruptedAttempt lower num uuid rs c now s = Inr (r, s') \<Longrightarrow> attempts_evolve s s'"
proof -
  assume run: "restoreInterruptedAttempt lower num uuid rs c now s = Inr (r, s')"
  then obtain a where a: "find_attempt (lk_attemptId c) s = Some a"
    by (auto simp: restoreInterruptedAttempt_def bindC_Inr_iff someC_iff liftC_iff)
  note k = find_attempt_id [OF a]
  show ?thesis
  proof (cases "at_status a = Disrupted")
    case False
    with run a have "s' = s"
      by (auto simp: restoreInterruptedAttempt_def bindC_Inr_iff someC_iff liftC_iff guardC_iff
          split: if_splits dest: reconstruct_read_only)
    then show ?thesis by simp
  next
    case True
    then obtain x j t p where "restore_disrupted lower num uuid rs c now a x j p t s = Inr (r, s')"
      using run restoreInterruptedAttempt_disrupted [OF a True] by blast
    from this a True show ?thesis
    proof (cases rule: restore_disrupted_cases)
      case (terminal g s1 d y)
      have "attempts_evolve s s1"
        using restore_grant_store(1) [OF terminal(1) a [folded k]] a k
        by (intro attempts_evolve_row [OF a]) (auto intro: evolves_grant)
      with deadline_evolves [OF terminal(2)] show ?thesis by (rule attempts_evolve_trans [rotated])
    next
      case (restored g s1 y e)
      note st1 = restore_grant_store(1) [OF restored(1) a [folded k]]
      have "attempt_evolves a (resumed_row now (after_grant g s s1 a))"
        using True by (intro attempt_evolves_trans [OF evolves_grant evolves_resume]) simp
      then show ?thesis
        using st1 k by (intro attempts_evolve_row [OF a]) (auto simp: restored(7) restored_store_facts)
    qed
  qed
qed

lemma grading_evolves: "grading_step s s' \<Longrightarrow> attempts_evolve s s'"
proof (induction rule: grading_step.induct)
  case (manual rs c q score comment grader now exam s r s')
  obtain m s1 where s1: "s1 = complete_in (lk_attemptId c) q (completed_row score comment grader now m) s"
      "s' = s1 \<or> finalizeTerminalGrading rs c exam now s1 = Inr (True, s')"
    using manual by (rule gradeQuestion_store)
  have "attempts_evolve s s1" by (simp add: attempts_evolve_def s1(1) option.rel_refl)
  with s1(2) show ?case by (auto dest: finalize_evolves intro: attempts_evolve_trans)
next
  case (auto lower rs c now s r' s')
  then show ?case by (auto simp: gradeAttemptIdempotent_iff split: if_splits dest: finalize_evolves)
qed

lemma exam_command_evolves_attempts: "exam_command num grammar lower s s' \<Longrightarrow> attempts_evolve s s'"
  using exam_command_evolves [of num grammar lower s s']
  by (metis attempts_evolve_frame exams_evolve_def store.select_convs(3) store.simps(4) store.surjective store.update_convs(1))

lemma queue_attempts:
  "joinAdmissionQueue uuid exam c now s = Inr (r, s') \<Longrightarrow>
     st_attempts s' = st_attempts s \<and> st_adjustments s' = st_adjustments s"
  "reconcileAdmission exam c now s = Inr (q, s'') \<Longrightarrow>
     st_attempts s'' = st_attempts s \<and> st_adjustments s'' = st_adjustments s"
  by (auto simp: joinAdmissionQueue_def joinActive_iff admit_row_def dest!: reconcile_store)

text \<open>A start either leaves the attempts to evolve or appends one to an enrollment without a running one.\<close>

definition starts_one :: "id_supply \<Rightarrow> store \<Rightarrow> store \<Rightarrow> bool" where
  "starts_one uuid s s' \<longleftrightarrow>
     (\<exists>a. st_attempts s' = st_attempts s @ [a] \<and> at_id a = uuid (st_drawn s) \<and> running a \<and>
        findActiveByEnrollment (at_enrollmentId a) s = None \<and> st_adjustments s' = st_adjustments s)"

lemma start_evolves:
  assumes "startOrRestoreAttempt lower num uuid rs opts x c now s = Inr (r, s')"
  shows "(\<exists>rs c q. restoreInterruptedAttempt lower num uuid rs c now s = Inr (q, s')) \<or> s' = s \<or> starts_one uuid s s'"
  using assms
proof (cases rule: start_cases)
  case (created exam d e)
  from created(5) obtain a p where a: "a = new_attempt exam e c (en_attemptCount e + 1)
        (materializeAttemptPresentation (ex_questionSnapshot exam) (ex_controlFlags exam) (sto_rng opts))
        now (attempt_deadline exam d now) p (uuid (st_drawn s))"
    and s': "s' = upd_enrollment (en_id e) (\<lambda>e'. e'\<lparr>en_status := Started, en_attemptCount := en_attemptCount e + 1\<rparr>)
      ((admitted_store exam c now s)\<lparr>st_drawn := Suc (st_drawn s), st_attempts := st_attempts s @ [a],
        st_admissions := consumed_rows exam c now (at_id a) (st_admissions (admitted_store exam c now s))\<rparr>)"
    by (rule start_new_D) blast
  have "st_adjustments (admitted_store exam c now s) = st_adjustments s"
    by (simp add: admitted_store_def admit_row_def split: option.splits)
  with created(4) have "starts_one uuid s s'"
    by (auto simp: starts_one_def s' a new_attempt_def running_def)
  then show ?thesis by blast
qed auto

lemma starts_one_find:
  assumes "starts_one uuid s s'" "fresh_attempt_id uuid s"
  obtains a where "\<And>k. find_attempt k s' = (if k = at_id a then Some a else find_attempt k s)"
    "find_attempt (at_id a) s = None" "running a" "findActiveByEnrollment (at_enrollmentId a) s = None"
    "st_adjustments s' = st_adjustments s" "at_id a = uuid (st_drawn s)"
proof -
  from assms(1) obtain a where a: "st_attempts s' = st_attempts s @ [a]" "at_id a = uuid (st_drawn s)" "running a"
    "findActiveByEnrollment (at_enrollmentId a) s = None" "st_adjustments s' = st_adjustments s"
    by (auto simp: starts_one_def)
  have none: "find_attempt (at_id a) s = None"
    using assms(2) a(2) by (auto simp: fresh_attempt_id_def find_attempt_def tbl_find_None list_all_iff)
  have "find_attempt k s' = (if k = at_id a then Some a else find_attempt k s)" for k
    using none by (auto simp: find_attempt_def a(1) tbl_find_append split: option.splits)
  with none a show thesis by (intro that) auto
qed

section \<open>Only a restoration or an operator writes the ledger\<close>

definition ledger_grows :: "store \<Rightarrow> store \<Rightarrow> bool" where
  "ledger_grows s s' \<longleftrightarrow> (\<exists>rows. st_adjustments s' = st_adjustments s @ rows)"

lemma ledger_grows_eq: "st_adjustments s' = st_adjustments s \<Longrightarrow> ledger_grows s s'"
  by (simp add: ledger_grows_def)

lemma ledger_grows_trans: "ledger_grows s t \<Longrightarrow> ledger_grows t u \<Longrightarrow> ledger_grows s u"
  by (auto simp: ledger_grows_def)

lemma save_ledger:
  assumes "saveAnswer num sha rs ctx req can s = Inr (r, s')"
  shows "st_adjustments s' = st_adjustments s"
  using assms by (cases rule: saveAnswer_cases) simp_all

lemma heartbeat_ledger:
  "refreshLastActivityIfInProgress k now s = Inr (r, s') \<Longrightarrow> st_adjustments s' = st_adjustments s"
  by (cases "find_attempt k s")
    (auto simp: refreshLastActivityIfInProgress_def cmd_run returnC_iff update_attempt_iff split: if_splits)

lemma submit_ledger: "submitAttempt lower num uuid k now opts s = Inr (r, s') \<Longrightarrow> st_adjustments s' = st_adjustments s"
proof -
  assume run: "submitAttempt lower num uuid k now opts s = Inr (r, s')"
  then obtain a where a: "find_attempt k s = Some a" by (auto simp: submitAttempt_def bindC_Inr_iff someC_iff)
  have "st_adjustments (frozen_store lower uuid now opts a s) = st_adjustments s"
    by (simp add: frozen_store_def Let_def resolved_store_def terminalize_def split: SubmitInterruptionResolution.splits)
  with run show ?thesis by (auto simp: submitAttempt_iff [OF a] split: if_splits)
qed

lemma disrupt_ledger: "markDisrupted uuid k tick tmo s = Inr (r, s') \<Longrightarrow> st_adjustments s' = st_adjustments s"
  by (auto simp: markDisrupted_iff disrupted_store_def Let_def split: option.splits if_splits)

lemma finalize_ledger: "finalizeTerminalGrading rs c exam now s = Inr (r, s') \<Longrightarrow> st_adjustments s' = st_adjustments s"
  by (auto simp: finalizeTerminalGrading_iff closed_store_def split: if_splits)

lemma deadline_ledger:
  "deadline_closed lower num uuid rs c now res a d s r s' \<Longrightarrow> st_adjustments s' = st_adjustments s"
  unfolding deadline_closed_def
  by (auto simp: finalizeGrading_iff submit_ledger finalize_ledger split: if_splits dest!: submit_ledger)

lemma reconcile_ledger:
  assumes "ensureAttemptDeadlineReconciled lower num uuid rs c now res s = Inr (r, s')"
  shows "st_adjustments s' = st_adjustments s"
  using assms by (cases rule: reconcile_cases) (auto dest: deadline_ledger)

lemma grading_ledger: "grading_step s s' \<Longrightarrow> st_adjustments s' = st_adjustments s"
proof (induction rule: grading_step.induct)
  case (manual rs c q score comment grader now exam s r s')
  obtain m s1 where s1: "s1 = complete_in (lk_attemptId c) q (completed_row score comment grader now m) s"
      "s' = s1 \<or> finalizeTerminalGrading rs c exam now s1 = Inr (True, s')"
    using manual by (rule gradeQuestion_store)
  have "st_adjustments s1 = st_adjustments s" by (simp add: s1(1) complete_in_def)
  with s1(2) show ?case by (auto dest: finalize_ledger)
next
  case (auto lower rs c now s r' s')
  then show ?case by (auto simp: gradeAttemptIdempotent_iff split: if_splits dest: finalize_ledger)
qed

lemma exam_command_ledger: "exam_command num grammar lower s s' \<Longrightarrow> st_adjustments s' = st_adjustments s"
proof -
  assume "exam_command num grammar lower s s'"
  then have "s' = s\<lparr>st_exams := st_exams s'\<rparr>" using exam_command_evolves by (simp add: exams_evolve_def)
  then show ?thesis by (metis store.select_convs(8) store.surjective store.update_convs(1))
qed

lemma operator_evolves: "attempt_evolves a (a\<lparr>at_deadlineAt := d\<rparr>)"
  by (simp add: attempt_evolves_def)

lemma grant_evolves:
  assumes "grantAttemptTime lower num uuid rs validator c input s = Inr (r, s')"
  shows "attempts_evolve s s' \<and> (\<forall>k. sumBoundedGraceSeconds k s' = sumBoundedGraceSeconds k s) \<and> ledger_grows s s'"
  using assms
proof (cases rule: grant_cases)
  case (terminal a n rc rt p rec)
  note same = reconcile_ledger [OF terminal(7)]
  show ?thesis
    using reconcile_evolves [OF terminal(7)] sum_frame [OF same] ledger_grows_eq [OF same] by blast
next
  case (granted a x n rc rt p b d)
  have a: "find_attempt (gi_attemptId input) s = Some a"
    using granted(3) validate_grant_input_D(1) [OF granted(1)] by simp
  have "attempts_evolve s s'"
    unfolding granted(12) by (rule attempts_evolve_row [OF a operator_store_facts(1) [OF a] operator_evolves])
  then show ?thesis
    by (simp add: granted(12) operator_store_facts(2) [OF a] ledger_grows_def sumBoundedGraceSeconds_def)
qed (simp_all add: ledger_grows_eq)

lemma restore_grows: "restoreInterruptedAttempt lower num uuid rs c now s = Inr (r, s') \<Longrightarrow> ledger_grows s s'"
proof -
  assume run: "restoreInterruptedAttempt lower num uuid rs c now s = Inr (r, s')"
  then obtain a where a: "find_attempt (lk_attemptId c) s = Some a"
    by (auto simp: restoreInterruptedAttempt_def bindC_Inr_iff someC_iff liftC_iff)
  have grant: "ledger_grows s s1" if "restore_grant uuid b x p j t now s = Inr (g, s1)" for b x p j t g s1
    using that by (cases rule: restore_grant_cases) (auto simp: ledger_grows_def granted_store_def)
  show ?thesis
  proof (cases "at_status a = Disrupted")
    case False
    with run a have "s' = s"
      by (auto simp: restoreInterruptedAttempt_def bindC_Inr_iff someC_iff liftC_iff guardC_iff
          split: if_splits dest: reconstruct_read_only)
    then show ?thesis by (simp add: ledger_grows_eq)
  next
    case True
    then obtain x j t p where "restore_disrupted lower num uuid rs c now a x j p t s = Inr (r, s')"
      using run restoreInterruptedAttempt_disrupted [OF a True] by blast
    from this a True show ?thesis
    proof (cases rule: restore_disrupted_cases)
      case (terminal g s1 d y)
      with grant ledger_grows_eq [OF deadline_ledger [OF terminal(2)]] ledger_grows_trans show ?thesis by blast
    next
      case (restored g s1 y e)
      have "st_adjustments s' = st_adjustments s1" by (simp add: restored(7) restored_store_facts)
      with grant [OF restored(1)] show ?thesis by (simp add: ledger_grows_def)
    qed
  qed
qed

lemmas step_evolves = save_evolves heartbeat_evolves submit_evolves disrupt_evolves reconcile_evolves
  grading_evolves exam_command_evolves_attempts
lemmas step_ledger = save_ledger heartbeat_ledger submit_ledger disrupt_ledger reconcile_ledger
  grading_ledger exam_command_ledger

text \<open>Every step is of one of three kinds.\<close>

lemma engine_step_kinds [consumes 1, case_names evolved restored started]:
  assumes "engine_step lower num sha uuid s s'"
  obtains (evolved) "attempts_evolve s s'" "\<And>k. sumBoundedGraceSeconds k s' = sumBoundedGraceSeconds k s" "ledger_grows s s'"
  | (restored) rs c now q where "restoreInterruptedAttempt lower num uuid rs c now s = Inr (q, s')"
  | (started) "starts_one uuid s s'" "fresh_attempt_id uuid s"
  using assms
proof cases
  case (start rs sopts x cand now r7)
  from start_evolves [OF start(1)] show thesis
  proof (elim disjE exE)
    show thesis if "s' = s" using that by (intro evolved) (simp_all add: ledger_grows_eq)
    show thesis if "starts_one uuid s s'" using that start(2) by (rule started)
  qed (rule restored)
next
  case (restore rs c now r6)
  then show thesis by (rule restored)
next
  case (join exam cand now r8)
  then show thesis
    using queue_attempts(1) by (intro evolved attempts_evolve_frame sum_frame ledger_grows_eq) auto
next
  case (admit exam cand now r9)
  then show thesis
    using queue_attempts(2) by (intro evolved attempts_evolve_frame sum_frame ledger_grows_eq) auto
next
  case (grant rs validator c input r10)
  then show thesis using grant_evolves by (intro evolved) blast+
qed (rule evolved; (erule step_evolves | rule sum_frame, erule step_ledger | rule ledger_grows_eq, erule step_ledger))+

section \<open>Invariants\<close>

lemma engine_step_row:
  assumes "engine_step lower num sha uuid s s'" "find_attempt k s = Some a"
  shows "\<exists>b. find_attempt k s' = Some b \<and> attempt_evolves a b"
  using assms(1)
proof (cases rule: engine_step_kinds)
  case evolved
  then show ?thesis using assms(2) attempts_evolve_D by blast
next
  case (restored rs c now q)
  then show ?thesis using restore_evolves assms(2) attempts_evolve_D by blast
next
  case started
  then obtain b where f: "\<And>i. find_attempt i s' = (if i = at_id b then Some b else find_attempt i s)"
    and "find_attempt (at_id b) s = None"
    using starts_one_find by metis
  then have "k \<noteq> at_id b" using assms(2) by auto
  then show ?thesis using f [of k] assms(2) by simp
qed

interpretation attempt_history: invariant_step "engine_step lower num sha uuid"
  "\<lambda>s. \<exists>b. find_attempt k s = Some b \<and> attempt_evolves a b" for lower num sha uuid k a
  by unfold_locales (blast dest: engine_step_row intro: attempt_evolves_trans)

definition one_running :: "store \<Rightarrow> bool" where
  "one_running s \<longleftrightarrow>
     (\<forall>j k a b. find_attempt j s = Some a \<and> find_attempt k s = Some b \<and> running a \<and> running b \<and>
        at_enrollmentId a = at_enrollmentId b \<longrightarrow> j = k)"

lemma running_before: "attempt_evolves a b \<Longrightarrow> running b \<Longrightarrow> running a"
proof -
  assume ev: "attempt_evolves a b" and b: "running b"
  have "attempt_step\<^sup>*\<^sup>* x y \<Longrightarrow> y = InProgress \<or> y = Disrupted \<Longrightarrow> x = InProgress \<or> x = Disrupted" for x y
    by (induction rule: converse_rtranclp_induct) (auto simp: attempt_step_cases)
  with ev b show ?thesis by (auto simp: attempt_evolves_def running_def)
qed

lemma one_running_evolve:
  assumes "attempts_evolve s s'" "one_running s"
  shows "one_running s'"
  unfolding one_running_def
proof (intro allI impI)
  fix j k a b
  assume h: "find_attempt j s' = Some a \<and> find_attempt k s' = Some b \<and> running a \<and> running b \<and>
      at_enrollmentId a = at_enrollmentId b"
  then obtain a0 b0 where "find_attempt j s = Some a0" "attempt_evolves a0 a"
      "find_attempt k s = Some b0" "attempt_evolves b0 b"
    using attempts_evolve_back [OF assms(1)] by blast
  then have "find_attempt j s = Some a0" "find_attempt k s = Some b0" "running a0" "running b0"
      "at_enrollmentId a0 = at_enrollmentId b0"
    using h by (auto simp: attempt_evolves_def intro: running_before)
  with assms(2) show "j = k" unfolding one_running_def by blast
qed

lemma no_active_running:
  assumes "findActiveByEnrollment n s = None" "find_attempt k s = Some b" "running b"
  shows "at_enrollmentId b \<noteq> n"
  using assms by (auto simp: findActiveByEnrollment_def find_None_iff running_def find_attempt_def dest!: tbl_find_key)

lemma one_running_step:
  assumes "engine_step lower num sha uuid s s'" "one_running s"
  shows "one_running s'"
  using assms(1)
proof (cases rule: engine_step_kinds)
  case evolved
  then show ?thesis using one_running_evolve assms(2) by blast
next
  case (restored rs c now q)
  then show ?thesis using restore_evolves one_running_evolve assms(2) by blast
next
  case started
  then obtain n where f: "\<And>i. find_attempt i s' = (if i = at_id n then Some n else find_attempt i s)"
    and "running n" "findActiveByEnrollment (at_enrollmentId n) s = None"
    using starts_one_find by metis
  then have sep: "find_attempt i s = Some b \<Longrightarrow> running b \<Longrightarrow> at_enrollmentId b \<noteq> at_enrollmentId n" for i b
    using no_active_running by blast
  show ?thesis
    unfolding one_running_def
  proof (intro allI impI)
    fix j k a b
    assume "find_attempt j s' = Some a \<and> find_attempt k s' = Some b \<and> running a \<and> running b \<and>
        at_enrollmentId a = at_enrollmentId b"
    then show "j = k"
      using assms(2) sep unfolding one_running_def f by (metis option.inject)
  qed
qed

interpretation running_history: invariant_step "engine_step lower num sha uuid" one_running for lower num sha uuid
  by unfold_locales (rule one_running_step)

text \<open>The ledger: the bounded-grace seconds of an attempt stay within the cap frozen on it.\<close>

definition within_cap :: "ident \<Rightarrow> store \<Rightarrow> bool" where
  "within_cap k s \<longleftrightarrow>
     (\<forall>a p. find_attempt k s = Some a \<and> at_interruptionTimingPolicySnapshot a = Some p \<and> snapshot_ok p \<and>
        tp_policy p = BoundedGrace \<longrightarrow>
        sumBoundedGraceSeconds k s \<le> \<lfloor>the (tp_perAttemptAggregateCapSeconds p)\<rfloor>)"

definition ledger_ok :: "store \<Rightarrow> bool" where
  "ledger_ok s \<longleftrightarrow> (\<forall>k. within_cap k s)"

lemma ledger_evolve:
  assumes "attempts_evolve s s'" "\<And>k. sumBoundedGraceSeconds k s' = sumBoundedGraceSeconds k s" "ledger_ok s"
  shows "ledger_ok s'"
  unfolding ledger_ok_def within_cap_def
proof (intro allI impI)
  fix k a p
  assume h: "find_attempt k s' = Some a \<and> at_interruptionTimingPolicySnapshot a = Some p \<and> snapshot_ok p \<and>
      tp_policy p = BoundedGrace"
  then obtain a0 where "find_attempt k s = Some a0" "attempt_evolves a0 a"
    using attempts_evolve_back [OF assms(1)] by blast
  then have "find_attempt k s = Some a0" "at_interruptionTimingPolicySnapshot a0 = Some p"
    using h by (auto simp: attempt_evolves_def)
  with h assms(3) show "sumBoundedGraceSeconds k s' \<le> \<lfloor>the (tp_perAttemptAggregateCapSeconds p)\<rfloor>"
    unfolding assms(2) ledger_ok_def within_cap_def by blast
qed

lemma grant_within_cap:
  assumes run: "restore_grant uuid a x p j t now s = Inr (g, s1)" and a: "find_attempt (at_id a) s = Some a"
    and p: "at_interruptionTimingPolicySnapshot a = Some p" and ok: "ledger_ok s"
  shows "ledger_ok s1"
  using run
proof (cases rule: restore_grant_cases)
  case kept
  then show ?thesis using ok by simp
next
  case (granted before d)
  let ?i = "policy_input a x p t now (sumBoundedGraceSeconds (at_id a) s)"
  let ?cap = "\<lfloor>the (tp_perAttemptAggregateCapSeconds p)\<rfloor>"
  have in_p: "ev_snapshot ?i = p" "ev_priorBoundedGraceAddedSeconds ?i = sumBoundedGraceSeconds (at_id a) s"
    by (simp_all add: policy_input_def)
  from granted(1,3) obtain b c where sok: "snapshot_ok p"
    and d: "d = bounded_decision \<lfloor>the (tp_perIncidentCapSeconds p)\<rfloor> ?cap b c ?i"
    using evaluate_bounded [of ?i d] by (auto simp: in_p)
  have caps: "0 < \<lfloor>the (tp_perIncidentCapSeconds p)\<rfloor>" "\<lfloor>the (tp_perIncidentCapSeconds p)\<rfloor> \<le> ?cap"
    using sok granted(1) by (auto simp: snapshot_ok_def is_integer_def intro: floor_mono)
  have prior: "sumBoundedGraceSeconds (at_id a) s \<le> ?cap"
    using ok a p sok granted(1) unfolding ledger_ok_def within_cap_def by blast
  have added: "sumBoundedGraceSeconds (at_id a) s + pd_addedSeconds d \<le> ?cap"
    using bounded_decision_bounds(4) [OF caps d] prior unfolding in_p by linarith
  show ?thesis
    unfolding ledger_ok_def
  proof
    fix k
    show "within_cap k s1"
    proof (cases "k = at_id a")
      case True
      with added p granted_store_facts [OF a] show ?thesis by (auto simp: within_cap_def granted(6))
    next
      case False
      with ok granted_store_facts [OF a] show ?thesis
        by (auto simp: ledger_ok_def within_cap_def granted(6))
    qed
  qed
qed

lemma restore_ledger:
  assumes run: "restoreInterruptedAttempt lower num uuid rs c now s = Inr (r, s')" and ok: "ledger_ok s"
  shows "ledger_ok s'"
proof -
  obtain a where a: "find_attempt (lk_attemptId c) s = Some a"
    using run by (auto simp: restoreInterruptedAttempt_def bindC_Inr_iff someC_iff liftC_iff)
  note k = find_attempt_id [OF a]
  show ?thesis
  proof (cases "at_status a = Disrupted")
    case False
    with run a have "s' = s"
      by (auto simp: restoreInterruptedAttempt_def bindC_Inr_iff someC_iff liftC_iff guardC_iff
          split: if_splits dest: reconstruct_read_only)
    with ok show ?thesis by simp
  next
    case True
    then obtain x j t p where p: "at_interruptionTimingPolicySnapshot a = Some p"
      and rd: "restore_disrupted lower num uuid rs c now a x j p t s = Inr (r, s')"
      using run restoreInterruptedAttempt_disrupted [OF a True] by blast
    from rd a True show ?thesis
    proof (cases rule: restore_disrupted_cases)
      case (terminal g s1 d y)
      have "ledger_ok s1" using grant_within_cap [OF terminal(1) a [folded k] p ok] .
      then show ?thesis
        by (rule ledger_evolve [OF deadline_evolves [OF terminal(2)] sum_frame [OF deadline_ledger [OF terminal(2)]]])
    next
      case (restored g s1 y e)
      have ok1: "ledger_ok s1" using grant_within_cap [OF restored(1) a [folded k] p ok] .
      note st1 = restore_grant_store(1) [OF restored(1) a [folded k]]
      have "attempts_evolve s1 s'"
        using st1 True by (intro attempts_evolve_row [of "at_id a" s1 "after_grant g s s1 a"])
          (auto simp: restored(7) restored_store_facts intro!: evolves_resume)
      then show ?thesis
        by (rule ledger_evolve) (simp_all add: restored(7) restored_store_facts ok1)
    qed
  qed
qed

lemma ledger_step:
  assumes "engine_step lower num sha uuid s s'" "ledger_ok s"
  shows "ledger_ok s'"
  using assms(1)
proof (cases rule: engine_step_kinds)
  case evolved
  show ?thesis by (rule ledger_evolve [OF evolved(1,2) assms(2)])
next
  case (restored rs c now q)
  then show ?thesis using restore_ledger assms(2) by blast
next
  case started
  then obtain n where f: "\<And>i. find_attempt i s' = (if i = at_id n then Some n else find_attempt i s)"
    and adj: "st_adjustments s' = st_adjustments s" and n: "at_id n = uuid (st_drawn s)"
    using starts_one_find by metis
  have zero: "sumBoundedGraceSeconds (at_id n) s = 0"
    using started(2) by (auto simp: sumBoundedGraceSeconds_def fresh_attempt_id_def list_all_iff n filter_empty_conv)
  show ?thesis
    unfolding ledger_ok_def
  proof
    fix k
    show "within_cap k s'"
    proof (cases "k = at_id n")
      case True
      have "0 \<le> \<lfloor>the (tp_perAttemptAggregateCapSeconds p)\<rfloor>" if "snapshot_ok p" "tp_policy p = BoundedGrace" for p
        using that by (auto simp: snapshot_ok_def)
      with True f [of k] zero sum_frame [OF adj, of k] show ?thesis by (auto simp: within_cap_def)
    next
      case False
      with f [of k] sum_frame [OF adj, of k] assms(2) show ?thesis
        by (simp add: ledger_ok_def within_cap_def) blast
    qed
  qed
qed

interpretation ledger_history: invariant_step "engine_step lower num sha uuid" ledger_ok for lower num sha uuid
  by unfold_locales (rule ledger_step)

text \<open>The ledger is append-only.\<close>

lemma ledger_grows_step:
  assumes "engine_step lower num sha uuid s s'"
  shows "ledger_grows s s'"
  using assms
proof (cases rule: engine_step_kinds)
  case started
  then show ?thesis by (auto simp: starts_one_def intro: ledger_grows_eq)
qed (auto intro: restore_grows)

lemma ledger_append_only: "(engine_step lower num sha uuid)\<^sup>*\<^sup>* s t \<Longrightarrow> ledger_grows s t"
proof (induction rule: rtranclp_induct)
  case (step t u)
  then show ?case using ledger_grows_step ledger_grows_trans by blast
qed (simp add: ledger_grows_eq)

text \<open>Two requests the ledger takes for one: the second repeats the first up to surrounding blanks, and the
  interruption and the incident it names are those of the first as the database returns them. A request that is
  repeated letter by letter is not always of this kind.\<close>

definition same_grant_request :: "GrantAttemptTimeInput \<Rightarrow> GrantAttemptTimeInput \<Rightarrow> bool" where
  "same_grant_request input input' \<longleftrightarrow>
     gi_attemptId input' = gi_attemptId input \<and> gi_addedSeconds input' = gi_addedSeconds input \<and>
     js_trim (gi_reasonCode input') = js_trim (gi_reasonCode input) \<and>
     js_trim (gi_reasonText input') = js_trim (gi_reasonText input) \<and> gi_actorId input' = gi_actorId input \<and>
     gi_interruptionId input' = map_option pg_uuid (gi_interruptionId input) \<and>
     gi_incidentId input' = map_option pg_uuid (gi_incidentId input)"

text \<open>C11: A grant of time is made once. Once an operation has granted time, any later request with its identifier
  (in whatever case its digits are written), after any history of the engine, at any time and against any attempt,
  adds no time and changes nothing: with the same payload up to surrounding blanks, and with the interruption and
  the incident of the grant written in lower case, it is answered with the committed row and the attempt as it then
  is (also when the attempt has ended); any other request is refused as a conflict. In particular a request whose
  interruption or incident is in lower case may be repeated as it stands, and a retry of a request that writes one
  of them with an upper-case digit is refused although it is the same request.\<close>

theorem operator_grant_replays:
  assumes "grantAttemptTime lower num uuid rs validator c input s = Inr (r, s')" "gt_outcome r = Granted"
    and "(engine_step lower num sha uuid)\<^sup>*\<^sup>* s' t"
    and "validate_grant_input c' input' = Inr v" "pg_uuid (gi_operationId input') = pg_uuid (gi_operationId input)"
    and "find_attempt (lk_attemptId c') t = Some b" "find_exam (at_examId b) t = Some x" "lk_affinity c' = rs'"
  shows "grantAttemptTime lower num uuid rs' validator' c' input' t =
    (if same_grant_request input input'
     then Inr (\<lparr>gt_attempt = b, gt_outcome = GrantReplay, gt_adjustment = gt_adjustment r,
            gt_addedSeconds = gt_addedSeconds r\<rparr>, t)
     else Inl (IdempotencyConflictError ''Operation id reused with a different payload'')) \<and>
    (same_grant_request input input \<longleftrightarrow>
       map_option pg_uuid (gi_interruptionId input) = gi_interruptionId input \<and>
       map_option pg_uuid (gi_incidentId input) = gi_incidentId input)"
  using assms(1)
proof (cases rule: grant_cases)
  case (granted a y n rc rt p before d)
  let ?row = "granted_row input p before d n rc rt (uuid (st_drawn s))"
  have a: "find_attempt (gi_attemptId input) s = Some a"
    using granted(3) validate_grant_input_D(1) [OF granted(1)] by simp
  obtain rows where "st_adjustments t = st_adjustments s @ ?row # rows"
    using ledger_append_only [OF assms(3)] by (auto simp: ledger_grows_def granted(12) operator_store_facts [OF a])
  moreover have "find (\<lambda>a. ta_operationId a = Some (pg_uuid (gi_operationId input))) (xs @ ?row # rows) = Some ?row"
    if "find (\<lambda>a. ta_operationId a = Some (pg_uuid (gi_operationId input))) xs = None" for xs
    using that by (induction xs) (auto split: if_splits)
  ultimately have row: "findByOperationId (gi_operationId input') t = Some ?row"
    using granted(2) assms(5) by (simp add: findByOperationId_def)
  obtain n' rc' rt' where v: "validate_grant_input c' input' = Inr (n', rc', rt')" using assms(4) by (cases v) auto
  show ?thesis
    unfolding known_operation [OF row assms(6,7,8) v] same_operator_row [OF granted(1) v granted(5)]
    by (auto simp: same_grant_request_def granted(13))
qed (use assms(2) in simp_all)

theorem operator_grant_replays_witness:
  "grantAttemptTime id unary_num sample_uuid sample_repos None sample_cap (sample_grant '' cut '') (snd sample_granted) =
      Inr (\<lparr>gt_attempt = the (find_attempt ''a1'' (snd sample_granted)), gt_outcome = GrantReplay,
        gt_adjustment = gt_adjustment (fst sample_granted), gt_addedSeconds = gt_addedSeconds (fst sample_granted)\<rparr>,
        snd sample_granted)"
proof -
  have "find_attempt (lk_attemptId sample_cap) (snd sample_granted) = Some (the (find_attempt ''a1'' (snd sample_granted)))"
    "find_exam (at_examId (the (find_attempt ''a1'' (snd sample_granted)))) (snd sample_granted) = Some sample_exam"
    "validate_grant_input sample_cap (sample_grant '' cut '') = Inr (600, ''power'', ''cut'')"
    "same_grant_request (sample_grant ''cut'') (sample_grant '' cut '')"
    by code_simp+
  moreover have "pg_uuid (gi_operationId (sample_grant '' cut '')) = pg_uuid (gi_operationId (sample_grant ''cut''))"
    "lk_affinity sample_cap = sample_repos" by code_simp+
  ultimately show ?thesis
    using operator_grant_replays [OF sample_granted_run sample_granted_outcome rtranclp.rtrancl_refl] by metis
qed

text \<open>The defect on a concrete request: the incident is written with an upper-case digit, the grant succeeds, and
  the very same request sent again is refused as a different payload; in lower case it is answered.\<close>

definition retried_grant :: "string \<Rightarrow> app_error + GrantAttemptTimeResult \<times> store" where
  "retried_grant incident =
     (let run = grantAttemptTime id unary_num sample_uuid sample_repos (Some sample_validator) sample_cap
            (sample_incident_grant incident)
      in case run sample_operator_store of Inl e \<Rightarrow> Inl e | Inr (_, s) \<Rightarrow> run s)"

lemma upper_case_retry_conflicts:
  "retried_grant ''0B000000-0000-0000-0000-000000000001'' =
     Inl (IdempotencyConflictError ''Operation id reused with a different payload'')"
  "map_sum id (gt_outcome \<circ> fst) (retried_grant ''0b000000-0000-0000-0000-000000000001'') = Inr GrantReplay"
  by code_simp+

end
