(* ===== verification/Incident_Store.thy ===== *)
theory Incident_Store
  imports Repositories Answer_Identity Grading_Engine
begin

text \<open>
  The state of the incident commands: the rows of an exam incident and of its append-only history and
  links (\<^verbatim>\<open>packages/domain/src/types.ts\<close>), the operations of the incident repository that
  \<^verbatim>\<open>packages/db/src/repository/incidentRepo.ts\<close> implements, and the recognition of a violated constraint in
  the error a driver throws. The audit callback of a command appends to the audit trail of the same
  transaction. Rows carry their organization and every read is scoped by it. The identifiers of the incident tables
  are columns of type \<^verbatim>\<open>uuid\<close>; they are modelled in the lower case in which the database returns them, as the
  string itself, so a request that writes one of them with an upper-case digit is outside this model.
\<close>

section \<open>Rows\<close>

record RequestContext =
  rx_actorId :: ident
  rx_organizationId :: ident
  rx_role :: string

datatype IncidentStatus = IncidentOpen | Investigating | Resolved | Dismissed

fun incident_status_name :: "IncidentStatus \<Rightarrow> string" where
  "incident_status_name IncidentOpen = ''open''"
| "incident_status_name Investigating = ''investigating''"
| "incident_status_name Resolved = ''resolved''"
| "incident_status_name Dismissed = ''dismissed''"

definition VALID_INCIDENT_TYPES :: "string list" where
  "VALID_INCIDENT_TYPES = [''network_interruption'', ''device_failure'', ''power_failure'',
     ''candidate_unable_to_continue'', ''suspected_misconduct'', ''operator_error'', ''system_outage'',
     ''environmental_disruption'', ''other'']"

definition VALID_SEVERITIES :: "string list" where
  "VALID_SEVERITIES = [''info'', ''minor'', ''major'', ''critical'']"

definition VALID_ACTION_TYPES :: "string list" where
  "VALID_ACTION_TYPES = [''time_grant'', ''force_submit'']"

definition VALID_RELATIONSHIP_TYPES :: "string list" where
  "VALID_RELATIONSHIP_TYPES = [''affected'', ''referenced'']"

record ExamIncident =
  inc_id :: ident
  inc_organizationId :: ident
  inc_examId :: ident
  inc_attemptId :: "ident option"
  inc_candidateId :: "ident option"
  inc_type :: string
  inc_severity :: string
  inc_status :: IncidentStatus
  inc_occurredAt :: "time option"
  inc_description :: string
  inc_resolutionSummary :: "string option"
  inc_resolvedAt :: "time option"
  inc_resolvedBy :: "ident option"
  inc_reportedBy :: ident
  inc_version :: int
  inc_createdAt :: time
  inc_updatedAt :: time

record ExamIncidentEvent =
  xe_id :: ident
  xe_organizationId :: ident
  xe_incidentId :: ident
  xe_eventType :: string
  xe_commandType :: string
  xe_operationId :: ident
  xe_actorId :: "ident option"
  xe_beforeVersion :: int
  xe_afterVersion :: int
  xe_payload :: json
  xe_createdAt :: time

record ExamIncidentAction =
  xa_id :: ident
  xa_organizationId :: ident
  xa_incidentId :: ident
  xa_actionType :: string
  xa_actionId :: ident
  xa_attemptId :: ident
  xa_actorId :: "ident option"
  xa_linkedAt :: time
  xa_operationId :: ident

record ExamIncidentAttempt =
  xm_id :: ident
  xm_organizationId :: ident
  xm_incidentId :: ident
  xm_attemptId :: ident
  xm_relationshipType :: string
  xm_linkedAt :: time
  xm_linkedBy :: ident
  xm_operationId :: ident

record ExamIncidentInterruptionLink =
  xl_id :: ident
  xl_organizationId :: ident
  xl_incidentId :: ident
  xl_attemptId :: ident
  xl_interruptionId :: ident
  xl_linkedAt :: time
  xl_linkedBy :: ident
  xl_operationId :: ident

record incident_store =
  is_incidents :: "ExamIncident list"
  is_events :: "ExamIncidentEvent list"
  is_actions :: "ExamIncidentAction list"
  is_attempts :: "ExamIncidentAttempt list"
  is_links :: "ExamIncidentInterruptionLink list"
  is_audit :: "(string \<times> json) list"
  is_drawn :: nat

type_synonym 'a incident_cmd = "(incident_store, app_error, 'a) cmd"

section \<open>Errors of the driver\<close>

text \<open>A violated unique index throws an error that names the constraint.\<close>

definition violation_prefix :: string where
  "violation_prefix = ''duplicate key value violates unique constraint ''"

definition constraint_violation :: "string \<Rightarrow> app_error" where
  "constraint_violation name = EngineError (violation_prefix @ name)"

text \<open>An error object as the walker sees it: its \<^verbatim>\<open>code\<close>, its \<^verbatim>\<open>constraint\<close> and \<^verbatim>\<open>constraint_name\<close>, and its
  \<^verbatim>\<open>cause\<close>. Objects live at addresses, so a chain of causes may be cyclic.\<close>

datatype err_value = NotAnObject | Falsy | Ref nat

record err_object =
  eo_code :: "string option"
  eo_constraint :: "string option"
  eo_constraint_name :: "string option"
  eo_cause :: "err_value option"

type_synonym err_heap = "(nat \<times> err_object) list"

definition matches_constraint :: "string \<Rightarrow> err_object \<Rightarrow> bool" where
  "matches_constraint constraintName e \<longleftrightarrow> eo_code e = Some ''23505'' \<and>
     (case eo_constraint e of
        Some c \<Rightarrow> c
      | None \<Rightarrow> (case eo_constraint_name e of Some c \<Rightarrow> c | None \<Rightarrow> '''')) = constraintName"

text \<open>The loop of \<^verbatim>\<open>isConstraintViolation\<close> and of the other walkers of the chain of causes, over the test they apply to
  each object; \<open>visited\<close> holds the addresses of the objects already seen. A value
  that is no object ends the loop after one more round.\<close>

function cause_walk :: "err_heap \<Rightarrow> (err_object \<Rightarrow> bool) \<Rightarrow> err_value \<Rightarrow> nat list \<Rightarrow> bool" where
  "cause_walk heap hit Falsy visited = False"
| "cause_walk heap hit NotAnObject visited = False"
| "cause_walk heap hit (Ref a) visited =
     (if a \<in> set visited then False
      else case map_of heap a of
          None \<Rightarrow> False
        | Some e \<Rightarrow>
            if hit e then True
            else cause_walk heap hit (case eo_cause e of None \<Rightarrow> Falsy | Some c \<Rightarrow> c) (a # visited))"
  by pat_completeness auto

termination
proof (relation "measure (\<lambda>(heap, hit, current, visited). card (dom (map_of heap) - set visited))")
  fix heap :: err_heap and hit :: "err_object \<Rightarrow> bool" and a visited e
  assume "a \<notin> set visited" "map_of heap a = Some e"
  then have "a \<in> dom (map_of heap) - set visited" by auto
  then have "card (dom (map_of heap) - set visited - {a}) < card (dom (map_of heap) - set visited)"
    by (intro card_Diff1_less) (auto simp: finite_dom_map_of)
  moreover have "dom (map_of heap) - set (a # visited) = dom (map_of heap) - set visited - {a}" by auto
  ultimately show "((heap, hit, case eo_cause e of None \<Rightarrow> Falsy | Some c \<Rightarrow> c, a # visited), heap, hit, Ref a, visited)
      \<in> measure (\<lambda>(heap, hit, current, visited). card (dom (map_of heap) - set visited))"
    by (metis (no_types, lifting) case_prod_conv in_measure)
qed simp

definition isConstraintViolation :: "err_heap \<Rightarrow> err_value \<Rightarrow> string \<Rightarrow> bool" where
  "isConstraintViolation heap err constraintName = cause_walk heap (matches_constraint constraintName) err []"

text \<open>\<^verbatim>\<open>hasPostgresErrorCode\<close> of \<^verbatim>\<open>packages/db/src/types.ts\<close> and the walkers for a serialization failure.\<close>

definition hasPostgresErrorCode :: "err_heap \<Rightarrow> err_value \<Rightarrow> string \<Rightarrow> bool" where
  "hasPostgresErrorCode heap err code = cause_walk heap (\<lambda>e. eo_code e = Some code) err []"

definition isSerializationFailure :: "err_heap \<Rightarrow> err_value \<Rightarrow> bool" where
  "isSerializationFailure heap err = cause_walk heap (\<lambda>e. eo_code e = Some ''40001'') err []"

definition isRetryableError :: "err_heap \<Rightarrow> err_value \<Rightarrow> bool" where
  "isRetryableError heap err \<longleftrightarrow> (\<exists>code\<in>set [''40001'', ''40P01'']. hasPostgresErrorCode heap err code)"

text \<open>The error object a failed insertion throws.\<close>

definition error_object :: "app_error \<Rightarrow> err_heap" where
  "error_object e =
     [(0, case e of
        EngineError msg \<Rightarrow>
          if take (length violation_prefix) msg = violation_prefix
          then \<lparr>eo_code = Some ''23505'', eo_constraint = None,
                eo_constraint_name = Some (drop (length violation_prefix) msg), eo_cause = None\<rparr>
          else \<lparr>eo_code = None, eo_constraint = None, eo_constraint_name = None, eo_cause = None\<rparr>
      | _ \<Rightarrow> \<lparr>eo_code = Some (error_code e), eo_constraint = None, eo_constraint_name = None, eo_cause = None\<rparr>)]"

definition thrown_violation :: "app_error \<Rightarrow> string \<Rightarrow> bool" where
  "thrown_violation err constraintName = isConstraintViolation (error_object err) (Ref 0) constraintName"

section \<open>Repository\<close>

definition draw_incident_id :: "id_supply \<Rightarrow> ident incident_cmd" where
  "draw_incident_id uuid = bindC (getsC (\<lambda>s. uuid (is_drawn s))) (\<lambda>i.
     bindC (modifyC (\<lambda>s. s\<lparr>is_drawn := Suc (is_drawn s)\<rparr>)) (\<lambda>_. returnC i))"

definition insert_incident :: "id_supply \<Rightarrow> (ident \<Rightarrow> ExamIncident) \<Rightarrow> ExamIncident incident_cmd" where
  "insert_incident uuid row = bindC (draw_incident_id uuid) (\<lambda>i.
     bindC (modifyC (\<lambda>s. s\<lparr>is_incidents := is_incidents s @ [row i]\<rparr>)) (\<lambda>_. returnC (row i)))"

definition find_incident :: "RequestContext \<Rightarrow> ident \<Rightarrow> incident_store \<Rightarrow> ExamIncident option" where
  "find_incident ctx incidentId s =
     find (\<lambda>i. inc_organizationId i = rx_organizationId ctx \<and> inc_id i = incidentId) (is_incidents s)"

definition update_incident ::
  "RequestContext \<Rightarrow> ident \<Rightarrow> (ExamIncident \<Rightarrow> ExamIncident) \<Rightarrow> ExamIncident option incident_cmd" where
  "update_incident ctx incidentId f =
     bindC (modifyC (\<lambda>s. s\<lparr>is_incidents := map (\<lambda>i.
       if inc_organizationId i = rx_organizationId ctx \<and> inc_id i = incidentId then f i else i) (is_incidents s)\<rparr>)) (\<lambda>_.
     getsC (find_incident ctx incidentId))"

definition findEventByOperationId :: "RequestContext \<Rightarrow> ident \<Rightarrow> incident_store \<Rightarrow> ExamIncidentEvent option" where
  "findEventByOperationId ctx operationId s =
     find (\<lambda>e. xe_organizationId e = rx_organizationId ctx \<and> xe_operationId e = operationId) (is_events s)"

text \<open>\<^verbatim>\<open>exam_incident_events_org_operation_unique\<close> is on the organization and the operation.\<close>

definition appendEvent ::
  "id_supply \<Rightarrow> RequestContext \<Rightarrow> (ident \<Rightarrow> ExamIncidentEvent) \<Rightarrow> ExamIncidentEvent incident_cmd" where
  "appendEvent uuid ctx row = bindC (draw_incident_id uuid) (\<lambda>i.
     bindC (getsC (findEventByOperationId ctx (xe_operationId (row i)))) (\<lambda>dup.
     bindC (guardC (dup = None) (constraint_violation ''exam_incident_events_org_operation_unique'')) (\<lambda>_.
     bindC (modifyC (\<lambda>s. s\<lparr>is_events := is_events s @ [row i]\<rparr>)) (\<lambda>_. returnC (row i)))))"

definition findActionLinkByAction :: "RequestContext \<Rightarrow> string \<Rightarrow> ident \<Rightarrow> incident_store \<Rightarrow> ExamIncidentAction option" where
  "findActionLinkByAction ctx actionType actionId s =
     find (\<lambda>a. xa_organizationId a = rx_organizationId ctx \<and> xa_actionType a = actionType \<and> xa_actionId a = actionId)
       (is_actions s)"

definition insertActionLink ::
  "id_supply \<Rightarrow> RequestContext \<Rightarrow> (ident \<Rightarrow> ExamIncidentAction) \<Rightarrow> ExamIncidentAction incident_cmd" where
  "insertActionLink uuid ctx row = bindC (draw_incident_id uuid) (\<lambda>i.
     bindC (getsC (findActionLinkByAction ctx (xa_actionType (row i)) (xa_actionId (row i)))) (\<lambda>dup.
     bindC (guardC (dup = None) (constraint_violation ''exam_incident_actions_org_action_unique'')) (\<lambda>_.
     bindC (modifyC (\<lambda>s. s\<lparr>is_actions := is_actions s @ [row i]\<rparr>)) (\<lambda>_. returnC (row i)))))"

definition insertAttemptMembership ::
  "id_supply \<Rightarrow> (ident \<Rightarrow> ExamIncidentAttempt) \<Rightarrow> ExamIncidentAttempt incident_cmd" where
  "insertAttemptMembership uuid row = bindC (draw_incident_id uuid) (\<lambda>i.
     bindC (getsC (\<lambda>s. list_ex (\<lambda>m. xm_incidentId m = xm_incidentId (row i) \<and> xm_attemptId m = xm_attemptId (row i))
       (is_attempts s))) (\<lambda>dup.
     bindC (guardC (\<not> dup) (constraint_violation ''exam_incident_attempts_incident_attempt_unique'')) (\<lambda>_.
     bindC (modifyC (\<lambda>s. s\<lparr>is_attempts := is_attempts s @ [row i]\<rparr>)) (\<lambda>_. returnC (row i)))))"

definition insertInterruptionLink ::
  "id_supply \<Rightarrow> (ident \<Rightarrow> ExamIncidentInterruptionLink) \<Rightarrow> ExamIncidentInterruptionLink incident_cmd" where
  "insertInterruptionLink uuid row = bindC (draw_incident_id uuid) (\<lambda>i.
     bindC (getsC (\<lambda>s. list_ex (\<lambda>l. xl_incidentId l = xl_incidentId (row i) \<and>
       xl_interruptionId l = xl_interruptionId (row i)) (is_links s))) (\<lambda>dup.
     bindC (guardC (\<not> dup)
       (constraint_violation ''exam_incident_interruption_links_incident_interruption_unique'')) (\<lambda>_.
     bindC (modifyC (\<lambda>s. s\<lparr>is_links := is_links s @ [row i]\<rparr>)) (\<lambda>_. returnC (row i)))))"

definition audit :: "string \<Rightarrow> json \<Rightarrow> unit incident_cmd" where
  "audit action metadata = modifyC (\<lambda>s. s\<lparr>is_audit := is_audit s @ [(action, metadata)]\<rparr>)"

end
