(* ===== verification/Incident_Commands.thy ===== *)
theory Incident_Commands
  imports Incident_Store
begin

text \<open>
  \<^verbatim>\<open>packages/exam-engine/src/incidentCommands.ts\<close> and \<^verbatim>\<open>systemIncidentCommands.ts\<close>: creating an incident, its
  notes and links, the version-bumping commands, and the creation by the heartbeat detector.

  The lookups a command is given (exam, attempt, enrollment, ...) are arguments, as in the source; an
  optional lookup is an \<open>option\<close>. \<^verbatim>\<open>String(n)\<close> of a number (\<open>num\<close>), the parsing and printing of dates
  (\<open>dates\<close>) and the UUID of an episode (\<open>op_uuid\<close>) are parameters.
\<close>

section \<open>Inputs and results\<close>

text \<open>\<^verbatim>\<open>new Date(s)\<close> (\<open>None\<close>: an invalid date) and \<^verbatim>\<open>toISOString\<close>.\<close>

record dates =
  dt_parse :: "string \<Rightarrow> time option"
  dt_iso :: "time \<Rightarrow> string"

record AttemptScopeRow =
  sr_examId :: ident
  sr_candidateId :: "ident option"
  sr_organizationId :: ident

record CreateIncidentInput =
  ci_operationId :: ident
  ci_examId :: ident
  ci_attemptId :: "ident option"
  ci_candidateId :: "ident option"
  ci_type :: string
  ci_severity :: "string option"
  ci_occurredAt :: "string option"
  ci_description :: "string option"

datatype IncidentOutcome = IncidentApplied | IncidentReplayed

record IncidentCommandResult =
  ir_outcome :: IncidentOutcome
  ir_incident :: ExamIncident

definition opt_str :: "string option \<Rightarrow> json" where
  "opt_str x = (case x of None \<Rightarrow> JNull | Some s \<Rightarrow> JStr s)"

section \<open>Canonical payloads\<close>

definition normalizeString :: "string option \<Rightarrow> string option" where
  "normalizeString s = (case s of None \<Rightarrow> None
     | Some s \<Rightarrow> let trimmed = js_trim s in if length trimmed = 0 then None else Some trimmed)"

definition normalizeRequiredString :: "(jsnum \<Rightarrow> string) \<Rightarrow> string option \<Rightarrow> string \<Rightarrow> nat \<Rightarrow> app_error + string" where
  "normalizeRequiredString num s field limit =
     (let trimmed = js_trim (case s of None \<Rightarrow> '''' | Some s \<Rightarrow> s) in
      if length trimmed = 0 then Inl (ValidationError (field @ '' must not be empty''))
      else if length trimmed > limit
      then Inl (ValidationError (field @ '' must be at most '' @ num (of_nat limit) @ '' chars''))
      else Inr trimmed)"

definition isMatchingCommittedOperation ::
  "(jsnum \<Rightarrow> string) \<Rightarrow> ExamIncidentEvent option \<Rightarrow> string \<Rightarrow> json \<Rightarrow> bool" where
  "isMatchingCommittedOperation num committed commandType canonicalPayload =
     (case committed of
        None \<Rightarrow> False
      | Some e \<Rightarrow> xe_commandType e = commandType \<and> payloadsEqual num (Some (xe_payload e)) (Some canonicalPayload))"

definition operation_conflict :: "ident \<Rightarrow> string \<Rightarrow> app_error" where
  "operation_conflict operationId commandType =
     IdempotencyConflictError (''Operation '' @ operationId @ '' already used for '' @ commandType)"

definition preReadOperationId ::
  "(jsnum \<Rightarrow> string) \<Rightarrow> RequestContext \<Rightarrow> ident \<Rightarrow> string \<Rightarrow> json \<Rightarrow> IncidentCommandResult option incident_cmd" where
  "preReadOperationId num ctx operationId commandType canonicalPayload =
     bindC (getsC (findEventByOperationId ctx operationId)) (\<lambda>existingEvent.
     case existingEvent of
       None \<Rightarrow> returnC None
     | Some e \<Rightarrow>
         if isMatchingCommittedOperation num existingEvent commandType canonicalPayload
         then bindC (someC (find_incident ctx (xe_incidentId e)) (NotFoundError ''Incident not found'')) (\<lambda>incident.
              returnC (Some \<lparr>ir_outcome = IncidentReplayed, ir_incident = incident\<rparr>))
         else throwC (operation_conflict operationId (xe_commandType e)))"

text \<open>The common frame of the commands: a replay is answered, otherwise the command runs.\<close>

definition with_replay ::
  "(jsnum \<Rightarrow> string) \<Rightarrow> RequestContext \<Rightarrow> ident \<Rightarrow> string \<Rightarrow> json \<Rightarrow>
     IncidentCommandResult incident_cmd \<Rightarrow> IncidentCommandResult incident_cmd" where
  "with_replay num ctx operationId commandType canonicalPayload body =
     bindC (preReadOperationId num ctx operationId commandType canonicalPayload) (\<lambda>replay.
     case replay of Some r \<Rightarrow> returnC r | None \<Rightarrow> body)"

text \<open>\<^verbatim>\<open>validateScopeQuadruple\<close>\<close>

definition validateScopeQuadruple ::
  "ExamIncident \<Rightarrow> AttemptScopeRow \<Rightarrow> ident \<Rightarrow> ident \<Rightarrow> app_error + unit" where
  "validateScopeQuadruple incident targetAttempt targetAttemptId ctxOrgId =
     bindR (guardR (sr_organizationId targetAttempt = ctxOrgId)
       (ValidationError ''Cross-organization attempt reference'')) (\<lambda>_.
     bindR (guardR (sr_examId targetAttempt = inc_examId incident)
       (ValidationError ''Target attempt belongs to a different exam'')) (\<lambda>_.
     bindR (guardR (inc_attemptId incident = None \<or> inc_attemptId incident = Some targetAttemptId)
       (ValidationError ''Target attempt does not match incident anchor'')) (\<lambda>_.
     guardR (inc_candidateId incident = None \<or> sr_candidateId targetAttempt = inc_candidateId incident)
       (ValidationError ''Target attempt candidate does not match incident candidate''))))"

text \<open>The event row a command appends.\<close>

definition event_row ::
  "RequestContext \<Rightarrow> ident \<Rightarrow> string \<Rightarrow> string \<Rightarrow> ident \<Rightarrow> int \<Rightarrow> int \<Rightarrow> json \<Rightarrow> time \<Rightarrow> ident \<Rightarrow> ExamIncidentEvent" where
  "event_row ctx incidentId eventType commandType operationId before after payload now i =
     \<lparr>xe_id = i, xe_organizationId = rx_organizationId ctx, xe_incidentId = incidentId, xe_eventType = eventType,
      xe_commandType = commandType, xe_operationId = operationId, xe_actorId = Some (rx_actorId ctx),
      xe_beforeVersion = before, xe_afterVersion = after, xe_payload = payload, xe_createdAt = now\<rparr>"

definition version_json :: "int \<Rightarrow> json" where
  "version_json v = JNum (of_int v)"

section \<open>Creation\<close>

definition COMMAND_CREATE :: string where "COMMAND_CREATE = ''createExamIncident''"

definition create_payload :: "CreateIncidentInput \<Rightarrow> string \<Rightarrow> string option \<Rightarrow> string \<Rightarrow> json" where
  "create_payload input severity occurredAt description =
     JObj [(''examId'', JStr (ci_examId input)), (''attemptId'', opt_str (ci_attemptId input)),
       (''candidateId'', opt_str (ci_candidateId input)), (''type'', JStr (ci_type input)),
       (''severity'', JStr severity), (''occurredAt'', opt_str occurredAt), (''description'', JStr description)]"

text \<open>The creation matrix: the attempt and the candidate the incident is about.\<close>

definition resolve_anchor ::
  "(ident \<Rightarrow> AttemptScopeRow option) option \<Rightarrow> (ident \<Rightarrow> ident \<Rightarrow> bool) option \<Rightarrow> CreateIncidentInput \<Rightarrow>
     app_error + ident option \<times> ident option" where
  "resolve_anchor lookupAttempt lookupEnrollment input =
     (case ci_attemptId input of
        Some attemptId \<Rightarrow>
          (case lookupAttempt of
             None \<Rightarrow> Inl (EngineError ''lookupAttempt is required when attemptId is set'')
           | Some look \<Rightarrow>
               (case look attemptId of
                  None \<Rightarrow> Inl (NotFoundError ''Attempt not found'')
                | Some attempt \<Rightarrow>
                    bindR (guardR (sr_examId attempt = ci_examId input)
                      (ValidationError ''Anchored attempt belongs to a different exam'')) (\<lambda>_.
                    bindR (guardR (ci_candidateId input = None \<or> sr_candidateId attempt = ci_candidateId input)
                      (ValidationError ''Candidate does not match attempt enrollment'')) (\<lambda>_.
                    Inr (Some attemptId, sr_candidateId attempt)))))
      | None \<Rightarrow>
          (case ci_candidateId input of
             None \<Rightarrow> Inr (None, None)
           | Some candidateId \<Rightarrow>
               (case lookupEnrollment of
                  None \<Rightarrow> Inl (EngineError
                    ''lookupEnrollment is required when candidateId is set without attemptId'')
                | Some enrolled \<Rightarrow>
                    bindR (guardR (enrolled (ci_examId input) candidateId)
                      (ValidationError ''Candidate is not enrolled in this exam'')) (\<lambda>_.
                    Inr (None, Some candidateId)))))"

text \<open>\<^verbatim>\<open>occurredAtRaw ? new Date(occurredAtRaw).toISOString() : null\<close>; printing an invalid date throws.\<close>

definition canonical_date :: "dates \<Rightarrow> string option \<Rightarrow> app_error + string option" where
  "canonical_date dates raw =
     (if falsy raw then Inr None
      else case dt_parse dates (the raw) of
          None \<Rightarrow> Inl (EngineError ''Invalid time value'')
        | Some t \<Rightarrow> Inr (Some (dt_iso dates t)))"

definition new_incident ::
  "RequestContext \<Rightarrow> ident \<Rightarrow> ident option \<Rightarrow> ident option \<Rightarrow> string \<Rightarrow> string \<Rightarrow> time option \<Rightarrow> string \<Rightarrow> time \<Rightarrow>
     ident \<Rightarrow> ExamIncident" where
  "new_incident ctx examId attemptId candidateId ty severity occurredAt description now i =
     \<lparr>inc_id = i, inc_organizationId = rx_organizationId ctx, inc_examId = examId, inc_attemptId = attemptId,
      inc_candidateId = candidateId, inc_type = ty, inc_severity = severity, inc_status = IncidentOpen,
      inc_occurredAt = occurredAt, inc_description = description, inc_resolutionSummary = None,
      inc_resolvedAt = None, inc_resolvedBy = None, inc_reportedBy = rx_actorId ctx, inc_version = 1,
      inc_createdAt = now, inc_updatedAt = now\<rparr>"

definition createExamIncident ::
  "(jsnum \<Rightarrow> string) \<Rightarrow> dates \<Rightarrow> id_supply \<Rightarrow> (ident \<Rightarrow> ident option) \<Rightarrow> (ident \<Rightarrow> AttemptScopeRow option) option \<Rightarrow>
     (ident \<Rightarrow> ident \<Rightarrow> bool) option \<Rightarrow> RequestContext \<Rightarrow> CreateIncidentInput \<Rightarrow> time \<Rightarrow>
     IncidentCommandResult incident_cmd" where
  "createExamIncident num dates uuid lookupExam lookupAttempt lookupEnrollment ctx input now =
     bindC (guardC (ci_type input \<in> set VALID_INCIDENT_TYPES)
       (ValidationError (''Invalid incident type: '' @ ci_type input))) (\<lambda>_.
     bindC (guardC (case ci_severity input of None \<Rightarrow> True | Some sv \<Rightarrow> sv \<in> set VALID_SEVERITIES)
       (ValidationError (''Invalid severity: '' @ (case ci_severity input of None \<Rightarrow> '''' | Some sv \<Rightarrow> sv)))) (\<lambda>_.
     bindC (liftC (normalizeRequiredString num (ci_description input) ''description'' 1000)) (\<lambda>description.
     let severity = (case ci_severity input of None \<Rightarrow> ''info'' | Some sv \<Rightarrow> sv) in
     bindC (liftC (canonical_date dates (ci_occurredAt input))) (\<lambda>occurredAt.
     let canonicalPayload = create_payload input severity occurredAt description in
     with_replay num ctx (ci_operationId input) COMMAND_CREATE canonicalPayload (
     bindC (guardC (lookupExam (ci_examId input) = Some (rx_organizationId ctx))
       (NotFoundError ''Exam not found'')) (\<lambda>_.
     bindC (liftC (resolve_anchor lookupAttempt lookupEnrollment input)) (\<lambda>(attemptId, candidateId).
     bindC (insert_incident uuid (new_incident ctx (ci_examId input) attemptId candidateId (ci_type input) severity
       (Option.bind occurredAt (dt_parse dates)) description now)) (\<lambda>incident.
     bindC (appendEvent uuid ctx (event_row ctx (inc_id incident) ''incident_created'' COMMAND_CREATE
       (ci_operationId input) 0 1 canonicalPayload now)) (\<lambda>_.
     bindC (audit ''incident.created'' (JObj ([(''incidentId'', JStr (inc_id incident)),
         (''examId'', JStr (ci_examId input))] @
         (if falsy attemptId then [] else [(''attemptId'', opt_str attemptId)]) @
         [(''type'', JStr (ci_type input)), (''version'', version_json 1)]))) (\<lambda>_.
     returnC \<lparr>ir_outcome = IncidentApplied, ir_incident = incident\<rparr>))))))))))"

section \<open>Notes and links\<close>

definition load_incident :: "RequestContext \<Rightarrow> ident \<Rightarrow> ExamIncident incident_cmd" where
  "load_incident ctx incidentId = someC (find_incident ctx incidentId) (NotFoundError ''Incident not found'')"

definition COMMAND_NOTE :: string where "COMMAND_NOTE = ''addIncidentNote''"

definition addIncidentNote ::
  "(jsnum \<Rightarrow> string) \<Rightarrow> id_supply \<Rightarrow> RequestContext \<Rightarrow> ident \<Rightarrow> ident \<Rightarrow> string \<Rightarrow> time \<Rightarrow>
     IncidentCommandResult incident_cmd" where
  "addIncidentNote num uuid ctx incidentId operationId rawBody now =
     bindC (liftC (normalizeRequiredString num (Some rawBody) ''body'' 500)) (\<lambda>body.
     let canonicalPayload = JObj [(''incidentId'', JStr incidentId), (''body'', JStr body)] in
     with_replay num ctx operationId COMMAND_NOTE canonicalPayload (
     bindC (load_incident ctx incidentId) (\<lambda>incident.
     bindC (appendEvent uuid ctx (event_row ctx incidentId ''note_added'' COMMAND_NOTE operationId
       (inc_version incident) (inc_version incident) canonicalPayload now)) (\<lambda>event.
     bindC (audit ''incident.note_added'' (JObj [(''incidentId'', JStr incidentId), (''noteId'', JStr (xe_id event)),
       (''version'', version_json (inc_version incident))])) (\<lambda>_.
     returnC \<lparr>ir_outcome = IncidentApplied, ir_incident = incident\<rparr>)))))"

text \<open>The rethrow of a violated link index as \<^verbatim>\<open>IncidentActionAlreadyLinkedError\<close>.\<close>

definition already_linked :: "string \<Rightarrow> string \<Rightarrow> app_error \<Rightarrow> 'a incident_cmd" where
  "already_linked constraintName linkType err =
     (if thrown_violation err constraintName then throwC (IncidentActionAlreadyLinkedError linkType) else throwC err)"

definition COMMAND_LINK_ACTION :: string where "COMMAND_LINK_ACTION = ''linkIncidentAction''"

text \<open>The attempt an action is about, and the audit of a forced submission.\<close>

definition action_attempt :: "(ident \<Rightarrow> ident option) option \<Rightarrow> string \<Rightarrow> ident \<Rightarrow> app_error + ident" where
  "action_attempt lookupAdjustmentAttempt actionType actionId =
     (if actionType = ''time_grant''
      then case lookupAdjustmentAttempt of
          None \<Rightarrow> Inl (EngineError ''lookupAdjustmentAttempt required for time_grant links'')
        | Some look \<Rightarrow>
            if falsy (look actionId) then Inl (NotFoundError ''Time adjustment not found'')
            else Inr (the (look actionId))
      else Inr actionId)"

definition force_submit_audited :: "(ident \<Rightarrow> bool) option \<Rightarrow> string \<Rightarrow> ident \<Rightarrow> app_error + unit" where
  "force_submit_audited lookupForceSubmitAudit actionType attemptId =
     (if actionType = ''force_submit''
      then case lookupForceSubmitAudit of
          None \<Rightarrow> Inl (EngineError ''lookupForceSubmitAudit required for force_submit links'')
        | Some submitted \<Rightarrow> guardR (submitted attemptId) (ValidationError ''Attempt was not force-submitted'')
      else Inr ())"

definition linkIncidentAction ::
  "(jsnum \<Rightarrow> string) \<Rightarrow> id_supply \<Rightarrow> (ident \<Rightarrow> ident option) option \<Rightarrow> (ident \<Rightarrow> bool) option \<Rightarrow>
     (ident \<Rightarrow> AttemptScopeRow option) \<Rightarrow> (string \<Rightarrow> ident \<Rightarrow> bool) option \<Rightarrow>
     RequestContext \<Rightarrow> ident \<Rightarrow> ident \<Rightarrow> string \<Rightarrow> ident \<Rightarrow> time \<Rightarrow> IncidentCommandResult incident_cmd" where
  "linkIncidentAction num uuid lookupAdjustmentAttempt lookupForceSubmitAudit lookupAttempt lookupActionLink
       ctx incidentId operationId actionType actionId now =
     (let canonicalPayload = JObj [(''incidentId'', JStr incidentId), (''actionType'', JStr actionType),
            (''actionId'', JStr actionId)];
          linkType = ''action:'' @ actionType @ '':'' @ actionId in
     bindC (guardC (actionType \<noteq> ''misconduct_mark'')
       (ValidationError ''misconduct_mark action links are deferred'')) (\<lambda>_.
     bindC (guardC (actionType \<in> set VALID_ACTION_TYPES)
       (ValidationError (''Invalid action type: '' @ actionType))) (\<lambda>_.
     with_replay num ctx operationId COMMAND_LINK_ACTION canonicalPayload (
     bindC (load_incident ctx incidentId) (\<lambda>incident.
     bindC (guardC (case lookupActionLink of None \<Rightarrow> True | Some linked \<Rightarrow> \<not> linked actionType actionId)
       (IncidentActionAlreadyLinkedError linkType)) (\<lambda>_.
     bindC (liftC (action_attempt lookupAdjustmentAttempt actionType actionId)) (\<lambda>attemptId.
     bindC (requireC (lookupAttempt attemptId) (NotFoundError ''Target attempt not found'')) (\<lambda>attempt.
     bindC (liftC (validateScopeQuadruple incident attempt attemptId (rx_organizationId ctx))) (\<lambda>_.
     bindC (liftC (force_submit_audited lookupForceSubmitAudit actionType attemptId)) (\<lambda>_.
     catchC (
       bindC (appendEvent uuid ctx (event_row ctx incidentId ''action_linked'' COMMAND_LINK_ACTION operationId
         (inc_version incident) (inc_version incident) canonicalPayload now)) (\<lambda>_.
       bindC (insertActionLink uuid ctx (\<lambda>i. \<lparr>xa_id = i, xa_organizationId = rx_organizationId ctx,
         xa_incidentId = incidentId, xa_actionType = actionType, xa_actionId = actionId, xa_attemptId = attemptId,
         xa_actorId = Some (rx_actorId ctx), xa_linkedAt = now, xa_operationId = operationId\<rparr>)) (\<lambda>_.
       bindC (audit ''incident.action_linked'' (JObj [(''incidentId'', JStr incidentId),
         (''actionType'', JStr actionType), (''actionId'', JStr actionId), (''attemptId'', JStr attemptId),
         (''version'', version_json (inc_version incident))])) (\<lambda>_.
       returnC \<lparr>ir_outcome = IncidentApplied, ir_incident = incident\<rparr>))))
     (already_linked ''exam_incident_actions_org_action_unique'' linkType)))))))))))"

definition COMMAND_LINK_ATTEMPT :: string where "COMMAND_LINK_ATTEMPT = ''linkIncidentAttempt''"

definition linkIncidentAttempt ::
  "(jsnum \<Rightarrow> string) \<Rightarrow> id_supply \<Rightarrow> (ident \<Rightarrow> AttemptScopeRow option) \<Rightarrow> RequestContext \<Rightarrow> ident \<Rightarrow> ident \<Rightarrow> ident \<Rightarrow>
     string \<Rightarrow> time \<Rightarrow> IncidentCommandResult incident_cmd" where
  "linkIncidentAttempt num uuid lookupAttempt ctx incidentId operationId attemptId relationshipType now =
     (let canonicalPayload = JObj [(''incidentId'', JStr incidentId), (''attemptId'', JStr attemptId),
            (''relationshipType'', JStr relationshipType)] in
     with_replay num ctx operationId COMMAND_LINK_ATTEMPT canonicalPayload (
     bindC (load_incident ctx incidentId) (\<lambda>incident.
     bindC (guardC (inc_attemptId incident = None)
       (InvalidStateTransitionError ''Cannot add attempt membership to an anchored incident'')) (\<lambda>_.
     bindC (guardC (relationshipType \<in> set VALID_RELATIONSHIP_TYPES)
       (ValidationError (''Invalid relationship type: '' @ relationshipType))) (\<lambda>_.
     bindC (requireC (lookupAttempt attemptId) (NotFoundError ''Target attempt not found'')) (\<lambda>attempt.
     bindC (liftC (validateScopeQuadruple incident attempt attemptId (rx_organizationId ctx))) (\<lambda>_.
     catchC (
       bindC (appendEvent uuid ctx (event_row ctx incidentId ''attempt_linked'' COMMAND_LINK_ATTEMPT operationId
         (inc_version incident) (inc_version incident) canonicalPayload now)) (\<lambda>_.
       bindC (insertAttemptMembership uuid (\<lambda>i. \<lparr>xm_id = i, xm_organizationId = rx_organizationId ctx,
         xm_incidentId = incidentId, xm_attemptId = attemptId, xm_relationshipType = relationshipType,
         xm_linkedAt = now, xm_linkedBy = rx_actorId ctx, xm_operationId = operationId\<rparr>)) (\<lambda>_.
       bindC (audit ''incident.attempt_linked'' (JObj [(''incidentId'', JStr incidentId),
         (''attemptId'', JStr attemptId), (''relationshipType'', JStr relationshipType),
         (''version'', version_json (inc_version incident))])) (\<lambda>_.
       returnC \<lparr>ir_outcome = IncidentApplied, ir_incident = incident\<rparr>))))
     (already_linked ''exam_incident_attempts_incident_attempt_unique'' (''attempt:'' @ attemptId)))))))))"

definition COMMAND_LINK_INTERRUPTION :: string where "COMMAND_LINK_INTERRUPTION = ''linkIncidentInterruption''"

definition interruption_attempt :: "(ident \<Rightarrow> ident option) option \<Rightarrow> ident \<Rightarrow> app_error + ident" where
  "interruption_attempt lookupInterruptionAttempt interruptionId =
     (case lookupInterruptionAttempt of
        None \<Rightarrow> Inl (EngineError ''lookupInterruptionAttempt required'')
      | Some look \<Rightarrow>
          if falsy (look interruptionId) then Inl (NotFoundError ''Interruption episode not found'')
          else Inr (the (look interruptionId)))"

definition linkIncidentInterruption ::
  "(jsnum \<Rightarrow> string) \<Rightarrow> id_supply \<Rightarrow> (ident \<Rightarrow> ident option) option \<Rightarrow> (ident \<Rightarrow> AttemptScopeRow option) \<Rightarrow>
     RequestContext \<Rightarrow> ident \<Rightarrow> ident \<Rightarrow> ident \<Rightarrow> time \<Rightarrow> IncidentCommandResult incident_cmd" where
  "linkIncidentInterruption num uuid lookupInterruptionAttempt lookupAttempt ctx incidentId operationId interruptionId now =
     (let canonicalPayload = JObj [(''incidentId'', JStr incidentId), (''interruptionId'', JStr interruptionId)] in
     with_replay num ctx operationId COMMAND_LINK_INTERRUPTION canonicalPayload (
     bindC (load_incident ctx incidentId) (\<lambda>incident.
     bindC (liftC (interruption_attempt lookupInterruptionAttempt interruptionId)) (\<lambda>attemptId.
     bindC (requireC (lookupAttempt attemptId) (NotFoundError ''Target attempt not found'')) (\<lambda>attempt.
     bindC (liftC (validateScopeQuadruple incident attempt attemptId (rx_organizationId ctx))) (\<lambda>_.
     bindC (guardC (inc_attemptId incident = None \<or> inc_attemptId incident = Some attemptId)
       (ValidationError ''Interruption episode does not belong to the incident's anchored attempt'')) (\<lambda>_.
     catchC (
       bindC (appendEvent uuid ctx (event_row ctx incidentId ''interruption_linked'' COMMAND_LINK_INTERRUPTION operationId
         (inc_version incident) (inc_version incident) canonicalPayload now)) (\<lambda>_.
       bindC (insertInterruptionLink uuid (\<lambda>i. \<lparr>xl_id = i, xl_organizationId = rx_organizationId ctx,
         xl_incidentId = incidentId, xl_attemptId = attemptId, xl_interruptionId = interruptionId, xl_linkedAt = now,
         xl_linkedBy = rx_actorId ctx, xl_operationId = operationId\<rparr>)) (\<lambda>_.
       bindC (audit ''incident.interruption_linked'' (JObj [(''incidentId'', JStr incidentId),
         (''interruptionId'', JStr interruptionId), (''attemptId'', JStr attemptId),
         (''version'', version_json (inc_version incident))])) (\<lambda>_.
       returnC \<lparr>ir_outcome = IncidentApplied, ir_incident = incident\<rparr>))))
     (already_linked ''exam_incident_interruption_links_incident_interruption_unique''
       (''interruption:'' @ interruptionId)))))))))"

section \<open>Version-bumping commands\<close>

fun terminal_status :: "IncidentStatus \<Rightarrow> bool" where
  "terminal_status Resolved = True"
| "terminal_status Dismissed = True"
| "terminal_status _ = False"

text \<open>Spreading one object over another: the keys of the second replace those of the first in place, new keys go to
  the end.\<close>

definition spread :: "(string \<times> json) list \<Rightarrow> (string \<times> json) list \<Rightarrow> (string \<times> json) list" where
  "spread a b = map (\<lambda>(k, v). (k, case map_of b k of None \<Rightarrow> v | Some w \<Rightarrow> w)) a @
     filter (\<lambda>(k, v). k \<notin> set (map fst a)) b"

definition versionBumpCommand ::
  "(jsnum \<Rightarrow> string) \<Rightarrow> id_supply \<Rightarrow> RequestContext \<Rightarrow> ident \<Rightarrow> ident \<Rightarrow> int \<Rightarrow> string \<Rightarrow> (string \<times> json) list \<Rightarrow>
     IncidentStatus list \<Rightarrow> string \<Rightarrow> string \<Rightarrow>
     (ExamIncident \<Rightarrow> ExamIncident \<Rightarrow> int \<Rightarrow> (string \<times> json) list) \<Rightarrow>
     (ExamIncident \<Rightarrow> ExamIncident \<Rightarrow> int \<Rightarrow> (string \<times> json) list) \<Rightarrow>
     (int \<Rightarrow> ExamIncident \<Rightarrow> ExamIncident) \<Rightarrow> time \<Rightarrow> IncidentCommandResult incident_cmd" where
  "versionBumpCommand num uuid ctx incidentId operationId expectedVersion commandType bodyFields
       allowedStatuses eventType auditAction auditMetadata eventPayload updateFields now =
     (let payloadFields = spread [(''incidentId'', JStr incidentId), (''expectedVersion'', version_json expectedVersion)]
            bodyFields;
          canonicalPayload = JObj payloadFields in
     with_replay num ctx operationId commandType canonicalPayload (
     bindC (load_incident ctx incidentId) (\<lambda>locked.
     bindC (getsC (findEventByOperationId ctx operationId)) (\<lambda>lockedEvent.
     case lockedEvent of
       Some e \<Rightarrow>
         if xe_commandType e = commandType \<and> payloadsEqual num (Some (xe_payload e)) (Some canonicalPayload)
         then returnC \<lparr>ir_outcome = IncidentReplayed, ir_incident = locked\<rparr>
         else throwC (operation_conflict operationId (xe_commandType e))
     | None \<Rightarrow>
         bindC (guardC (inc_version locked = expectedVersion)
           (IncidentVersionConflictError expectedVersion (inc_version locked))) (\<lambda>_.
         bindC (guardC (\<not> terminal_status (inc_status locked))
           (InvalidStateTransitionError ''Incident is already in a terminal state'')) (\<lambda>_.
         bindC (guardC (inc_status locked \<in> set allowedStatuses)
           (InvalidStateTransitionError
             (''Cannot transition incident from status: '' @ incident_status_name (inc_status locked)))) (\<lambda>_.
         let newVersion = inc_version locked + 1 in
         bindC (update_incident ctx incidentId (updateFields newVersion)) (\<lambda>updated0.
         bindC (requireC updated0 (NotFoundError ''Incident not found'')) (\<lambda>updated.
         bindC (appendEvent uuid ctx (event_row ctx incidentId eventType commandType operationId
           (inc_version locked) newVersion (JObj (spread payloadFields (eventPayload locked updated newVersion))) now)) (\<lambda>_.
         bindC (audit auditAction (JObj (auditMetadata locked updated newVersion))) (\<lambda>_.
         returnC \<lparr>ir_outcome = IncidentApplied, ir_incident = updated\<rparr>)))))))))))"

definition COMMAND_INVESTIGATE :: string where "COMMAND_INVESTIGATE = ''startIncidentInvestigation''"

definition reason_fields :: "string option \<Rightarrow> string option \<Rightarrow> (string \<times> json) list" where
  "reason_fields reasonCode reasonText =
     [(''reasonCode'', opt_str (normalizeString reasonCode)), (''reasonText'', opt_str (normalizeString reasonText))]"

definition version_metadata :: "string option \<Rightarrow> ExamIncident \<Rightarrow> ExamIncident \<Rightarrow> int \<Rightarrow> (string \<times> json) list" where
  "version_metadata reasonCode before after newVersion =
     [(''incidentId'', JStr (inc_id after)), (''version'', version_json newVersion),
      (''reasonCode'', opt_str (normalizeString reasonCode))]"

definition startIncidentInvestigation ::
  "(jsnum \<Rightarrow> string) \<Rightarrow> id_supply \<Rightarrow> RequestContext \<Rightarrow> ident \<Rightarrow> ident \<Rightarrow> int \<Rightarrow> string option \<Rightarrow> string option \<Rightarrow> time \<Rightarrow>
     IncidentCommandResult incident_cmd" where
  "startIncidentInvestigation num uuid ctx incidentId operationId expectedVersion reasonCode reasonText now =
     versionBumpCommand num uuid ctx incidentId operationId expectedVersion COMMAND_INVESTIGATE
       (reason_fields reasonCode reasonText) [IncidentOpen] ''investigation_started'' ''incident.investigated''
       (version_metadata reasonCode) (\<lambda>_ _ _. reason_fields reasonCode reasonText)
       (\<lambda>newVersion i. i\<lparr>inc_status := Investigating, inc_version := newVersion, inc_updatedAt := now\<rparr>) now"

definition COMMAND_SEVERITY :: string where "COMMAND_SEVERITY = ''changeIncidentSeverity''"

definition changeIncidentSeverity ::
  "(jsnum \<Rightarrow> string) \<Rightarrow> id_supply \<Rightarrow> RequestContext \<Rightarrow> ident \<Rightarrow> ident \<Rightarrow> int \<Rightarrow> string \<Rightarrow> string option \<Rightarrow>
     string option \<Rightarrow> time \<Rightarrow> IncidentCommandResult incident_cmd" where
  "changeIncidentSeverity num uuid ctx incidentId operationId expectedVersion severity reasonCode reasonText now =
     bindC (guardC (severity \<in> set VALID_SEVERITIES) (ValidationError (''Invalid severity: '' @ severity))) (\<lambda>_.
     versionBumpCommand num uuid ctx incidentId operationId expectedVersion COMMAND_SEVERITY
       ((''severity'', JStr severity) # reason_fields reasonCode reasonText)
       [IncidentOpen, Investigating] ''severity_changed'' ''incident.severity_changed''
       (\<lambda>before after newVersion. [(''incidentId'', JStr (inc_id after)),
          (''beforeSeverity'', JStr (inc_severity before)), (''afterSeverity'', JStr (inc_severity after)),
          (''version'', version_json newVersion), (''reasonCode'', opt_str (normalizeString reasonCode))])
       (\<lambda>before after _. [(''beforeSeverity'', JStr (inc_severity before)),
          (''afterSeverity'', JStr (inc_severity after))] @ reason_fields reasonCode reasonText)
       (\<lambda>newVersion i. i\<lparr>inc_severity := severity, inc_version := newVersion, inc_updatedAt := now\<rparr>) now)"

definition COMMAND_RESOLVE :: string where "COMMAND_RESOLVE = ''resolveExamIncident''"

definition resolveExamIncident ::
  "(jsnum \<Rightarrow> string) \<Rightarrow> id_supply \<Rightarrow> RequestContext \<Rightarrow> ident \<Rightarrow> ident \<Rightarrow> int \<Rightarrow> string \<Rightarrow> string option \<Rightarrow> time \<Rightarrow>
     IncidentCommandResult incident_cmd" where
  "resolveExamIncident num uuid ctx incidentId operationId expectedVersion rawSummary reasonCode now =
     bindC (liftC (normalizeRequiredString num (Some rawSummary) ''resolutionSummary'' 1000)) (\<lambda>resolutionSummary.
     let fields = [(''resolutionSummary'', JStr resolutionSummary),
           (''reasonCode'', opt_str (normalizeString reasonCode))] in
     versionBumpCommand num uuid ctx incidentId operationId expectedVersion COMMAND_RESOLVE fields
       [IncidentOpen, Investigating] ''incident_resolved'' ''incident.resolved''
       (version_metadata reasonCode) (\<lambda>_ _ _. fields)
       (\<lambda>newVersion i. i\<lparr>inc_status := Resolved, inc_version := newVersion,
          inc_resolutionSummary := Some resolutionSummary, inc_resolvedBy := Some (rx_actorId ctx),
          inc_resolvedAt := Some now, inc_updatedAt := now\<rparr>) now)"

definition COMMAND_DISMISS :: string where "COMMAND_DISMISS = ''dismissExamIncident''"

definition dismissExamIncident ::
  "(jsnum \<Rightarrow> string) \<Rightarrow> id_supply \<Rightarrow> RequestContext \<Rightarrow> ident \<Rightarrow> ident \<Rightarrow> int \<Rightarrow> string \<Rightarrow> string option \<Rightarrow> time \<Rightarrow>
     IncidentCommandResult incident_cmd" where
  "dismissExamIncident num uuid ctx incidentId operationId expectedVersion rawReason reasonCode now =
     bindC (liftC (normalizeRequiredString num (Some rawReason) ''reasonText'' 1000)) (\<lambda>reasonText.
     let fields = [(''reasonText'', JStr reasonText), (''reasonCode'', opt_str (normalizeString reasonCode))] in
     versionBumpCommand num uuid ctx incidentId operationId expectedVersion COMMAND_DISMISS fields
       [IncidentOpen, Investigating] ''incident_dismissed'' ''incident.dismissed''
       (version_metadata reasonCode) (\<lambda>_ _ _. fields)
       (\<lambda>newVersion i. i\<lparr>inc_status := Dismissed, inc_version := newVersion,
          inc_resolvedBy := Some (rx_actorId ctx), inc_resolvedAt := Some now, inc_updatedAt := now\<rparr>) now)"

section \<open>The heartbeat detector\<close>

record DetectedFact =
  df_occurredAt :: time
  df_observedLastActivityAt :: "time option"
  df_timeoutSeconds :: "int option"
  df_detectionSource :: "string option"

record HeartbeatEpisodeFact =
  hf_interruptionId :: ident
  hf_examId :: ident
  hf_attemptId :: ident
  hf_candidateId :: "ident option"
  hf_detected :: DetectedFact

definition SYSTEM_INCIDENT_CREATE_COMMAND :: string where
  "SYSTEM_INCIDENT_CREATE_COMMAND = ''createSystemIncidentFromHeartbeatEpisode''"

definition SYSTEM_INCIDENT_TYPE :: string where "SYSTEM_INCIDENT_TYPE = ''network_interruption''"
definition SYSTEM_INCIDENT_SEVERITY :: string where "SYSTEM_INCIDENT_SEVERITY = ''info''"

definition IncidentDetector :: ident where "IncidentDetector = ''system:incident-detector''"

definition systemIncidentDescription :: "(jsnum \<Rightarrow> string) \<Rightarrow> dates \<Rightarrow> HeartbeatEpisodeFact \<Rightarrow> string" where
  "systemIncidentDescription num dates ep =
     ''System detected a heartbeat disruption (heartbeat_timeout): no candidate heartbeat for '' @
     (case df_timeoutSeconds (hf_detected ep) of
        Some n \<Rightarrow> num (of_int n) @ ''s'' | None \<Rightarrow> ''the configured window'') @
     '', last activity observed at '' @
     (case df_observedLastActivityAt (hf_detected ep) of Some t \<Rightarrow> dt_iso dates t | None \<Rightarrow> ''unknown'') @
     ''. Interruption episode '' @ hf_interruptionId ep @ ''.''"

definition deriveSystemIncidentCanonicalPayload :: "(jsnum \<Rightarrow> string) \<Rightarrow> dates \<Rightarrow> HeartbeatEpisodeFact \<Rightarrow> json" where
  "deriveSystemIncidentCanonicalPayload num dates ep =
     JObj [(''examId'', JStr (hf_examId ep)), (''attemptId'', JStr (hf_attemptId ep)),
       (''candidateId'', opt_str (hf_candidateId ep)), (''type'', JStr SYSTEM_INCIDENT_TYPE),
       (''severity'', JStr SYSTEM_INCIDENT_SEVERITY),
       (''occurredAt'', JStr (dt_iso dates (df_occurredAt (hf_detected ep)))),
       (''description'', JStr (systemIncidentDescription num dates ep)),
       (''interruptionId'', JStr (hf_interruptionId ep))]"

text \<open>\<open>op_uuid\<close> is \<^verbatim>\<open>systemIncidentOperationId\<close>, the UUID derived from the episode; \<open>lookupEpisode\<close> answers the attempt of
  the episode.\<close>

definition createSystemIncidentFromHeartbeatEpisode ::
  "(jsnum \<Rightarrow> string) \<Rightarrow> dates \<Rightarrow> (ident \<Rightarrow> ident) \<Rightarrow> id_supply \<Rightarrow> (ident \<Rightarrow> ident option) \<Rightarrow> (ident \<Rightarrow> DetectedFact option) \<Rightarrow>
     (ident \<Rightarrow> AttemptScopeRow option) \<Rightarrow> RequestContext \<Rightarrow> ident \<Rightarrow> time \<Rightarrow> IncidentCommandResult incident_cmd" where
  "createSystemIncidentFromHeartbeatEpisode num dates op_uuid uuid lookupEpisode lookupDetectedEvent lookupAttempt
       ctx episodeId now =
     bindC (guardC (rx_role ctx = ''System'' \<and> rx_actorId ctx = IncidentDetector)
       (PermissionDeniedError ''System incident creation is restricted to system:incident-detector'')) (\<lambda>_.
     bindC (requireC (lookupEpisode episodeId) (NotFoundError ''Interruption episode not found'')) (\<lambda>attemptId.
     bindC (requireC (lookupDetectedEvent episodeId)
       (NotFoundError ''Interruption episode detected event not found'')) (\<lambda>detected.
     bindC (guardC (df_detectionSource detected = Some ''heartbeat_timeout'')
       (ValidationError ''Interruption episode is not a heartbeat-detected episode'')) (\<lambda>_.
     bindC (requireC (lookupAttempt attemptId) (NotFoundError ''Attempt not found'')) (\<lambda>attempt.
     bindC (guardC (sr_organizationId attempt = rx_organizationId ctx) (NotFoundError ''Attempt not found'')) (\<lambda>_.
     let ep = \<lparr>hf_interruptionId = episodeId, hf_examId = sr_examId attempt, hf_attemptId = attemptId,
           hf_candidateId = sr_candidateId attempt, hf_detected = detected\<rparr>;
         canonicalPayload = deriveSystemIncidentCanonicalPayload num dates ep;
         operationId = op_uuid episodeId in
     with_replay num ctx operationId SYSTEM_INCIDENT_CREATE_COMMAND canonicalPayload (
     bindC (insert_incident uuid (new_incident ctx (hf_examId ep) (Some (hf_attemptId ep)) (hf_candidateId ep)
       SYSTEM_INCIDENT_TYPE SYSTEM_INCIDENT_SEVERITY (Some (df_occurredAt detected))
       (systemIncidentDescription num dates ep) now)) (\<lambda>incident.
     bindC (appendEvent uuid ctx (event_row ctx (inc_id incident) ''incident_created'' SYSTEM_INCIDENT_CREATE_COMMAND
       operationId 0 1 canonicalPayload now)) (\<lambda>_.
     bindC (insertInterruptionLink uuid (\<lambda>i. \<lparr>xl_id = i, xl_organizationId = rx_organizationId ctx,
       xl_incidentId = inc_id incident, xl_attemptId = hf_attemptId ep, xl_interruptionId = episodeId, xl_linkedAt = now,
       xl_linkedBy = rx_actorId ctx, xl_operationId = operationId\<rparr>)) (\<lambda>_.
     bindC (audit ''incident.created'' (JObj [(''incidentId'', JStr (inc_id incident)),
       (''examId'', JStr (hf_examId ep)), (''attemptId'', JStr (hf_attemptId ep)),
       (''type'', JStr SYSTEM_INCIDENT_TYPE), (''version'', version_json 1)])) (\<lambda>_.
     returnC \<lparr>ir_outcome = IncidentApplied, ir_incident = incident\<rparr>)))))))))))"

end
