(* ===== verification/Proctor_Assignment.thy ===== *)
theory Proctor_Assignment
  imports Incident_Commands "HOL-Library.Product_Lexorder"
begin

text \<open>
  The assignment of proctors to exams: the episode and receipt rows, the repository of
  \<^verbatim>\<open>packages/db/src/repository/proctorAssignmentRepo.ts\<close> and the two commands of
  \<^verbatim>\<open>packages/exam-engine/src/proctorAssignmentCommands.ts\<close>. At most one episode of a proctor on an exam is
  active, a revoked episode stays as history, and every command leaves one receipt under its
  \<^verbatim>\<open>operationId\<close>. The audit callback appends to the audit trail of the same transaction.
\<close>

section \<open>Rows\<close>

datatype EpisodeStatus = EpisodeActive | EpisodeRevoked

record ExamProctorAssignment =
  pa_id :: ident
  pa_organizationId :: ident
  pa_examId :: ident
  pa_proctorUserId :: ident
  pa_status :: EpisodeStatus
  pa_assignedBy :: ident
  pa_assignedAt :: time
  pa_revokedBy :: "ident option"
  pa_revokedAt :: "time option"
  pa_createdAt :: time
  pa_updatedAt :: time

datatype ReceiptOutcome = ReceiptApplied | ReceiptNoChange

record ExamProctorAssignmentEvent =
  pe_id :: ident
  pe_organizationId :: ident
  pe_assignmentId :: ident
  pe_commandType :: string
  pe_operationId :: ident
  pe_canonicalPayload :: json
  pe_outcome :: ReceiptOutcome
  pe_actorId :: ident
  pe_createdAt :: time

record proctor_store =
  ps_assignments :: "ExamProctorAssignment list"
  ps_events :: "ExamProctorAssignmentEvent list"
  ps_audit :: "(string \<times> json) list"
  ps_drawn :: nat

type_synonym 'a proctor_cmd = "(proctor_store, app_error, 'a) cmd"

datatype ProctorOutcome = AssignmentApplied | AssignmentNoChange | AssignmentReplayed

record ProctorCommandResult =
  pr_outcome :: ProctorOutcome
  pr_assignment :: ExamProctorAssignment

section \<open>Repository\<close>

definition ACTIVE_UNIQUE :: string where
  "ACTIVE_UNIQUE = ''exam_proctor_assignments_active_unique''"

definition EVENTS_OPERATION_UNIQUE :: string where
  "EVENTS_OPERATION_UNIQUE = ''exam_proctor_assignment_events_org_operation_unique''"

text \<open>The episodes of a proctor on an exam of the organization, in a given status.\<close>

definition episode_of :: "RequestContext \<Rightarrow> ident \<Rightarrow> ident \<Rightarrow> ExamProctorAssignment \<Rightarrow> bool" where
  "episode_of ctx examId proctorUserId a \<longleftrightarrow> pa_organizationId a = rx_organizationId ctx \<and>
     pa_examId a = examId \<and> pa_proctorUserId a = proctorUserId"

definition findActiveByExamAndProctor ::
  "RequestContext \<Rightarrow> ident \<Rightarrow> ident \<Rightarrow> proctor_store \<Rightarrow> ExamProctorAssignment option" where
  "findActiveByExamAndProctor ctx examId proctorUserId s =
     find (\<lambda>a. episode_of ctx examId proctorUserId a \<and> pa_status a = EpisodeActive) (ps_assignments s)"

definition find_assignment :: "RequestContext \<Rightarrow> ident \<Rightarrow> proctor_store \<Rightarrow> ExamProctorAssignment option" where
  "find_assignment ctx assignmentId s =
     find (\<lambda>a. pa_organizationId a = rx_organizationId ctx \<and> pa_id a = assignmentId) (ps_assignments s)"

text \<open>\<^verbatim>\<open>ORDER BY key DESC LIMIT 1\<close>\<close>

definition latest_by :: "('a \<Rightarrow> 'k::linorder) \<Rightarrow> 'a list \<Rightarrow> 'a option" where
  "latest_by key rows = (case rev (sort_key key rows) of [] \<Rightarrow> None | r # _ \<Rightarrow> Some r)"

definition findMostRecentEpisodeByExamAndProctor ::
  "RequestContext \<Rightarrow> ident \<Rightarrow> ident \<Rightarrow> proctor_store \<Rightarrow> ExamProctorAssignment option" where
  "findMostRecentEpisodeByExamAndProctor ctx examId proctorUserId s =
     latest_by (\<lambda>a. (pa_createdAt a, pa_id a)) (filter (episode_of ctx examId proctorUserId) (ps_assignments s))"

text \<open>The check constraint on the shape of a revocation gives every revoked row its \<^verbatim>\<open>revoked_at\<close>.\<close>

definition revoked_time :: "ExamProctorAssignment \<Rightarrow> time" where
  "revoked_time a = (case pa_revokedAt a of None \<Rightarrow> 0 | Some t \<Rightarrow> t)"

definition findMostRecentRevoked ::
  "RequestContext \<Rightarrow> ident \<Rightarrow> ident \<Rightarrow> proctor_store \<Rightarrow> ExamProctorAssignment option" where
  "findMostRecentRevoked ctx examId proctorUserId s =
     latest_by (\<lambda>a. (revoked_time a, pa_id a))
       (filter (\<lambda>a. episode_of ctx examId proctorUserId a \<and> pa_status a = EpisodeRevoked) (ps_assignments s))"

definition resolveRevokeTarget ::
  "RequestContext \<Rightarrow> ident \<Rightarrow> ident \<Rightarrow> proctor_store \<Rightarrow> ExamProctorAssignment option" where
  "resolveRevokeTarget ctx examId proctorUserId s =
     (case findActiveByExamAndProctor ctx examId proctorUserId s of
        Some active \<Rightarrow> Some active
      | None \<Rightarrow> findMostRecentRevoked ctx examId proctorUserId s)"

definition draw_assignment_id :: "id_supply \<Rightarrow> ident proctor_cmd" where
  "draw_assignment_id uuid = bindC (getsC (\<lambda>s. uuid (ps_drawn s))) (\<lambda>i.
     bindC (modifyC (\<lambda>s. s\<lparr>ps_drawn := Suc (ps_drawn s)\<rparr>)) (\<lambda>_. returnC i))"

definition new_episode :: "RequestContext \<Rightarrow> ident \<Rightarrow> ident \<Rightarrow> time \<Rightarrow> ident \<Rightarrow> ExamProctorAssignment" where
  "new_episode ctx examId proctorUserId now i =
     \<lparr>pa_id = i, pa_organizationId = rx_organizationId ctx, pa_examId = examId, pa_proctorUserId = proctorUserId,
      pa_status = EpisodeActive, pa_assignedBy = rx_actorId ctx, pa_assignedAt = now, pa_revokedBy = None,
      pa_revokedAt = None, pa_createdAt = now, pa_updatedAt = now\<rparr>"

text \<open>The partial unique index admits one active row per organization, exam and proctor.\<close>

definition insertAssignment ::
  "id_supply \<Rightarrow> RequestContext \<Rightarrow> ident \<Rightarrow> ident \<Rightarrow> time \<Rightarrow> ExamProctorAssignment proctor_cmd" where
  "insertAssignment uuid ctx examId proctorUserId now = bindC (draw_assignment_id uuid) (\<lambda>i.
     bindC (getsC (findActiveByExamAndProctor ctx examId proctorUserId)) (\<lambda>dup.
     bindC (guardC (dup = None) (constraint_violation ACTIVE_UNIQUE)) (\<lambda>_.
     bindC (modifyC (\<lambda>s. s\<lparr>ps_assignments := ps_assignments s @ [new_episode ctx examId proctorUserId now i]\<rparr>)) (\<lambda>_.
     returnC (new_episode ctx examId proctorUserId now i)))))"

definition revoked_row :: "RequestContext \<Rightarrow> time \<Rightarrow> ExamProctorAssignment \<Rightarrow> ExamProctorAssignment" where
  "revoked_row ctx now a = a\<lparr>pa_status := EpisodeRevoked, pa_revokedBy := Some (rx_actorId ctx),
     pa_revokedAt := Some now, pa_updatedAt := now\<rparr>"

definition revokeAssignment ::
  "RequestContext \<Rightarrow> ident \<Rightarrow> time \<Rightarrow> ExamProctorAssignment option proctor_cmd" where
  "revokeAssignment ctx assignmentId now =
     bindC (modifyC (\<lambda>s. s\<lparr>ps_assignments := map (\<lambda>a.
       if pa_organizationId a = rx_organizationId ctx \<and> pa_id a = assignmentId then revoked_row ctx now a else a)
       (ps_assignments s)\<rparr>)) (\<lambda>_.
     getsC (find_assignment ctx assignmentId))"

definition find_receipt :: "RequestContext \<Rightarrow> ident \<Rightarrow> proctor_store \<Rightarrow> ExamProctorAssignmentEvent option" where
  "find_receipt ctx operationId s =
     find (\<lambda>e. pe_organizationId e = rx_organizationId ctx \<and> pe_operationId e = operationId) (ps_events s)"

definition receipt_row ::
  "RequestContext \<Rightarrow> ident \<Rightarrow> string \<Rightarrow> ident \<Rightarrow> json \<Rightarrow> ReceiptOutcome \<Rightarrow> time \<Rightarrow> ident \<Rightarrow> ExamProctorAssignmentEvent" where
  "receipt_row ctx assignmentId commandType operationId payload outcome now i =
     \<lparr>pe_id = i, pe_organizationId = rx_organizationId ctx, pe_assignmentId = assignmentId,
      pe_commandType = commandType, pe_operationId = operationId, pe_canonicalPayload = payload,
      pe_outcome = outcome, pe_actorId = rx_actorId ctx, pe_createdAt = now\<rparr>"

definition append_receipt ::
  "id_supply \<Rightarrow> RequestContext \<Rightarrow> (ident \<Rightarrow> ExamProctorAssignmentEvent) \<Rightarrow> ExamProctorAssignmentEvent proctor_cmd" where
  "append_receipt uuid ctx row = bindC (draw_assignment_id uuid) (\<lambda>i.
     bindC (getsC (find_receipt ctx (pe_operationId (row i)))) (\<lambda>dup.
     bindC (guardC (dup = None) (constraint_violation EVENTS_OPERATION_UNIQUE)) (\<lambda>_.
     bindC (modifyC (\<lambda>s. s\<lparr>ps_events := ps_events s @ [row i]\<rparr>)) (\<lambda>_. returnC (row i)))))"

definition hasActiveAssignment :: "RequestContext \<Rightarrow> ident \<Rightarrow> ident \<Rightarrow> proctor_store \<Rightarrow> bool" where
  "hasActiveAssignment ctx examId proctorUserId s \<longleftrightarrow>
     findActiveByExamAndProctor ctx examId proctorUserId s \<noteq> None"

definition listProctorExams :: "RequestContext \<Rightarrow> ident \<Rightarrow> proctor_store \<Rightarrow> ExamProctorAssignment list" where
  "listProctorExams ctx proctorUserId s =
     sort_key (\<lambda>a. (pa_createdAt a, pa_id a))
       (filter (\<lambda>a. pa_organizationId a = rx_organizationId ctx \<and> pa_proctorUserId a = proctorUserId \<and>
          pa_status a = EpisodeActive) (ps_assignments s))"

section \<open>Commands\<close>

definition REASON_CODE_MAX_LENGTH :: nat where "REASON_CODE_MAX_LENGTH = 100"

definition normalizeReasonCode :: "(jsnum \<Rightarrow> string) \<Rightarrow> string option \<Rightarrow> app_error + string option" where
  "normalizeReasonCode num reasonCode =
     (case reasonCode of
        None \<Rightarrow> Inr None
      | Some r \<Rightarrow>
          let trimmed = js_trim r in
          if length trimmed = 0 then Inr None
          else if length trimmed > REASON_CODE_MAX_LENGTH
          then Inl (ValidationError (''reasonCode must be at most '' @ num (of_nat REASON_CODE_MAX_LENGTH) @ '' chars''))
          else Inr (Some trimmed))"

definition canonicalAssignmentPayload :: "ident \<Rightarrow> ident \<Rightarrow> string option \<Rightarrow> json" where
  "canonicalAssignmentPayload examId proctorUserId reasonCode =
     JObj [(''examId'', JStr examId), (''proctorUserId'', JStr proctorUserId), (''reasonCode'', opt_str reasonCode)]"

definition matching_receipt ::
  "(jsnum \<Rightarrow> string) \<Rightarrow> ExamProctorAssignmentEvent \<Rightarrow> string \<Rightarrow> json \<Rightarrow> bool" where
  "matching_receipt num e commandType canonicalPayload \<longleftrightarrow> pe_commandType e = commandType \<and>
     payloadsEqual num (Some (pe_canonicalPayload e)) (Some canonicalPayload)"

definition replay_receipt ::
  "(jsnum \<Rightarrow> string) \<Rightarrow> RequestContext \<Rightarrow> ident \<Rightarrow> string \<Rightarrow> json \<Rightarrow> ProctorCommandResult option proctor_cmd" where
  "replay_receipt num ctx operationId commandType canonicalPayload =
     bindC (getsC (find_receipt ctx operationId)) (\<lambda>existing.
     case existing of
       None \<Rightarrow> returnC None
     | Some e \<Rightarrow>
         if matching_receipt num e commandType canonicalPayload
         then bindC (someC (find_assignment ctx (pe_assignmentId e)) (NotFoundError ''Assignment not found'')) (\<lambda>assignment.
              returnC (Some \<lparr>pr_outcome = AssignmentReplayed, pr_assignment = assignment\<rparr>))
         else throwC (operation_conflict operationId (pe_commandType e)))"

record ProctorUserRow =
  pu_organizationId :: ident
  pu_isActive :: bool
  pu_hasActiveProctorRole :: bool

definition audit_assignment :: "string \<Rightarrow> json \<Rightarrow> unit proctor_cmd" where
  "audit_assignment action metadata = modifyC (\<lambda>s. s\<lparr>ps_audit := ps_audit s @ [(action, metadata)]\<rparr>)"

definition assignment_audit ::
  "RequestContext \<Rightarrow> ident \<Rightarrow> ident \<Rightarrow> ident \<Rightarrow> ident \<Rightarrow> string \<Rightarrow> string \<Rightarrow> string option \<Rightarrow> json" where
  "assignment_audit ctx examId proctorUserId assignmentId operationId stamp moment reasonCode =
     JObj [(''organizationId'', JStr (rx_organizationId ctx)), (''examId'', JStr examId),
       (''proctorUserId'', JStr proctorUserId), (''assignmentId'', JStr assignmentId),
       (''actorId'', JStr (rx_actorId ctx)), (''operationId'', JStr operationId), (stamp, JStr moment),
       (''reasonCode'', opt_str reasonCode)]"

definition COMMAND_ASSIGN :: string where "COMMAND_ASSIGN = ''assign''"
definition COMMAND_REVOKE :: string where "COMMAND_REVOKE = ''revoke''"

text \<open>The exam must be one of the actor's organization, the user an active member of it with an active proctor
  role; \<open>lookupExam\<close> gives the organization of an exam.\<close>

definition qualify_proctor ::
  "RequestContext \<Rightarrow> ident option \<Rightarrow> ProctorUserRow option \<Rightarrow> app_error + unit" where
  "qualify_proctor ctx exam proctor =
     bindR (guardR (exam = Some (rx_organizationId ctx)) (NotFoundError ''Exam not found'')) (\<lambda>_.
     case proctor of
       None \<Rightarrow> Inl (NotFoundError ''Proctor user not found'')
     | Some u \<Rightarrow>
         bindR (guardR (pu_organizationId u = rx_organizationId ctx) (NotFoundError ''Proctor user not found'')) (\<lambda>_.
         bindR (guardR (pu_isActive u) (ValidationError ''Target user is inactive'')) (\<lambda>_.
         guardR (pu_hasActiveProctorRole u) (ValidationError ''Target user does not have an active Proctor role''))))"

text \<open>The common frame of the two commands: a receipt of the operation is answered, otherwise the command runs.\<close>

definition with_receipt ::
  "(jsnum \<Rightarrow> string) \<Rightarrow> RequestContext \<Rightarrow> ident \<Rightarrow> string \<Rightarrow> json \<Rightarrow>
     ProctorCommandResult proctor_cmd \<Rightarrow> ProctorCommandResult proctor_cmd" where
  "with_receipt num ctx operationId commandType canonicalPayload body =
     bindC (replay_receipt num ctx operationId commandType canonicalPayload) (\<lambda>replay.
     case replay of Some r \<Rightarrow> returnC r | None \<Rightarrow> body)"

definition assignProctorToExam ::
  "(jsnum \<Rightarrow> string) \<Rightarrow> dates \<Rightarrow> id_supply \<Rightarrow> RequestContext \<Rightarrow> ident \<Rightarrow> ident \<Rightarrow> ident \<Rightarrow> string option \<Rightarrow>
     (ident \<Rightarrow> ident option) \<times> (ident \<Rightarrow> ProctorUserRow option) \<times> time \<Rightarrow> ProctorCommandResult proctor_cmd" where
  "assignProctorToExam num dates uuid ctx operationId examId proctorUserId rawReason =
     (\<lambda>(lookupExam, lookupProctorUser, now).
     bindC (liftC (normalizeReasonCode num rawReason)) (\<lambda>reasonCode.
     let payload = canonicalAssignmentPayload examId proctorUserId reasonCode;
         receipt = (\<lambda>a outcome. append_receipt uuid ctx
           (receipt_row ctx (pa_id a) COMMAND_ASSIGN operationId payload outcome now)) in
     with_receipt num ctx operationId COMMAND_ASSIGN payload
       (bindC (liftC (qualify_proctor ctx (lookupExam examId) (lookupProctorUser proctorUserId))) (\<lambda>_.
        bindC (getsC (findActiveByExamAndProctor ctx examId proctorUserId)) (\<lambda>existing.
        case existing of
          Some a \<Rightarrow>
            bindC (receipt a ReceiptNoChange) (\<lambda>_.
            returnC \<lparr>pr_outcome = AssignmentNoChange, pr_assignment = a\<rparr>)
        | None \<Rightarrow>
            bindC (insertAssignment uuid ctx examId proctorUserId now) (\<lambda>a.
            bindC (receipt a ReceiptApplied) (\<lambda>_.
            bindC (audit_assignment ''exam.proctor_assigned''
              (assignment_audit ctx examId proctorUserId (pa_id a) operationId ''assignedAt'' (dt_iso dates now) reasonCode)) (\<lambda>_.
            returnC \<lparr>pr_outcome = AssignmentApplied, pr_assignment = a\<rparr>))))))))"

definition revokeProctorFromExam ::
  "(jsnum \<Rightarrow> string) \<Rightarrow> dates \<Rightarrow> id_supply \<Rightarrow> RequestContext \<Rightarrow> ident \<Rightarrow> ident \<Rightarrow> ident \<Rightarrow> string option \<Rightarrow>
     time \<Rightarrow> ProctorCommandResult proctor_cmd" where
  "revokeProctorFromExam num dates uuid ctx operationId examId proctorUserId rawReason now =
     bindC (liftC (normalizeReasonCode num rawReason)) (\<lambda>reasonCode.
     let payload = canonicalAssignmentPayload examId proctorUserId reasonCode;
         receipt = (\<lambda>a outcome. append_receipt uuid ctx
           (receipt_row ctx (pa_id a) COMMAND_REVOKE operationId payload outcome now)) in
     with_receipt num ctx operationId COMMAND_REVOKE payload
       (bindC (someC (resolveRevokeTarget ctx examId proctorUserId) (NotFoundError ''Proctor assignment not found'')) (\<lambda>target.
        if pa_status target = EpisodeActive
        then
          bindC (revokeAssignment ctx (pa_id target) now) (\<lambda>updated.
          let revoked = (case updated of Some u \<Rightarrow> u | None \<Rightarrow> target) in
          bindC (receipt revoked ReceiptApplied) (\<lambda>_.
          bindC (audit_assignment ''exam.proctor_revoked''
            (assignment_audit ctx examId proctorUserId (pa_id revoked) operationId ''revokedAt'' (dt_iso dates now) reasonCode)) (\<lambda>_.
          returnC \<lparr>pr_outcome = AssignmentApplied, pr_assignment = revoked\<rparr>)))
        else
          bindC (receipt target ReceiptNoChange) (\<lambda>_.
          returnC \<lparr>pr_outcome = AssignmentNoChange, pr_assignment = target\<rparr>))))"

section \<open>Listing\<close>

datatype AssignmentStatusFilter = FilterActive | FilterRevoked | FilterAll

record AssignmentCursor =
  ac_createdAt :: time
  ac_id :: ident

fun passes_filter :: "AssignmentStatusFilter \<Rightarrow> ExamProctorAssignment \<Rightarrow> bool" where
  "passes_filter FilterAll a \<longleftrightarrow> True"
| "passes_filter FilterActive a \<longleftrightarrow> pa_status a = EpisodeActive"
| "passes_filter FilterRevoked a \<longleftrightarrow> pa_status a = EpisodeRevoked"

text \<open>The keyset predicate: strictly after the cursor row.\<close>

definition after_cursor :: "AssignmentCursor option \<Rightarrow> ExamProctorAssignment \<Rightarrow> bool" where
  "after_cursor cursor a \<longleftrightarrow> (case cursor of
     None \<Rightarrow> True
   | Some c \<Rightarrow> pa_createdAt a > ac_createdAt c \<or> pa_createdAt a = ac_createdAt c \<and> pa_id a > ac_id c)"

definition listExamProctors ::
  "RequestContext \<Rightarrow> ident \<Rightarrow> AssignmentStatusFilter \<Rightarrow> nat \<Rightarrow> AssignmentCursor option \<Rightarrow> proctor_store \<Rightarrow>
     ExamProctorAssignment list \<times> AssignmentCursor option" where
  "listExamProctors ctx examId status limit cursor s =
     (let rows = take (limit + 1) (sort_key (\<lambda>a. (pa_createdAt a, pa_id a))
            (filter (\<lambda>a. pa_organizationId a = rx_organizationId ctx \<and> pa_examId a = examId \<and>
               passes_filter status a \<and> after_cursor cursor a) (ps_assignments s)));
          items = take limit rows
      in (items, if length rows > limit \<and> items \<noteq> []
                 then Some \<lparr>ac_createdAt = pa_createdAt (last items), ac_id = pa_id (last items)\<rparr> else None))"

text \<open>The wire form of a cursor, \<^verbatim>\<open>routes/proctorAssignments.admin.ts\<close>.\<close>

definition encodeCursor :: "dates \<Rightarrow> AssignmentCursor \<Rightarrow> string" where
  "encodeCursor dates c = dt_iso dates (ac_createdAt c) @ CHR 0x7C # ac_id c"

definition parseCursor :: "dates \<Rightarrow> string \<Rightarrow> string + AssignmentCursor" where
  "parseCursor dates raw =
     (case js_split (CHR 0x7C) raw of
        [stamp, i] \<Rightarrow>
          if i = [] then Inl ''cursor must be `<createdAtISO>|<id>`''
          else (case dt_parse dates stamp of
              None \<Rightarrow> Inl ''cursor createdAt must be a valid ISO datetime''
            | Some t \<Rightarrow> Inr \<lparr>ac_createdAt = t, ac_id = i\<rparr>)
      | _ \<Rightarrow> Inl ''cursor must be `<createdAtISO>|<id>`'')"

end
