(* ===== verification/Proctor_Laws.thy ===== *)
theory Proctor_Laws
  imports Proctor_Assignment Answer_Protocol "HOL-Library.Sublist"
begin

text \<open>
  The laws of the proctor assignments: what each command may change, the invariant of the two tables and their
  append-only history, the effect of a command on the authority it grants, the replay of an operation, and the
  keyset pagination of the episodes of an exam.
\<close>

section \<open>Reading the commands\<close>

lemma draw_assignment_iff [cmd_iff]:
  "draw_assignment_id uuid s = Inr (i, s') \<longleftrightarrow> i = uuid (ps_drawn s) \<and> s' = s\<lparr>ps_drawn := Suc (ps_drawn s)\<rparr>"
  "draw_assignment_id uuid s = Inl e \<longleftrightarrow> False"
  by (auto simp: draw_assignment_id_def cmd_iff)

lemma insertAssignment_iff [cmd_iff]:
  "insertAssignment uuid ctx x p now s = Inr (a, s') \<longleftrightarrow> findActiveByExamAndProctor ctx x p s = None \<and>
     a = new_episode ctx x p now (uuid (ps_drawn s)) \<and>
     s' = s\<lparr>ps_drawn := Suc (ps_drawn s), ps_assignments := ps_assignments s @ [a]\<rparr>"
  by (auto simp: insertAssignment_def cmd_iff findActiveByExamAndProctor_def)

lemma append_receipt_iff [cmd_iff]:
  "append_receipt uuid ctx row s = Inr (e, s') \<longleftrightarrow> e = row (uuid (ps_drawn s)) \<and>
     find_receipt ctx (pe_operationId e) s = None \<and>
     s' = s\<lparr>ps_drawn := Suc (ps_drawn s), ps_events := ps_events s @ [e]\<rparr>"
  by (auto simp: append_receipt_def cmd_iff find_receipt_def)

lemma audit_assignment_iff [cmd_iff]:
  "audit_assignment a m s = Inr (u, s') \<longleftrightarrow> s' = s\<lparr>ps_audit := ps_audit s @ [(a, m)]\<rparr>"
  "audit_assignment a m s = Inl e \<longleftrightarrow> False"
  by (auto simp: audit_assignment_def cmd_iff)

definition revoke_rows :: "RequestContext \<Rightarrow> ident \<Rightarrow> time \<Rightarrow> ExamProctorAssignment list \<Rightarrow> ExamProctorAssignment list" where
  "revoke_rows ctx k now rows =
     map (\<lambda>a. if pa_organizationId a = rx_organizationId ctx \<and> pa_id a = k then revoked_row ctx now a else a) rows"

lemma revokeAssignment_iff [cmd_iff]:
  "revokeAssignment ctx k now s = Inr (a, s') \<longleftrightarrow>
     s' = s\<lparr>ps_assignments := revoke_rows ctx k now (ps_assignments s)\<rparr> \<and> a = find_assignment ctx k s'"
  by (auto simp: revokeAssignment_def revoke_rows_def cmd_iff)

lemma find_assignment_id:
  "find_assignment ctx k s = Some a \<Longrightarrow> pa_id a = k \<and> pa_organizationId a = rx_organizationId ctx \<and> a \<in> set (ps_assignments s)"
  by (auto simp: find_assignment_def find_Some_iff)

lemma find_active_D:
  "findActiveByExamAndProctor ctx x p s = Some a \<Longrightarrow>
     episode_of ctx x p a \<and> pa_status a = EpisodeActive \<and> a \<in> set (ps_assignments s)"
  by (auto simp: findActiveByExamAndProctor_def find_Some_iff)

lemma episode_status_not [simp]:
  "st \<noteq> EpisodeActive \<longleftrightarrow> st = EpisodeRevoked" "st \<noteq> EpisodeRevoked \<longleftrightarrow> st = EpisodeActive"
  by (cases st; simp)+

lemma find_active_None_iff:
  "findActiveByExamAndProctor ctx x p s = None \<longleftrightarrow>
     (\<forall>a\<in>set (ps_assignments s). episode_of ctx x p a \<longrightarrow> pa_status a = EpisodeRevoked)"
  by (auto simp: findActiveByExamAndProctor_def find_None_iff)

lemma latest_by_iff: "latest_by key rows = Some r \<longleftrightarrow> (\<exists>ys. sort_key key rows = ys @ [r])"
  by (cases "sort_key key rows" rule: rev_cases) (simp_all add: latest_by_def)

lemma latest_by_in:
  assumes "latest_by key rows = Some r"
  shows "r \<in> set rows"
proof -
  obtain ys where "sort_key key rows = ys @ [r]" using assms unfolding latest_by_iff ..
  then have "r \<in> set (sort_key key rows)" by simp
  then show ?thesis by simp
qed

lemma latest_by_max:
  assumes "latest_by key rows = Some r" "x \<in> set rows"
  shows "key x \<le> key r"
proof -
  obtain ys where eq: "sort_key key rows = ys @ [r]" using assms(1) unfolding latest_by_iff ..
  have "sorted (map key (ys @ [r]))" unfolding eq [symmetric] by (rule sorted_sort_key)
  moreover have "x \<in> set (ys @ [r])" unfolding eq [symmetric] using assms(2) by simp
  ultimately show ?thesis by (auto simp: sorted_append)
qed

lemma resolve_target_D:
  assumes "resolveRevokeTarget ctx x p s = Some a"
  shows "episode_of ctx x p a \<and> a \<in> set (ps_assignments s) \<and>
    (pa_status a = EpisodeActive \<longleftrightarrow> findActiveByExamAndProctor ctx x p s = Some a) \<and>
    (pa_status a = EpisodeRevoked \<longrightarrow> findActiveByExamAndProctor ctx x p s = None)"
  using assms find_active_D [of ctx x p s]
  by (auto simp: resolveRevokeTarget_def findMostRecentRevoked_def split: option.splits dest!: latest_by_in)

section \<open>What a command may change\<close>

lemma row_simps [simp]:
  "pe_organizationId (receipt_row ctx k cmd op payload oc now i) = rx_organizationId ctx"
  "pe_assignmentId (receipt_row ctx k cmd op payload oc now i) = k"
  "pe_commandType (receipt_row ctx k cmd op payload oc now i) = cmd"
  "pe_operationId (receipt_row ctx k cmd op payload oc now i) = op"
  "pe_canonicalPayload (receipt_row ctx k cmd op payload oc now i) = payload"
  "pe_outcome (receipt_row ctx k cmd op payload oc now i) = oc"
  by (simp_all add: receipt_row_def)

definition receipted :: "RequestContext \<Rightarrow> ident \<Rightarrow> proctor_store \<Rightarrow> proctor_store \<Rightarrow> bool" where
  "receipted ctx k s s' \<longleftrightarrow> (\<exists>e. ps_events s' = ps_events s @ [e] \<and> pe_organizationId e = rx_organizationId ctx \<and>
     pe_assignmentId e = k \<and> find_receipt ctx (pe_operationId e) s = None) \<and>
     prefix (ps_audit s) (ps_audit s') \<and> ps_drawn s < ps_drawn s'"

inductive proctor_change :: "id_supply \<Rightarrow> proctor_store \<Rightarrow> proctor_store \<Rightarrow> bool" for uuid where
  replayed: "proctor_change uuid s s"
| kept: "proctor_change uuid s s'"
    if "ps_assignments s' = ps_assignments s" "receipted ctx (pa_id a) s s'" "a \<in> set (ps_assignments s)"
      "pa_organizationId a = rx_organizationId ctx"
| opened: "proctor_change uuid s s'"
    if "ps_assignments s' = ps_assignments s @ [new_episode ctx x p now (uuid (ps_drawn s))]"
      "receipted ctx (uuid (ps_drawn s)) s s'" "findActiveByExamAndProctor ctx x p s = None"
| closed: "proctor_change uuid s s'"
    if "ps_assignments s' = revoke_rows ctx (pa_id a) now (ps_assignments s)" "receipted ctx (pa_id a) s s'"
      "findActiveByExamAndProctor ctx x p s = Some a"

lemma with_receipt_cases:
  assumes "with_receipt num ctx op cmd payload body s = Inr (r, s')"
  obtains (replay) e where "find_receipt ctx op s = Some e" "matching_receipt num e cmd payload"
      "find_assignment ctx (pe_assignmentId e) s = Some (pr_assignment r)" "pr_outcome r = AssignmentReplayed" "s' = s"
  | (fresh) "find_receipt ctx op s = None" "body s = Inr (r, s')"
  using assms by (auto simp: with_receipt_def replay_receipt_def cmd_iff split: option.splits if_splits)

lemma revoke_rows_find:
  assumes "a \<in> set rows" "pa_organizationId a = rx_organizationId ctx" "distinct (map pa_id rows)"
  shows "find (\<lambda>b. pa_organizationId b = rx_organizationId ctx \<and> pa_id b = pa_id a) (revoke_rows ctx (pa_id a) now rows) =
    Some (revoked_row ctx now a)"
  using assms
proof (induction rows)
  case (Cons b rows)
  then show ?case
    by (cases "b = a") (auto simp: revoke_rows_def revoked_row_def rev_image_eqI dest: image_eqI [of _ pa_id])
qed simp

lemma assign_cases:
  assumes "assignProctorToExam num dates uuid ctx op x p raw (le, lu, now) s = Inr (r, s')"
  obtains (replay) reason e where "normalizeReasonCode num raw = Inr reason" "find_receipt ctx op s = Some e"
      "matching_receipt num e COMMAND_ASSIGN (canonicalAssignmentPayload x p reason)"
      "find_assignment ctx (pe_assignmentId e) s = Some (pr_assignment r)" "pr_outcome r = AssignmentReplayed" "s' = s"
  | (kept) reason a where "normalizeReasonCode num raw = Inr reason" "find_receipt ctx op s = None"
      "qualify_proctor ctx (le x) (lu p) = Inr ()" "findActiveByExamAndProctor ctx x p s = Some a"
      "r = \<lparr>pr_outcome = AssignmentNoChange, pr_assignment = a\<rparr>"
      "s' = s\<lparr>ps_drawn := Suc (ps_drawn s), ps_events := ps_events s @ [receipt_row ctx (pa_id a) COMMAND_ASSIGN op
         (canonicalAssignmentPayload x p reason) ReceiptNoChange now (uuid (ps_drawn s))]\<rparr>"
  | (opened) reason a where "normalizeReasonCode num raw = Inr reason" "find_receipt ctx op s = None"
      "qualify_proctor ctx (le x) (lu p) = Inr ()" "findActiveByExamAndProctor ctx x p s = None"
      "a = new_episode ctx x p now (uuid (ps_drawn s))" "r = \<lparr>pr_outcome = AssignmentApplied, pr_assignment = a\<rparr>"
      "s' = s\<lparr>ps_drawn := Suc (Suc (ps_drawn s)), ps_assignments := ps_assignments s @ [a],
         ps_events := ps_events s @ [receipt_row ctx (pa_id a) COMMAND_ASSIGN op
           (canonicalAssignmentPayload x p reason) ReceiptApplied now (uuid (Suc (ps_drawn s)))],
         ps_audit := ps_audit s @ [(''exam.proctor_assigned'', assignment_audit ctx x p (pa_id a) op ''assignedAt''
           (dt_iso dates now) reason)]\<rparr>"
proof -
  obtain reason where n: "normalizeReasonCode num raw = Inr reason"
    using assms by (auto simp: assignProctorToExam_def cmd_iff)
  note run = assms [unfolded assignProctorToExam_def prod.case n Let_def]
  from run obtain body where "with_receipt num ctx op COMMAND_ASSIGN (canonicalAssignmentPayload x p reason) body s = Inr (r, s')"
    by (auto simp: cmd_iff)
  then show ?thesis
  proof (cases rule: with_receipt_cases)
    case (replay e)
    then show ?thesis by (rule that(1) [OF n])
  next
    case fresh
    with run show ?thesis
      by (auto simp: cmd_iff with_receipt_def replay_receipt_def split: option.splits
          intro: that(2) [OF n] that(3) [OF n])
  qed
qed

lemma revoke_cases:
  assumes "revokeProctorFromExam num dates uuid ctx op x p raw now s = Inr (r, s')" "distinct (map pa_id (ps_assignments s))"
  obtains (replay) reason e where "normalizeReasonCode num raw = Inr reason" "find_receipt ctx op s = Some e"
      "matching_receipt num e COMMAND_REVOKE (canonicalAssignmentPayload x p reason)"
      "find_assignment ctx (pe_assignmentId e) s = Some (pr_assignment r)" "pr_outcome r = AssignmentReplayed" "s' = s"
  | (kept) reason a where "normalizeReasonCode num raw = Inr reason" "find_receipt ctx op s = None"
      "resolveRevokeTarget ctx x p s = Some a" "pa_status a = EpisodeRevoked"
      "r = \<lparr>pr_outcome = AssignmentNoChange, pr_assignment = a\<rparr>"
      "s' = s\<lparr>ps_drawn := Suc (ps_drawn s), ps_events := ps_events s @ [receipt_row ctx (pa_id a) COMMAND_REVOKE op
         (canonicalAssignmentPayload x p reason) ReceiptNoChange now (uuid (ps_drawn s))]\<rparr>"
  | (closed) reason a where "normalizeReasonCode num raw = Inr reason" "find_receipt ctx op s = None"
      "findActiveByExamAndProctor ctx x p s = Some a"
      "r = \<lparr>pr_outcome = AssignmentApplied, pr_assignment = revoked_row ctx now a\<rparr>"
      "s' = s\<lparr>ps_drawn := Suc (ps_drawn s), ps_assignments := revoke_rows ctx (pa_id a) now (ps_assignments s),
         ps_events := ps_events s @ [receipt_row ctx (pa_id a) COMMAND_REVOKE op
           (canonicalAssignmentPayload x p reason) ReceiptApplied now (uuid (ps_drawn s))],
         ps_audit := ps_audit s @ [(''exam.proctor_revoked'', assignment_audit ctx x p (pa_id a) op ''revokedAt''
           (dt_iso dates now) reason)]\<rparr>"
proof -
  obtain reason where n: "normalizeReasonCode num raw = Inr reason"
    using assms(1) by (auto simp: revokeProctorFromExam_def cmd_iff)
  note run = assms(1) [unfolded revokeProctorFromExam_def n Let_def]
  from run obtain body where "with_receipt num ctx op COMMAND_REVOKE (canonicalAssignmentPayload x p reason) body s = Inr (r, s')"
    by (auto simp: cmd_iff)
  then show ?thesis
  proof (cases rule: with_receipt_cases)
    case (replay e)
    then show ?thesis by (rule that(1) [OF n])
  next
    case fresh
    obtain a where a: "resolveRevokeTarget ctx x p s = Some a"
      using run fresh(1) by (auto simp: cmd_iff with_receipt_def replay_receipt_def)
    show ?thesis
    proof (cases "pa_status a = EpisodeActive")
      case False
      with run fresh a show ?thesis
        by (intro that(2) [OF n]) (auto simp: cmd_iff with_receipt_def replay_receipt_def)
    next
      case True
      note t = resolve_target_D [OF a]
      have "find_assignment ctx (pa_id a) (s\<lparr>ps_assignments := revoke_rows ctx (pa_id a) now (ps_assignments s)\<rparr>) =
          Some (revoked_row ctx now a)"
        using revoke_rows_find [OF _ _ assms(2), of a ctx now] t by (simp add: find_assignment_def episode_of_def)
      with run fresh a True t show ?thesis
        by (intro that(3) [OF n]) (auto simp: cmd_iff with_receipt_def replay_receipt_def revoked_row_def)
    qed
  qed
qed

section \<open>Requests\<close>

datatype ProctorRequest =
    Assign ident ident ident "string option"
  | Revoke ident ident ident "string option"

type_synonym proctor_env = "(ident \<Rightarrow> ident option) \<times> (ident \<Rightarrow> ProctorUserRow option) \<times> time"

fun run_proctor ::
  "(jsnum \<Rightarrow> string) \<Rightarrow> dates \<Rightarrow> id_supply \<Rightarrow> RequestContext \<Rightarrow> ProctorRequest \<Rightarrow> proctor_env \<Rightarrow>
     ProctorCommandResult proctor_cmd" where
  "run_proctor num dates uuid ctx (Assign op x p raw) env = assignProctorToExam num dates uuid ctx op x p raw env"
| "run_proctor num dates uuid ctx (Revoke op x p raw) (le, lu, now) =
     revokeProctorFromExam num dates uuid ctx op x p raw now"

inductive proctor_step :: "(jsnum \<Rightarrow> string) \<Rightarrow> dates \<Rightarrow> id_supply \<Rightarrow> proctor_store \<Rightarrow> proctor_store \<Rightarrow> bool"
  for num dates uuid where
  run: "run_proctor num dates uuid ctx req env s = Inr (r, s') \<Longrightarrow> proctor_step num dates uuid s s'"

section \<open>The invariant\<close>

definition revocation_shape :: "ExamProctorAssignment \<Rightarrow> bool" where
  "revocation_shape a \<longleftrightarrow> (if pa_status a = EpisodeActive then pa_revokedAt a = None \<and> pa_revokedBy a = None
     else pa_revokedAt a \<noteq> None \<and> pa_revokedBy a \<noteq> None)"

definition episode_key :: "ExamProctorAssignment \<Rightarrow> ident \<times> ident \<times> ident" where
  "episode_key a = (pa_organizationId a, pa_examId a, pa_proctorUserId a)"

definition receipt_key :: "ExamProctorAssignmentEvent \<Rightarrow> ident \<times> ident" where
  "receipt_key e = (pe_organizationId e, pe_operationId e)"

lemma episode_row_simps [simp]:
  "pa_id (new_episode ctx x p now i) = i" "pa_status (new_episode ctx x p now i) = EpisodeActive"
  "pa_organizationId (new_episode ctx x p now i) = rx_organizationId ctx"
  "episode_key (new_episode ctx x p now i) = (rx_organizationId ctx, x, p)" "revocation_shape (new_episode ctx x p now i)"
  "pa_id (revoked_row ctx now a) = pa_id a" "pa_status (revoked_row ctx now a) = EpisodeRevoked"
  "pa_organizationId (revoked_row ctx now a) = pa_organizationId a" "episode_key (revoked_row ctx now a) = episode_key a"
  by (simp_all add: new_episode_def revoked_row_def episode_key_def revocation_shape_def)

definition active_episodes :: "proctor_store \<Rightarrow> ExamProctorAssignment list" where
  "active_episodes s = filter (\<lambda>a. pa_status a = EpisodeActive) (ps_assignments s)"

definition proctor_inv :: "id_supply \<Rightarrow> proctor_store \<Rightarrow> bool" where
  "proctor_inv uuid s \<longleftrightarrow> distinct (map pa_id (ps_assignments s)) \<and>
     (\<forall>a\<in>set (ps_assignments s). \<exists>n<ps_drawn s. pa_id a = uuid n) \<and>
     distinct (map episode_key (active_episodes s)) \<and> (\<forall>a\<in>set (ps_assignments s). revocation_shape a) \<and>
     distinct (map receipt_key (ps_events s)) \<and>
     (\<forall>e\<in>set (ps_events s). \<exists>a\<in>set (ps_assignments s). pa_organizationId a = pe_organizationId e \<and>
        pa_id a = pe_assignmentId e)"

text \<open>What may become of an episode: it may be revoked once, then it is frozen.\<close>

definition episode_future :: "ExamProctorAssignment \<Rightarrow> ExamProctorAssignment \<Rightarrow> bool" where
  "episode_future a b \<longleftrightarrow> pa_id b = pa_id a \<and> episode_key b = episode_key a \<and> pa_assignedBy b = pa_assignedBy a \<and>
     pa_assignedAt b = pa_assignedAt a \<and> pa_createdAt b = pa_createdAt a \<and>
     (pa_status a = EpisodeRevoked \<longrightarrow> b = a)"

definition proctor_history :: "proctor_store \<Rightarrow> proctor_store \<Rightarrow> bool" where
  "proctor_history s t \<longleftrightarrow> (\<forall>n<length (ps_assignments s). n < length (ps_assignments t) \<and>
       episode_future (ps_assignments s ! n) (ps_assignments t ! n)) \<and>
     prefix (ps_events s) (ps_events t) \<and> prefix (ps_audit s) (ps_audit t)"

lemma run_change:
  assumes "run_proctor num dates uuid ctx req env s = Inr (r, s')" "proctor_inv uuid s"
  shows "proctor_change uuid s s'"
proof -
  obtain le lu now where env: "env = (le, lu, now)" by (cases env)
  have ids: "distinct (map pa_id (ps_assignments s))" using assms(2) by (simp add: proctor_inv_def)
  show ?thesis
  proof (cases req)
    case (Assign op x p raw)
    have "assignProctorToExam num dates uuid ctx op x p raw (le, lu, now) s = Inr (r, s')"
      using assms(1) by (simp add: env Assign)
    then show ?thesis
    proof (cases rule: assign_cases)
      case (kept reason a)
      then show ?thesis using find_active_D [OF kept(4)]
        by (intro proctor_change.kept [of s' s ctx a]) (auto simp: receipted_def receipt_row_def episode_of_def)
    next
      case (opened reason a)
      then show ?thesis
        by (intro proctor_change.opened [of s' s ctx x p now]) (auto simp: receipted_def receipt_row_def new_episode_def)
    qed (simp add: proctor_change.replayed)
  next
    case (Revoke op x p raw)
    have "revokeProctorFromExam num dates uuid ctx op x p raw now s = Inr (r, s')"
      using assms(1) by (simp add: env Revoke)
    then show ?thesis using ids
    proof (cases rule: revoke_cases)
      case (kept reason a)
      then show ?thesis using resolve_target_D [OF kept(3)]
        by (intro proctor_change.kept [of s' s ctx a]) (auto simp: receipted_def receipt_row_def episode_of_def)
    next
      case (closed reason a)
      then show ?thesis
        by (intro proctor_change.closed [of s' ctx a now s x p]) (auto simp: receipted_def receipt_row_def)
    qed (simp add: proctor_change.replayed)
  qed
qed

lemma receipted_inv:
  assumes "receipted ctx k s s'" "proctor_inv uuid s"
    and "\<exists>a\<in>set (ps_assignments s'). pa_organizationId a = rx_organizationId ctx \<and> pa_id a = k"
    and "\<forall>a\<in>set (ps_assignments s). \<exists>b\<in>set (ps_assignments s'). pa_organizationId b = pa_organizationId a \<and> pa_id b = pa_id a"
  shows "distinct (map receipt_key (ps_events s')) \<and> (\<forall>e\<in>set (ps_events s'). \<exists>a\<in>set (ps_assignments s').
    pa_organizationId a = pe_organizationId e \<and> pa_id a = pe_assignmentId e)"
proof -
  obtain e where e: "ps_events s' = ps_events s @ [e]" "pe_organizationId e = rx_organizationId ctx"
      "pe_assignmentId e = k" "find_receipt ctx (pe_operationId e) s = None"
    using assms(1) by (auto simp: receipted_def)
  have "receipt_key e \<notin> receipt_key ` set (ps_events s)"
    using e(2,4) by (auto simp: find_receipt_def find_None_iff receipt_key_def)
  then show ?thesis using assms(2-4) e by (auto simp: proctor_inv_def) (metis assms(4))
qed

lemma episode_key_of: "episode_of ctx x p a \<longleftrightarrow> episode_key a = (rx_organizationId ctx, x, p)"
  by (simp add: episode_of_def episode_key_def)

lemma revoke_rows_simps [simp]:
  "map pa_id (revoke_rows ctx k now rows) = map pa_id rows" "map episode_key (revoke_rows ctx k now rows) = map episode_key rows"
  by (induction rows) (auto simp: revoke_rows_def revoked_row_def episode_key_def)

lemma active_revoke_rows:
  "filter (\<lambda>a. pa_status a = EpisodeActive) (revoke_rows ctx k now rows) =
     filter (\<lambda>a. pa_status a = EpisodeActive \<and> \<not> (pa_organizationId a = rx_organizationId ctx \<and> pa_id a = k)) rows"
  by (induction rows) (auto simp: revoke_rows_def revoked_row_def)

text \<open>The part of the invariant that speaks about the episodes.\<close>

definition episodes_ok :: "id_supply \<Rightarrow> nat \<Rightarrow> ExamProctorAssignment list \<Rightarrow> bool" where
  "episodes_ok uuid n rows \<longleftrightarrow> distinct (map pa_id rows) \<and> (\<forall>a\<in>set rows. \<exists>k<n. pa_id a = uuid k) \<and>
     distinct (map episode_key (filter (\<lambda>a. pa_status a = EpisodeActive) rows)) \<and> (\<forall>a\<in>set rows. revocation_shape a)"

lemma proctor_inv_split:
  "proctor_inv uuid s \<longleftrightarrow> episodes_ok uuid (ps_drawn s) (ps_assignments s) \<and> distinct (map receipt_key (ps_events s)) \<and>
     (\<forall>e\<in>set (ps_events s). \<exists>a\<in>set (ps_assignments s). pa_organizationId a = pe_organizationId e \<and>
        pa_id a = pe_assignmentId e)"
  by (auto simp: proctor_inv_def episodes_ok_def active_episodes_def)

lemma episodes_ok_mono: "episodes_ok uuid n rows \<Longrightarrow> n \<le> m \<Longrightarrow> episodes_ok uuid m rows"
  unfolding episodes_ok_def using less_le_trans by blast

lemma episodes_ok_append:
  assumes "episodes_ok uuid n rows" "inj uuid" "n < m" "pa_id a = uuid n" "revocation_shape a"
    and "episode_key a \<notin> episode_key ` set (filter (\<lambda>a. pa_status a = EpisodeActive) rows)"
  shows "episodes_ok uuid m (rows @ [a])"
proof -
  have "pa_id a \<notin> pa_id ` set rows" using assms(1,2,4) by (auto simp: episodes_ok_def inj_eq)
  then show ?thesis using episodes_ok_mono [OF assms(1), of m] assms(3-6) by (auto simp: episodes_ok_def)
qed

lemma revoke_rows_in: "b \<in> set (revoke_rows ctx k now rows) \<Longrightarrow> \<exists>a\<in>set rows. b = a \<or> b = revoked_row ctx now a"
  by (auto simp: revoke_rows_def split: if_splits)

lemma revoke_rows_keeps:
  assumes "b \<in> set rows"
  shows "\<exists>c\<in>set (revoke_rows ctx k now rows). pa_organizationId c = pa_organizationId b \<and> pa_id c = pa_id b"
proof
  let ?f = "\<lambda>a. if pa_organizationId a = rx_organizationId ctx \<and> pa_id a = k then revoked_row ctx now a else a"
  show "?f b \<in> set (revoke_rows ctx k now rows)"
    unfolding revoke_rows_def set_map using assms by (rule imageI)
  show "pa_organizationId (?f b) = pa_organizationId b \<and> pa_id (?f b) = pa_id b" by (simp add: revoked_row_def)
qed

lemma episodes_ok_revoke:
  assumes "episodes_ok uuid n rows"
  shows "episodes_ok uuid n (revoke_rows ctx k now rows)"
proof -
  have "distinct (map episode_key (filter (\<lambda>a. pa_status a = EpisodeActive \<and>
      \<not> (pa_organizationId a = rx_organizationId ctx \<and> pa_id a = k)) rows))"
    using assms by (intro distinct_map_filter [of episode_key "filter (\<lambda>a. pa_status a = EpisodeActive) rows", unfolded filter_filter])
      (simp add: episodes_ok_def)
  moreover have "\<forall>b\<in>set (revoke_rows ctx k now rows). (\<exists>k<n. pa_id b = uuid k) \<and> revocation_shape b"
    using assms by (auto simp: episodes_ok_def revocation_shape_def revoked_row_def dest!: revoke_rows_in)
  ultimately show ?thesis using assms by (simp add: episodes_ok_def active_revoke_rows)
qed

lemma proctor_change_inv:
  assumes "proctor_change uuid s s'" "proctor_inv uuid s" "inj uuid"
  shows "proctor_inv uuid s'"
  using assms(1)
proof cases
  case (kept ctx a)
  have "ps_drawn s \<le> ps_drawn s'" using kept(2) by (simp add: receipted_def)
  then have "episodes_ok uuid (ps_drawn s') (ps_assignments s')"
    using assms(2) kept(1) episodes_ok_mono [of uuid "ps_drawn s" "ps_assignments s" "ps_drawn s'"] by (simp add: proctor_inv_split)
  moreover have "\<exists>b\<in>set (ps_assignments s'). pa_organizationId b = rx_organizationId ctx \<and> pa_id b = pa_id a"
    using kept(1,3,4) by auto
  moreover have "\<forall>b\<in>set (ps_assignments s). \<exists>c\<in>set (ps_assignments s'). pa_organizationId c = pa_organizationId b \<and> pa_id c = pa_id b"
    by (auto simp: kept(1))
  ultimately show ?thesis using receipted_inv [OF kept(2) assms(2)] unfolding proctor_inv_split by blast
next
  case (opened ctx x p now)
  let ?a = "new_episode ctx x p now (uuid (ps_drawn s))"
  have "episode_key ?a \<notin> episode_key ` set (filter (\<lambda>a. pa_status a = EpisodeActive) (ps_assignments s))"
    using opened(3) by (auto simp: find_active_None_iff new_episode_def episode_key_def episode_of_def)
  moreover have "pa_id ?a = uuid (ps_drawn s)" "pa_organizationId ?a = rx_organizationId ctx" "revocation_shape ?a"
    by (simp_all add: new_episode_def revocation_shape_def)
  moreover have "ps_drawn s < ps_drawn s'" using opened(2) by (simp add: receipted_def)
  ultimately have "episodes_ok uuid (ps_drawn s') (ps_assignments s')"
    unfolding opened(1) using assms(2,3) by (intro episodes_ok_append) (auto simp: proctor_inv_split)
  moreover have "\<exists>b\<in>set (ps_assignments s'). pa_organizationId b = rx_organizationId ctx \<and> pa_id b = uuid (ps_drawn s)"
    by (simp add: opened(1) new_episode_def)
  moreover have "\<forall>b\<in>set (ps_assignments s). \<exists>c\<in>set (ps_assignments s'). pa_organizationId c = pa_organizationId b \<and> pa_id c = pa_id b"
    by (auto simp: opened(1))
  ultimately show ?thesis using receipted_inv [OF opened(2) assms(2)] unfolding proctor_inv_split by blast
next
  case (closed ctx a now x p)
  have a: "a \<in> set (ps_assignments s)" "pa_organizationId a = rx_organizationId ctx"
    using find_active_D [OF closed(3)] by (auto simp: episode_of_def)
  have keeps: "\<exists>c\<in>set (ps_assignments s'). pa_organizationId c = pa_organizationId b \<and> pa_id c = pa_id b"
    if "b \<in> set (ps_assignments s)" for b
    unfolding closed(1) using that by (rule revoke_rows_keeps)
  have "ps_drawn s \<le> ps_drawn s'" using closed(2) by (simp add: receipted_def)
  then have "episodes_ok uuid (ps_drawn s') (ps_assignments s')"
    unfolding closed(1) using assms(2)
    by (intro episodes_ok_revoke episodes_ok_mono [of uuid "ps_drawn s" _ "ps_drawn s'"]) (simp_all add: proctor_inv_split)
  moreover have "\<exists>b\<in>set (ps_assignments s'). pa_organizationId b = rx_organizationId ctx \<and> pa_id b = pa_id a"
    using keeps [OF a(1)] a(2) by simp
  ultimately show ?thesis using receipted_inv [OF closed(2) assms(2)] keeps unfolding proctor_inv_split by blast
qed (use assms(2) in simp)

section \<open>History\<close>

lemma episode_future_refl [simp]: "episode_future a a"
  by (simp add: episode_future_def)

lemma episode_future_trans: "episode_future a b \<Longrightarrow> episode_future b c \<Longrightarrow> episode_future a c"
  by (auto simp: episode_future_def)

lemma proctor_history_refl [simp]: "proctor_history s s"
  by (simp add: proctor_history_def)

lemma proctor_history_trans:
  assumes "proctor_history s t" "proctor_history t u"
  shows "proctor_history s u"
  using assms unfolding proctor_history_def by (meson episode_future_trans prefix_order.trans)

lemma receipted_history: "receipted ctx k s s' \<Longrightarrow> prefix (ps_events s) (ps_events s') \<and> prefix (ps_audit s) (ps_audit s')"
  by (auto simp: receipted_def)

lemma episode_unique:
  "distinct (map pa_id rows) \<Longrightarrow> a \<in> set rows \<Longrightarrow> b \<in> set rows \<Longrightarrow> pa_id a = pa_id b \<Longrightarrow> a = b"
  by (auto simp: distinct_map dest: inj_onD)

lemma proctor_change_history:
  assumes "proctor_change uuid s s'" "proctor_inv uuid s"
  shows "proctor_history s s'"
  using assms(1)
proof cases
  case (kept ctx a)
  then show ?thesis using receipted_history [OF kept(2)] by (simp add: proctor_history_def)
next
  case (opened ctx x p now)
  then show ?thesis using receipted_history [OF opened(2)] by (simp add: proctor_history_def nth_append)
next
  case (closed ctx a now x p)
  have a: "a \<in> set (ps_assignments s)" "pa_status a = EpisodeActive" using find_active_D [OF closed(3)] by auto
  have ids: "distinct (map pa_id (ps_assignments s))" using assms(2) by (simp add: proctor_inv_def)
  have "episode_future b (if pa_organizationId b = rx_organizationId ctx \<and> pa_id b = pa_id a then revoked_row ctx now b else b)"
    if "b \<in> set (ps_assignments s)" for b
    using episode_unique [OF ids that a(1)] a(2) by (auto simp: episode_future_def revoked_row_def episode_key_def)
  then show ?thesis using receipted_history [OF closed(2)] by (simp add: proctor_history_def closed(1) revoke_rows_def)
qed simp

lemma proctor_reachable:
  assumes "(proctor_step num dates uuid)\<^sup>*\<^sup>* s s'" "proctor_inv uuid s" "inj uuid"
  shows "proctor_inv uuid s' \<and> proctor_history s s'"
  using assms
proof (induction rule: rtranclp_induct)
  case (step t u)
  then have inv: "proctor_inv uuid t" and h: "proctor_history s t" by simp_all
  have "proctor_change uuid t u" using step(2) inv by (auto elim!: proctor_step.cases intro: run_change)
  then show ?case
    using proctor_change_inv [OF _ inv step.prems(2)] proctor_change_history [OF _ inv] proctor_history_trans [OF h] by blast
qed simp

text \<open>C19: The assignment tables stay consistent and their history is append-only. From a consistent store, whatever
  sequence of assignments and revocations runs for whatever actors and organizations, no proctor ever has two active
  episodes on one exam, every revoked episode records when and by whom and is never changed again, every episode keeps
  its identity, no operation has two receipts, every receipt points to an episode of its organization, and receipts
  and audit records are only appended.\<close>

theorem proctor_episodes_consistent:
  assumes "(proctor_step num dates uuid)\<^sup>*\<^sup>* s s'" "proctor_inv uuid s" "inj uuid"
  shows "proctor_inv uuid s' \<and> proctor_history s s'"
  using assms by (rule proctor_reachable)

section \<open>The authority a command grants\<close>

fun request_key :: "ProctorRequest \<Rightarrow> ident \<times> ident" where
  "request_key (Assign op x p raw) = (x, p)"
| "request_key (Revoke op x p raw) = (x, p)"

fun grants :: "ProctorRequest \<Rightarrow> bool" where
  "grants (Assign op x p raw) = True"
| "grants (Revoke op x p raw) = False"

lemma has_active_iff:
  "hasActiveAssignment ctx x p s \<longleftrightarrow>
     (\<exists>a\<in>set (ps_assignments s). episode_key a = (rx_organizationId ctx, x, p) \<and> pa_status a = EpisodeActive)"
  by (auto simp: hasActiveAssignment_def find_active_None_iff episode_key_of)

lemma has_active_append:
  "ps_assignments s' = ps_assignments s @ [new_episode ctx x p now i] \<Longrightarrow>
     hasActiveAssignment c y q s' \<longleftrightarrow> hasActiveAssignment c y q s \<or> (rx_organizationId c, y, q) = (rx_organizationId ctx, x, p)"
  by (auto simp: has_active_iff new_episode_def episode_key_def)

lemma has_active_revoke:
  assumes "ps_assignments s' = revoke_rows ctx (pa_id a) now (ps_assignments s)"
    and "findActiveByExamAndProctor ctx x p s = Some a" "proctor_inv uuid s"
  shows "hasActiveAssignment c y q s' \<longleftrightarrow> hasActiveAssignment c y q s \<and> (rx_organizationId c, y, q) \<noteq> (rx_organizationId ctx, x, p)"
proof -
  note a = find_active_D [OF assms(2)]
  have ids: "distinct (map pa_id (ps_assignments s))" and act: "distinct (map episode_key (active_episodes s))"
    using assms(3) by (simp_all add: proctor_inv_def)
  have one: "b = a" if "b \<in> set (active_episodes s)" "episode_key b = episode_key a" for b
    using act that a by (auto simp: active_episodes_def distinct_map dest: inj_onD)
  have "set (filter (\<lambda>a. pa_status a = EpisodeActive) (ps_assignments s')) = set (active_episodes s) - {a}"
    using a episode_unique [OF ids] unfolding assms(1) active_revoke_rows
    by (auto simp: active_episodes_def episode_of_def)
  then have "hasActiveAssignment c y q s' \<longleftrightarrow> (\<exists>b\<in>set (active_episodes s) - {a}. episode_key b = (rx_organizationId c, y, q))"
    unfolding has_active_iff by (metis (mono_tags, lifting) mem_Collect_eq set_filter)
  also have "\<dots> \<longleftrightarrow> (\<exists>b\<in>set (active_episodes s). episode_key b = (rx_organizationId c, y, q)) \<and>
      episode_key a \<noteq> (rx_organizationId c, y, q)"
    using one by (metis Diff_iff singleton_iff)
  finally show ?thesis using a by (auto simp: has_active_iff active_episodes_def episode_key_of)
qed

fun request_operation :: "ProctorRequest \<Rightarrow> ident" where
  "request_operation (Assign op x p raw) = op"
| "request_operation (Revoke op x p raw) = op"

definition leaves_receipt ::
  "RequestContext \<Rightarrow> ProctorRequest \<Rightarrow> proctor_store \<Rightarrow> ProctorCommandResult \<Rightarrow> proctor_store \<Rightarrow> bool" where
  "leaves_receipt ctx req s r s' \<longleftrightarrow> (\<exists>e. ps_events s' = ps_events s @ [e] \<and> pe_organizationId e = rx_organizationId ctx \<and>
     pe_operationId e = request_operation req \<and> pe_assignmentId e = pa_id (pr_assignment r) \<and>
     (pe_outcome e = ReceiptApplied \<longleftrightarrow> pr_outcome r = AssignmentApplied))"

lemma run_effect:
  assumes "run_proctor num dates uuid ctx req env s = Inr (r, s')" "pr_outcome r \<noteq> AssignmentReplayed" "proctor_inv uuid s"
  shows "(\<forall>c y q. hasActiveAssignment c y q s' \<longleftrightarrow>
      (if (rx_organizationId c, y, q) = (rx_organizationId ctx, request_key req) then grants req
       else hasActiveAssignment c y q s)) \<and>
    (pr_outcome r = AssignmentApplied \<longleftrightarrow> hasActiveAssignment ctx (fst (request_key req)) (snd (request_key req)) s \<noteq> grants req) \<and>
    episode_key (pr_assignment r) = (rx_organizationId ctx, request_key req) \<and> leaves_receipt ctx req s r s'"
proof -
  obtain le lu now where env: "env = (le, lu, now)" by (cases env)
  have ids: "distinct (map pa_id (ps_assignments s))" using assms(3) by (simp add: proctor_inv_def)
  have same: "ps_assignments s' = ps_assignments s \<Longrightarrow> hasActiveAssignment c y q s' = hasActiveAssignment c y q s" for c y q
    by (simp add: has_active_iff)
  show ?thesis
  proof (cases req)
    case (Assign op x p raw)
    have "assignProctorToExam num dates uuid ctx op x p raw (le, lu, now) s = Inr (r, s')"
      using assms(1) by (simp add: env Assign)
    then show ?thesis
    proof (cases rule: assign_cases)
      case (kept reason a)
      note a = find_active_D [OF kept(4)]
      then have "hasActiveAssignment ctx x p s" using kept(4) by (simp add: hasActiveAssignment_def)
      then show ?thesis using same a
        by (auto simp: kept(5,6) Assign episode_key_of leaves_receipt_def receipt_row_def has_active_iff)
    next
      case (opened reason a)
      have none: "\<not> hasActiveAssignment ctx x p s" using opened(4) by (simp add: hasActiveAssignment_def)
      have rows: "ps_assignments s' = ps_assignments s @ [new_episode ctx x p now (uuid (ps_drawn s))]"
        by (simp add: opened(5,7))
      have "leaves_receipt ctx req s r s'" by (simp add: leaves_receipt_def opened(6,7) Assign)
      then show ?thesis using none has_active_append [OF rows] by (auto simp: opened(5,6) Assign)
    qed (use assms(2) in simp)
  next
    case (Revoke op x p raw)
    have "revokeProctorFromExam num dates uuid ctx op x p raw now s = Inr (r, s')"
      using assms(1) by (simp add: env Revoke)
    then show ?thesis using ids
    proof (cases rule: revoke_cases)
      case (kept reason a)
      have "\<not> hasActiveAssignment ctx x p s" "episode_key a = (rx_organizationId ctx, x, p)"
        using resolve_target_D [OF kept(3)] kept(4) by (simp_all add: hasActiveAssignment_def episode_key_of)
      then show ?thesis using same
        by (auto simp: kept(5,6) Revoke leaves_receipt_def receipt_row_def has_active_iff)
    next
      case (closed reason a)
      have rows: "ps_assignments s' = revoke_rows ctx (pa_id a) now (ps_assignments s)" by (simp add: closed(5))
      have "hasActiveAssignment ctx x p s" "episode_key a = (rx_organizationId ctx, x, p)"
        using find_active_D [OF closed(3)] closed(3) by (simp_all add: hasActiveAssignment_def episode_key_of)
      moreover have "leaves_receipt ctx req s r s'" by (simp add: leaves_receipt_def closed(4,5) Revoke)
      ultimately show ?thesis using has_active_revoke [OF rows closed(3) assms(3)] by (auto simp: closed(4) Revoke)
    qed (use assms(2) in simp)
  qed
qed

text \<open>C20: A command grants or withdraws exactly the authority it names. A command that is no replay leaves the proctor
  with an active assignment on the exam exactly when it assigns, reports a change exactly when it made one, leaves every
  other organization, exam and proctor as it was, answers with an episode of the pair it names, and leaves one receipt
  under its operation.\<close>

theorem assignment_effect:
  assumes "run_proctor num dates uuid ctx req env s = Inr (r, s')" "pr_outcome r \<noteq> AssignmentReplayed" "proctor_inv uuid s"
  shows "(\<forall>c y q. hasActiveAssignment c y q s' \<longleftrightarrow>
      (if (rx_organizationId c, y, q) = (rx_organizationId ctx, request_key req) then grants req
       else hasActiveAssignment c y q s)) \<and>
    (pr_outcome r = AssignmentApplied \<longleftrightarrow> hasActiveAssignment ctx (fst (request_key req)) (snd (request_key req)) s \<noteq> grants req) \<and>
    episode_key (pr_assignment r) = (rx_organizationId ctx, request_key req) \<and> leaves_receipt ctx req s r s'"
  by (rule run_effect [OF assms])

section \<open>Replay\<close>

lemma find_assignment_of:
  assumes "a \<in> set (ps_assignments s)" "pa_organizationId a = rx_organizationId ctx" "distinct (map pa_id (ps_assignments s))"
  shows "find_assignment ctx (pa_id a) s = Some a"
proof (cases "find_assignment ctx (pa_id a) s")
  case None
  then show ?thesis using assms(1,2) by (auto simp: find_assignment_def find_None_iff)
next
  case (Some b)
  then show ?thesis using find_assignment_id [OF Some] episode_unique [OF assms(3) _ assms(1), of b] by simp
qed

text \<open>An assignment command identified by its \<^verbatim>\<open>operationId\<close>: whatever it is run with, it first looks for its own
  receipt, and its body leaves that receipt behind.\<close>

definition receipt_stands ::
  "(jsnum \<Rightarrow> string) \<Rightarrow> RequestContext \<Rightarrow> ident \<Rightarrow> string \<Rightarrow> json \<Rightarrow> ProctorCommandResult \<Rightarrow> proctor_store \<Rightarrow> bool" where
  "receipt_stands num ctx op cmd payload r s \<longleftrightarrow> (\<exists>e. find_receipt ctx op s = Some e \<and> matching_receipt num e cmd payload \<and>
     pe_assignmentId e = pa_id (pr_assignment r) \<and> pr_assignment r \<in> set (ps_assignments s) \<and>
     pa_organizationId (pr_assignment r) = rx_organizationId ctx)"

locale assignment_operation =
  fixes num :: "jsnum \<Rightarrow> string" and uuid :: id_supply and ctx :: RequestContext and op :: ident and cmd :: string
    and run :: "'e \<Rightarrow> ProctorCommandResult proctor_cmd"
  assumes frame: "run env s = Inr (r, s') \<Longrightarrow> proctor_inv uuid s \<Longrightarrow> \<exists>payload.
    receipt_stands num ctx op cmd payload r s' \<and> (\<forall>env'. \<exists>body. run env' = with_receipt num ctx op cmd payload body)"
begin

lemma replays:
  assumes "run env s = Inr (r, s')" "proctor_inv uuid s" "proctor_history s' t" "proctor_inv uuid t"
  shows "\<exists>a. run env' t = Inr (\<lparr>pr_outcome = AssignmentReplayed, pr_assignment = a\<rparr>, t) \<and>
    episode_future (pr_assignment r) a"
proof -
  obtain payload body e where body: "run env' = with_receipt num ctx op cmd payload body"
    and e: "find_receipt ctx op s' = Some e" "matching_receipt num e cmd payload"
      "pe_assignmentId e = pa_id (pr_assignment r)" "pr_assignment r \<in> set (ps_assignments s')"
      "pa_organizationId (pr_assignment r) = rx_organizationId ctx"
    using frame [OF assms(1,2)] unfolding receipt_stands_def by blast
  obtain es where "ps_events t = ps_events s' @ es" using assms(3) by (auto simp: proctor_history_def prefix_def)
  then have et: "find_receipt ctx op t = Some e" using e(1) by (simp add: find_receipt_def find_append)
  obtain n where n: "n < length (ps_assignments s')" "ps_assignments s' ! n = pr_assignment r"
    using e(4) by (auto simp: in_set_conv_nth)
  let ?a = "ps_assignments t ! n"
  have a: "?a \<in> set (ps_assignments t)" "episode_future (pr_assignment r) ?a"
    using assms(3) n by (auto simp: proctor_history_def)
  then have "find_assignment ctx (pa_id (pr_assignment r)) t = Some ?a"
    using find_assignment_of [of ?a t ctx] assms(4) e(5) by (simp add: proctor_inv_def episode_future_def episode_key_def)
  then show ?thesis using a(2) e(2,3) et body
    by (auto simp: with_receipt_def replay_receipt_def bindC_def getsC_def someC_def returnC_def)
qed

end

lemma matching_own_receipt [simp]: "matching_receipt num (receipt_row ctx k cmd op payload oc now i) cmd payload"
  by (simp add: matching_receipt_def payloadsEqual_refl)

lemma find_own_receipt:
  assumes "find_receipt ctx op s = None" "ps_events s' = ps_events s @ [receipt_row ctx k cmd op payload oc now i]"
    and "k = pa_id (pr_assignment r)" "pr_assignment r \<in> set (ps_assignments s')"
    and "pa_organizationId (pr_assignment r) = rx_organizationId ctx"
  shows "receipt_stands num ctx op cmd payload r s'"
  using assms by (simp add: receipt_stands_def find_receipt_def find_append)

lemma assign_stands:
  assumes "assignProctorToExam num dates uuid ctx op x p raw (le, lu, now) s = Inr (r, s')"
    and "normalizeReasonCode num raw = Inr reason"
  shows "receipt_stands num ctx op COMMAND_ASSIGN (canonicalAssignmentPayload x p reason) r s'"
  using assms(1)
proof (cases rule: assign_cases)
  case (replay reason' e)
  then show ?thesis using find_assignment_id [OF replay(4)] assms(2) by (auto simp: receipt_stands_def)
next
  case (kept reason' a)
  then show ?thesis using find_active_D [OF kept(4)] assms(2)
    by (intro find_own_receipt [OF kept(2)]) (auto simp: episode_of_def)
next
  case (opened reason' a)
  then show ?thesis using assms(2) by (intro find_own_receipt [OF opened(2)]) auto
qed

interpretation assigned: assignment_operation num uuid ctx op COMMAND_ASSIGN "assignProctorToExam num dates uuid ctx op x p raw"
  for num uuid ctx op dates x p raw
proof (unfold_locales, clarify)
  fix le lu now s r s'
  assume run: "assignProctorToExam num dates uuid ctx op x p raw (le, lu, now) s = Inr (r, s')"
  then obtain reason where n: "normalizeReasonCode num raw = Inr reason" by (auto simp: assignProctorToExam_def cmd_iff)
  have "\<exists>body. assignProctorToExam num dates uuid ctx op x p raw env' =
      with_receipt num ctx op COMMAND_ASSIGN (canonicalAssignmentPayload x p reason) body" for env'
    unfolding assignProctorToExam_def n by (cases env') (auto simp: Let_def bindC_def liftC_def fun_eq_iff)
  with assign_stands [OF run n] show "\<exists>payload. receipt_stands num ctx op COMMAND_ASSIGN payload r s' \<and>
      (\<forall>env'. \<exists>body. assignProctorToExam num dates uuid ctx op x p raw env' = with_receipt num ctx op COMMAND_ASSIGN payload body)"
    by blast
qed

lemma revoke_stands:
  assumes "revokeProctorFromExam num dates uuid ctx op x p raw now s = Inr (r, s')" "distinct (map pa_id (ps_assignments s))"
    and "normalizeReasonCode num raw = Inr reason"
  shows "receipt_stands num ctx op COMMAND_REVOKE (canonicalAssignmentPayload x p reason) r s'"
  using assms(1,2)
proof (cases rule: revoke_cases)
  case (replay reason' e)
  then show ?thesis using find_assignment_id [OF replay(4)] assms(3) by (auto simp: receipt_stands_def)
next
  case (kept reason' a)
  then show ?thesis using resolve_target_D [OF kept(3)] assms(3)
    by (intro find_own_receipt [OF kept(2)]) (auto simp: episode_of_def)
next
  case (closed reason' a)
  then have "revoked_row ctx now a \<in> set (ps_assignments s')"
    using find_active_D [OF closed(3)] by (auto simp: revoke_rows_def episode_of_def image_iff)
  then show ?thesis using closed find_active_D [OF closed(3)] assms(3)
    by (intro find_own_receipt [OF closed(2)]) (auto simp: episode_of_def)
qed

interpretation revoked: assignment_operation num uuid ctx op COMMAND_REVOKE "revokeProctorFromExam num dates uuid ctx op x p raw"
  for num uuid ctx op dates x p raw
proof (unfold_locales)
  fix now s r s'
  assume run: "revokeProctorFromExam num dates uuid ctx op x p raw now s = Inr (r, s')" and inv: "proctor_inv uuid s"
  have ids: "distinct (map pa_id (ps_assignments s))" using inv by (simp add: proctor_inv_def)
  obtain reason where n: "normalizeReasonCode num raw = Inr reason" using run by (auto simp: revokeProctorFromExam_def cmd_iff)
  have "\<exists>body. revokeProctorFromExam num dates uuid ctx op x p raw env' =
      with_receipt num ctx op COMMAND_REVOKE (canonicalAssignmentPayload x p reason) body" for env'
    unfolding revokeProctorFromExam_def n by (auto simp: Let_def bindC_def liftC_def fun_eq_iff)
  with revoke_stands [OF run ids n] show "\<exists>payload. receipt_stands num ctx op COMMAND_REVOKE payload r s' \<and>
      (\<forall>env'. \<exists>body. revokeProctorFromExam num dates uuid ctx op x p raw env' = with_receipt num ctx op COMMAND_REVOKE payload body)"
    by blast
qed

text \<open>C21: Repeating an assignment command answers the original episode. After a successful assignment or revocation,
  and after any further commands of anybody, the same request with the same operation id at whatever time answers
  as a replay the very episode of the first answer, never a later one, and changes nothing.\<close>

theorem assignment_command_replays:
  assumes "run_proctor num dates uuid ctx req env s = Inr (r, s')" "proctor_inv uuid s" "inj uuid"
    and "(proctor_step num dates uuid)\<^sup>*\<^sup>* s' t"
  shows "\<exists>a. run_proctor num dates uuid ctx req env' t = Inr (\<lparr>pr_outcome = AssignmentReplayed, pr_assignment = a\<rparr>, t) \<and>
    episode_future (pr_assignment r) a"
proof -
  have inv: "proctor_inv uuid s'" using run_change [OF assms(1,2)] proctor_change_inv assms(2,3) by blast
  have t: "proctor_inv uuid t" "proctor_history s' t" using proctor_reachable [OF assms(4) inv assms(3)] by blast+
  show ?thesis
  proof (cases req)
    case (Assign op x p raw)
    then show ?thesis using assigned.replays [OF _ assms(2) t(2,1)] assms(1) by simp
  next
    case (Revoke op x p raw)
    obtain le lu now le' lu' now' where "env = (le, lu, now)" "env' = (le', lu', now')" by (metis prod_cases3)
    then show ?thesis using revoked.replays [OF _ assms(2) t(2,1)] assms(1) by (simp add: Revoke)
  qed
qed

section \<open>Pagination\<close>

definition page_key :: "ExamProctorAssignment \<Rightarrow> time \<times> ident" where
  "page_key a = (pa_createdAt a, pa_id a)"

definition exam_rows ::
  "RequestContext \<Rightarrow> ident \<Rightarrow> AssignmentStatusFilter \<Rightarrow> AssignmentCursor option \<Rightarrow> proctor_store \<Rightarrow> ExamProctorAssignment list" where
  "exam_rows ctx x st cursor s = filter (\<lambda>a. pa_organizationId a = rx_organizationId ctx \<and> pa_examId a = x \<and>
     passes_filter st a \<and> after_cursor cursor a) (ps_assignments s)"

lemma list_page: "listExamProctors ctx x st limit cursor s =
    (let rows = sort_key page_key (exam_rows ctx x st cursor s); items = take limit rows
     in (items, if length rows > limit \<and> items \<noteq> []
                then Some \<lparr>ac_createdAt = pa_createdAt (last items), ac_id = pa_id (last items)\<rparr> else None))"
  by (auto simp: listExamProctors_def exam_rows_def page_key_def [abs_def] Let_def min_def)

lemma after_cursor_key: "after_cursor (Some c) a \<longleftrightarrow> page_key a > (ac_createdAt c, ac_id c)"
  by (auto simp: after_cursor_def page_key_def)

definition cursor_of :: "ExamProctorAssignment \<Rightarrow> AssignmentCursor" where
  "cursor_of a = \<lparr>ac_createdAt = pa_createdAt a, ac_id = pa_id a\<rparr>"

lemma after_cursor_of: "after_cursor (Some (cursor_of a)) b \<longleftrightarrow> page_key a < page_key b"
  by (auto simp: after_cursor_key cursor_of_def page_key_def)

lemma exam_rows_next:
  assumes "a \<in> set (exam_rows ctx x st cursor s)"
  shows "exam_rows ctx x st (Some (cursor_of a)) s = filter (\<lambda>b. page_key a < page_key b) (exam_rows ctx x st cursor s)"
proof -
  have "after_cursor cursor a" using assms by (simp add: exam_rows_def)
  then have "after_cursor cursor b" if "page_key a < page_key b" for b
    using that less_trans by (cases cursor) (auto simp only: after_cursor_key, simp add: after_cursor_def)
  then show ?thesis unfolding exam_rows_def filter_filter after_cursor_of by (intro filter_cong refl) blast
qed

lemma next_page:
  assumes "listExamProctors ctx x st limit cursor s = (items, Some c)"
  obtains "items = take limit (sort_key page_key (exam_rows ctx x st cursor s))" "items \<noteq> []"
    "limit < length (exam_rows ctx x st cursor s)" "c = cursor_of (last items)" "last items \<in> set (exam_rows ctx x st cursor s)"
proof -
  have items: "items = take limit (sort_key page_key (exam_rows ctx x st cursor s))" "items \<noteq> []"
      "limit < length (exam_rows ctx x st cursor s)" "c = cursor_of (last items)"
    using assms by (auto simp: list_page cursor_of_def Let_def split: if_splits)
  have "last items \<in> set items" using items(2) by simp
  then have "last items \<in> set (exam_rows ctx x st cursor s)" unfolding items(1) using in_set_takeD by fastforce
  with items show ?thesis by (rule that)
qed

lemma next_page_fewer:
  assumes "listExamProctors ctx x st limit cursor s = (items, Some c)"
  shows "length (exam_rows ctx x st (Some c) s) < length (exam_rows ctx x st cursor s)"
  using assms
proof (cases rule: next_page)
  case 1
  then show ?thesis by (simp add: exam_rows_next length_filter_less)
qed

text \<open>A client that follows the cursors until there is none.\<close>

function assignment_pages ::
  "RequestContext \<Rightarrow> ident \<Rightarrow> AssignmentStatusFilter \<Rightarrow> nat \<Rightarrow> AssignmentCursor option \<Rightarrow> proctor_store \<Rightarrow>
     ExamProctorAssignment list list" where
  "assignment_pages ctx x st limit cursor s =
     (case listExamProctors ctx x st limit cursor s of
        (items, None) \<Rightarrow> [items]
      | (items, Some c) \<Rightarrow> items # assignment_pages ctx x st limit (Some c) s)"
  by pat_completeness auto
termination
  by (relation "measure (\<lambda>(ctx, x, st, limit, cursor, s). length (exam_rows ctx x st cursor s))")
    (auto intro: next_page_fewer [OF sym])

declare assignment_pages.simps [simp del]

lemma filter_after_nth:
  assumes "sorted (map key xs)" "distinct (map key xs)" "0 < k" "k \<le> length xs"
  shows "filter (\<lambda>b. key (xs ! (k - 1)) < key b) xs = drop k xs"
proof -
  have less: "key (xs ! i) < key (xs ! j)" if "i < j" "j < length xs" for i j
    using sorted_wrt_nth_less [of "(<)" "map key xs" i j] that assms(1,2) by (simp add: strict_sorted_iff)
  have "filter (\<lambda>b. key (xs ! (k - 1)) < key b) (take k xs) = []"
    using sorted_nth_mono [OF assms(1), of _ "k - 1"] assms(3,4)
    by (auto simp: filter_empty_conv in_set_conv_nth not_less)
  moreover have "filter (\<lambda>b. key (xs ! (k - 1)) < key b) (drop k xs) = drop k xs"
    using less assms(3,4) by (auto simp: filter_id_conv in_set_conv_nth)
  ultimately have "filter (\<lambda>b. key (xs ! (k - 1)) < key b) (take k xs @ drop k xs) = drop k xs"
    by (simp only: filter_append append_Nil)
  then show ?thesis by simp
qed

text \<open>C22: Following the cursors lists every episode of an exam once. With a positive page size, reading the pages
  until there is no cursor ends, every page is within the size, and the pages together are all the episodes of the
  exam that pass the filter, in the order of their creation and without repetition.\<close>

theorem pages_list_every_episode:
  assumes "0 < limit" "proctor_inv uuid s"
  shows "concat (assignment_pages ctx x st limit cursor s) = sort_key page_key (exam_rows ctx x st cursor s) \<and>
    (\<forall>page\<in>set (assignment_pages ctx x st limit cursor s). length page \<le> limit)"
  using assms
proof (induction ctx x st limit cursor s rule: assignment_pages.induct)
  case (1 ctx x st limit cursor s)
  let ?rows = "sort_key page_key (exam_rows ctx x st cursor s)"
  obtain items after where page: "listExamProctors ctx x st limit cursor s = (items, after)" by (metis surj_pair)
  show ?case
  proof (cases after)
    case None
    then have "\<not> (limit < length ?rows \<and> take limit ?rows \<noteq> [])" "items = take limit ?rows"
      using page by (auto simp: list_page Let_def split: if_splits)
    moreover have "take limit ?rows = [] \<Longrightarrow> length ?rows = 0" using 1(2) by (simp only: take_eq_Nil) auto
    ultimately have "length ?rows \<le> limit" "items = take limit ?rows" by linarith+
    then have "items = ?rows" "length ?rows \<le> limit" by simp_all
    then show ?thesis using page None by (simp add: assignment_pages.simps [of ctx x st limit cursor s])
  next
    case (Some c)
    have "listExamProctors ctx x st limit cursor s = (items, Some c)" using page Some by simp
    then show ?thesis
    proof (cases rule: next_page)
      case items: 1
      have "distinct (map pa_id (exam_rows ctx x st cursor s))"
        using 1(3) by (auto simp: exam_rows_def proctor_inv_def distinct_map_filter)
      then have "distinct (map page_key (exam_rows ctx x st cursor s))"
        by (auto simp: distinct_map page_key_def inj_on_def)
      then have keys: "distinct (map page_key ?rows)" by (simp add: distinct_map)
      have last: "last items = ?rows ! (limit - 1)"
        using last_conv_nth [OF items(2)] items(3) 1(2) by (simp add: items(1) min_def)
      have "sort_key page_key (exam_rows ctx x st (Some c) s) = filter (\<lambda>b. page_key (last items) < page_key b) ?rows"
        by (simp add: items(4) exam_rows_next [OF items(5)] filter_sort)
      also have "\<dots> = drop limit ?rows"
        unfolding last using 1(2) items(3) keys by (intro filter_after_nth) simp_all
      finally have "sort_key page_key (exam_rows ctx x st (Some c) s) = drop limit ?rows" .
      then show ?thesis using 1(1) [OF page [symmetric] Some 1(2,3)] page Some items(1)
        by (simp add: assignment_pages.simps [of ctx x st limit cursor s])
    qed
  qed
qed

lemma js_split_clean: "d \<notin> set xs \<Longrightarrow> js_split d xs = [xs]"
  by (induction xs) auto

lemma js_split_two: "d \<notin> set xs \<Longrightarrow> d \<notin> set ys \<Longrightarrow> js_split d (xs @ d # ys) = [xs, ys]"
  by (induction xs) (auto simp: js_split_clean)

text \<open>A cursor survives its wire form. When dates print without the separator and read back, and the id is one of
  the store's, the parsed form of a printed cursor is the cursor.\<close>

lemma cursor_round_trip:
  assumes "dt_parse dates (dt_iso dates (ac_createdAt c)) = Some (ac_createdAt c)"
    and "CHR 0x7C \<notin> set (dt_iso dates (ac_createdAt c))" "CHR 0x7C \<notin> set (ac_id c)" "ac_id c \<noteq> []"
  shows "parseCursor dates (encodeCursor dates c) = Inr c"
  using assms by (simp add: parseCursor_def encodeCursor_def js_split_two)

section \<open>A sample history\<close>

definition admin_ctx :: RequestContext where
  "admin_ctx = \<lparr>rx_actorId = ''u1'', rx_organizationId = ''o1'', rx_role = ''Admin''\<rparr>"

definition unary_dates :: dates where
  "unary_dates = \<lparr>dt_parse = (\<lambda>s. Some (int (length s))), dt_iso = (\<lambda>t. replicate (nat t) CHR 0x54)\<rparr>"

definition row_uuid :: id_supply where
  "row_uuid n = CHR 0x61 # replicate n CHR 0x31"

definition no_assignments :: proctor_store where
  "no_assignments = \<lparr>ps_assignments = [], ps_events = [], ps_audit = [], ps_drawn = 0\<rparr>"

definition proctor_user :: ProctorUserRow where
  "proctor_user = \<lparr>pu_organizationId = ''o1'', pu_isActive = True, pu_hasActiveProctorRole = True\<rparr>"

definition at_time :: "time \<Rightarrow> proctor_env" where
  "at_time now = (\<lambda>x. if x = ''e1'' then Some ''o1'' else None, \<lambda>p. if p = ''u7'' then Some proctor_user else None, now)"

abbreviation run_sample :: "ProctorRequest \<Rightarrow> time \<Rightarrow> ProctorCommandResult proctor_cmd" where
  "run_sample req now \<equiv> run_proctor unary_num unary_dates row_uuid admin_ctx req (at_time now)"

definition first_assign :: ProctorRequest where "first_assign = Assign ''p1'' ''e1'' ''u7'' (Some '' late shift '')"
definition first_revoke :: ProctorRequest where "first_revoke = Revoke ''p2'' ''e1'' ''u7'' None"
definition second_assign :: ProctorRequest where "second_assign = Assign ''p3'' ''e1'' ''u7'' None"

definition after_assign :: proctor_store where "after_assign = snd (projr (run_sample first_assign 1 no_assignments))"
definition after_revoke :: proctor_store where "after_revoke = snd (projr (run_sample first_revoke 2 after_assign))"
definition after_second :: proctor_store where "after_second = snd (projr (run_sample second_assign 3 after_revoke))"

lemma row_uuid_inj: "inj row_uuid"
  by (auto simp: inj_def row_uuid_def)

lemma no_assignments_inv: "proctor_inv row_uuid no_assignments"
  by (simp add: proctor_inv_def no_assignments_def active_episodes_def)

lemma ran: "\<not> isl m \<Longrightarrow> s = snd (projr m) \<Longrightarrow> m = Inr (fst (projr m), s)"
  by (cases m) simp_all

lemma sample_runs:
  "run_sample first_assign 1 no_assignments = Inr (fst (projr (run_sample first_assign 1 no_assignments)), after_assign)"
  "run_sample first_revoke 2 after_assign = Inr (fst (projr (run_sample first_revoke 2 after_assign)), after_revoke)"
  "run_sample second_assign 3 after_revoke = Inr (fst (projr (run_sample second_assign 3 after_revoke)), after_second)"
  by (rule ran [OF _ after_assign_def], code_simp)
    (rule ran [OF _ after_revoke_def], code_simp, rule ran [OF _ after_second_def], code_simp)

lemma sample_proctor_steps:
  "(proctor_step unary_num unary_dates row_uuid)\<^sup>*\<^sup>* no_assignments after_assign"
  "(proctor_step unary_num unary_dates row_uuid)\<^sup>*\<^sup>* after_assign after_second"
  using sample_runs by (blast intro: proctor_step.run converse_rtranclp_into_rtranclp rtranclp.rtrancl_refl)+

lemma sample_proctor_inv: "proctor_inv row_uuid after_assign" "proctor_inv row_uuid after_second"
  using proctor_reachable [OF sample_proctor_steps(1) no_assignments_inv row_uuid_inj]
    proctor_reachable [OF sample_proctor_steps(2) _ row_uuid_inj] by blast+

lemma proctor_episodes_consistent_witness:
  "proctor_inv row_uuid after_second \<and> proctor_history no_assignments after_second"
  by (rule proctor_episodes_consistent [OF rtranclp_trans [OF sample_proctor_steps] no_assignments_inv row_uuid_inj])

lemma assignment_effect_witness:
  "hasActiveAssignment admin_ctx ''e1'' ''u7'' after_assign \<and> \<not> hasActiveAssignment admin_ctx ''e1'' ''u7'' after_revoke"
proof -
  have applied: "pr_outcome (fst (projr (run_sample first_revoke 2 after_assign))) = AssignmentApplied" by code_simp
  then have "pr_outcome (fst (projr (run_sample first_revoke 2 after_assign))) \<noteq> AssignmentReplayed" by simp
  note effect = assignment_effect [OF sample_runs(2) this sample_proctor_inv(1)]
  have "hasActiveAssignment admin_ctx ''e1'' ''u7'' after_assign"
    using effect [THEN conjunct2, THEN conjunct1] applied by (simp add: first_revoke_def)
  moreover have "\<not> hasActiveAssignment admin_ctx ''e1'' ''u7'' after_revoke"
    using effect [THEN conjunct1, rule_format, of admin_ctx "''e1''" "''u7''"] by (simp add: first_revoke_def)
  ultimately show ?thesis ..
qed

lemma assignment_command_replays_witness:
  "\<exists>a. run_sample first_assign 9 after_second = Inr (\<lparr>pr_outcome = AssignmentReplayed, pr_assignment = a\<rparr>, after_second) \<and>
     episode_future (pr_assignment (fst (projr (run_sample first_assign 1 no_assignments)))) a"
  by (rule assignment_command_replays [OF sample_runs(1) no_assignments_inv row_uuid_inj sample_proctor_steps(2)])

lemma pages_list_every_episode_witness:
  "concat (assignment_pages admin_ctx ''e1'' FilterAll 1 None after_second) =
     sort_key page_key (exam_rows admin_ctx ''e1'' FilterAll None after_second) \<and>
   length (exam_rows admin_ctx ''e1'' FilterAll None after_second) = 2"
  by (rule conjI, rule pages_list_every_episode [THEN conjunct1, OF zero_less_one sample_proctor_inv(2)], code_simp)

lemma cursor_round_trip_witness:
  "parseCursor unary_dates (encodeCursor unary_dates \<lparr>ac_createdAt = 5, ac_id = row_uuid 2\<rparr>) =
     Inr \<lparr>ac_createdAt = 5, ac_id = row_uuid 2\<rparr>"
  by (rule cursor_round_trip) (simp_all add: unary_dates_def row_uuid_def)

end
