(* ===== verification/Incident_Changes.thy ===== *)
theory Incident_Changes
  imports Incident_Commands
begin

text \<open>
  What an incident command may change: every command that succeeds is a replay, the creation of one incident, an
  annotation, or a version-bumping change of one row along the status machine. Also the recognition of
  constraint violations through cyclic chains of causes.
\<close>

section \<open>Chains of causes\<close>

inductive chain_match :: "err_heap \<Rightarrow> (err_object \<Rightarrow> bool) \<Rightarrow> err_value \<Rightarrow> bool" for heap hit where
  here: "map_of heap a = Some e \<Longrightarrow> hit e \<Longrightarrow> chain_match heap hit (Ref a)"
| there: "map_of heap a = Some e \<Longrightarrow> chain_match heap hit (case eo_cause e of None \<Rightarrow> Falsy | Some c \<Rightarrow> c) \<Longrightarrow>
    chain_match heap hit (Ref a)"

inductive_cases chain_match_Ref [elim]: "chain_match heap hit (Ref a)"
inductive_cases chain_match_other [elim!]: "chain_match heap hit Falsy" "chain_match heap hit NotAnObject"

text \<open>The addresses already seen hold no match, and each leads to one already seen or to the current value.\<close>

definition seen_ok :: "err_heap \<Rightarrow> (err_object \<Rightarrow> bool) \<Rightarrow> err_value \<Rightarrow> nat list \<Rightarrow> bool" where
  "seen_ok heap hit current visited \<longleftrightarrow> (\<forall>v\<in>set visited. \<forall>e. map_of heap v = Some e \<longrightarrow>
     \<not> hit e \<and>
     (let c = (case eo_cause e of None \<Rightarrow> Falsy | Some c \<Rightarrow> c) in c = current \<or> c \<in> Ref ` set visited))"

lemma no_match_seen:
  assumes "chain_match heap hit v" "seen_ok heap hit (Ref a) visited" "a \<in> set visited" "v \<in> Ref ` set visited"
  shows False
  using assms
proof (induction rule: chain_match.induct)
  case (there b e)
  then have "b \<in> set visited" by auto
  then have "(case eo_cause e of None \<Rightarrow> Falsy | Some c \<Rightarrow> c) \<in> Ref ` set visited"
    using there by (auto simp: seen_ok_def Let_def)
  with there show ?case by blast
qed (auto simp: seen_ok_def)

lemma cause_walk_iff:
  "seen_ok heap hit current visited \<Longrightarrow> cause_walk heap hit current visited \<longleftrightarrow> chain_match heap hit current"
proof (induction heap hit current visited rule: cause_walk.induct)
  case (3 heap hit a visited)
  show ?case
  proof (cases "a \<in> set visited")
    case True
    then show ?thesis using no_match_seen [OF _ "3.prems" True, of "Ref a"] by auto
  next
    case False
    show ?thesis
    proof (cases "map_of heap a")
      case (Some e)
      let ?c = "case eo_cause e of None \<Rightarrow> Falsy | Some c \<Rightarrow> c"
      show ?thesis
      proof (cases "hit e")
        case True
        then show ?thesis using Some False by (auto intro: chain_match.here)
      next
        case no: False
        have "seen_ok heap hit ?c (a # visited)"
          using "3.prems" Some no by (auto simp: seen_ok_def Let_def)
        with "3.IH" [OF False Some no] have "cause_walk heap hit ?c (a # visited) \<longleftrightarrow> chain_match heap hit ?c" by blast
        moreover have "chain_match heap hit (Ref a) \<longleftrightarrow> chain_match heap hit ?c"
          using Some no by (auto intro: chain_match.there)
        ultimately show ?thesis using Some no False by simp
      qed
    qed (use False in auto)
  qed
qed auto

lemma cause_walk_start: "cause_walk heap hit err [] \<longleftrightarrow> chain_match heap hit err"
  by (rule cause_walk_iff) (simp add: seen_ok_def)

text \<open>C30: Recognising a driver error terminates and is exact. Walking the chain of causes of an error always ends,
  also when the chain is cyclic, and finds the named unique violation, or the SQLSTATE code, exactly when some
  error on the chain carries it.\<close>

theorem constraint_violation_recognised:
  "(isConstraintViolation heap err name \<longleftrightarrow> chain_match heap (matches_constraint name) err) \<and>
   (hasPostgresErrorCode heap err code \<longleftrightarrow> chain_match heap (\<lambda>e. eo_code e = Some code) err)"
  by (simp add: isConstraintViolation_def hasPostgresErrorCode_def cause_walk_start)

lemma thrown_violation_iff: "thrown_violation (constraint_violation n) m \<longleftrightarrow> n = m"
  by (simp add: thrown_violation_def isConstraintViolation_def error_object_def constraint_violation_def
      matches_constraint_def)

section \<open>What a command may change\<close>

definition appends :: "incident_store \<Rightarrow> incident_store \<Rightarrow> bool" where
  "appends s s' \<longleftrightarrow> (\<exists>xs. is_actions s' = is_actions s @ xs) \<and> (\<exists>xs. is_attempts s' = is_attempts s @ xs) \<and>
     (\<exists>xs. is_links s' = is_links s @ xs) \<and> (\<exists>xs. is_audit s' = is_audit s @ xs) \<and> is_drawn s \<le> is_drawn s'"

definition upd_incident :: "RequestContext \<Rightarrow> ident \<Rightarrow> (ExamIncident \<Rightarrow> ExamIncident) \<Rightarrow> ExamIncident list \<Rightarrow> ExamIncident list" where
  "upd_incident ctx k f rows =
     map (\<lambda>i. if inc_organizationId i = rx_organizationId ctx \<and> inc_id i = k then f i else i) rows"

text \<open>Two rows of one incident: what no command changes.\<close>

definition same_incident :: "ExamIncident \<Rightarrow> ExamIncident \<Rightarrow> bool" where
  "same_incident i j \<longleftrightarrow> inc_id j = inc_id i \<and> inc_organizationId j = inc_organizationId i \<and>
     inc_examId j = inc_examId i \<and> inc_attemptId j = inc_attemptId i \<and>
     inc_candidateId j = inc_candidateId i \<and> inc_type j = inc_type i \<and>
     inc_occurredAt j = inc_occurredAt i \<and> inc_description j = inc_description i \<and>
     inc_reportedBy j = inc_reportedBy i \<and> inc_createdAt j = inc_createdAt i"

text \<open>The status machine of an incident: the abstract specification of the version-bumping commands.\<close>

inductive incident_moves :: "IncidentStatus \<Rightarrow> IncidentStatus \<Rightarrow> bool" where
  investigate: "incident_moves IncidentOpen Investigating"
| resolve: "\<not> terminal_status st \<Longrightarrow> incident_moves st Resolved"
| dismiss: "\<not> terminal_status st \<Longrightarrow> incident_moves st Dismissed"
| reclassify: "\<not> terminal_status st \<Longrightarrow> incident_moves st st"

text \<open>A version-bumping change of one incident row.\<close>

definition bumped :: "ExamIncident \<Rightarrow> ExamIncident \<Rightarrow> bool" where
  "bumped i j \<longleftrightarrow> same_incident i j \<and> inc_version j = inc_version i + 1 \<and>
     incident_moves (inc_status i) (inc_status j) \<and>
     (if terminal_status (inc_status j) then inc_resolvedAt j \<noteq> None \<and> inc_resolvedBy j \<noteq> None
      else inc_resolvedAt j = inc_resolvedAt i \<and> inc_resolvedBy j = inc_resolvedBy i)"

inductive incident_change :: "id_supply \<Rightarrow> incident_store \<Rightarrow> incident_store \<Rightarrow> bool" for uuid where
  replay: "incident_change uuid s s"
| create: "incident_change uuid s s'"
    if "is_incidents s' = is_incidents s @ [i]" "is_events s' = is_events s @ [e]" "appends s s'"
      "inc_id i = uuid (is_drawn s)" "is_drawn s < is_drawn s'" "inc_organizationId i = rx_organizationId ctx"
      "inc_status i = IncidentOpen" "inc_version i = 1" "inc_resolvedAt i = None" "inc_resolvedBy i = None"
      "xe_incidentId e = inc_id i" "xe_organizationId e = rx_organizationId ctx" "xe_beforeVersion e = 0"
      "xe_afterVersion e = 1" "findEventByOperationId ctx (xe_operationId e) s = None"
| annotate: "incident_change uuid s s'"
    if "is_incidents s' = is_incidents s" "is_events s' = is_events s @ [e]" "appends s s'"
      "find_incident ctx (xe_incidentId e) s = Some i" "xe_organizationId e = rx_organizationId ctx"
      "xe_beforeVersion e = inc_version i" "xe_afterVersion e = inc_version i"
      "findEventByOperationId ctx (xe_operationId e) s = None"
| bump: "incident_change uuid s s'"
    if "is_incidents s' = upd_incident ctx (xe_incidentId e) f (is_incidents s)" "is_events s' = is_events s @ [e]"
      "appends s s'" "find_incident ctx (xe_incidentId e) s = Some i" "bumped i (f i)"
      "xe_organizationId e = rx_organizationId ctx"
      "xe_beforeVersion e = inc_version i" "xe_afterVersion e = inc_version i + 1"
      "findEventByOperationId ctx (xe_operationId e) s = None"

section \<open>Reading the commands\<close>

lemma find_incident_id: "find_incident ctx k s = Some i \<Longrightarrow> inc_id i = k \<and> inc_organizationId i = rx_organizationId ctx \<and>
    i \<in> set (is_incidents s)"
  by (auto simp: find_incident_def find_Some_iff)

lemma draw_incident_iff [cmd_iff]:
  "draw_incident_id uuid s = Inr (i, s') \<longleftrightarrow> i = uuid (is_drawn s) \<and> s' = s\<lparr>is_drawn := Suc (is_drawn s)\<rparr>"
  "draw_incident_id uuid s = Inl e \<longleftrightarrow> False"
  by (auto simp: draw_incident_id_def cmd_iff)

lemma insert_incident_iff [cmd_iff]:
  "insert_incident uuid row s = Inr (i, s') \<longleftrightarrow> i = row (uuid (is_drawn s)) \<and>
     s' = s\<lparr>is_drawn := Suc (is_drawn s), is_incidents := is_incidents s @ [i]\<rparr>"
  by (auto simp: insert_incident_def cmd_iff)

lemma appendEvent_iff [cmd_iff]:
  "appendEvent uuid ctx row s = Inr (e, s') \<longleftrightarrow> e = row (uuid (is_drawn s)) \<and>
     findEventByOperationId ctx (xe_operationId e) s = None \<and>
     s' = s\<lparr>is_drawn := Suc (is_drawn s), is_events := is_events s @ [e]\<rparr>"
  by (auto simp: appendEvent_def cmd_iff findEventByOperationId_def)

lemma insertActionLink_iff [cmd_iff]:
  "insertActionLink uuid ctx row s = Inr (a, s') \<longleftrightarrow> a = row (uuid (is_drawn s)) \<and>
     findActionLinkByAction ctx (xa_actionType a) (xa_actionId a) s = None \<and>
     s' = s\<lparr>is_drawn := Suc (is_drawn s), is_actions := is_actions s @ [a]\<rparr>"
  by (auto simp: insertActionLink_def cmd_iff findActionLinkByAction_def)

lemma insertAttemptMembership_iff [cmd_iff]:
  "insertAttemptMembership uuid row s = Inr (a, s') \<longleftrightarrow> a = row (uuid (is_drawn s)) \<and>
     \<not> list_ex (\<lambda>m. xm_incidentId m = xm_incidentId a \<and> xm_attemptId m = xm_attemptId a) (is_attempts s) \<and>
     s' = s\<lparr>is_drawn := Suc (is_drawn s), is_attempts := is_attempts s @ [a]\<rparr>"
  by (auto simp: insertAttemptMembership_def cmd_iff)

lemma insertInterruptionLink_iff [cmd_iff]:
  "insertInterruptionLink uuid row s = Inr (a, s') \<longleftrightarrow> a = row (uuid (is_drawn s)) \<and>
     \<not> list_ex (\<lambda>m. xl_incidentId m = xl_incidentId a \<and> xl_interruptionId m = xl_interruptionId a) (is_links s) \<and>
     s' = s\<lparr>is_drawn := Suc (is_drawn s), is_links := is_links s @ [a]\<rparr>"
  by (auto simp: insertInterruptionLink_def cmd_iff)

lemma audit_iff [cmd_iff]:
  "audit a m s = Inr (u, s') \<longleftrightarrow> s' = s\<lparr>is_audit := is_audit s @ [(a, m)]\<rparr>" "audit a m s = Inl e \<longleftrightarrow> False"
  by (auto simp: audit_def cmd_iff)

lemma load_incident_iff [cmd_iff]:
  "load_incident ctx k s = Inr (i, s') \<longleftrightarrow> find_incident ctx k s = Some i \<and> s' = s"
  "load_incident ctx k s = Inl e \<longleftrightarrow> find_incident ctx k s = None \<and> e = NotFoundError ''Incident not found''"
  by (auto simp: load_incident_def cmd_iff)

lemma update_incident_iff [cmd_iff]:
  "update_incident ctx k f s = Inr (i, s') \<longleftrightarrow>
     s' = s\<lparr>is_incidents := upd_incident ctx k f (is_incidents s)\<rparr> \<and> i = find_incident ctx k s'"
  by (auto simp: update_incident_def upd_incident_def cmd_iff)

lemma already_linked_never [cmd_iff]: "already_linked c l e s = Inr r \<longleftrightarrow> False"
  by (simp add: already_linked_def cmd_iff)

lemma with_replay_cases:
  assumes "with_replay num ctx op cmd payload body s = Inr (r, s')"
  obtains (replay) e where "findEventByOperationId ctx op s = Some e"
      "isMatchingCommittedOperation num (Some e) cmd payload" "find_incident ctx (xe_incidentId e) s = Some (ir_incident r)"
      "ir_outcome r = IncidentReplayed" "s' = s"
  | (fresh) "findEventByOperationId ctx op s = None" "body s = Inr (r, s')"
proof (cases "findEventByOperationId ctx op s")
  case None
  then show ?thesis using assms fresh by (auto simp: with_replay_def preReadOperationId_def cmd_iff)
next
  case (Some e)
  then show ?thesis
    using assms replay by (auto simp: with_replay_def preReadOperationId_def cmd_iff split: if_splits)
qed

section \<open>Requests\<close>

text \<open>The lookups the callers hand to the commands, and the commands as requests.\<close>

record incident_lookups =
  lk_exam :: "ident \<Rightarrow> ident option"
  lk_attempt :: "ident \<Rightarrow> AttemptScopeRow option"
  lk_enrollment :: "ident \<Rightarrow> ident \<Rightarrow> bool"
  lk_adjustmentAttempt :: "ident \<Rightarrow> ident option"
  lk_forceSubmitAudit :: "ident \<Rightarrow> bool"
  lk_actionLink :: "string \<Rightarrow> ident \<Rightarrow> bool"
  lk_interruptionAttempt :: "ident \<Rightarrow> ident option"
  lk_episode :: "ident \<Rightarrow> ident option"
  lk_detected :: "ident \<Rightarrow> DetectedFact option"

datatype incident_request =
    CreateRequest CreateIncidentInput
  | NoteRequest ident ident string
  | ActionRequest ident ident string ident
  | AttemptRequest ident ident ident string
  | InterruptionRequest ident ident ident
  | InvestigateRequest ident ident int "string option" "string option"
  | SeverityRequest ident ident int string "string option" "string option"
  | ResolveRequest ident ident int string "string option"
  | DismissRequest ident ident int string "string option"
  | DetectorRequest ident

fun run_incident ::
  "(jsnum \<Rightarrow> string) \<Rightarrow> dates \<Rightarrow> (ident \<Rightarrow> ident) \<Rightarrow> id_supply \<Rightarrow> incident_lookups \<Rightarrow> RequestContext \<Rightarrow> time \<Rightarrow>
     incident_request \<Rightarrow> IncidentCommandResult incident_cmd" where
  "run_incident num dates op_uuid uuid lk ctx now (CreateRequest input) =
     createExamIncident num dates uuid (lk_exam lk) (Some (lk_attempt lk)) (Some (lk_enrollment lk)) ctx input now"
| "run_incident num dates op_uuid uuid lk ctx now (NoteRequest k op body) = addIncidentNote num uuid ctx k op body now"
| "run_incident num dates op_uuid uuid lk ctx now (ActionRequest k op ty a) =
     linkIncidentAction num uuid (Some (lk_adjustmentAttempt lk)) (Some (lk_forceSubmitAudit lk)) (lk_attempt lk)
       (Some (lk_actionLink lk)) ctx k op ty a now"
| "run_incident num dates op_uuid uuid lk ctx now (AttemptRequest k op a rel) =
     linkIncidentAttempt num uuid (lk_attempt lk) ctx k op a rel now"
| "run_incident num dates op_uuid uuid lk ctx now (InterruptionRequest k op ep) =
     linkIncidentInterruption num uuid (Some (lk_interruptionAttempt lk)) (lk_attempt lk) ctx k op ep now"
| "run_incident num dates op_uuid uuid lk ctx now (InvestigateRequest k op v rc rt) =
     startIncidentInvestigation num uuid ctx k op v rc rt now"
| "run_incident num dates op_uuid uuid lk ctx now (SeverityRequest k op v sev rc rt) =
     changeIncidentSeverity num uuid ctx k op v sev rc rt now"
| "run_incident num dates op_uuid uuid lk ctx now (ResolveRequest k op v summary rc) =
     resolveExamIncident num uuid ctx k op v summary rc now"
| "run_incident num dates op_uuid uuid lk ctx now (DismissRequest k op v reason rc) =
     dismissExamIncident num uuid ctx k op v reason rc now"
| "run_incident num dates op_uuid uuid lk ctx now (DetectorRequest ep) =
     createSystemIncidentFromHeartbeatEpisode num dates op_uuid uuid (lk_episode lk) (lk_detected lk) (lk_attempt lk)
       ctx ep now"

inductive incident_step ::
  "(jsnum \<Rightarrow> string) \<Rightarrow> dates \<Rightarrow> (ident \<Rightarrow> ident) \<Rightarrow> id_supply \<Rightarrow> incident_store \<Rightarrow> incident_store \<Rightarrow> bool"
  for num dates op_uuid uuid where
  "run_incident num dates op_uuid uuid lk ctx now req s = Inr (r, s') \<Longrightarrow> incident_step num dates op_uuid uuid s s'"

section \<open>Every command is one change\<close>

lemmas incident_body_iff = cmd_iff event_row_def new_incident_def

lemma with_replay_change:
  assumes "with_replay num ctx op cmd payload body s = Inr (r, s')"
    and "body s = Inr (r, s') \<Longrightarrow> findEventByOperationId ctx op s = None \<Longrightarrow> incident_change uuid s s'"
  shows "incident_change uuid s s'"
  using assms(1) by (cases rule: with_replay_cases) (auto intro: assms(2) incident_change.replay)

lemma catch_link:
  "catchC m (already_linked c l) s = Inr r \<longleftrightarrow> m s = Inr r"
  by (auto simp: catchC_iff already_linked_never)

lemma create_change:
  assumes "createExamIncident num dates uuid le la lr ctx input now s = Inr (r, s')"
  shows "incident_change uuid s s'"
  using assms unfolding createExamIncident_def
  by (auto simp: cmd_iff Let_def elim!: with_replay_change)
   ((rule incident_change.create [where ctx = ctx], auto simp: incident_body_iff appends_def)+)

lemma detector_change:
  assumes "createSystemIncidentFromHeartbeatEpisode num dates op_uuid uuid l1 l2 la ctx ep now s = Inr (r, s')"
  shows "incident_change uuid s s'"
  using assms unfolding createSystemIncidentFromHeartbeatEpisode_def
  by (auto simp: cmd_iff Let_def elim!: with_replay_change)
   ((rule incident_change.create [where ctx = ctx], auto simp: incident_body_iff appends_def)+)

lemma note_change:
  assumes "addIncidentNote num uuid ctx k op b now s = Inr (r, s')"
  shows "incident_change uuid s s'"
  using assms unfolding addIncidentNote_def
  by (auto simp: cmd_iff Let_def elim!: with_replay_change)
   ((rule incident_change.annotate [where ctx = ctx], auto simp: incident_body_iff appends_def)+)

lemma link_action_change:
  assumes "linkIncidentAction num uuid l1 l2 la l3 ctx k op ty a now s = Inr (r, s')"
  shows "incident_change uuid s s'"
  using assms unfolding linkIncidentAction_def Let_def
  by (auto simp: cmd_iff catch_link simp del: catchC_iff elim!: with_replay_change)
   ((rule incident_change.annotate [where ctx = ctx], auto simp: incident_body_iff appends_def)+)

lemma link_attempt_change:
  assumes "linkIncidentAttempt num uuid la ctx k op a rel now s = Inr (r, s')"
  shows "incident_change uuid s s'"
  using assms unfolding linkIncidentAttempt_def Let_def
  by (auto simp: cmd_iff catch_link simp del: catchC_iff elim!: with_replay_change)
   ((rule incident_change.annotate [where ctx = ctx], auto simp: incident_body_iff appends_def)+)

lemma link_interruption_change:
  assumes "linkIncidentInterruption num uuid l1 la ctx k op ep now s = Inr (r, s')"
  shows "incident_change uuid s s'"
  using assms unfolding linkIncidentInterruption_def Let_def
  by (auto simp: cmd_iff catch_link simp del: catchC_iff elim!: with_replay_change)
   ((rule incident_change.annotate [where ctx = ctx], auto simp: incident_body_iff appends_def)+)

lemma find_upd_incident:
  assumes "find_incident ctx k s = Some i" "inc_id (f i) = k" "inc_organizationId (f i) = rx_organizationId ctx"
  shows "find_incident ctx k (s\<lparr>is_incidents := upd_incident ctx k f (is_incidents s)\<rparr>) = Some (f i)"
proof -
  have "find (\<lambda>i. inc_organizationId i = rx_organizationId ctx \<and> inc_id i = k) (upd_incident ctx k f xs) = Some (f i)"
    if "find (\<lambda>i. inc_organizationId i = rx_organizationId ctx \<and> inc_id i = k) xs = Some i" for xs
    using that assms(2,3) by (induction xs) (auto simp: upd_incident_def split: if_splits)
  then show ?thesis using assms(1) by (simp add: find_incident_def)
qed

text \<open>A version-bumping command that runs: what it read, what it wrote and what it answers.\<close>

lemma version_bump_cases:
  assumes "versionBumpCommand num uuid ctx k op v cmd bf allowed ty aa am ep f now s = Inr (r, s')"
    and "\<And>n i. same_incident i (f n i)"
  obtains (replay) e where "findEventByOperationId ctx op s = Some e"
      "isMatchingCommittedOperation num (Some e) cmd
         (JObj (spread [(''incidentId'', JStr k), (''expectedVersion'', version_json v)] bf))"
      "find_incident ctx (xe_incidentId e) s = Some (ir_incident r)"
      "ir_outcome r = IncidentReplayed" "s' = s"
  | (applied) i e where "findEventByOperationId ctx op s = None" "find_incident ctx k s = Some i"
      "inc_version i = v" "\<not> terminal_status (inc_status i)" "inc_status i \<in> set allowed"
      "e = event_row ctx k ty cmd op v (v + 1) (JObj (spread
         (spread [(''incidentId'', JStr k), (''expectedVersion'', version_json v)] bf) (ep i (f (v + 1) i) (v + 1))))
         now (uuid (is_drawn s))"
      "s' = s\<lparr>is_incidents := upd_incident ctx k (f (v + 1)) (is_incidents s), is_drawn := Suc (is_drawn s),
         is_events := is_events s @ [e], is_audit := is_audit s @ [(aa, JObj (am i (f (v + 1) i) (v + 1)))]\<rparr>"
      "r = \<lparr>ir_outcome = IncidentApplied, ir_incident = f (v + 1) i\<rparr>"
  using assms(1) unfolding versionBumpCommand_def Let_def
proof (cases rule: with_replay_cases)
  case fresh
  then obtain i where i: "find_incident ctx k s = Some i" by (auto simp: cmd_iff)
  then have u: "find_incident ctx k (s\<lparr>is_incidents := upd_incident ctx k (f (v + 1)) (is_incidents s)\<rparr>) = Some (f (v + 1) i)"
    using find_incident_id [OF i] assms(2) by (intro find_upd_incident) (auto simp: same_incident_def)
  show ?thesis
    using fresh i u by (intro applied [OF fresh(1) i _ _ _ refl]) (auto simp: cmd_iff event_row_def Let_def)
qed (rule replay)

lemma version_bump_change:
  assumes "versionBumpCommand num uuid ctx k op v cmd bf allowed ty aa am ep f now s = Inr (r, s')"
    and "\<And>n i. same_incident i (f n i)"
    and "\<And>i. \<not> terminal_status (inc_status i) \<Longrightarrow> inc_status i \<in> set allowed \<Longrightarrow> inc_version i = v \<Longrightarrow> bumped i (f (v + 1) i)"
  shows "incident_change uuid s s'"
  using assms(1,2)
proof (cases rule: version_bump_cases)
  case (applied i e)
  show ?thesis
    by (rule incident_change.bump [where ctx = ctx and e = e and i = i and f = "f (v + 1)"])
      (use applied assms(3) in \<open>auto simp: event_row_def appends_def\<close>)
qed (simp add: incident_change.replay)

lemmas bump_defs = bumped_def same_incident_def incident_moves.simps

lemma investigate_change:
  "startIncidentInvestigation num uuid ctx k op v rc rt now s = Inr (r, s') \<Longrightarrow> incident_change uuid s s'"
  unfolding startIncidentInvestigation_def by (erule version_bump_change) (auto simp: bump_defs)

lemma severity_change:
  "changeIncidentSeverity num uuid ctx k op v sev rc rt now s = Inr (r, s') \<Longrightarrow> incident_change uuid s s'"
  unfolding changeIncidentSeverity_def by (auto simp: cmd_iff bump_defs elim!: version_bump_change)

lemma resolve_change:
  "resolveExamIncident num uuid ctx k op v sm rc now s = Inr (r, s') \<Longrightarrow> incident_change uuid s s'"
  unfolding resolveExamIncident_def Let_def by (auto simp: cmd_iff bump_defs elim!: version_bump_change)

lemma dismiss_change:
  "dismissExamIncident num uuid ctx k op v sm rc now s = Inr (r, s') \<Longrightarrow> incident_change uuid s s'"
  unfolding dismissExamIncident_def Let_def by (auto simp: cmd_iff bump_defs elim!: version_bump_change)

lemma run_incident_change:
  "run_incident num dates op_uuid uuid lk ctx now req s = Inr (r, s') \<Longrightarrow> incident_change uuid s s'"
  by (cases req) (auto dest: create_change note_change link_action_change link_attempt_change link_interruption_change
      investigate_change severity_change resolve_change dismiss_change detector_change)

lemma incident_step_change: "incident_step num dates op_uuid uuid s s' \<Longrightarrow> incident_change uuid s s'"
  by (auto elim: incident_step.cases intro: run_incident_change)

end
