(* ===== verification/Incident_Laws.thy ===== *)
theory Incident_Laws
  imports Incident_Changes Answer_Protocol Samples "HOL-Library.Sublist"
begin

text \<open>
  Laws of the incident commands: the invariant of the incident tables, the status machine and the append-only
  history, replay of a repeated operation, and the scope of links.
\<close>

section \<open>Invariant and history\<close>

text \<open>The version-changing events of an incident.\<close>

definition version_events :: "ident \<Rightarrow> incident_store \<Rightarrow> ExamIncidentEvent list" where
  "version_events k s = filter (\<lambda>e. xe_incidentId e = k \<and> xe_afterVersion e \<noteq> xe_beforeVersion e) (is_events s)"

definition event_key :: "ExamIncidentEvent \<Rightarrow> ident \<times> ident" where
  "event_key e = (xe_organizationId e, xe_operationId e)"

definition incident_ok :: "incident_store \<Rightarrow> ExamIncident \<Rightarrow> bool" where
  "incident_ok s i \<longleftrightarrow> (terminal_status (inc_status i) \<longleftrightarrow> inc_resolvedAt i \<noteq> None) \<and>
     (terminal_status (inc_status i) \<longleftrightarrow> inc_resolvedBy i \<noteq> None) \<and>
     map xe_afterVersion (version_events (inc_id i) s) = map int [1..<Suc (nat (inc_version i))] \<and> 1 \<le> inc_version i"

definition incident_inv :: "id_supply \<Rightarrow> incident_store \<Rightarrow> bool" where
  "incident_inv uuid s \<longleftrightarrow> distinct (map inc_id (is_incidents s)) \<and>
     inc_id ` set (is_incidents s) \<subseteq> uuid ` {..<is_drawn s} \<and>
     distinct (map event_key (is_events s)) \<and>
     xe_incidentId ` set (is_events s) \<subseteq> inc_id ` set (is_incidents s) \<and>
     (\<forall>i\<in>set (is_incidents s). incident_ok s i)"

lemma event_key_fresh:
  "findEventByOperationId ctx op s = None \<Longrightarrow> (rx_organizationId ctx, op) \<notin> event_key ` set (is_events s)"
  by (auto simp: findEventByOperationId_def find_None_iff event_key_def)

lemma version_events_append:
  "is_events s' = is_events s @ [e] \<Longrightarrow> version_events k s' = version_events k s @
     (if xe_incidentId e = k \<and> xe_afterVersion e \<noteq> xe_beforeVersion e then [e] else [])"
  by (simp add: version_events_def)

lemma map_upd_incident:
  "(\<And>i. i \<in> set xs \<Longrightarrow> inc_organizationId i = rx_organizationId ctx \<Longrightarrow> inc_id i = k \<Longrightarrow> inc_id (f i) = k) \<Longrightarrow>
     map inc_id (upd_incident ctx k f xs) = map inc_id xs"
  by (induction xs) (auto simp: upd_incident_def)

lemma inc_id_unique:
  "distinct (map inc_id (is_incidents s)) \<Longrightarrow> i \<in> set (is_incidents s) \<Longrightarrow> j \<in> set (is_incidents s) \<Longrightarrow>
     inc_id i = inc_id j \<Longrightarrow> i = j"
  by (auto simp: distinct_map dest: inj_onD)

lemma upd_incident_one:
  assumes "find_incident ctx k s = Some i" "distinct (map inc_id (is_incidents s))"
  shows "upd_incident ctx k f (is_incidents s) = map (\<lambda>j. if j = i then f i else j) (is_incidents s)"
  unfolding upd_incident_def
proof (rule map_cong [OF refl])
  fix j assume "j \<in> set (is_incidents s)"
  then show "(if inc_organizationId j = rx_organizationId ctx \<and> inc_id j = k then f j else j) = (if j = i then f i else j)"
    using find_incident_id [OF assms(1)] inc_id_unique [OF assms(2), of j i] by (cases "j = i") auto
qed

lemma find_incident_of:
  assumes "distinct (map inc_id (is_incidents s))" "i \<in> set (is_incidents s)" "inc_organizationId i = rx_organizationId ctx"
    and "inc_id i = k"
  shows "find_incident ctx k s = Some i"
proof (cases "find_incident ctx k s")
  case None
  then show ?thesis using assms by (auto simp: find_incident_def find_None_iff)
next
  case (Some j)
  then have "j \<in> set (is_incidents s)" "inc_id j = inc_id i" using find_incident_id assms(4) by auto
  then show ?thesis using Some inc_id_unique [OF assms(1), of j i] assms(2) by simp
qed

lemma find_incident_image: "find_incident ctx k s = Some i \<Longrightarrow> k \<in> inc_id ` set (is_incidents s)"
  by (auto dest: find_incident_id)

lemma inv_ids:
  assumes "incident_inv uuid s" "is_drawn s \<le> n"
  shows "inc_id ` set (is_incidents s) \<subseteq> uuid ` {..<n}"
proof -
  have "uuid ` {..<is_drawn s} \<subseteq> uuid ` {..<n}" using assms(2) by (intro image_mono) auto
  then show ?thesis using assms(1) unfolding incident_inv_def by (meson order_trans)
qed

lemma incident_moves_from: "incident_moves a b \<Longrightarrow> \<not> terminal_status a"
  by (auto elim: incident_moves.cases)

lemma incident_ok_bump:
  assumes "incident_ok s i" "bumped i j" "is_events s' = is_events s @ [e]" "xe_incidentId e = inc_id i"
    and "xe_beforeVersion e = inc_version i" "xe_afterVersion e = inc_version i + 1"
  shows "incident_ok s' j"
proof -
  have b: "inc_id j = inc_id i" "inc_version j = inc_version i + 1" "\<not> terminal_status (inc_status i)"
    using assms(2) incident_moves_from by (auto simp: bumped_def same_incident_def)
  have v: "1 \<le> inc_version i"
    and "map xe_afterVersion (version_events (inc_id i) s) = map int [1..<Suc (nat (inc_version i))]"
    using assms(1) by (simp_all add: incident_ok_def)
  moreover have "nat (inc_version i + 1) = Suc (nat (inc_version i))" using v by simp
  ultimately have "map xe_afterVersion (version_events (inc_id j) s') = map int [1..<Suc (nat (inc_version j))]"
    using b by (simp add: version_events_append [OF assms(3)] assms)
  then show ?thesis
    using assms(1,2) b v unfolding incident_ok_def bumped_def by (simp split: if_splits)
qed

lemma incident_change_inv:
  assumes "incident_change uuid s s'" "incident_inv uuid s" "inj uuid"
  shows "incident_inv uuid s'"
  using assms(1)
proof cases
  case replay
  then show ?thesis using assms by simp
next
  case (create i e ctx)
  have new: "inc_id i \<notin> inc_id ` set (is_incidents s)"
  proof
    assume "inc_id i \<in> inc_id ` set (is_incidents s)"
    then have "uuid (is_drawn s) \<in> uuid ` {..<is_drawn s}"
      using assms(2) create(4) unfolding incident_inv_def by (metis subsetD)
    then show False using inj_image_mem_iff [OF assms(3)] by simp
  qed
  have none: "version_events (inc_id i) s = []"
  proof -
    have "xe_incidentId x \<noteq> inc_id i" if "x \<in> set (is_events s)" for x
      using that new assms(2) unfolding incident_inv_def by (metis imageI subsetD)
    then show ?thesis by (simp add: version_events_def filter_empty_conv)
  qed
  have "incident_ok s' j" if "j \<in> set (is_incidents s')" for j
    using that assms(2) create new none
    by (auto simp: incident_inv_def incident_ok_def version_events_append [OF create(2)])
  moreover have "inc_id ` set (is_incidents s') \<subseteq> uuid ` {..<is_drawn s'}"
    using inv_ids [OF assms(2), of "is_drawn s'"] create(1,4,5) by auto
  ultimately show ?thesis
    using assms(2) create new event_key_fresh [OF create(15)] by (auto simp: incident_inv_def event_key_def)
next
  case (annotate e ctx i)
  have "incident_ok s' j" if "j \<in> set (is_incidents s')" for j
    using that assms(2) annotate
    by (auto simp: incident_inv_def incident_ok_def version_events_append [OF annotate(2)])
  moreover have "inc_id ` set (is_incidents s') \<subseteq> uuid ` {..<is_drawn s'}"
    using inv_ids [OF assms(2), of "is_drawn s'"] annotate(1,3) by (simp add: appends_def)
  ultimately show ?thesis
    using assms(2) annotate event_key_fresh [OF annotate(8)] find_incident_image [OF annotate(4)]
    by (auto simp: incident_inv_def event_key_def)
next
  case (bump ctx e f i)
  note i = find_incident_id [OF bump(4)]
  have dist: "distinct (map inc_id (is_incidents s))" using assms(2) by (simp add: incident_inv_def)
  have only: "j = i" if "j \<in> set (is_incidents s)" "inc_id j = xe_incidentId e" for j
    using that i by (intro inc_id_unique [OF dist]) simp_all
  have ids: "map inc_id (is_incidents s') = map inc_id (is_incidents s)"
    unfolding bump(1) using only bump(5) by (intro map_upd_incident) (auto simp: bumped_def same_incident_def)
  have idset: "inc_id ` set (is_incidents s') = inc_id ` set (is_incidents s)"
    using arg_cong [OF ids, of set] by simp
  have fi: "incident_ok s' (f i)"
    using assms(2) bump i by (intro incident_ok_bump [OF _ bump(5,2)]) (auto simp: incident_inv_def)
  have other: "incident_ok s' j" if "j \<in> set (is_incidents s)" "j \<noteq> i" for j
    using that assms(2) only by (auto simp: incident_inv_def incident_ok_def version_events_append [OF bump(2)])
  have "set (is_incidents s') \<subseteq> insert (f i) (set (is_incidents s) - {i})"
    unfolding bump(1) upd_incident_one [OF bump(4) dist] by auto
  then have "incident_ok s' j" if "j \<in> set (is_incidents s')" for j
    using that fi other by blast
  moreover have "inc_id ` set (is_incidents s') \<subseteq> uuid ` {..<is_drawn s'}"
    using inv_ids [OF assms(2), of "is_drawn s'"] bump(3) idset by (simp add: appends_def)
  ultimately show ?thesis
    using assms(2) bump(2,6) event_key_fresh [OF bump(9)] find_incident_image [OF bump(4)] ids idset
    by (simp add: incident_inv_def event_key_def)
qed

text \<open>What an incident may become: its identity and report stay, its version never falls, its status follows the
  status machine, and a closed incident stays as it is.\<close>

definition incident_future :: "ExamIncident \<Rightarrow> ExamIncident \<Rightarrow> bool" where
  "incident_future i j \<longleftrightarrow> same_incident i j \<and> inc_version i \<le> inc_version j \<and>
     incident_moves\<^sup>*\<^sup>* (inc_status i) (inc_status j) \<and>
     (inc_version j = inc_version i \<or> terminal_status (inc_status i) \<longrightarrow> j = i)"

definition incident_history :: "incident_store \<Rightarrow> incident_store \<Rightarrow> bool" where
  "incident_history s s' \<longleftrightarrow> prefix (is_events s) (is_events s') \<and> prefix (is_actions s) (is_actions s') \<and>
     prefix (is_attempts s) (is_attempts s') \<and> prefix (is_links s) (is_links s') \<and> prefix (is_audit s) (is_audit s') \<and>
     length (is_incidents s) \<le> length (is_incidents s') \<and>
     (\<forall>n<length (is_incidents s). incident_future (is_incidents s ! n) (is_incidents s' ! n))"

lemma same_incident_trans: "same_incident i j \<Longrightarrow> same_incident j k \<Longrightarrow> same_incident i k"
  by (simp add: same_incident_def)

lemma incident_future_refl [simp]: "incident_future i i"
  by (simp add: incident_future_def same_incident_def)

lemma incident_future_trans:
  assumes "incident_future i j" "incident_future j k"
  shows "incident_future i k"
proof -
  have "k = i" if "inc_version k = inc_version i \<or> terminal_status (inc_status i)"
    using that assms unfolding incident_future_def by (metis order_antisym)
  then show ?thesis
    using assms unfolding incident_future_def
    by (auto intro: same_incident_trans rtranclp_trans order_trans)
qed

lemma bumped_future: "bumped i j \<Longrightarrow> incident_future i j"
  using incident_moves_from by (auto simp: incident_future_def bumped_def)

lemma incident_history_trans:
  assumes "incident_history s t" "incident_history t u"
  shows "incident_history s u"
  using assms unfolding incident_history_def
  by (auto intro: prefix_order.trans incident_future_trans order_trans)

lemma appends_history:
  assumes "appends s s'" "is_events s' = is_events s @ es" "length (is_incidents s) \<le> length (is_incidents s')"
    and "\<And>n. n < length (is_incidents s) \<Longrightarrow> incident_future (is_incidents s ! n) (is_incidents s' ! n)"
  shows "incident_history s s'"
  using assms by (simp add: incident_history_def appends_def prefix_def)

lemma incident_change_history:
  assumes "incident_change uuid s s'" "incident_inv uuid s"
  shows "incident_history s s'"
  using assms(1)
proof cases
  case replay
  then show ?thesis by (simp add: incident_history_def)
next
  case (create i e ctx)
  then show ?thesis by (intro appends_history [OF create(3,2)]) (auto simp: nth_append)
next
  case (annotate e ctx i)
  then show ?thesis by (intro appends_history [OF annotate(3,2)]) auto
next
  case (bump ctx e f i)
  have "is_incidents s' = map (\<lambda>j. if j = i then f i else j) (is_incidents s)"
    using bump(1) upd_incident_one [OF bump(4)] assms(2) by (simp add: incident_inv_def)
  then show ?thesis using bump by (intro appends_history [OF bump(3,2)]) (auto simp: bumped_future)
qed

lemma incident_reachable:
  assumes "(incident_step num dates op_uuid uuid)\<^sup>*\<^sup>* s s'" "incident_inv uuid s" "inj uuid"
  shows "incident_inv uuid s' \<and> incident_history s s'"
  using assms(1)
proof (induction rule: rtranclp_induct)
  case base
  then show ?case using assms(2) by (simp add: incident_history_def)
next
  case (step t u)
  then have "incident_change uuid t u" by (auto intro: incident_step_change)
  then show ?case
    using step.IH assms(3) incident_change_inv incident_change_history incident_history_trans by blast
qed

text \<open>C26: The incident tables stay consistent and their history is append-only. From a consistent store, after any
  sequence of incident commands with fresh identifiers: no two incidents share an identifier, no two events
  of an organization an operation, every incident's version-changing events count exactly 1, 2, ..., its
  version, and it has a resolver and a time of resolution exactly when it is closed; events, links and audit
  entries are only appended, and each incident has moved along the status machine, its report unchanged and
  nothing of it changed once closed.\<close>

theorem incident_history_append_only:
  assumes "(incident_step num dates op_uuid uuid)\<^sup>*\<^sup>* s s'" "incident_inv uuid s" "inj uuid"
  shows "incident_inv uuid s' \<and> incident_history s s'"
  using assms by (rule incident_reachable)

section \<open>Replay\<close>

text \<open>The trace a command leaves for its own repetition: the event of its operation, with the payload the
  repetition will compare, and the incident it answered.\<close>

definition committed ::
  "(jsnum \<Rightarrow> string) \<Rightarrow> RequestContext \<Rightarrow> ident \<Rightarrow> string \<Rightarrow> json \<Rightarrow> IncidentCommandResult \<Rightarrow> incident_store \<Rightarrow> bool" where
  "committed num ctx op cmd payload r s \<longleftrightarrow> (\<exists>e. findEventByOperationId ctx op s = Some e \<and>
     isMatchingCommittedOperation num (Some e) cmd payload \<and> xe_incidentId e = inc_id (ir_incident r) \<and>
     ir_incident r \<in> set (is_incidents s) \<and> inc_organizationId (ir_incident r) = rx_organizationId ctx)"

text \<open>What the body of a command appends when it answers: the event of the operation on the incident it answers.\<close>

definition leaves ::
  "RequestContext \<Rightarrow> ident \<Rightarrow> string \<Rightarrow> json \<Rightarrow> incident_store \<Rightarrow> IncidentCommandResult \<Rightarrow> incident_store \<Rightarrow> bool" where
  "leaves ctx op cmd payload s r s' \<longleftrightarrow> (\<exists>e. is_events s' = is_events s @ [e] \<and> xe_organizationId e = rx_organizationId ctx \<and>
     xe_operationId e = op \<and> xe_commandType e = cmd \<and> xe_payload e = payload \<and> xe_incidentId e = inc_id (ir_incident r) \<and>
     ir_incident r \<in> set (is_incidents s') \<and> inc_organizationId (ir_incident r) = rx_organizationId ctx)"

lemma leaves_committed:
  assumes "with_replay num ctx op cmd payload body s = Inr (r, s')"
    and "\<forall>s r s'. findEventByOperationId ctx op s = None \<longrightarrow> body s = Inr (r, s') \<longrightarrow> leaves ctx op cmd payload s r s'"
  shows "committed num ctx op cmd payload r s'"
  using assms(1)
proof (cases rule: with_replay_cases)
  case (replay e)
  then show ?thesis using find_incident_id [OF replay(3)] by (auto simp: committed_def)
next
  case fresh
  then obtain e where e: "is_events s' = is_events s @ [e]" "xe_organizationId e = rx_organizationId ctx"
      "xe_operationId e = op" "xe_commandType e = cmd" "xe_payload e = payload" "xe_incidentId e = inc_id (ir_incident r)"
      "ir_incident r \<in> set (is_incidents s')" "inc_organizationId (ir_incident r) = rx_organizationId ctx"
    using assms(2) unfolding leaves_def by blast
  then have "findEventByOperationId ctx op s' = Some e"
    using fresh(1) by (simp add: findEventByOperationId_def find_append)
  then show ?thesis using e by (simp add: committed_def isMatchingCommittedOperation_def)
qed

lemma committed_later:
  assumes "committed num ctx op cmd payload r s'" "incident_history s' t" "incident_inv uuid t"
  shows "\<exists>e i. findEventByOperationId ctx op t = Some e \<and> isMatchingCommittedOperation num (Some e) cmd payload \<and>
    find_incident ctx (xe_incidentId e) t = Some i \<and> incident_future (ir_incident r) i"
proof -
  obtain e where e: "findEventByOperationId ctx op s' = Some e"
      "isMatchingCommittedOperation num (Some e) cmd payload" "xe_incidentId e = inc_id (ir_incident r)"
      "ir_incident r \<in> set (is_incidents s')" "inc_organizationId (ir_incident r) = rx_organizationId ctx"
    using assms(1) unfolding committed_def by blast
  obtain es where es: "is_events t = is_events s' @ es"
    using assms(2) by (auto simp: incident_history_def prefix_def)
  then have et: "findEventByOperationId ctx op t = Some e"
    using e(1) by (simp add: findEventByOperationId_def find_append)
  obtain n where n: "n < length (is_incidents s')" "is_incidents s' ! n = ir_incident r"
    using e(4) by (auto simp: in_set_conv_nth)
  let ?i = "is_incidents t ! n"
  have fut: "incident_future (ir_incident r) ?i" and in_t: "?i \<in> set (is_incidents t)"
    using assms(2) n by (auto simp: incident_history_def)
  have "find_incident ctx (inc_id (ir_incident r)) t = Some ?i"
    using fut in_t e(5) assms(3)
    by (intro find_incident_of) (auto simp: incident_inv_def incident_future_def same_incident_def)
  then show ?thesis using et e(2,3) fut by auto
qed

text \<open>An operation identified by its \<^verbatim>\<open>operationId\<close>: whatever it is run with, it first looks for its own event, and
  its body leaves that event behind.\<close>

locale incident_operation =
  fixes num :: "jsnum \<Rightarrow> string" and ctx :: RequestContext and op :: ident and cmd :: string
    and run :: "'e \<Rightarrow> IncidentCommandResult incident_cmd"
  assumes frame: "run env s = Inr (r, s') \<Longrightarrow> \<exists>payload. \<forall>env'. \<exists>body. run env' = with_replay num ctx op cmd payload body \<and>
    (\<forall>s r s'. findEventByOperationId ctx op s = None \<longrightarrow> body s = Inr (r, s') \<longrightarrow> leaves ctx op cmd payload s r s')"
begin

lemma commits:
  assumes "run env s = Inr (r, s')"
  shows "\<exists>payload. committed num ctx op cmd payload r s' \<and> (\<exists>body. run env' = with_replay num ctx op cmd payload body)"
  using frame [OF assms] leaves_committed assms by metis

lemma replays:
  assumes "run env s = Inr (r, s')" "incident_inv uuid s'" "incident_inv uuid t" "incident_history s' t"
  shows "\<exists>i. run env' t = Inr (\<lparr>ir_outcome = IncidentReplayed, ir_incident = i\<rparr>, t) \<and> incident_future (ir_incident r) i"
proof -
  obtain payload e i where e: "findEventByOperationId ctx op t = Some e"
      "isMatchingCommittedOperation num (Some e) cmd payload" "find_incident ctx (xe_incidentId e) t = Some i"
      "incident_future (ir_incident r) i"
    and run: "\<exists>body. run env' = with_replay num ctx op cmd payload body"
    using commits [OF assms(1)] committed_later [OF _ assms(4,3)] by metis
  then have "run env' t = Inr (\<lparr>ir_outcome = IncidentReplayed, ir_incident = i\<rparr>, t)"
    by (auto simp: with_replay_def preReadOperationId_def bindC_def getsC_def someC_def returnC_def)
  with e(4) show ?thesis by blast
qed

end

lemma bindC_pure:
  "bindC (guardC True e) f = f ()" "bindC (liftC (Inr x)) g = g x" "bindC (requireC (Some y) e) h = h y"
  by (simp_all add: fun_eq_iff bindC_def guardC_def liftC_def requireC_def returnC_def)

lemmas leaves_simps = leaves_def cmd_iff catch_link event_row_def new_incident_def

interpretation created: incident_operation num ctx "ci_operationId input" COMMAND_CREATE
  "\<lambda>(le, la, lr, now). createExamIncident num dates uuid le la lr ctx input now"
  for num ctx input dates uuid
proof (unfold_locales, clarify)
  fix le la lr now s r s'
  assume run: "createExamIncident num dates uuid le la lr ctx input now s = Inr (r, s')"
  then obtain d t where guards: "normalizeRequiredString num (ci_description input) ''description'' 1000 = Inr d"
      "canonical_date dates (ci_occurredAt input) = Inr t" "(ci_type input \<in> set VALID_INCIDENT_TYPES) = True"
      "(case ci_severity input of None \<Rightarrow> True | Some sv \<Rightarrow> sv \<in> set VALID_SEVERITIES) = True"
    by (auto simp: createExamIncident_def cmd_iff Let_def)
  show "\<exists>payload. \<forall>env'. \<exists>body. (case env' of (le, la, lr, now) \<Rightarrow> createExamIncident num dates uuid le la lr ctx input now) =
      with_replay num ctx (ci_operationId input) COMMAND_CREATE payload body \<and>
      (\<forall>s r s'. findEventByOperationId ctx (ci_operationId input) s = None \<longrightarrow> body s = Inr (r, s') \<longrightarrow>
        leaves ctx (ci_operationId input) COMMAND_CREATE payload s r s')"
    unfolding createExamIncident_def guards bindC_pure Let_def split_paired_All prod.case
    by (intro exI allI conjI, rule refl) (auto simp: leaves_simps)
qed

interpretation noted: incident_operation num ctx op COMMAND_NOTE "addIncidentNote num uuid ctx k op b"
  for num ctx op uuid k b
proof (unfold_locales)
  fix now s r s'
  assume "addIncidentNote num uuid ctx k op b now s = Inr (r, s')"
  then obtain d where d: "normalizeRequiredString num (Some b) ''body'' 500 = Inr d"
    by (auto simp: addIncidentNote_def cmd_iff)
  show "\<exists>payload. \<forall>env'. \<exists>body. addIncidentNote num uuid ctx k op b env' = with_replay num ctx op COMMAND_NOTE payload body \<and>
      (\<forall>s r s'. findEventByOperationId ctx op s = None \<longrightarrow> body s = Inr (r, s') \<longrightarrow> leaves ctx op COMMAND_NOTE payload s r s')"
    unfolding addIncidentNote_def d bindC_pure Let_def
    by (intro exI allI conjI, rule refl) (auto simp: leaves_simps dest: find_incident_id)
qed

interpretation action_linked: incident_operation num ctx op COMMAND_LINK_ACTION
  "\<lambda>(l1, l2, la, l3, now). linkIncidentAction num uuid l1 l2 la l3 ctx k op ty a now"
  for num ctx op uuid k ty a
proof (unfold_locales, clarify)
  fix l1 l2 la l3 now s r s'
  assume "linkIncidentAction num uuid l1 l2 la l3 ctx k op ty a now s = Inr (r, s')"
  then have guards: "(ty \<noteq> ''misconduct_mark'') = True" "(ty \<in> set VALID_ACTION_TYPES) = True"
    by (auto simp: linkIncidentAction_def cmd_iff Let_def)
  show "\<exists>payload. \<forall>env'. \<exists>body. (case env' of (l1, l2, la, l3, now) \<Rightarrow> linkIncidentAction num uuid l1 l2 la l3 ctx k op ty a now) =
      with_replay num ctx op COMMAND_LINK_ACTION payload body \<and>
      (\<forall>s r s'. findEventByOperationId ctx op s = None \<longrightarrow> body s = Inr (r, s') \<longrightarrow> leaves ctx op COMMAND_LINK_ACTION payload s r s')"
    unfolding linkIncidentAction_def guards bindC_pure Let_def split_paired_All prod.case
    by (intro exI allI conjI, rule refl)
      (auto simp: leaves_simps simp del: catchC_iff dest: find_incident_id)
qed

interpretation attempt_linked: incident_operation num ctx op COMMAND_LINK_ATTEMPT
  "\<lambda>(la, now). linkIncidentAttempt num uuid la ctx k op a rel now"
  for num ctx op uuid k a rel
  unfolding linkIncidentAttempt_def Let_def
  by (unfold_locales, clarify, unfold split_paired_All prod.case, intro exI allI conjI, rule refl)
    (auto simp: leaves_simps simp del: catchC_iff dest: find_incident_id)

interpretation interruption_linked: incident_operation num ctx op COMMAND_LINK_INTERRUPTION
  "\<lambda>(l1, la, now). linkIncidentInterruption num uuid l1 la ctx k op ep now"
  for num ctx op uuid k ep
  unfolding linkIncidentInterruption_def Let_def
  by (unfold_locales, clarify, unfold split_paired_All prod.case, intro exI allI conjI, rule refl)
    (auto simp: leaves_simps simp del: catchC_iff dest: find_incident_id)

text \<open>A version-bumping command is such an operation when its event adds nothing to the compared payload.\<close>

lemma version_bump_operation:
  assumes "\<And>n now i. same_incident i (f now n i)"
    and "\<And>i j n. spread (spread [(''incidentId'', JStr k), (''expectedVersion'', version_json v)] bf) (ep i j n) =
      spread [(''incidentId'', JStr k), (''expectedVersion'', version_json v)] bf"
  shows "\<exists>payload. \<forall>now. \<exists>body. versionBumpCommand num uuid ctx k op v cmd bf allowed ty aa am ep (f now) now =
      with_replay num ctx op cmd payload body \<and>
      (\<forall>s r s'. findEventByOperationId ctx op s = None \<longrightarrow> body s = Inr (r, s') \<longrightarrow> leaves ctx op cmd payload s r s')"
proof (rule exI [of _ "JObj (spread [(''incidentId'', JStr k), (''expectedVersion'', version_json v)] bf)"], rule allI)
  fix now
  let ?p = "JObj (spread [(''incidentId'', JStr k), (''expectedVersion'', version_json v)] bf)"
  let ?run = "versionBumpCommand num uuid ctx k op v cmd bf allowed ty aa am ep (f now) now"
  obtain body where body: "?run = with_replay num ctx op cmd ?p body"
    unfolding versionBumpCommand_def Let_def by blast
  have "leaves ctx op cmd ?p s r s'" if none: "findEventByOperationId ctx op s = None" and b: "body s = Inr (r, s')" for s r s'
  proof -
    have "?run s = Inr (r, s')"
      using none b by (simp add: body with_replay_def preReadOperationId_def bindC_def getsC_def returnC_def)
    then show ?thesis using assms(1)
    proof (cases rule: version_bump_cases)
      case (applied i e)
      then show ?thesis
        using find_incident_id [OF applied(2)] assms(1) [of i now "v + 1"]
        by (auto simp: leaves_def event_row_def assms(2) same_incident_def upd_incident_def)
    qed (use none in simp)
  qed
  with body show "\<exists>body. ?run = with_replay num ctx op cmd ?p body \<and>
      (\<forall>s r s'. findEventByOperationId ctx op s = None \<longrightarrow> body s = Inr (r, s') \<longrightarrow> leaves ctx op cmd ?p s r s')" by blast
qed

lemmas spread_simps = spread_def reason_fields_def same_incident_def

interpretation investigated: incident_operation num ctx op COMMAND_INVESTIGATE
  "startIncidentInvestigation num uuid ctx k op v rc rt"
  for num ctx op uuid k v rc rt
  unfolding startIncidentInvestigation_def
  by (unfold_locales, rule version_bump_operation) (simp_all add: spread_simps)

interpretation resolved: incident_operation num ctx op COMMAND_RESOLVE
  "resolveExamIncident num uuid ctx k op v sm rc"
  for num ctx op uuid k v sm rc
proof (unfold_locales)
  fix now s r s'
  assume "resolveExamIncident num uuid ctx k op v sm rc now s = Inr (r, s')"
  then obtain d where d: "normalizeRequiredString num (Some sm) ''resolutionSummary'' 1000 = Inr d"
    by (auto simp: resolveExamIncident_def cmd_iff)
  show "\<exists>payload. \<forall>env'. \<exists>body. resolveExamIncident num uuid ctx k op v sm rc env' =
      with_replay num ctx op COMMAND_RESOLVE payload body \<and>
      (\<forall>s r s'. findEventByOperationId ctx op s = None \<longrightarrow> body s = Inr (r, s') \<longrightarrow> leaves ctx op COMMAND_RESOLVE payload s r s')"
    unfolding resolveExamIncident_def d bindC_pure Let_def
    by (rule version_bump_operation) (simp_all add: spread_simps)
qed

interpretation dismissed: incident_operation num ctx op COMMAND_DISMISS
  "dismissExamIncident num uuid ctx k op v sm rc"
  for num ctx op uuid k v sm rc
proof (unfold_locales)
  fix now s r s'
  assume "dismissExamIncident num uuid ctx k op v sm rc now s = Inr (r, s')"
  then obtain d where d: "normalizeRequiredString num (Some sm) ''reasonText'' 1000 = Inr d"
    by (auto simp: dismissExamIncident_def cmd_iff)
  show "\<exists>payload. \<forall>env'. \<exists>body. dismissExamIncident num uuid ctx k op v sm rc env' =
      with_replay num ctx op COMMAND_DISMISS payload body \<and>
      (\<forall>s r s'. findEventByOperationId ctx op s = None \<longrightarrow> body s = Inr (r, s') \<longrightarrow> leaves ctx op COMMAND_DISMISS payload s r s')"
    unfolding dismissExamIncident_def d bindC_pure Let_def
    by (rule version_bump_operation) (simp_all add: spread_simps)
qed

interpretation detected: incident_operation num ctx "op_uuid ep" SYSTEM_INCIDENT_CREATE_COMMAND
  "createSystemIncidentFromHeartbeatEpisode num dates op_uuid uuid l1 l2 la ctx ep"
  for num ctx op_uuid ep dates uuid l1 l2 la
proof (unfold_locales)
  fix now s r s'
  assume "createSystemIncidentFromHeartbeatEpisode num dates op_uuid uuid l1 l2 la ctx ep now s = Inr (r, s')"
  then obtain a d row where guards: "l1 ep = Some a" "l2 ep = Some d" "la a = Some row"
      "(rx_role ctx = ''System'' \<and> rx_actorId ctx = IncidentDetector) = True"
      "(df_detectionSource d = Some ''heartbeat_timeout'') = True" "(sr_organizationId row = rx_organizationId ctx) = True"
    by (auto simp: createSystemIncidentFromHeartbeatEpisode_def cmd_iff Let_def)
  show "\<exists>payload. \<forall>env'. \<exists>body. createSystemIncidentFromHeartbeatEpisode num dates op_uuid uuid l1 l2 la ctx ep env' =
      with_replay num ctx (op_uuid ep) SYSTEM_INCIDENT_CREATE_COMMAND payload body \<and>
      (\<forall>s r s'. findEventByOperationId ctx (op_uuid ep) s = None \<longrightarrow> body s = Inr (r, s') \<longrightarrow>
        leaves ctx (op_uuid ep) SYSTEM_INCIDENT_CREATE_COMMAND payload s r s')"
    unfolding createSystemIncidentFromHeartbeatEpisode_def guards bindC_pure Let_def
    by (intro exI allI conjI, rule refl) (auto simp: leaves_simps)
qed

text \<open>C27: A repeated incident command is answered, not repeated. Once a command has answered, the same request
  with the same operation identifier, at any later time and after any further commands, answers a replay with
  the incident as it then is and leaves the store untouched; the lookups need not answer the same any more
  except for the detector. Severity changes are excepted.\<close>

theorem incident_command_replays:
  assumes "run_incident num dates op_uuid uuid lk ctx now req s = Inr (r, s')" "incident_inv uuid s" "inj uuid"
    and "(incident_step num dates op_uuid uuid)\<^sup>*\<^sup>* s' t"
    and "\<forall>k op v sev rc rt. req \<noteq> SeverityRequest k op v sev rc rt" "\<forall>ep. req = DetectorRequest ep \<longrightarrow> lk' = lk"
  shows "\<exists>i. run_incident num dates op_uuid uuid lk' ctx now' req t =
      Inr (\<lparr>ir_outcome = IncidentReplayed, ir_incident = i\<rparr>, t) \<and> incident_future (ir_incident r) i"
proof -
  have s': "incident_inv uuid s'" using assms(1-3) run_incident_change incident_change_inv by blast
  then have t: "incident_inv uuid t" "incident_history s' t" using incident_reachable assms(3,4) by blast+
  show ?thesis
  proof (cases req)
    case (CreateRequest input)
    then show ?thesis
      using created.replays [OF _ s' t, where env = "(_, _, _, _)" and env' = "(_, _, _, _)", simplified] assms(1) by simp
  next
    case (NoteRequest k op b)
    then show ?thesis using noted.replays [OF _ s' t] assms(1) by simp
  next
    case (ActionRequest k op ty a)
    then show ?thesis
      using action_linked.replays [OF _ s' t, where env = "(_, _, _, _, _)" and env' = "(_, _, _, _, _)", simplified] assms(1)
      by simp
  next
    case (AttemptRequest k op a rel)
    then show ?thesis
      using attempt_linked.replays [OF _ s' t, where env = "(_, _)" and env' = "(_, _)", simplified] assms(1) by simp
  next
    case (InterruptionRequest k op ep)
    then show ?thesis
      using interruption_linked.replays [OF _ s' t, where env = "(_, _, _)" and env' = "(_, _, _)", simplified] assms(1)
      by simp
  next
    case (InvestigateRequest k op v rc rt)
    then show ?thesis using investigated.replays [OF _ s' t] assms(1) by simp
  next
    case (SeverityRequest k op v sev rc rt)
    then show ?thesis using assms(5) by simp
  next
    case (ResolveRequest k op v sm rc)
    then show ?thesis using resolved.replays [OF _ s' t] assms(1) by simp
  next
    case (DismissRequest k op v sm rc)
    then show ?thesis using dismissed.replays [OF _ s' t] assms(1) by simp
  next
    case (DetectorRequest ep)
    then show ?thesis using detected.replays [OF _ s' t] assms(1,6) by simp
  qed
qed

lemma payloads_of_one_length:
  assumes "num_ok num" "payloadsEqual num (Some (JObj a)) (Some (JObj b))"
  shows "length a = length b"
  using assms(2) map_eq_imp_length_eq by (fastforce simp: payloadsEqual_iff [OF assms(1)])

text \<open>C28: A repeated severity change is refused as a conflict. When a severity change has been applied, repeating the very
  same request is never answered as a replay: the stored payload holds two keys the compared payload has not,
  so the repetition fails with an idempotency conflict, whatever happened in between.\<close>

theorem severity_change_does_not_replay:
  assumes "num_ok num" "incident_inv uuid s" "inj uuid"
    and "run_incident num dates op_uuid uuid lk ctx now (SeverityRequest k op v sev rc rt) s = Inr (r, s')"
    and "ir_outcome r = IncidentApplied" "(incident_step num dates op_uuid uuid)\<^sup>*\<^sup>* s' t"
  shows "run_incident num dates op_uuid uuid lk' ctx now' (SeverityRequest k op v sev rc rt) t =
    Inl (operation_conflict op COMMAND_SEVERITY)"
proof -
  have s': "incident_inv uuid s'" using assms(2,3) run_incident_change [OF assms(4)] incident_change_inv by blast
  then have "incident_history s' t" using incident_reachable [OF assms(6) _ assms(3)] by blast
  then obtain es where es: "is_events t = is_events s' @ es" by (auto simp: incident_history_def prefix_def)
  have sev: "(sev \<in> set VALID_SEVERITIES) = True" using assms(4) by (auto simp: changeIncidentSeverity_def cmd_iff)
  obtain e where e: "is_events s' = is_events s @ [e]" "findEventByOperationId ctx op s = None"
      "xe_operationId e = op" "xe_organizationId e = rx_organizationId ctx" "xe_commandType e = COMMAND_SEVERITY"
      "\<exists>es. xe_payload e = JObj es \<and> length es = 7"
    using assms(4,5) unfolding run_incident.simps changeIncidentSeverity_def sev bindC_pure
    by (elim version_bump_cases) (auto simp: same_incident_def event_row_def spread_simps)
  have "findEventByOperationId ctx op t = Some e"
    using e es by (simp add: findEventByOperationId_def find_append)
  moreover have "\<not> payloadsEqual num (Some (xe_payload e)) (Some (JObj (spread [(''incidentId'', JStr k),
      (''expectedVersion'', version_json v)] ((''severity'', JStr sev) # reason_fields rc rt))))"
    using e(6) by (auto simp: spread_simps dest!: payloads_of_one_length [OF assms(1)])
  ultimately show ?thesis
    using e(5) unfolding run_incident.simps changeIncidentSeverity_def sev bindC_pure
    by (simp add: versionBumpCommand_def with_replay_def preReadOperationId_def isMatchingCommittedOperation_def
        bindC_def getsC_def throwC_def Let_def)
qed

section \<open>One update per version\<close>

text \<open>The requests that state the version they expect: incident and expected version.\<close>

fun expects :: "incident_request \<Rightarrow> (ident \<times> int) option" where
  "expects (InvestigateRequest k op v rc rt) = Some (k, v)"
| "expects (SeverityRequest k op v sev rc rt) = Some (k, v)"
| "expects (ResolveRequest k op v sm rc) = Some (k, v)"
| "expects (DismissRequest k op v sm rc) = Some (k, v)"
| "expects _ = None"

lemma version_bump_applied:
  assumes "versionBumpCommand num uuid ctx k op v cmd bf allowed ty aa am ep f now s = Inr (r, s')"
    and "\<And>n i. same_incident i (f n i)" "\<And>n i. inc_version (f n i) = n" "ir_outcome r = IncidentApplied"
  shows "\<exists>i. find_incident ctx k s = Some i \<and> inc_version i = v \<and>
    find_incident ctx k s' = Some (ir_incident r) \<and> inc_version (ir_incident r) = v + 1"
  using assms(1,2)
proof (cases rule: version_bump_cases)
  case (applied i e)
  have "find_incident ctx k (s\<lparr>is_incidents := upd_incident ctx k (f (v + 1)) (is_incidents s)\<rparr>) = Some (f (v + 1) i)"
    using applied(2) assms(2) [of i "v + 1"] find_incident_id [OF applied(2)]
    by (intro find_upd_incident) (auto simp: same_incident_def)
  then show ?thesis using applied assms(3) by (simp add: find_incident_def)
qed (use assms(4) in simp)

lemma expects_applied:
  assumes "run_incident num dates op_uuid uuid lk ctx now req s = Inr (r, s')" "expects req = Some (k, v)"
    and "ir_outcome r = IncidentApplied"
  shows "\<exists>i. find_incident ctx k s = Some i \<and> inc_version i = v \<and>
    find_incident ctx k s' = Some (ir_incident r) \<and> inc_version (ir_incident r) = v + 1"
  using assms
  by (cases req) (auto simp: startIncidentInvestigation_def changeIncidentSeverity_def resolveExamIncident_def
      dismissExamIncident_def cmd_iff Let_def same_incident_def intro: version_bump_applied)

text \<open>C29: Of the requests that expect one version of an incident at most one is ever applied. After a request
  that expected a version of an incident was applied, no request of the organization that expects the same
  version is applied, however long after and whatever its operation.\<close>

theorem one_update_per_version:
  assumes "run_incident num dates op_uuid uuid lk ctx now req s = Inr (r, s')" "expects req = Some (k, v)"
    and "ir_outcome r = IncidentApplied" "incident_inv uuid s" "inj uuid"
    and "(incident_step num dates op_uuid uuid)\<^sup>*\<^sup>* s' t" "rx_organizationId ctx' = rx_organizationId ctx"
    and "run_incident num dates op_uuid uuid lk' ctx' now' req' t = Inr (r', t')" "expects req' = Some (k, v)"
  shows "ir_outcome r' = IncidentReplayed"
proof (rule ccontr)
  assume "\<not> ?thesis"
  then have "ir_outcome r' = IncidentApplied" by (cases "ir_outcome r'") auto
  from expects_applied [OF assms(8,9) this] assms(7) obtain j where j: "find_incident ctx k t = Some j" "inc_version j = v"
    by (auto simp: find_incident_def)
  from expects_applied [OF assms(1-3)] obtain i where i: "find_incident ctx k s' = Some i" "inc_version i = v + 1" by blast
  have s': "incident_inv uuid s'" using assms(4,5) run_incident_change [OF assms(1)] incident_change_inv by blast
  then have t: "incident_inv uuid t" "incident_history s' t" using incident_reachable [OF assms(6) _ assms(5)] by blast+
  obtain n where n: "n < length (is_incidents s')" "is_incidents s' ! n = i"
    using find_incident_id [OF i(1)] by (auto simp: in_set_conv_nth)
  then have fut: "incident_future i (is_incidents t ! n)" "is_incidents t ! n \<in> set (is_incidents t)"
    using t(2) by (auto simp: incident_history_def)
  then have "is_incidents t ! n = j"
    using t(1) find_incident_id [OF j(1)] find_incident_id [OF i(1)]
    by (intro inc_id_unique) (auto simp: incident_inv_def incident_future_def same_incident_def)
  then show False using fut(1) i(2) j(2) by (simp add: incident_future_def)
qed

section \<open>Scope of links\<close>

text \<open>The attempt a link names is in the scope of its incident: same organization, same exam, the anchored attempt
  if there is one, the candidate if there is one.\<close>

definition in_scope :: "(ident \<Rightarrow> AttemptScopeRow option) \<Rightarrow> RequestContext \<Rightarrow> ExamIncident \<Rightarrow> ident \<Rightarrow> bool" where
  "in_scope look ctx i a \<longleftrightarrow> (\<exists>row. look a = Some row \<and> sr_organizationId row = rx_organizationId ctx \<and>
     sr_examId row = inc_examId i \<and> (inc_attemptId i = None \<or> inc_attemptId i = Some a) \<and>
     (inc_candidateId i = None \<or> sr_candidateId row = inc_candidateId i))"

definition links_scoped ::
  "(ident \<Rightarrow> AttemptScopeRow option) \<Rightarrow> RequestContext \<Rightarrow> incident_store \<Rightarrow> IncidentCommandResult \<Rightarrow> incident_store \<Rightarrow> bool" where
  "links_scoped look ctx s r s' \<longleftrightarrow>
     (\<forall>x\<in>set (drop (length (is_actions s)) (is_actions s')).
        xa_incidentId x = inc_id (ir_incident r) \<and> in_scope look ctx (ir_incident r) (xa_attemptId x) \<and>
        findActionLinkByAction ctx (xa_actionType x) (xa_actionId x) s = None) \<and>
     (\<forall>x\<in>set (drop (length (is_attempts s)) (is_attempts s')).
        xm_incidentId x = inc_id (ir_incident r) \<and> inc_attemptId (ir_incident r) = None \<and>
        in_scope look ctx (ir_incident r) (xm_attemptId x)) \<and>
     (\<forall>x\<in>set (drop (length (is_links s)) (is_links s')).
        xl_incidentId x = inc_id (ir_incident r) \<and> in_scope look ctx (ir_incident r) (xl_attemptId x))"

lemma links_scoped_none:
  "is_actions s' = is_actions s \<Longrightarrow> is_attempts s' = is_attempts s \<Longrightarrow> is_links s' = is_links s \<Longrightarrow> links_scoped look ctx s r s'"
  by (simp add: links_scoped_def)

lemma with_replay_scoped:
  assumes "with_replay num ctx op cmd payload body s = Inr (r, s')" "body s = Inr (r, s') \<Longrightarrow> links_scoped look ctx s r s'"
  shows "links_scoped look ctx s r s'"
  using assms(1) by (cases rule: with_replay_cases) (auto intro: assms(2) links_scoped_none)

lemma version_bump_scoped:
  assumes "versionBumpCommand num uuid ctx k op v cmd bf allowed ty aa am ep f now s = Inr (r, s')"
    and "\<And>n i. same_incident i (f n i)"
  shows "links_scoped look ctx s r s'"
  using assms by (cases rule: version_bump_cases) (auto intro: links_scoped_none)

lemma scope_quadruple:
  "validateScopeQuadruple i row a (rx_organizationId ctx) = Inr u \<Longrightarrow> look a = Some row \<Longrightarrow> in_scope look ctx i a"
  by (auto simp: validateScopeQuadruple_def in_scope_def cmd_iff guardR_def split: if_splits)

lemma note_scoped: "addIncidentNote num uuid ctx k op b now s = Inr (r, s') \<Longrightarrow> links_scoped look ctx s r s'"
  unfolding addIncidentNote_def
  by (auto simp: cmd_iff Let_def links_scoped_none elim!: with_replay_scoped)

lemma create_scoped:
  "createExamIncident num dates uuid le la lr ctx input now s = Inr (r, s') \<Longrightarrow> links_scoped look ctx s r s'"
  unfolding createExamIncident_def
  by (auto simp: cmd_iff Let_def links_scoped_none elim!: with_replay_scoped)

lemma action_scoped:
  assumes "linkIncidentAction num uuid l1 l2 look l3 ctx k op ty a now s = Inr (r, s')"
  shows "links_scoped look ctx s r s'"
  using assms unfolding linkIncidentAction_def Let_def
  by (auto simp: cmd_iff catch_link simp del: catchC_iff elim!: with_replay_scoped)
    (auto simp: links_scoped_def findActionLinkByAction_def dest: scope_quadruple find_incident_id)

lemma attempt_scoped:
  assumes "linkIncidentAttempt num uuid look ctx k op a rel now s = Inr (r, s')"
  shows "links_scoped look ctx s r s'"
  using assms unfolding linkIncidentAttempt_def Let_def
  by (auto simp: cmd_iff catch_link simp del: catchC_iff elim!: with_replay_scoped)
    (auto simp: links_scoped_def dest: scope_quadruple find_incident_id)

lemma interruption_scoped:
  assumes "linkIncidentInterruption num uuid l1 look ctx k op ep now s = Inr (r, s')"
  shows "links_scoped look ctx s r s'"
  using assms unfolding linkIncidentInterruption_def Let_def
  by (auto simp: cmd_iff catch_link simp del: catchC_iff elim!: with_replay_scoped)
    (auto simp: links_scoped_def dest: scope_quadruple find_incident_id)

lemma detector_scoped:
  assumes "createSystemIncidentFromHeartbeatEpisode num dates op_uuid uuid l1 l2 look ctx ep now s = Inr (r, s')"
  shows "links_scoped look ctx s r s'"
  using assms unfolding createSystemIncidentFromHeartbeatEpisode_def Let_def
  by (auto simp: cmd_iff elim!: with_replay_scoped) (auto simp: links_scoped_def in_scope_def new_incident_def)

text \<open>Links stay within the scope of their incident. Whatever action, attempt or interruption link a command
  writes belongs to the incident it answers and names an attempt of the same organization and exam, the
  anchored attempt and the candidate of the incident if it has them; a linked action was not linked before,
  and only an incident without an anchor has further attempts.\<close>

lemma links_within_scope:
  assumes "run_incident num dates op_uuid uuid lk ctx now req s = Inr (r, s')"
  shows "links_scoped (lk_attempt lk) ctx s r s'"
  using assms
  by (cases req) (auto simp: startIncidentInvestigation_def changeIncidentSeverity_def resolveExamIncident_def
      dismissExamIncident_def cmd_iff Let_def same_incident_def
      intro: note_scoped create_scoped action_scoped attempt_scoped interruption_scoped detector_scoped version_bump_scoped)

section \<open>A sample history\<close>

definition sample_ctx :: RequestContext where
  "sample_ctx = \<lparr>rx_actorId = ''u9'', rx_organizationId = ''o1'', rx_role = ''Proctor''\<rparr>"

definition sample_dates :: dates where
  "sample_dates = \<lparr>dt_parse = (\<lambda>s. Some (int (length s))), dt_iso = (\<lambda>t. ''T'')\<rparr>"

definition sample_lookups :: incident_lookups where
  "sample_lookups = \<lparr>lk_exam = (\<lambda>e. if e = ''e1'' then Some ''o1'' else None),
     lk_attempt = (\<lambda>a. if a = ''a1'' then Some \<lparr>sr_examId = ''e1'', sr_candidateId = Some ''u1'', sr_organizationId = ''o1''\<rparr> else None),
     lk_enrollment = (\<lambda>e u. True), lk_adjustmentAttempt = (\<lambda>a. None), lk_forceSubmitAudit = (\<lambda>a. True),
     lk_actionLink = (\<lambda>t a. False), lk_interruptionAttempt = (\<lambda>i. None), lk_episode = (\<lambda>e. None),
     lk_detected = (\<lambda>e. None)\<rparr>"

definition sample_create :: incident_request where
  "sample_create = CreateRequest \<lparr>ci_operationId = ''p1'', ci_examId = ''e1'', ci_attemptId = None, ci_candidateId = None,
     ci_type = ''other'', ci_severity = None, ci_occurredAt = None, ci_description = Some ''d''\<rparr>"

definition no_incidents :: incident_store where
  "no_incidents = \<lparr>is_incidents = [], is_events = [], is_actions = [], is_attempts = [], is_links = [],
     is_audit = [], is_drawn = 0\<rparr>"

definition sample_run :: "incident_request \<Rightarrow> IncidentCommandResult incident_cmd" where
  "sample_run = run_incident unary_num sample_dates id sample_uuid sample_lookups sample_ctx 100"

definition sample_opened :: "IncidentCommandResult \<times> incident_store" where
  "sample_opened = projr (sample_run sample_create no_incidents)"

definition sample_severity :: incident_request where
  "sample_severity = SeverityRequest (sample_uuid 0) ''p2'' 1 ''major'' None None"

definition sample_raised :: "IncidentCommandResult \<times> incident_store" where
  "sample_raised = projr (sample_run sample_severity (snd sample_opened))"

lemma sample_opened_run: "sample_run sample_create no_incidents = Inr sample_opened"
proof -
  have "\<not> isl (sample_run sample_create no_incidents)" by code_simp
  then show ?thesis by (simp add: sample_opened_def)
qed

lemma sample_raised_run: "sample_run sample_severity (snd sample_opened) = Inr sample_raised"
proof -
  have "\<not> isl (sample_run sample_severity (snd sample_opened))" by code_simp
  then show ?thesis by (simp add: sample_raised_def)
qed

lemma sample_uuid_inj: "inj sample_uuid"
  by (auto simp: inj_def sample_uuid_def)

lemma no_incidents_inv: "incident_inv uuid no_incidents"
  by (simp add: incident_inv_def no_incidents_def)

lemma sample_incident_step:
  "sample_run req s = Inr r \<Longrightarrow> incident_step unary_num sample_dates id sample_uuid s (snd r)"
  unfolding sample_run_def by (cases r) (auto intro: incident_step.intros)

lemma sample_incident_steps:
  "(incident_step unary_num sample_dates id sample_uuid)\<^sup>*\<^sup>* no_incidents (snd sample_opened)"
  "(incident_step unary_num sample_dates id sample_uuid)\<^sup>*\<^sup>* (snd sample_opened) (snd sample_raised)"
  using sample_incident_step [OF sample_opened_run] sample_incident_step [OF sample_raised_run] by auto

lemma sample_opened_inv: "incident_inv sample_uuid (snd sample_opened)"
  using incident_reachable [OF sample_incident_steps(1) no_incidents_inv sample_uuid_inj] by blast

lemma sample_raised_applied: "ir_outcome (fst sample_raised) = IncidentApplied" by code_simp

theorem incident_history_append_only_witness:
  "incident_inv sample_uuid (snd sample_raised) \<and> incident_history no_incidents (snd sample_raised)"
  using incident_history_append_only [OF rtranclp_trans [OF sample_incident_steps] no_incidents_inv sample_uuid_inj] .

theorem incident_command_replays_witness:
  "\<exists>i. run_incident unary_num sample_dates id sample_uuid sample_lookups sample_ctx 500 sample_create (snd sample_raised) =
     Inr (\<lparr>ir_outcome = IncidentReplayed, ir_incident = i\<rparr>, snd sample_raised) \<and>
     incident_future (ir_incident (fst sample_opened)) i"
proof (rule incident_command_replays [OF _ no_incidents_inv sample_uuid_inj sample_incident_steps(2)])
  show "run_incident unary_num sample_dates id sample_uuid sample_lookups sample_ctx 100 sample_create no_incidents =
    Inr (fst sample_opened, snd sample_opened)"
    using sample_opened_run by (simp add: sample_run_def)
qed (simp_all add: sample_create_def)

theorem severity_change_does_not_replay_witness:
  "sample_run sample_severity (snd sample_raised) = Inl (operation_conflict ''p2'' COMMAND_SEVERITY)"
proof -
  have "sample_run sample_severity (snd sample_opened) = Inr (fst sample_raised, snd sample_raised)"
    using sample_raised_run by simp
  from severity_change_does_not_replay [OF num_ok_unary sample_opened_inv sample_uuid_inj this
      [unfolded sample_run_def sample_severity_def] sample_raised_applied rtranclp.rtrancl_refl]
  show ?thesis by (simp add: sample_run_def sample_severity_def)
qed

theorem one_update_per_version_witness:
  "\<not> (\<exists>r t. sample_run (ResolveRequest (sample_uuid 0) ''p3'' 1 ''done'' None) (snd sample_raised) =
      Inr (r, t) \<and> ir_outcome r = IncidentApplied)"
proof
  assume "\<exists>r t. sample_run (ResolveRequest (sample_uuid 0) ''p3'' 1 ''done'' None) (snd sample_raised) =
      Inr (r, t) \<and> ir_outcome r = IncidentApplied"
  then obtain r t where rt: "sample_run (ResolveRequest (sample_uuid 0) ''p3'' 1 ''done'' None) (snd sample_raised) = Inr (r, t)"
      "ir_outcome r = IncidentApplied" by blast
  have "sample_run sample_severity (snd sample_opened) = Inr (fst sample_raised, snd sample_raised)"
    using sample_raised_run by simp
  from one_update_per_version [OF this [unfolded sample_run_def] _ sample_raised_applied sample_opened_inv sample_uuid_inj
      rtranclp.rtrancl_refl refl rt(1) [unfolded sample_run_def]]
  have "ir_outcome r = IncidentReplayed" by (simp add: sample_severity_def)
  with rt(2) show False by simp
qed

lemma links_within_scope_witness:
  "\<exists>r s'. sample_run (AttemptRequest (sample_uuid 0) ''p4'' ''a1'' ''affected'') (snd sample_opened) = Inr (r, s') \<and>
     map xm_attemptId (is_attempts s') = [''a1''] \<and> links_scoped (lk_attempt sample_lookups) sample_ctx (snd sample_opened) r s'"
proof -
  let ?run = "sample_run (AttemptRequest (sample_uuid 0) ''p4'' ''a1'' ''affected'') (snd sample_opened)"
  have "\<not> isl ?run" "map xm_attemptId (is_attempts (snd (projr ?run))) = [''a1'']" by code_simp+
  then obtain r s' where run: "?run = Inr (r, s')" "map xm_attemptId (is_attempts s') = [''a1'']"
    by (cases ?run) auto
  from links_within_scope [OF run(1) [unfolded sample_run_def]] run show ?thesis by (intro exI conjI)
qed

end
