(* ===== verification/Operation_Recovery.thy ===== *)
theory Operation_Recovery
  imports Proctor_Laws Incident_Laws
begin

text \<open>
  Commands under interference: \<^verbatim>\<open>executeInTransaction\<close> of \<^verbatim>\<open>packages/db/src/types.ts\<close> and the wrappers that run a
  command, lose a race and recover in fresh transactions,
  \<^verbatim>\<open>apps/api/src/orchestrators/proctorAssignmentOperationRecovery.ts\<close> and \<^verbatim>\<open>incidentOperationRecovery.ts\<close>.

  What other actors do is an environment: the \<open>n\<close>-th transaction the server begins sees the committed store
  \<open>te_snapshot n\<close>, whatever happened in between, and the database may abort it with an error of its own. The
  number of the next transaction is threaded through, so a wrapper is a function of it.
\<close>

section \<open>Transactions\<close>

record 's tx_env =
  te_snapshot :: "nat \<Rightarrow> 's"
  te_fault :: "nat \<Rightarrow> (err_heap \<times> err_value) option"

datatype tx_error = AppThrown app_error | DriverThrown err_heap err_value

fun thrown_object :: "tx_error \<Rightarrow> err_heap \<times> err_value" where
  "thrown_object (AppThrown e) = (error_object e, Ref 0)"
| "thrown_object (DriverThrown heap v) = (heap, v)"

definition violates :: "tx_error \<Rightarrow> string \<Rightarrow> bool" where
  "violates err constraintName = (case thrown_object err of (heap, v) \<Rightarrow> isConstraintViolation heap v constraintName)"

definition serialization_failure :: "tx_error \<Rightarrow> bool" where
  "serialization_failure err = (case thrown_object err of (heap, v) \<Rightarrow> isSerializationFailure heap v)"

definition retryable :: "tx_error \<Rightarrow> bool" where
  "retryable err = (case thrown_object err of (heap, v) \<Rightarrow> isRetryableError heap v)"

text \<open>A computation over transactions: an error, or a value with the store its transaction committed, and the
  number of the next transaction.\<close>

type_synonym ('s, 'a) tx = "nat \<Rightarrow> (tx_error + 'a \<times> 's) \<times> nat"

definition db_transaction :: "'s tx_env \<Rightarrow> ('s, app_error, 'a) cmd \<Rightarrow> ('s, 'a) tx" where
  "db_transaction env fn n =
     (case te_fault env n of
        Some (heap, v) \<Rightarrow> Inl (DriverThrown heap v)
      | None \<Rightarrow> (case fn (te_snapshot env n) of Inl e \<Rightarrow> Inl (AppThrown e) | Inr r \<Rightarrow> Inr r), Suc n)"

definition returnT :: "'a \<times> 's \<Rightarrow> ('s, 'a) tx" where
  "returnT r n = (Inr r, n)"

definition throwT :: "tx_error \<Rightarrow> ('s, 'a) tx" where
  "throwT err n = (Inl err, n)"

text \<open>\<^verbatim>\<open>try\<close> with what follows on success and the handler.\<close>

definition tryT :: "('s, 'a) tx \<Rightarrow> ('a \<times> 's \<Rightarrow> ('s, 'b) tx) \<Rightarrow> (tx_error \<Rightarrow> ('s, 'b) tx) \<Rightarrow> ('s, 'b) tx" where
  "tryT m ok handler n = (case m n of (Inr r, k) \<Rightarrow> ok r k | (Inl err, k) \<Rightarrow> handler err k)"

text \<open>The loop of \<^verbatim>\<open>executeInTransaction\<close> with the number of tries left after the current one.\<close>

fun transaction_tries :: "'s tx_env \<Rightarrow> ('s, app_error, 'a) cmd \<Rightarrow> nat \<Rightarrow> ('s, 'a) tx" where
  "transaction_tries env fn 0 = db_transaction env fn"
| "transaction_tries env fn (Suc tries) =
     tryT (db_transaction env fn) returnT
       (\<lambda>err. if retryable err then transaction_tries env fn tries else throwT err)"

definition MAX_RETRIES :: nat where "MAX_RETRIES = 3"

definition executeInTransaction :: "'s tx_env \<Rightarrow> ('s, app_error, 'a) cmd \<Rightarrow> ('s, 'a) tx" where
  "executeInTransaction env fn = transaction_tries env fn MAX_RETRIES"

text \<open>What both wrappers do after a lost race: a fresh transaction looks the operation up; its answer wins,
  and without one the error at hand is thrown.\<close>

definition settle :: "'s tx_env \<Rightarrow> ('s, app_error, 'a option) cmd \<Rightarrow> tx_error \<Rightarrow> ('s, 'a) tx" where
  "settle env resolve err =
     tryT (executeInTransaction env resolve)
       (\<lambda>(found, s). case found of Some r \<Rightarrow> returnT (r, s) | None \<Rightarrow> throwT err) throwT"

section \<open>Recovery of an assignment command\<close>

definition resolve_assignment ::
  "(jsnum \<Rightarrow> string) \<Rightarrow> RequestContext \<Rightarrow> ident \<Rightarrow> string \<Rightarrow> json \<Rightarrow> ProctorCommandResult option proctor_cmd" where
  "resolve_assignment num ctx operationId commandType canonicalPayload =
     bindC (getsC (find_receipt ctx operationId)) (\<lambda>existing.
     case existing of
       None \<Rightarrow> returnC None
     | Some e \<Rightarrow>
         if matching_receipt num e commandType canonicalPayload
         then bindC (someC (find_assignment ctx (pe_assignmentId e)) (IdempotencyConflictError
                (''Operation '' @ operationId @ '' committed but its assignment is missing''))) (\<lambda>assignment.
              returnC (Some \<lparr>pr_outcome = AssignmentReplayed, pr_assignment = assignment\<rparr>))
         else throwC (operation_conflict operationId (pe_commandType e)))"

text \<open>The body of \<^verbatim>\<open>formLoserReceipt\<close>; the canonical payload names the exam and the proctor.\<close>

definition loser_receipt ::
  "(jsnum \<Rightarrow> string) \<Rightarrow> id_supply \<Rightarrow> RequestContext \<Rightarrow> ident \<Rightarrow> string \<Rightarrow> ident \<Rightarrow> ident \<Rightarrow> string option \<Rightarrow> time \<Rightarrow>
     ProctorCommandResult proctor_cmd" where
  "loser_receipt num uuid ctx operationId commandType examId proctorUserId reasonCode now =
     (let canonicalPayload = canonicalAssignmentPayload examId proctorUserId reasonCode in
      with_receipt num ctx operationId commandType canonicalPayload
        (bindC (someC (\<lambda>s. case findActiveByExamAndProctor ctx examId proctorUserId s of
             Some active \<Rightarrow> Some active
           | None \<Rightarrow> findMostRecentEpisodeByExamAndProctor ctx examId proctorUserId s)
           (NotFoundError ''Assignment episode not found'')) (\<lambda>episode.
         bindC (append_receipt uuid ctx
           (receipt_row ctx (pa_id episode) commandType operationId canonicalPayload ReceiptNoChange now)) (\<lambda>_.
         returnC \<lparr>pr_outcome = AssignmentNoChange, pr_assignment = episode\<rparr>))))"

definition withProctorAssignmentOperationRecovery ::
  "proctor_store tx_env \<Rightarrow> (jsnum \<Rightarrow> string) \<Rightarrow> id_supply \<Rightarrow> RequestContext \<Rightarrow> ident \<Rightarrow> string \<Rightarrow> ident \<Rightarrow> ident \<Rightarrow>
     string option \<Rightarrow> time \<Rightarrow> ProctorCommandResult proctor_cmd \<Rightarrow> (proctor_store, ProctorCommandResult) tx" where
  "withProctorAssignmentOperationRecovery env num uuid ctx operationId commandType examId proctorUserId reasonCode now run =
     (let canonicalPayload = canonicalAssignmentPayload examId proctorUserId reasonCode;
          resolved = settle env (resolve_assignment num ctx operationId commandType canonicalPayload) in
      tryT (executeInTransaction env run) returnT (\<lambda>primaryError.
        if violates primaryError ACTIVE_UNIQUE then
          tryT (executeInTransaction env
            (loser_receipt num uuid ctx operationId commandType examId proctorUserId reasonCode now)) returnT
            (\<lambda>receiptError. if violates receiptError EVENTS_OPERATION_UNIQUE then resolved receiptError else throwT receiptError)
        else if violates primaryError EVENTS_OPERATION_UNIQUE then
          tryT (executeInTransaction env run) returnT resolved
        else if serialization_failure primaryError then resolved primaryError
        else throwT primaryError))"

section \<open>Recovery of an incident command\<close>

definition INCIDENT_OPERATION_UNIQUE_CONSTRAINT :: string where
  "INCIDENT_OPERATION_UNIQUE_CONSTRAINT = ''exam_incident_events_org_operation_unique''"

definition isRecoverableConflictError :: "tx_error \<Rightarrow> bool" where
  "isRecoverableConflictError err =
     (case err of
        AppThrown (IncidentVersionConflictError _ _) \<Rightarrow> True
      | AppThrown (InvalidStateTransitionError _) \<Rightarrow> True
      | _ \<Rightarrow> False)"

definition resolve_incident ::
  "(jsnum \<Rightarrow> string) \<Rightarrow> RequestContext \<Rightarrow> ident \<Rightarrow> string \<Rightarrow> json \<Rightarrow> IncidentCommandResult option incident_cmd" where
  "resolve_incident num ctx operationId commandType canonicalPayload =
     bindC (getsC (findEventByOperationId ctx operationId)) (\<lambda>existing.
     case existing of
       None \<Rightarrow> returnC None
     | Some e \<Rightarrow>
         if isMatchingCommittedOperation num existing commandType canonicalPayload
         then bindC (someC (find_incident ctx (xe_incidentId e)) (IdempotencyConflictError
                (''Operation '' @ operationId @ '' committed but its incident is missing''))) (\<lambda>incident.
              returnC (Some \<lparr>ir_outcome = IncidentReplayed, ir_incident = incident\<rparr>))
         else throwC (operation_conflict operationId (xe_commandType e)))"

definition withIncidentOperationRecovery ::
  "incident_store tx_env \<Rightarrow> (jsnum \<Rightarrow> string) \<Rightarrow> RequestContext \<Rightarrow> ident \<Rightarrow> string \<Rightarrow> json \<Rightarrow>
     IncidentCommandResult incident_cmd \<Rightarrow> (incident_store, IncidentCommandResult) tx" where
  "withIncidentOperationRecovery env num ctx operationId commandType canonicalPayload run =
     (let resolved = settle env (resolve_incident num ctx operationId commandType canonicalPayload) in
      tryT (executeInTransaction env run) returnT (\<lambda>primaryError.
        if violates primaryError INCIDENT_OPERATION_UNIQUE_CONSTRAINT then
          tryT (executeInTransaction env run) returnT resolved
        else if isRecoverableConflictError primaryError \<or> serialization_failure primaryError then
          resolved primaryError
        else throwT primaryError))"

section \<open>Laws of the transactions\<close>

text \<open>What a computation over transactions guarantees: every value satisfies \<open>Q\<close> on the snapshot of one of its own
  unaborted transactions and the store it committed, and at most \<open>b\<close> transactions begin.\<close>

definition committed_by :: "'s tx_env \<Rightarrow> nat \<Rightarrow> ('a \<Rightarrow> 's \<Rightarrow> 's \<Rightarrow> bool) \<Rightarrow> ('s, 'a) tx \<Rightarrow> bool" where
  "committed_by env b Q m \<longleftrightarrow> (\<forall>n. n \<le> snd (m n) \<and> snd (m n) \<le> n + b \<and>
     (\<forall>r s'. fst (m n) = Inr (r, s') \<longrightarrow>
       (\<exists>k\<ge>n. k < snd (m n) \<and> te_fault env k = None \<and> Q r (te_snapshot env k) s')))"

lemma committed_by_throw [intro]: "committed_by env 0 Q (throwT err)"
  by (simp add: committed_by_def throwT_def)

lemma committed_by_mono: "committed_by env b Q m \<Longrightarrow> b \<le> c \<Longrightarrow> committed_by env c Q m"
  by (auto simp: committed_by_def) (meson add_left_mono order_trans)

lemma committed_by_weaken:
  "committed_by env b Q m \<Longrightarrow> (\<And>r n s'. te_fault env n = None \<Longrightarrow> Q r (te_snapshot env n) s' \<Longrightarrow> R r (te_snapshot env n) s') \<Longrightarrow>
     committed_by env b R m"
  unfolding committed_by_def by blast

lemma committed_by_try:
  assumes "committed_by env b Q m" "\<And>err. committed_by env c Q (handler err)"
  shows "committed_by env (b + c) Q (tryT m returnT handler)"
  unfolding committed_by_def
proof (rule allI)
  fix n
  let ?P = "\<lambda>m c n. n \<le> snd (m n) \<and> snd (m n) \<le> n + c \<and> (\<forall>r s'. fst (m n) = Inr (r, s') \<longrightarrow>
    (\<exists>k\<ge>n. k < snd (m n) \<and> te_fault env k = None \<and> Q r (te_snapshot env k) s'))"
  obtain x k where mn: "m n = (x, k)" by (cases "m n")
  have m: "?P m b n" using assms(1) by (simp add: committed_by_def)
  show "?P (tryT m returnT handler) (b + c) n"
  proof (cases x)
    case (Inl err)
    have "?P (handler err) c k" using assms(2) [of err] by (simp add: committed_by_def)
    then show ?thesis using m mn Inl by (auto simp: tryT_def) (meson order_trans)
  next
    case (Inr r)
    then show ?thesis using m mn by (auto simp: tryT_def returnT_def)
  qed
qed

lemma committed_by_transaction:
  "committed_by env 1 (\<lambda>r s s'. fn s = Inr (r, s')) (db_transaction env fn)"
  by (auto simp: committed_by_def db_transaction_def split: option.splits sum.splits prod.splits intro: exI [of _ n for n])

lemma committed_by_tries:
  "committed_by env (Suc k) (\<lambda>r s s'. fn s = Inr (r, s')) (transaction_tries env fn k)"
proof (induction k)
  case (Suc k)
  have "committed_by env (Suc k) (\<lambda>r s s'. fn s = Inr (r, s'))
      (if retryable err then transaction_tries env fn k else throwT err)" for err
    using Suc by (simp add: committed_by_mono [OF committed_by_throw])
  from committed_by_try [OF committed_by_transaction this] show ?case by simp
qed (use committed_by_transaction in simp)

lemma committed_by_execute:
  "committed_by env 4 (\<lambda>r s s'. fn s = Inr (r, s')) (executeInTransaction env fn)"
  using committed_by_tries [of env 3 fn] by (simp add: executeInTransaction_def MAX_RETRIES_def numeral_eq_Suc)

lemma committed_by_settle:
  "committed_by env 4 (\<lambda>r s s'. resolve s = Inr (Some r, s')) (settle env resolve err)"
  unfolding committed_by_def
proof (rule allI)
  fix n
  obtain x k where run: "executeInTransaction env resolve n = (x, k)" by (cases "executeInTransaction env resolve n")
  have "n \<le> k \<and> k \<le> n + 4 \<and> (\<forall>r s'. x = Inr (r, s') \<longrightarrow>
      (\<exists>j\<ge>n. j < k \<and> te_fault env j = None \<and> resolve (te_snapshot env j) = Inr (r, s')))"
    using committed_by_execute [of env resolve] run by (auto simp: committed_by_def dest: spec [of _ n])
  then show "n \<le> snd (settle env resolve err n) \<and> snd (settle env resolve err n) \<le> n + 4 \<and>
      (\<forall>r s'. fst (settle env resolve err n) = Inr (r, s') \<longrightarrow>
        (\<exists>j\<ge>n. j < snd (settle env resolve err n) \<and> te_fault env j = None \<and>
           resolve (te_snapshot env j) = Inr (Some r, s')))"
    by (auto simp: settle_def tryT_def run returnT_def throwT_def split: sum.splits option.splits)
qed

section \<open>What an assignment route answers\<close>

fun request_command :: "ProctorRequest \<Rightarrow> string" where
  "request_command (Assign op x p raw) = COMMAND_ASSIGN"
| "request_command (Revoke op x p raw) = COMMAND_REVOKE"

fun request_reason :: "ProctorRequest \<Rightarrow> string option" where
  "request_reason (Assign op x p raw) = raw"
| "request_reason (Revoke op x p raw) = raw"

text \<open>The two writing handlers of \<^verbatim>\<open>routes/proctorAssignments.admin.ts\<close>: the reason code is normalized first, then the
  command runs under recovery.\<close>

definition proctor_route ::
  "proctor_store tx_env \<Rightarrow> (jsnum \<Rightarrow> string) \<Rightarrow> dates \<Rightarrow> id_supply \<Rightarrow> RequestContext \<Rightarrow> ProctorRequest \<Rightarrow> proctor_env \<Rightarrow>
     (proctor_store, ProctorCommandResult) tx" where
  "proctor_route env num dates uuid ctx req penv =
     (case normalizeReasonCode num (request_reason req) of
        Inl e \<Rightarrow> throwT (AppThrown e)
      | Inr reason \<Rightarrow>
          withProctorAssignmentOperationRecovery env num uuid ctx (request_operation req) (request_command req)
            (fst (request_key req)) (snd (request_key req)) reason (snd (snd penv))
            (run_proctor num dates uuid ctx req penv))"

definition request_payload :: "ProctorRequest \<Rightarrow> string option \<Rightarrow> json" where
  "request_payload req reason = canonicalAssignmentPayload (fst (request_key req)) (snd (request_key req)) reason"

text \<open>The answer of a run stands on a receipt of its request.\<close>

definition answered_by ::
  "(jsnum \<Rightarrow> string) \<Rightarrow> RequestContext \<Rightarrow> ProctorRequest \<Rightarrow> ProctorCommandResult \<Rightarrow> proctor_store \<Rightarrow> bool" where
  "answered_by num ctx req r s \<longleftrightarrow> (\<exists>reason. normalizeReasonCode num (request_reason req) = Inr reason \<and>
     receipt_stands num ctx (request_operation req) (request_command req) (request_payload req reason) r s)"

lemma latest_found:
  assumes "x \<in> set rows"
  obtains r where "latest_by key rows = Some r"
  using assms latest_by_iff [of key rows] by (cases "sort_key key rows" rule: rev_cases) (auto dest: arg_cong [of _ _ set])

lemma recent_episode:
  assumes "(case findActiveByExamAndProctor ctx x p s of Some active \<Rightarrow> Some active
     | None \<Rightarrow> findMostRecentEpisodeByExamAndProctor ctx x p s) = Some a"
  shows "episode_of ctx x p a \<and> a \<in> set (ps_assignments s)"
  using assms find_active_D [of ctx x p s]
  by (auto simp: findMostRecentEpisodeByExamAndProctor_def split: option.splits dest!: latest_by_in)

lemma loser_cases:
  assumes "loser_receipt num uuid ctx op cmd x p reason now s = Inr (r, s')"
  obtains (replay) e where "find_receipt ctx op s = Some e" "matching_receipt num e cmd (canonicalAssignmentPayload x p reason)"
      "find_assignment ctx (pe_assignmentId e) s = Some (pr_assignment r)" "s' = s"
  | (formed) "find_receipt ctx op s = None" "episode_of ctx x p (pr_assignment r)" "pr_assignment r \<in> set (ps_assignments s)"
      "pr_outcome r = AssignmentNoChange"
      "s' = s\<lparr>ps_drawn := Suc (ps_drawn s), ps_events := ps_events s @ [receipt_row ctx (pa_id (pr_assignment r)) cmd op
         (canonicalAssignmentPayload x p reason) ReceiptNoChange now (uuid (ps_drawn s))]\<rparr>"
  using assms unfolding loser_receipt_def Let_def
proof (cases rule: with_receipt_cases)
  case fresh
  then obtain a where a: "(case findActiveByExamAndProctor ctx x p s of Some active \<Rightarrow> Some active
      | None \<Rightarrow> findMostRecentEpisodeByExamAndProctor ctx x p s) = Some a"
    by (auto simp: cmd_iff)
  then show ?thesis using fresh recent_episode [OF a] by (intro that(2)) (auto simp: cmd_iff)
qed (rule that(1))

lemma resolve_assignment_iff:
  "resolve_assignment num ctx op cmd payload s = Inr (Some r, s') \<longleftrightarrow> s' = s \<and> pr_outcome r = AssignmentReplayed \<and>
     (\<exists>e. find_receipt ctx op s = Some e \<and> matching_receipt num e cmd payload \<and>
        find_assignment ctx (pe_assignmentId e) s = Some (pr_assignment r))"
  by (cases r) (auto simp: resolve_assignment_def cmd_iff split: option.splits if_splits)

lemma run_answered:
  assumes "run_proctor num dates uuid ctx req penv s = Inr (r, s')" "proctor_inv uuid s"
    and "normalizeReasonCode num (request_reason req) = Inr reason"
  shows "receipt_stands num ctx (request_operation req) (request_command req) (request_payload req reason) r s'"
proof -
  obtain le lu now where env: "penv = (le, lu, now)" by (cases penv)
  have ids: "distinct (map pa_id (ps_assignments s))" using assms(2) by (simp add: proctor_inv_def)
  show ?thesis
  proof (cases req)
    case (Assign op x p raw)
    then show ?thesis using assign_stands [of num dates uuid ctx op x p raw le lu now s r s'] assms(1,3)
      by (simp add: env request_payload_def)
  next
    case (Revoke op x p raw)
    then show ?thesis using revoke_stands [of num dates uuid ctx op x p raw now s r s'] ids assms(1,3)
      by (simp add: env request_payload_def)
  qed
qed

lemma loser_answered:
  assumes "loser_receipt num uuid ctx op cmd x p reason now s = Inr (r, s')" "proctor_inv uuid s"
  shows "receipt_stands num ctx op cmd (canonicalAssignmentPayload x p reason) r s' \<and> proctor_change uuid s s'"
  using assms(1)
proof (cases rule: loser_cases)
  case (replay e)
  then show ?thesis using find_assignment_id [OF replay(3)] by (auto simp: receipt_stands_def proctor_change.replayed)
next
  case formed
  then have "receipt_stands num ctx op cmd (canonicalAssignmentPayload x p reason) r s'"
    by (intro find_own_receipt [OF formed(1)]) (auto simp: episode_of_def)
  moreover have "proctor_change uuid s s'" using formed
    by (intro proctor_change.kept [of s' s ctx "pr_assignment r"]) (auto simp: receipted_def episode_of_def)
  ultimately show ?thesis ..
qed

lemma resolve_answered:
  assumes "resolve_assignment num ctx op cmd payload s = Inr (Some r, s')"
  shows "receipt_stands num ctx op cmd payload r s' \<and> proctor_change uuid s s'"
  using assms find_assignment_id by (fastforce simp: resolve_assignment_iff receipt_stands_def intro: proctor_change.replayed)

text \<open>C23: Whatever other actors do, a successful answer of an assignment route stands on a durable receipt. For every
  interference of other transactions and every abort by the database, the route begins at most twelve transactions, and
  when it answers, one of them, seen by no abort, changed its own snapshot as a command may and committed a store
  that holds the receipt of this very request, pointing to the episode answered.\<close>

theorem route_answers_stand:
  assumes "\<forall>k. proctor_inv uuid (te_snapshot env k)"
  shows "snd (proctor_route env num dates uuid ctx req penv n) \<le> n + 12 \<and>
    (\<forall>r s'. fst (proctor_route env num dates uuid ctx req penv n) = Inr (r, s') \<longrightarrow>
      answered_by num ctx req r s' \<and>
      (\<exists>k\<ge>n. k < snd (proctor_route env num dates uuid ctx req penv n) \<and> te_fault env k = None \<and>
         proctor_change uuid (te_snapshot env k) s'))"
proof (cases "normalizeReasonCode num (request_reason req)")
  case (Inl e)
  then show ?thesis by (simp add: proctor_route_def throwT_def)
next
  case (Inr reason)
  let ?op = "request_operation req" and ?cmd = "request_command req" and ?payload = "request_payload req reason"
  let ?Q = "\<lambda>r s s'. receipt_stands num ctx ?op ?cmd ?payload r s' \<and> proctor_change uuid s s'"
  let ?run = "run_proctor num dates uuid ctx req penv"
  let ?loser = "loser_receipt num uuid ctx ?op ?cmd (fst (request_key req)) (snd (request_key req)) reason (snd (snd penv))"
  have run: "committed_by env 4 ?Q (executeInTransaction env ?run)"
    using assms run_answered [OF _ _ Inr] run_change by (intro committed_by_weaken [OF committed_by_execute]) blast
  have lost: "committed_by env 4 ?Q (executeInTransaction env ?loser)"
    using assms loser_answered unfolding request_payload_def by (intro committed_by_weaken [OF committed_by_execute]) blast
  have settled: "committed_by env 4 ?Q (settle env (resolve_assignment num ctx ?op ?cmd ?payload) err)" for err
    using resolve_answered by (intro committed_by_weaken [OF committed_by_settle]) blast
  have small: "committed_by env 8 ?Q (settle env (resolve_assignment num ctx ?op ?cmd ?payload) err)"
    "committed_by env 8 ?Q (throwT err)" "committed_by env 4 ?Q (throwT err)" for err
    by (rule committed_by_mono [OF settled] committed_by_mono [OF committed_by_throw]; simp)+
  have "committed_by env (4 + 8) ?Q (proctor_route env num dates uuid ctx req penv)"
    unfolding proctor_route_def Inr sum.case withProctorAssignmentOperationRecovery_def Let_def request_payload_def [symmetric]
  proof (rule committed_by_try [OF run])
    fix err
    have "committed_by env (4 + 4) ?Q (tryT (executeInTransaction env ?loser) returnT
        (\<lambda>e. if violates e EVENTS_OPERATION_UNIQUE then settle env (resolve_assignment num ctx ?op ?cmd ?payload) e else throwT e))"
      using settled small(3) by (intro committed_by_try [OF lost]) simp
    moreover have "committed_by env (4 + 4) ?Q (tryT (executeInTransaction env ?run) returnT
        (settle env (resolve_assignment num ctx ?op ?cmd ?payload)))"
      by (rule committed_by_try [OF run settled])
    ultimately show "committed_by env 8 ?Q (if violates err ACTIVE_UNIQUE then tryT (executeInTransaction env ?loser) returnT
        (\<lambda>e. if violates e EVENTS_OPERATION_UNIQUE then settle env (resolve_assignment num ctx ?op ?cmd ?payload) e else throwT e)
      else if violates err EVENTS_OPERATION_UNIQUE then tryT (executeInTransaction env ?run) returnT
        (settle env (resolve_assignment num ctx ?op ?cmd ?payload))
      else if serialization_failure err then settle env (resolve_assignment num ctx ?op ?cmd ?payload) err else throwT err)"
      using small by simp
  qed
  then show ?thesis using Inr unfolding committed_by_def answered_by_def by (auto dest!: spec [of _ n])
qed

section \<open>The loser of a race\<close>

lemma execute_success:
  assumes "te_fault env n = None" "fn (te_snapshot env n) = Inr r"
  shows "executeInTransaction env fn n = (Inr r, Suc n)"
  using assms by (simp add: executeInTransaction_def MAX_RETRIES_def numeral_eq_Suc tryT_def returnT_def db_transaction_def)

lemma execute_permanent:
  assumes "fst (db_transaction env fn n) = Inl err" "\<not> retryable err"
  shows "executeInTransaction env fn n = (Inl err, Suc n)"
  using assms by (simp add: executeInTransaction_def MAX_RETRIES_def numeral_eq_Suc tryT_def throwT_def db_transaction_def)

lemma with_receipt_fresh:
  "find_receipt ctx op s = None \<Longrightarrow> with_receipt num ctx op cmd payload body s = body s"
  by (simp add: with_receipt_def replay_receipt_def bindC_def getsC_def returnC_def)

lemma recent_episode_latest:
  assumes "(case findActiveByExamAndProctor ctx x p s of Some active \<Rightarrow> Some active
     | None \<Rightarrow> findMostRecentEpisodeByExamAndProctor ctx x p s) = Some a"
    and "b \<in> set (ps_assignments s)" "episode_of ctx x p b"
  shows "pa_status a = EpisodeActive \<or> pa_status b = EpisodeRevoked \<and> page_key b \<le> page_key a"
proof (cases "findActiveByExamAndProctor ctx x p s")
  case None
  then have "latest_by page_key (filter (episode_of ctx x p) (ps_assignments s)) = Some a"
    using assms(1) by (simp add: findMostRecentEpisodeByExamAndProctor_def page_key_def [abs_def])
  then show ?thesis using latest_by_max assms(2,3) None by (fastforce simp: find_active_None_iff)
next
  case (Some c)
  then show ?thesis using find_active_D [OF Some] assms(1) by simp
qed

text \<open>C24: The loser of an assignment race leaves its own receipt. When the insertion of an episode loses the race for the
  one active episode, and the next transaction sees no receipt of the operation but some episode of the proctor on the
  exam and is not aborted, the route answers that nothing changed, with the active episode, or the latest one when none is
  active any more, appends a receipt of its own, and changes neither episodes nor audit.\<close>

theorem losing_assignment_leaves_receipt:
  assumes "te_fault env n = Some (heap, v)" "isConstraintViolation heap v ACTIVE_UNIQUE" "\<not> isRetryableError heap v"
    and "normalizeReasonCode num raw = Inr reason" "te_fault env (Suc n) = None"
    and "t = te_snapshot env (Suc n)" "find_receipt ctx op t = None"
    and "b \<in> set (ps_assignments t)" "episode_of ctx x p b"
  shows "\<exists>a s'. proctor_route env num dates uuid ctx (Assign op x p raw) penv n =
      (Inr (\<lparr>pr_outcome = AssignmentNoChange, pr_assignment = a\<rparr>, s'), Suc (Suc n)) \<and>
    a \<in> set (ps_assignments t) \<and> episode_of ctx x p a \<and>
    (\<forall>c\<in>set (ps_assignments t). episode_of ctx x p c \<longrightarrow>
       pa_status a = EpisodeActive \<or> pa_status c = EpisodeRevoked \<and> page_key c \<le> page_key a) \<and>
    ps_assignments s' = ps_assignments t \<and> ps_audit s' = ps_audit t \<and>
    (\<exists>e. ps_events s' = ps_events t @ [e] \<and> pe_operationId e = op \<and> pe_assignmentId e = pa_id a \<and> pe_outcome e = ReceiptNoChange)"
proof -
  let ?recent = "case findActiveByExamAndProctor ctx x p t of Some active \<Rightarrow> Some active
    | None \<Rightarrow> findMostRecentEpisodeByExamAndProctor ctx x p t"
  let ?err = "DriverThrown heap v"
  have "\<exists>a. ?recent = Some a"
    using latest_found [of b "filter (episode_of ctx x p) (ps_assignments t)"] assms(8,9)
    by (auto simp: findMostRecentEpisodeByExamAndProctor_def split: option.splits)
  then obtain a where a: "?recent = Some a" ..
  let ?s' = "t\<lparr>ps_drawn := Suc (ps_drawn t), ps_events := ps_events t @ [receipt_row ctx (pa_id a) COMMAND_ASSIGN op
    (canonicalAssignmentPayload x p reason) ReceiptNoChange (snd (snd penv)) (uuid (ps_drawn t))]\<rparr>"
  let ?r = "\<lparr>pr_outcome = AssignmentNoChange, pr_assignment = a\<rparr>"
  have primary: "executeInTransaction env (run_proctor num dates uuid ctx (Assign op x p raw) penv) n = (Inl ?err, Suc n)"
    using assms(1,3) by (intro execute_permanent) (simp_all add: db_transaction_def retryable_def)
  have "loser_receipt num uuid ctx op COMMAND_ASSIGN x p reason (snd (snd penv)) t = Inr (?r, ?s')"
    using a assms(7) by (simp add: loser_receipt_def Let_def with_receipt_fresh cmd_iff)
  then have loser: "executeInTransaction env (loser_receipt num uuid ctx op COMMAND_ASSIGN x p reason (snd (snd penv))) (Suc n) =
      (Inr (?r, ?s'), Suc (Suc n))"
    using assms(5,6) by (intro execute_success) simp_all
  have "proctor_route env num dates uuid ctx (Assign op x p raw) penv n = (Inr (?r, ?s'), Suc (Suc n))"
    using assms(2,4) primary loser
    by (simp add: proctor_route_def withProctorAssignmentOperationRecovery_def Let_def tryT_def violates_def returnT_def)
  then show ?thesis using recent_episode [OF a] recent_episode_latest [OF a] by auto
qed

text \<open>C25: A lost race for an incident is decided by what was committed. When a command fails with a version or state
  conflict, one fresh transaction looks its operation up. With a committed matching operation the conflict is superseded
  by a replay of the incident as it then is, with another command under the same operation it becomes an idempotency
  conflict, and with none the original error is kept; nothing is written in any case.\<close>

theorem lost_race_decided_by_commit:
  assumes "executeInTransaction env run n = (Inl err, m)" "isRecoverableConflictError err"
    and "te_fault env m = None" "t = te_snapshot env m" "incident_inv uuid t"
  shows "(committed num ctx op cmd payload r s \<and> incident_history s t \<longrightarrow>
      (\<exists>i. withIncidentOperationRecovery env num ctx op cmd payload run n =
         (Inr (\<lparr>ir_outcome = IncidentReplayed, ir_incident = i\<rparr>, t), Suc m) \<and> incident_future (ir_incident r) i)) \<and>
    (\<forall>e. findEventByOperationId ctx op t = Some e \<and> \<not> isMatchingCommittedOperation num (Some e) cmd payload \<longrightarrow>
       withIncidentOperationRecovery env num ctx op cmd payload run n =
         (Inl (AppThrown (operation_conflict op (xe_commandType e))), Suc m)) \<and>
    (findEventByOperationId ctx op t = None \<longrightarrow>
       withIncidentOperationRecovery env num ctx op cmd payload run n = (Inl err, Suc m))"
proof -
  have app: "err = AppThrown e \<Longrightarrow> \<not> violates err INCIDENT_OPERATION_UNIQUE_CONSTRAINT" for e
    using assms(2) by (auto simp: isRecoverableConflictError_def violates_def isConstraintViolation_def error_object_def
        matches_constraint_def split: app_error.splits)
  then have with_resolve: "withIncidentOperationRecovery env num ctx op cmd payload run n =
      settle env (resolve_incident num ctx op cmd payload) err m"
    using assms(1,2) by (cases err) (auto simp: withIncidentOperationRecovery_def Let_def tryT_def isRecoverableConflictError_def)
  have found: "settle env (resolve_incident num ctx op cmd payload) err m = (Inr (r', t), Suc m)"
    if "resolve_incident num ctx op cmd payload t = Inr (Some r', t)" for r'
    using that assms(3,4) by (simp add: settle_def tryT_def execute_success returnT_def)
  have none: "settle env (resolve_incident num ctx op cmd payload) err m = (Inl err, Suc m)"
    if "resolve_incident num ctx op cmd payload t = Inr (None, t)"
    using that assms(3,4) by (simp add: settle_def tryT_def execute_success throwT_def)
  have conflict: "settle env (resolve_incident num ctx op cmd payload) err m = (Inl (AppThrown (operation_conflict op c)), Suc m)"
    if "resolve_incident num ctx op cmd payload t = Inl (operation_conflict op c)" for c
  proof -
    have "\<not> retryable (AppThrown (operation_conflict op c))"
      by (simp add: retryable_def isRetryableError_def hasPostgresErrorCode_def operation_conflict_def error_object_def)
    then have "executeInTransaction env (resolve_incident num ctx op cmd payload) m =
        (Inl (AppThrown (operation_conflict op c)), Suc m)"
      using that assms(3,4) by (intro execute_permanent) (simp_all add: db_transaction_def)
    then show ?thesis by (simp add: settle_def tryT_def throwT_def)
  qed
  have replay: "\<exists>i. settle env (resolve_incident num ctx op cmd payload) err m =
      (Inr (\<lparr>ir_outcome = IncidentReplayed, ir_incident = i\<rparr>, t), Suc m) \<and> incident_future (ir_incident r) i"
    if past: "committed num ctx op cmd payload r s" "incident_history s t"
  proof -
    obtain e i where "findEventByOperationId ctx op t = Some e" "isMatchingCommittedOperation num (Some e) cmd payload"
        "find_incident ctx (xe_incidentId e) t = Some i" "incident_future (ir_incident r) i"
      using committed_later [OF past assms(5)] by blast
    then show ?thesis by (intro exI [of _ i] conjI found) (simp_all add: resolve_incident_def cmd_iff)
  qed
  show ?thesis unfolding with_resolve
  proof (intro conjI impI allI)
    fix e assume "findEventByOperationId ctx op t = Some e \<and> \<not> isMatchingCommittedOperation num (Some e) cmd payload"
    then show "settle env (resolve_incident num ctx op cmd payload) err m =
        (Inl (AppThrown (operation_conflict op (xe_commandType e))), Suc m)"
      by (intro conflict) (simp add: resolve_incident_def cmd_iff)
  next
    assume "findEventByOperationId ctx op t = None"
    then show "settle env (resolve_incident num ctx op cmd payload) err m = (Inl err, Suc m)"
      by (intro none) (simp add: resolve_incident_def cmd_iff)
  qed (use replay in blast)
qed

section \<open>A sample race\<close>

text \<open>A first assignment commits between the snapshot and the insertion of a second one.\<close>

definition race_env :: "proctor_store tx_env" where
  "race_env = \<lparr>te_snapshot = (\<lambda>k. if k = 0 then no_assignments else after_assign),
     te_fault = (\<lambda>k. if k = 0 then Some (error_object (constraint_violation ACTIVE_UNIQUE), Ref 0) else None)\<rparr>"

definition late_assign :: ProctorRequest where "late_assign = Assign ''p9'' ''e1'' ''u7'' None"

lemma race_env_inv: "\<forall>k. proctor_inv row_uuid (te_snapshot race_env k)"
  by (simp add: race_env_def no_assignments_inv sample_proctor_inv)

lemma route_answers_stand_witness:
  "\<exists>r s'. fst (proctor_route race_env unary_num unary_dates row_uuid admin_ctx late_assign (at_time 5) 0) = Inr (r, s') \<and>
     answered_by unary_num admin_ctx late_assign r s'"
proof -
  have "\<not> isl (fst (proctor_route race_env unary_num unary_dates row_uuid admin_ctx late_assign (at_time 5) 0))" by code_simp
  from ran [OF this refl] show ?thesis
    using route_answers_stand [OF race_env_inv, of unary_num unary_dates admin_ctx late_assign "at_time 5" 0] by blast
qed

lemma losing_assignment_leaves_receipt_witness:
  "\<exists>a s'. proctor_route race_env unary_num unary_dates row_uuid admin_ctx late_assign (at_time 5) 0 =
     (Inr (\<lparr>pr_outcome = AssignmentNoChange, pr_assignment = a\<rparr>, s'), 2) \<and> ps_assignments s' = ps_assignments after_assign"
proof -
  have "te_fault race_env 0 = Some (error_object (constraint_violation ACTIVE_UNIQUE), Ref 0)" "te_fault race_env (Suc 0) = None"
    "after_assign = te_snapshot race_env (Suc 0)" by (simp_all add: race_env_def)
  moreover have "isConstraintViolation (error_object (constraint_violation ACTIVE_UNIQUE)) (Ref 0) ACTIVE_UNIQUE"
    "\<not> isRetryableError (error_object (constraint_violation ACTIVE_UNIQUE)) (Ref 0)"
    "normalizeReasonCode unary_num None = Inr None" "find_receipt admin_ctx ''p9'' after_assign = None" by code_simp+
  moreover have "hd (ps_assignments after_assign) \<in> set (ps_assignments after_assign)"
    "episode_of admin_ctx ''e1'' ''u7'' (hd (ps_assignments after_assign))" by code_simp+
  ultimately show ?thesis
    using losing_assignment_leaves_receipt [of race_env 0 _ _ unary_num None None after_assign admin_ctx "''p9''" _ "''e1''" "''u7''"
        unary_dates row_uuid "at_time 5"]
    by (fastforce simp: late_assign_def numeral_2_eq_2)
qed

definition stale_resolve :: incident_request where
  "stale_resolve = ResolveRequest (sample_uuid 0) ''p3'' 1 ''done'' None"

definition quiet_env :: "incident_store tx_env" where
  "quiet_env = \<lparr>te_snapshot = (\<lambda>k. snd sample_raised), te_fault = (\<lambda>k. None)\<rparr>"

lemma sample_raised_inv: "incident_inv sample_uuid (snd sample_raised)"
  using incident_reachable [OF rtranclp_trans [OF sample_incident_steps] no_incidents_inv sample_uuid_inj] by blast

lemma lost_race_decided_by_commit_witness:
  "withIncidentOperationRecovery quiet_env unary_num sample_ctx ''p3'' COMMAND_RESOLVE JNull (sample_run stale_resolve) 0 =
     (Inl (AppThrown (IncidentVersionConflictError 1 2)), 2)"
proof -
  have "fst (db_transaction quiet_env (sample_run stale_resolve) 0) = Inl (AppThrown (IncidentVersionConflictError 1 2))"
    "\<not> retryable (AppThrown (IncidentVersionConflictError 1 2))" by code_simp+
  from execute_permanent [OF this] have "executeInTransaction quiet_env (sample_run stale_resolve) 0 =
      (Inl (AppThrown (IncidentVersionConflictError 1 2)), Suc 0)" .
  moreover have "isRecoverableConflictError (AppThrown (IncidentVersionConflictError 1 2))"
    "te_fault quiet_env (Suc 0) = None" "snd sample_raised = te_snapshot quiet_env (Suc 0)"
    by (simp_all add: isRecoverableConflictError_def quiet_env_def)
  moreover have "findEventByOperationId sample_ctx ''p3'' (snd sample_raised) = None" by code_simp
  ultimately show ?thesis
    using lost_race_decided_by_commit [of quiet_env _ 0 _ "Suc 0" "snd sample_raised" sample_uuid] sample_raised_inv by simp
qed

end
