(* ===== verification/Authority.thy ===== *)
theory Authority
  imports Incident_Store "HOL-Library.Multiset"
begin

text \<open>
  The authority of a human actor: the permission catalogue and the role presets of
  \<^verbatim>\<open>packages/authz/src/catalog.ts\<close> and \<^verbatim>\<open>presets.ts\<close>, the derivation of an actor's authority from the role
  assignments of \<^verbatim>\<open>apps/api/src/authz/assignmentAuthority.ts\<close>, and the system actors of
  \<^verbatim>\<open>packages/authz/src/systemActor.ts\<close>. A permission and a role are the strings the catalogue gives them.
\<close>

section \<open>Catalogue\<close>

definition PERMISSIONS :: "string list" where
  "PERMISSIONS =
     [''user.view'', ''user.create'', ''user.update'', ''user.delete'', ''user.role.assign'',
      ''user.password.reset'', ''organization.view'', ''organization.update'', ''settings.view'',
      ''settings.update'', ''audit_log.view'', ''candidate.view'', ''candidate.create'', ''candidate.update'',
      ''candidate.import'', ''candidate.delete'', ''candidate_field.view'', ''candidate_field.create'',
      ''candidate_field.update'', ''candidate_field.delete'', ''course.view'', ''course.create'',
      ''course.update'', ''course.delete'', ''question.view'', ''question.create'', ''question.update'',
      ''question.delete'', ''question.import'', ''exam.view'', ''exam.create'', ''exam.update'',
      ''exam.publish'', ''exam.unpublish'', ''exam.close'', ''exam.cancel'', ''exam.archive'', ''exam.delete'',
      ''exam.extend'', ''exam.result.publish'', ''exam.enrollment.manage'', ''exam.take'',
      ''attempt.view_own'', ''attempt.start'', ''attempt.answer.save'', ''attempt.submit'',
      ''attempt.restore'', ''attempt.heartbeat.send'', ''score.own.view'', ''exam_room.view'',
      ''attempt.timeline.view'', ''attempt.misconduct.mark'', ''attempt.time.grant'', ''attempt.force_submit'',
      ''attempt.export'', ''grading.queue.view'', ''grading.detail.view'', ''grading.answer.view'',
      ''grading.score.write'', ''grading.finalize'', ''grading.identity.view'', ''score.all.view'',
      ''score.export'', ''system.health.view'', ''system.diagnostics.view'',
      ''system.business_integrity.view'', ''system.business_summary.view'', ''system.email.test'',
      ''system.info.view'', ''system.auto_submit'', ''system.heartbeat_scan'', ''system.lifecycle_reconcile'',
      ''system.incident.create'', ''incident.view'', ''incident.create'', ''incident.investigate'',
      ''incident.resolve'', ''incident.recovery.view'', ''exam.proctor_assignment.view'',
      ''exam.proctor_assignment.manage'', ''course.teacher_assignment.view'',
      ''course.teacher_assignment.manage'', ''exam.grader_assignment.view'', ''exam.grader_assignment.manage'']"

datatype ScopeType = ScopeSystem | ScopeOrganization | ScopeCourse | ScopeExam | ScopeAttempt | ScopeCandidate |
  ScopeOwnAttempt | ScopeOwnScore

section \<open>Role presets\<close>

definition ADMIN_PERMISSIONS :: "string list" where
  "ADMIN_PERMISSIONS =
     [''user.view'', ''user.create'', ''user.update'', ''user.delete'', ''user.role.assign'',
      ''user.password.reset'', ''organization.view'', ''organization.update'', ''settings.view'',
      ''settings.update'', ''audit_log.view'', ''candidate.view'', ''candidate.create'', ''candidate.update'',
      ''candidate.import'', ''candidate.delete'', ''candidate_field.view'', ''candidate_field.create'',
      ''candidate_field.update'', ''candidate_field.delete'', ''course.view'', ''course.create'',
      ''course.update'', ''course.delete'', ''question.view'', ''question.create'', ''question.update'',
      ''question.delete'', ''question.import'', ''exam.view'', ''exam.create'', ''exam.update'',
      ''exam.publish'', ''exam.unpublish'', ''exam.close'', ''exam.cancel'', ''exam.archive'', ''exam.delete'',
      ''exam.extend'', ''exam.result.publish'', ''exam.enrollment.manage'', ''exam_room.view'',
      ''attempt.timeline.view'', ''attempt.misconduct.mark'', ''attempt.time.grant'', ''attempt.force_submit'',
      ''attempt.export'', ''grading.queue.view'', ''grading.detail.view'', ''grading.answer.view'',
      ''grading.score.write'', ''grading.finalize'', ''grading.identity.view'', ''score.all.view'',
      ''score.export'', ''system.health.view'', ''system.diagnostics.view'',
      ''system.business_integrity.view'', ''system.business_summary.view'', ''system.email.test'',
      ''incident.view'', ''incident.create'', ''incident.investigate'', ''incident.resolve'',
      ''incident.recovery.view'', ''exam.proctor_assignment.view'', ''exam.proctor_assignment.manage'',
      ''course.teacher_assignment.view'', ''course.teacher_assignment.manage'',
      ''exam.grader_assignment.view'', ''exam.grader_assignment.manage'']"

definition TEACHER_PERMISSIONS :: "string list" where
  "TEACHER_PERMISSIONS =
     [''organization.view'', ''candidate.view'', ''course.view'', ''course.create'', ''course.update'',
      ''question.view'', ''question.create'', ''question.update'', ''question.delete'', ''question.import'',
      ''exam.view'', ''exam.create'', ''exam.update'', ''exam.publish'', ''exam.close'',
      ''exam.enrollment.manage'', ''exam.result.publish'', ''score.all.view'']"

definition PROCTOR_PERMISSIONS :: "string list" where
  "PROCTOR_PERMISSIONS =
     [''exam_room.view'', ''attempt.timeline.view'', ''incident.view'', ''incident.create'',
      ''incident.investigate'']"

definition GRADER_PERMISSIONS :: "string list" where
  "GRADER_PERMISSIONS =
     [''grading.queue.view'', ''grading.detail.view'', ''grading.answer.view'', ''grading.score.write'']"

definition MAINTAINER_PERMISSIONS :: "string list" where
  "MAINTAINER_PERMISSIONS =
     [''system.health.view'', ''system.diagnostics.view'']"

definition CANDIDATE_PERMISSIONS :: "string list" where
  "CANDIDATE_PERMISSIONS =
     [''exam.take'', ''attempt.view_own'', ''attempt.start'', ''attempt.answer.save'', ''attempt.submit'',
      ''attempt.restore'', ''attempt.heartbeat.send'', ''score.own.view'']"

definition SYSTEM_PERMISSIONS :: "string list" where
  "SYSTEM_PERMISSIONS =
     [''system.auto_submit'', ''system.heartbeat_scan'', ''system.lifecycle_reconcile'',
      ''system.incident.create'']"

record RolePreset =
  rp_key :: string
  rp_label :: string
  rp_isSystem :: bool
  rp_assignable :: bool
  rp_loginAllowed :: bool
  rp_defaultScope :: ScopeType
  rp_permissions :: "string list"
  rp_sensitivePermissions :: "string list"

definition human_preset :: "string \<Rightarrow> ScopeType \<Rightarrow> string list \<Rightarrow> string list \<Rightarrow> RolePreset" where
  "human_preset key scope permissions sensitive =
     \<lparr>rp_key = key, rp_label = key, rp_isSystem = True, rp_assignable = True, rp_loginAllowed = True,
      rp_defaultScope = scope, rp_permissions = permissions, rp_sensitivePermissions = sensitive\<rparr>"

definition ROLE_PRESETS :: "RolePreset list" where
  "ROLE_PRESETS =
     [human_preset ''Admin'' ScopeOrganization ADMIN_PERMISSIONS
        [''user.role.assign'', ''attempt.force_submit'', ''attempt.time.grant'', ''attempt.misconduct.mark'',
         ''incident.resolve'', ''grading.answer.view'', ''grading.score.write'', ''score.export''],
      human_preset ''Teacher'' ScopeCourse TEACHER_PERMISSIONS
        [''exam.publish'', ''exam.close'', ''exam.result.publish'', ''score.all.view''],
      human_preset ''Proctor'' ScopeExam PROCTOR_PERMISSIONS [],
      human_preset ''Grader'' ScopeExam GRADER_PERMISSIONS
        [''grading.detail.view'', ''grading.answer.view'', ''grading.score.write''],
      human_preset ''Candidate'' ScopeOwnAttempt CANDIDATE_PERMISSIONS [],
      human_preset ''Maintainer'' ScopeSystem MAINTAINER_PERMISSIONS [],
      \<lparr>rp_key = ''System'', rp_label = ''System'', rp_isSystem = True, rp_assignable = False,
       rp_loginAllowed = False, rp_defaultScope = ScopeSystem, rp_permissions = SYSTEM_PERMISSIONS,
       rp_sensitivePermissions = SYSTEM_PERMISSIONS\<rparr>]"

definition permissionsForRole :: "string \<Rightarrow> string list" where
  "permissionsForRole role =
     (case find (\<lambda>p. rp_key p = role) ROLE_PRESETS of Some p \<Rightarrow> rp_permissions p | None \<Rightarrow> [])"

section \<open>System actors\<close>

definition SYSTEM_ACTOR_IDS :: "string list" where
  "SYSTEM_ACTOR_IDS = [''system:deadline-scanner'', ''system:heartbeat'', ''system:incident-detector'',
     ''system:client-event-retention'']"

definition createSystemRequestContext :: "ident \<Rightarrow> ident \<Rightarrow> app_error + RequestContext" where
  "createSystemRequestContext organizationId actorId =
     bindR (guardR (actorId \<in> set SYSTEM_ACTOR_IDS) (EngineError (''Unknown system actor id: '' @ actorId @
       ''. Use SYSTEM_ACTOR_IDS.* from @exam/authz.''))) (\<lambda>_.
     Inr \<lparr>rx_actorId = actorId, rx_organizationId = organizationId, rx_role = ''System''\<rparr>)"

section \<open>The authority kernel\<close>

record UserRoleAssignmentRow =
  ur_id :: ident
  ur_organizationId :: ident
  ur_userId :: ident
  ur_role :: string
  ur_isPrimary :: bool
  ur_isActive :: bool
  ur_createdAt :: time
  ur_updatedAt :: time

record AssignmentAuthority =
  aa_primaryRole :: string
  aa_activeRoles :: "string list"
  aa_capabilities :: "string list"
  aa_assignmentIds :: "ident list"

datatype AuthorityFailure = NoActiveAssignments | ZeroPrimaryWithActive | MultiplePrimary | UnknownRole |
  SubjectMismatch | AuthorityDbError | DualAdminMaintainer

definition ASSIGNABLE_ROLE_KEYS :: "string list" where
  "ASSIGNABLE_ROLE_KEYS = [''Admin'', ''Teacher'', ''Proctor'', ''Grader'', ''Candidate'', ''Maintainer'']"

text \<open>\<^verbatim>\<open>ROLE_ORDER\<close>: the index of an assignable role; the lexical order of unknown roles is not reached, since a
  row with one is refused first.\<close>

definition role_order :: "string \<Rightarrow> nat" where
  "role_order role = length (takeWhile (\<lambda>r. r \<noteq> role) ASSIGNABLE_ROLE_KEYS)"

definition sortRolesCanonical :: "string list \<Rightarrow> string list" where
  "sortRolesCanonical roles = sort_key role_order (js_set roles)"

definition deriveAssignmentAuthority ::
  "UserRoleAssignmentRow list \<Rightarrow> ident \<Rightarrow> ident \<Rightarrow> AuthorityFailure + AssignmentAuthority" where
  "deriveAssignmentAuthority rows expectedOrganizationId expectedUserId =
     bindR (forR rows (\<lambda>r. guardR (ur_organizationId r = expectedOrganizationId \<and> ur_userId r = expectedUserId)
       SubjectMismatch)) (\<lambda>_.
     let active = filter ur_isActive rows in
     bindR (guardR (length active \<noteq> 0) NoActiveAssignments) (\<lambda>_.
     bindR (forR active (\<lambda>r. guardR (ur_role r \<in> set ASSIGNABLE_ROLE_KEYS) UnknownRole)) (\<lambda>_.
     let primaries = filter ur_isPrimary active in
     bindR (guardR (length primaries \<noteq> 0) ZeroPrimaryWithActive) (\<lambda>_.
     bindR (guardR (length primaries \<le> 1) MultiplePrimary) (\<lambda>_.
     let activeRoles = sortRolesCanonical (map ur_role active) in
     bindR (guardR (\<not> (''Admin'' \<in> set activeRoles \<and> ''Maintainer'' \<in> set activeRoles)) DualAdminMaintainer) (\<lambda>_.
     Inr \<lparr>aa_primaryRole = ur_role (hd primaries), aa_activeRoles = activeRoles,
          aa_capabilities = sort (js_set (concat (map permissionsForRole activeRoles))),
          aa_assignmentIds = map ur_id active\<rparr>))))))"

section \<open>What an authority is\<close>

lemma permissionsForRole_simps [simp]:
  "permissionsForRole ''Admin'' = ADMIN_PERMISSIONS" "permissionsForRole ''Teacher'' = TEACHER_PERMISSIONS"
  "permissionsForRole ''Proctor'' = PROCTOR_PERMISSIONS" "permissionsForRole ''Grader'' = GRADER_PERMISSIONS"
  "permissionsForRole ''Candidate'' = CANDIDATE_PERMISSIONS" "permissionsForRole ''Maintainer'' = MAINTAINER_PERMISSIONS"
  by (simp_all add: permissionsForRole_def ROLE_PRESETS_def human_preset_def)

definition held_roles :: "UserRoleAssignmentRow list \<Rightarrow> string set" where
  "held_roles rows = ur_role ` set (filter ur_isActive rows)"

definition authority_of :: "UserRoleAssignmentRow list \<Rightarrow> AssignmentAuthority" where
  "authority_of rows =
     (let active = filter ur_isActive rows; roles = sortRolesCanonical (map ur_role active) in
      \<lparr>aa_primaryRole = ur_role (hd (filter ur_isPrimary active)), aa_activeRoles = roles,
       aa_capabilities = sort (js_set (concat (map permissionsForRole roles))), aa_assignmentIds = map ur_id active\<rparr>)"

lemma set_sortRolesCanonical [simp]: "set (sortRolesCanonical roles) = set roles"
  by (simp add: sortRolesCanonical_def)

lemma derive_iff:
  "deriveAssignmentAuthority rows org user = Inr a \<longleftrightarrow>
     (\<forall>r\<in>set rows. ur_organizationId r = org \<and> ur_userId r = user) \<and>
     held_roles rows \<noteq> {} \<and> held_roles rows \<subseteq> set ASSIGNABLE_ROLE_KEYS \<and>
     length (filter ur_isPrimary (filter ur_isActive rows)) = 1 \<and>
     \<not> (''Admin'' \<in> held_roles rows \<and> ''Maintainer'' \<in> held_roles rows) \<and> a = authority_of rows"
  (is "?lhs \<longleftrightarrow> ?rhs")
proof -
  let ?n = "length (filter ur_isPrimary (filter ur_isActive rows))"
  have one: "?n \<noteq> 0 \<and> ?n \<le> 1 \<longleftrightarrow> ?n = 1" by linarith
  have "?lhs \<longleftrightarrow> (\<forall>r\<in>set rows. ur_organizationId r = org \<and> ur_userId r = user) \<and> held_roles rows \<noteq> {} \<and>
      held_roles rows \<subseteq> set ASSIGNABLE_ROLE_KEYS \<and> (?n \<noteq> 0 \<and> ?n \<le> 1) \<and>
      \<not> (''Admin'' \<in> held_roles rows \<and> ''Maintainer'' \<in> held_roles rows) \<and> a = authority_of rows"
    unfolding deriveAssignmentAuthority_def Let_def bindR_Inr_iff forR_Inr_iff guardR_iff length_0_conv
    by (simp only: held_roles_def authority_of_def Let_def image_is_empty set_empty set_sortRolesCanonical set_map) blast
  then show ?thesis unfolding one .
qed

lemma capability_iff:
  assumes "deriveAssignmentAuthority rows org user = Inr a"
  shows "p \<in> set (aa_capabilities a) \<longleftrightarrow> (\<exists>role\<in>held_roles rows. p \<in> set (permissionsForRole role))"
    and "set (aa_activeRoles a) = held_roles rows"
  using assms unfolding derive_iff by (auto simp: authority_of_def Let_def held_roles_def)

lemma role_order_inj: "inj_on role_order (set ASSIGNABLE_ROLE_KEYS)"
  by (auto simp: inj_on_def role_order_def ASSIGNABLE_ROLE_KEYS_def)

lemma sortRolesCanonical_unique:
  assumes "set xs = set ys" "set xs \<subseteq> set ASSIGNABLE_ROLE_KEYS"
  shows "sortRolesCanonical xs = sortRolesCanonical ys"
proof (rule map_sorted_distinct_set_unique [of role_order])
  show "inj_on role_order (set (sortRolesCanonical xs) \<union> set (sortRolesCanonical ys))"
    using inj_on_subset [OF role_order_inj] assms by simp
  have inj: "inj_on role_order (set xs)" "inj_on role_order (set ys)" using inj_on_subset [OF role_order_inj] assms by simp_all
  then show "distinct (map role_order (sortRolesCanonical xs))" "distinct (map role_order (sortRolesCanonical ys))"
    by (simp_all add: sortRolesCanonical_def distinct_map)
qed (use assms in \<open>simp_all add: sortRolesCanonical_def\<close>)

definition staff_row :: "ident \<Rightarrow> string \<Rightarrow> bool \<Rightarrow> bool \<Rightarrow> UserRoleAssignmentRow" where
  "staff_row i role primary active = \<lparr>ur_id = i, ur_organizationId = ''org'', ur_userId = ''u'', ur_role = role,
     ur_isPrimary = primary, ur_isActive = active, ur_createdAt = 0, ur_updatedAt = 0\<rparr>"

definition staff_rows :: "UserRoleAssignmentRow list" where
  "staff_rows = [staff_row ''1'' ''Proctor'' False True, staff_row ''2'' ''Teacher'' True True, staff_row ''3'' ''Admin'' False False]"

lemma staff_rows_derive: "deriveAssignmentAuthority staff_rows ''org'' ''u'' = Inr (authority_of staff_rows)"
  by code_simp

text \<open>C17: An actor's authority is exactly the union of the presets of the active assignments. When the kernel grants an
  authority, a capability is in it exactly when the preset of some active role holds it, the capabilities are sorted
  and without repetition, the primary role is one of the active ones, and whatever order the database returns the rows
  in, the roles, the primary role and the capabilities are the same.\<close>

theorem authority_is_union:
  assumes "deriveAssignmentAuthority rows org user = Inr a"
  shows "(\<forall>p. p \<in> set (aa_capabilities a) \<longleftrightarrow>
      (\<exists>r\<in>set rows. ur_isActive r \<and> p \<in> set (permissionsForRole (ur_role r)))) \<and>
    sorted (aa_capabilities a) \<and> distinct (aa_capabilities a) \<and> aa_primaryRole a \<in> set (aa_activeRoles a) \<and>
    (\<forall>rows'. mset rows' = mset rows \<longrightarrow> (\<exists>a'. deriveAssignmentAuthority rows' org user = Inr a' \<and>
       aa_activeRoles a' = aa_activeRoles a \<and> aa_primaryRole a' = aa_primaryRole a \<and> aa_capabilities a' = aa_capabilities a))"
proof -
  note d = assms [unfolded derive_iff]
  let ?prim = "\<lambda>rows. filter ur_isPrimary (filter ur_isActive rows)"
  have caps: "p \<in> set (aa_capabilities a) \<longleftrightarrow> (\<exists>r\<in>set rows. ur_isActive r \<and> p \<in> set (permissionsForRole (ur_role r)))" for p
    unfolding capability_iff(1) [OF assms] by (auto simp: held_roles_def)
  have "hd (?prim rows) \<in> set (?prim rows)" using d by (intro hd_in_set) auto
  then have primary: "aa_primaryRole a \<in> set (aa_activeRoles a)"
    using d by (auto simp: authority_of_def Let_def capability_iff(2) [OF assms] held_roles_def)
  have same: "\<exists>a'. deriveAssignmentAuthority rows' org user = Inr a' \<and> aa_activeRoles a' = aa_activeRoles a \<and>
      aa_primaryRole a' = aa_primaryRole a \<and> aa_capabilities a' = aa_capabilities a" if perm: "mset rows' = mset rows" for rows'
  proof -
    have rows: "set rows' = set rows" using perm by (rule mset_eq_setD)
    then have held: "held_roles rows' = held_roles rows" by (simp add: held_roles_def)
    have prim: "mset (?prim rows') = mset (?prim rows)" using perm by (simp add: mset_filter)
    obtain r where one: "?prim rows = [r]" using d by (metis One_nat_def length_0_conv length_Suc_conv)
    have "mset (?prim rows') = {#r#}" unfolding prim one by simp
    then have "?prim rows' = [r]" by (simp only: mset_single_iff)
    with one have r: "?prim rows = [r]" "?prim rows' = [r]" .
    have "deriveAssignmentAuthority rows' org user = Inr (authority_of rows')"
      using d rows held r by (simp add: derive_iff)
    moreover have roles: "sortRolesCanonical (map ur_role (filter ur_isActive rows')) =
        sortRolesCanonical (map ur_role (filter ur_isActive rows))"
      using d rows by (intro sortRolesCanonical_unique) (auto simp: held_roles_def)
    ultimately show ?thesis using d r by (simp add: authority_of_def Let_def)
  qed
  have "sorted (aa_capabilities a)" "distinct (aa_capabilities a)" using d by (simp_all add: authority_of_def Let_def)
  with caps primary same show ?thesis by blast
qed

lemma authority_is_union_witness:
  "aa_activeRoles (authority_of staff_rows) = [''Teacher'', ''Proctor''] \<and>
   aa_primaryRole (authority_of staff_rows) = ''Teacher'' \<and>
   ''incident.investigate'' \<in> set (aa_capabilities (authority_of staff_rows)) \<and>
   (\<exists>a'. deriveAssignmentAuthority (rev staff_rows) ''org'' ''u'' = Inr a' \<and>
      aa_capabilities a' = aa_capabilities (authority_of staff_rows))"
proof -
  note union = authority_is_union [OF staff_rows_derive]
  have "\<exists>a'. deriveAssignmentAuthority (rev staff_rows) ''org'' ''u'' = Inr a' \<and>
      aa_capabilities a' = aa_capabilities (authority_of staff_rows)"
    using union by (metis mset_rev)
  moreover have "aa_activeRoles (authority_of staff_rows) = [''Teacher'', ''Proctor'']"
    "aa_primaryRole (authority_of staff_rows) = ''Teacher''"
    "''incident.investigate'' \<in> set (aa_capabilities (authority_of staff_rows))" by code_simp+
  ultimately show ?thesis by blast
qed

section \<open>Separation of duties\<close>

text \<open>Which roles may hold a duty.\<close>

definition DUTIES :: "(string \<times> string list) list" where
  "DUTIES =
     [(''user.role.assign'', [''Admin'']), (''exam.proctor_assignment.manage'', [''Admin'']),
      (''attempt.force_submit'', [''Admin'']), (''attempt.time.grant'', [''Admin'']),
      (''attempt.misconduct.mark'', [''Admin'']), (''incident.resolve'', [''Admin'']), (''system.email.test'', [''Admin'']),
      (''exam.publish'', [''Admin'', ''Teacher'']), (''exam.result.publish'', [''Admin'', ''Teacher'']),
      (''score.all.view'', [''Admin'', ''Teacher'']), (''incident.investigate'', [''Admin'', ''Proctor'']),
      (''grading.answer.view'', [''Admin'', ''Grader'']), (''grading.score.write'', [''Admin'', ''Grader'']),
      (''attempt.answer.save'', [''Candidate'']), (''attempt.submit'', [''Candidate'']), (''score.own.view'', [''Candidate''])]"

lemma duty_holders: "list_all (\<lambda>(p, holders). filter (\<lambda>role. p \<in> set (permissionsForRole role)) ASSIGNABLE_ROLE_KEYS = holders) DUTIES"
  by code_simp

lemma no_system_duty: "list_all (\<lambda>role. list_all (\<lambda>p. p \<notin> set (permissionsForRole role)) SYSTEM_PERMISSIONS) ASSIGNABLE_ROLE_KEYS"
  by code_simp

text \<open>C18: Duties stay separate. Whatever roles an actor combines, no human authority holds a permission of the system
  actor; grading, publishing results, proctoring, candidates' own actions and the administrator's interventions are held
  exactly through the roles they belong to; and a maintainer without another role holds only the two operational views.\<close>

theorem separation_of_duties:
  assumes "deriveAssignmentAuthority rows org user = Inr a"
  shows "set (aa_capabilities a) \<inter> set SYSTEM_PERMISSIONS = {} \<and>
    (\<forall>(p, holders)\<in>set DUTIES. p \<in> set (aa_capabilities a) \<longleftrightarrow> set holders \<inter> set (aa_activeRoles a) \<noteq> {}) \<and>
    (set (aa_activeRoles a) = {''Maintainer''} \<longrightarrow>
       set (aa_capabilities a) = {''system.health.view'', ''system.diagnostics.view''})"
proof (intro conjI impI ballI)
  have held: "held_roles rows \<subseteq> set ASSIGNABLE_ROLE_KEYS" using assms unfolding derive_iff by blast
  show "set (aa_capabilities a) \<inter> set SYSTEM_PERMISSIONS = {}"
    using no_system_duty held unfolding list_all_iff disjoint_iff capability_iff(1) [OF assms] by blast
  fix duty assume member: "duty \<in> set DUTIES"
  obtain p holders where duty: "duty = (p, holders)" by (cases duty)
  have "filter (\<lambda>role. p \<in> set (permissionsForRole role)) ASSIGNABLE_ROLE_KEYS = holders"
    using bspec [OF duty_holders [unfolded list_all_iff] member] by (simp only: duty prod.case)
  then have "set holders = {role \<in> set ASSIGNABLE_ROLE_KEYS. p \<in> set (permissionsForRole role)}"
    by (metis set_filter)
  then show "case duty of (p, holders) \<Rightarrow> p \<in> set (aa_capabilities a) \<longleftrightarrow> set holders \<inter> set (aa_activeRoles a) \<noteq> {}"
    unfolding duty prod.case capability_iff [OF assms] using held by blast
next
  assume "set (aa_activeRoles a) = {''Maintainer''}"
  then have "held_roles rows = {''Maintainer''}" by (simp only: capability_iff(2) [OF assms])
  then show "set (aa_capabilities a) = {''system.health.view'', ''system.diagnostics.view''}"
    by (intro set_eqI) (simp add: capability_iff(1) [OF assms] MAINTAINER_PERMISSIONS_def)
qed

lemma separation_of_duties_witness:
  "''incident.investigate'' \<in> set (aa_capabilities (authority_of staff_rows)) \<and>
   ''grading.score.write'' \<notin> set (aa_capabilities (authority_of staff_rows))"
proof -
  note duties = separation_of_duties [OF staff_rows_derive, THEN conjunct2, THEN conjunct1]
  have roles: "aa_activeRoles (authority_of staff_rows) = [''Teacher'', ''Proctor'']" by code_simp
  have "''incident.investigate'' \<in> set (aa_capabilities (authority_of staff_rows)) \<longleftrightarrow>
      set [''Admin'', ''Proctor''] \<inter> set (aa_activeRoles (authority_of staff_rows)) \<noteq> {}"
    using bspec [OF duties, of "(''incident.investigate'', [''Admin'', ''Proctor''])"] by (simp add: DUTIES_def)
  moreover have "''grading.score.write'' \<in> set (aa_capabilities (authority_of staff_rows)) \<longleftrightarrow>
      set [''Admin'', ''Grader''] \<inter> set (aa_activeRoles (authority_of staff_rows)) \<noteq> {}"
    using bspec [OF duties, of "(''grading.score.write'', [''Admin'', ''Grader''])"] by (simp add: DUTIES_def)
  ultimately show ?thesis by (simp add: roles)
qed

end
