(* ===== verification/Access_Gates.thy ===== *)
theory Access_Gates
  imports Authority Proctor_Laws
begin

text \<open>
  The access gates in front of the HTTP routes: the resource resolvers of \<^verbatim>\<open>apps/api/src/authz/resolvers/\<close>, which load
  the parent chain of a resource and anchor it in the actor's organization, the gates of \<^verbatim>\<open>scopedCapability.ts\<close>,
  \<^verbatim>\<open>ownAttemptCapability.ts\<close>, \<^verbatim>\<open>scoreCapability.ts\<close>, \<^verbatim>\<open>examEligibilityCapability.ts\<close> and
  \<^verbatim>\<open>candidateContextCapability.ts\<close>, and their wiring in \<^verbatim>\<open>apps/api/src/plugins/authz.ts\<close>. A gate lets a request pass
  (\<open>Inr\<close>) or answers it (\<open>Inl\<close>) with a status and an error code. Each query of a gate runs on its own: it fails, or it
  reads the tables as they stand at that moment.
\<close>

section \<open>Tables\<close>

record CourseRow =
  cr_id :: ident
  cr_organizationId :: ident

record CandidateProfileRow =
  cp_id :: ident
  cp_organizationId :: ident
  cp_userId :: ident

record TeacherCourseAssignmentRow =
  tc_organizationId :: ident
  tc_teacherUserId :: ident
  tc_courseId :: ident
  tc_status :: EpisodeStatus

record GraderExamAssignmentRow =
  gx_organizationId :: ident
  gx_graderUserId :: ident
  gx_examId :: ident
  gx_status :: EpisodeStatus

text \<open>The tables the gates read. Questions and enrollments are paired with their organization.\<close>

record access_tables =
  ac_organizations :: "ident list"
  ac_courses :: "CourseRow list"
  ac_exams :: "Exam list"
  ac_attempts :: "ExamAttempt list"
  ac_incidents :: "ExamIncident list"
  ac_questions :: "(ident \<times> QuestionRow) list"
  ac_profiles :: "CandidateProfileRow list"
  ac_enrollments :: "(ident \<times> ExamEnrollment) list"
  ac_proctors :: proctor_store
  ac_teachers :: "TeacherCourseAssignmentRow list"
  ac_graders :: "GraderExamAssignmentRow list"

type_synonym query = "string + access_tables"

section \<open>Resolvers\<close>

datatype ResourceType = RUser | RCandidate | RCourse | RQuestion | RExam | REnrollment | RAttempt | RAnswer |
  RGradingEntry | RScore | RAuditLog | RClientEvent | RSystemDiagnostics | RIncident

datatype DenyReason = OrganizationMismatch | BrokenParentChain | ResourceNotFound | OwnershipMismatch | ResolverError

record ResolvedScope =
  rs_scope :: ScopeType
  rs_organizationId :: ident
  rs_resourceId :: ident
  rs_chain :: "(ResourceType \<times> ident) list"

text \<open>A node of a parent chain; \<open>cn_linkedId\<close> is the foreign key of the child, when the node has one.\<close>

record ChainNode =
  cn_type :: ResourceType
  cn_id :: "ident option"
  cn_linkedId :: "ident option option"

record LoadedAuthorizationChain =
  lc_resourceId :: ident
  lc_resourceOrganizationId :: ident
  lc_organizationIds :: "ident option list"
  lc_chain :: "ChainNode list"

definition root_node :: "ResourceType \<Rightarrow> ident \<Rightarrow> ChainNode" where
  "root_node t i = \<lparr>cn_type = t, cn_id = Some i, cn_linkedId = None\<rparr>"

definition linked_node :: "ResourceType \<Rightarrow> ident option \<Rightarrow> ident option \<Rightarrow> ChainNode" where
  "linked_node t i link = \<lparr>cn_type = t, cn_id = i, cn_linkedId = Some link\<rparr>"

fun materializeChain :: "ChainNode list \<Rightarrow> (ResourceType \<times> ident) list option" where
  "materializeChain [] = Some []"
| "materializeChain (n # ns) =
     (if falsy (cn_id n) \<or> (cn_linkedId n \<noteq> None \<and> cn_linkedId n \<noteq> Some (cn_id n)) then None
      else map_option (\<lambda>c. (cn_type n, the (cn_id n)) # c) (materializeChain ns))"

definition check_chain :: "RequestContext \<Rightarrow> ScopeType \<Rightarrow> LoadedAuthorizationChain \<Rightarrow> DenyReason + ResolvedScope" where
  "check_chain ctx scope loaded =
     (case materializeChain (lc_chain loaded) of
        None \<Rightarrow> Inl BrokenParentChain
      | Some chain \<Rightarrow>
          bindR (guardR (None \<notin> set (lc_organizationIds loaded)) BrokenParentChain) (\<lambda>_.
          bindR (guardR (list_all (\<lambda>i. i = Some (rx_organizationId ctx)) (lc_organizationIds loaded)) OrganizationMismatch) (\<lambda>_.
          Inr \<lparr>rs_scope = scope, rs_organizationId = lc_resourceOrganizationId loaded,
               rs_resourceId = lc_resourceId loaded, rs_chain = chain\<rparr>)))"

text \<open>A query that fails denies with \<^verbatim>\<open>resolver_error\<close>, one that finds no row with \<^verbatim>\<open>resource_not_found\<close>.\<close>

definition resolve_row :: "string + 'r option \<Rightarrow> ('r \<Rightarrow> DenyReason + 'a) \<Rightarrow> DenyReason + 'a" where
  "resolve_row load check =
     (case load of
        Inl _ \<Rightarrow> Inl ResolverError
      | Inr None \<Rightarrow> Inl ResourceNotFound
      | Inr (Some row) \<Rightarrow> check row)"

definition resolveAuthorizationChain ::
  "RequestContext \<Rightarrow> ScopeType \<Rightarrow> string + LoadedAuthorizationChain option \<Rightarrow> DenyReason + ResolvedScope" where
  "resolveAuthorizationChain ctx scope load = resolve_row load (check_chain ctx scope)"

text \<open>The left joins of the chain queries: a row without its parent is kept, with nulls.\<close>

definition parent_exam :: "access_tables \<Rightarrow> ident option \<Rightarrow> Exam option" where
  "parent_exam t link = Option.bind link (\<lambda>k. find (\<lambda>e. ex_id e = k) (ac_exams t))"

definition parent_course :: "access_tables \<Rightarrow> ident option \<Rightarrow> CourseRow option" where
  "parent_course t link = Option.bind link (\<lambda>k. find (\<lambda>c. cr_id c = k) (ac_courses t))"

definition parent_organization :: "access_tables \<Rightarrow> CourseRow option \<Rightarrow> ident option" where
  "parent_organization t course =
     Option.bind (map_option cr_organizationId course) (\<lambda>k. find (\<lambda>i. i = k) (ac_organizations t))"

definition course_chain :: "RequestContext \<Rightarrow> ident \<Rightarrow> access_tables \<Rightarrow> LoadedAuthorizationChain option" where
  "course_chain ctx i t = map_option (\<lambda>c.
     \<lparr>lc_resourceId = cr_id c, lc_resourceOrganizationId = cr_organizationId c,
      lc_organizationIds = [Some (cr_organizationId c), parent_organization t (Some c)],
      lc_chain = [root_node RCourse (cr_id c)]\<rparr>)
     (find (\<lambda>c. cr_organizationId c = rx_organizationId ctx \<and> cr_id c = i) (ac_courses t))"

definition question_chain :: "RequestContext \<Rightarrow> ident \<Rightarrow> access_tables \<Rightarrow> LoadedAuthorizationChain option" where
  "question_chain ctx i t = map_option (\<lambda>(org, q).
     let course = parent_course t (Some (qn_courseId q)) in
     \<lparr>lc_resourceId = qn_id q, lc_resourceOrganizationId = org,
      lc_organizationIds = [Some org, map_option cr_organizationId course, parent_organization t course],
      lc_chain = [root_node RQuestion (qn_id q), linked_node RCourse (map_option cr_id course) (Some (qn_courseId q))]\<rparr>)
     (find (\<lambda>(org, q). org = rx_organizationId ctx \<and> qn_id q = i) (ac_questions t))"

definition exam_chain :: "RequestContext \<Rightarrow> ident \<Rightarrow> access_tables \<Rightarrow> LoadedAuthorizationChain option" where
  "exam_chain ctx i t = map_option (\<lambda>e.
     let course = parent_course t (Some (ex_courseId e)) in
     \<lparr>lc_resourceId = ex_id e, lc_resourceOrganizationId = ex_organizationId e,
      lc_organizationIds = [Some (ex_organizationId e), map_option cr_organizationId course, parent_organization t course],
      lc_chain = [root_node RExam (ex_id e), linked_node RCourse (map_option cr_id course) (Some (ex_courseId e))]\<rparr>)
     (find (\<lambda>e. ex_organizationId e = rx_organizationId ctx \<and> ex_id e = i) (ac_exams t))"

text \<open>The chain of a resource that hangs on an exam, of which it has the identifier.\<close>

definition below_exam :: "access_tables \<Rightarrow> ResourceType \<Rightarrow> ident \<Rightarrow> ident \<Rightarrow> ident \<Rightarrow> LoadedAuthorizationChain" where
  "below_exam t kind i org examId =
     (let exam = parent_exam t (Some examId); course = parent_course t (map_option ex_courseId exam) in
      \<lparr>lc_resourceId = i, lc_resourceOrganizationId = org,
       lc_organizationIds = [Some org, map_option ex_organizationId exam, map_option cr_organizationId course,
         parent_organization t course],
       lc_chain = [root_node kind i, linked_node RExam (map_option ex_id exam) (Some examId),
         linked_node RCourse (map_option cr_id course) (map_option ex_courseId exam)]\<rparr>)"

definition attempt_row :: "RequestContext \<Rightarrow> ident \<Rightarrow> access_tables \<Rightarrow> ExamAttempt option" where
  "attempt_row ctx i t = find (\<lambda>a. at_organizationId a = rx_organizationId ctx \<and> at_id a = i) (ac_attempts t)"

definition attempt_chain :: "RequestContext \<Rightarrow> ident \<Rightarrow> access_tables \<Rightarrow> LoadedAuthorizationChain option" where
  "attempt_chain ctx i t =
     map_option (\<lambda>a. below_exam t RAttempt (at_id a) (at_organizationId a) (at_examId a)) (attempt_row ctx i t)"

definition incident_chain :: "RequestContext \<Rightarrow> ident \<Rightarrow> access_tables \<Rightarrow> LoadedAuthorizationChain option" where
  "incident_chain ctx i t =
     map_option (\<lambda>a. below_exam t RIncident (inc_id a) (inc_organizationId a) (inc_examId a))
       (find (\<lambda>a. inc_organizationId a = rx_organizationId ctx \<and> inc_id a = i) (ac_incidents t))"

text \<open>The resolvers the plugin registers.\<close>

type_synonym resolver = "RequestContext \<Rightarrow> ident \<Rightarrow> DenyReason + ResolvedScope"

fun resolvers :: "query \<Rightarrow> ResourceType \<Rightarrow> resolver option" where
  "resolvers db RAttempt = Some (\<lambda>ctx i. resolveAuthorizationChain ctx ScopeAttempt (map_sum id (attempt_chain ctx i) db))"
| "resolvers db RExam = Some (\<lambda>ctx i. resolveAuthorizationChain ctx ScopeExam (map_sum id (exam_chain ctx i) db))"
| "resolvers db RCourse = Some (\<lambda>ctx i. resolveAuthorizationChain ctx ScopeCourse (map_sum id (course_chain ctx i) db))"
| "resolvers db RQuestion = Some (\<lambda>ctx i. resolveAuthorizationChain ctx ScopeCourse (map_sum id (question_chain ctx i) db))"
| "resolvers db RIncident = Some (\<lambda>ctx i. resolveAuthorizationChain ctx ScopeExam (map_sum id (incident_chain ctx i) db))"
| "resolvers db _ = None"

section \<open>The scoped gate\<close>

record RuntimeRequestContext =
  rc_ctx :: RequestContext
  rc_roles :: "string list"
  rc_capabilities :: "string list"

record GateRequest =
  gq_ctx :: "RuntimeRequestContext option"
  gq_params :: "(string \<times> string) list"
  gq_body :: "json option"

type_synonym answer = "nat \<times> string"

definition AUTH_REQUIRED :: answer where "AUTH_REQUIRED = (401, ''AUTH_REQUIRED'')"
definition PERMISSION_DENIED :: answer where "PERMISSION_DENIED = (403, ''PERMISSION_DENIED'')"
definition RESOURCE_NOT_FOUND :: answer where "RESOURCE_NOT_FOUND = (404, ''RESOURCE_NOT_FOUND'')"
definition AUTHZ_UNAVAILABLE :: answer where "AUTHZ_UNAVAILABLE = (503, ''AUTHZ_UNAVAILABLE'')"

definition ctxAllows :: "GateRequest \<Rightarrow> string \<Rightarrow> bool" where
  "ctxAllows request permission =
     (case gq_ctx request of Some ctx \<Rightarrow> permission \<in> set (rc_capabilities ctx) | None \<Rightarrow> False)"

fun resolvedExamId :: "ResolvedScope \<Rightarrow> ident option" where
  "resolvedExamId r =
     (case find (\<lambda>n. fst n = RExam) (rs_chain r) of
        Some n \<Rightarrow> if snd n \<noteq> '''' then Some (snd n) else if rs_scope r = ScopeExam then Some (rs_resourceId r) else None
      | None \<Rightarrow> if rs_scope r = ScopeExam then Some (rs_resourceId r) else None)"

fun resolvedCourseId :: "ResolvedScope \<Rightarrow> ident option" where
  "resolvedCourseId r =
     (case find (\<lambda>n. fst n = RCourse) (rs_chain r) of
        Some n \<Rightarrow> if snd n \<noteq> '''' then Some (snd n) else if rs_scope r = ScopeCourse then Some (rs_resourceId r) else None
      | None \<Rightarrow> if rs_scope r = ScopeCourse then Some (rs_resourceId r) else None)"

definition request_field :: "bool \<Rightarrow> string \<Rightarrow> GateRequest \<Rightarrow> string option" where
  "request_field from_body key request =
     (if from_body
      then (case gq_body request of Some (JObj entries) \<Rightarrow>
              (case map_of entries key of Some (JStr s) \<Rightarrow> Some s | _ \<Rightarrow> None) | _ \<Rightarrow> None)
      else map_of (gq_params request) key)"

fun denial :: "DenyReason \<Rightarrow> answer" where
  "denial ResourceNotFound = RESOURCE_NOT_FOUND"
| "denial OrganizationMismatch = PERMISSION_DENIED"
| "denial OwnershipMismatch = PERMISSION_DENIED"
| "denial BrokenParentChain = PERMISSION_DENIED"
| "denial ResolverError = AUTHZ_UNAVAILABLE"

text \<open>An assignment gate looks up, for the request, whether the actor is assigned to an exam or a course.\<close>

type_synonym assignment_gate = "GateRequest \<Rightarrow> ident \<Rightarrow> string + bool"

text \<open>The three assignment stages of the gate: whether the route asks for one, the wired check, the resolved target.\<close>

definition assignment_stage ::
  "bool \<Rightarrow> assignment_gate option \<Rightarrow> GateRequest \<Rightarrow> string list \<Rightarrow> ident option \<Rightarrow> answer + unit" where
  "assignment_stage access gate request roles target =
     (if \<not> access then Inr () else
      case gate of
        None \<Rightarrow> Inl AUTHZ_UNAVAILABLE
      | Some check \<Rightarrow>
          if ''Admin'' \<in> set roles then Inr ()
          else if falsy target then Inl AUTHZ_UNAVAILABLE
          else (case check request (the target) of
                  Inl _ \<Rightarrow> Inl AUTHZ_UNAVAILABLE
                | Inr assigned \<Rightarrow> guardR assigned RESOURCE_NOT_FOUND))"

definition buildScopedCapabilityPreHandler ::
  "string \<Rightarrow> ResourceType \<Rightarrow> string \<Rightarrow> bool \<Rightarrow> (ResourceType \<Rightarrow> resolver option) \<Rightarrow>
     (GateRequest \<Rightarrow> string \<Rightarrow> bool) \<Rightarrow> bool \<times> assignment_gate option \<Rightarrow> bool \<times> assignment_gate option \<Rightarrow>
     bool \<times> assignment_gate option \<Rightarrow> GateRequest \<Rightarrow> answer + unit" where
  "buildScopedCapabilityPreHandler permission resolverKey resourceIdKey from_body registry presetAllows
       proctor teacher grader request =
     (case gq_ctx request of
        None \<Rightarrow> Inl AUTH_REQUIRED
      | Some ctx \<Rightarrow>
          bindR (guardR (presetAllows request permission) PERMISSION_DENIED) (\<lambda>_.
          case registry resolverKey of
            None \<Rightarrow> Inl AUTHZ_UNAVAILABLE
          | Some resolve \<Rightarrow>
              let resourceId = request_field from_body resourceIdKey request in
              bindR (guardR (\<not> falsy resourceId) AUTHZ_UNAVAILABLE) (\<lambda>_.
              case resolve (rc_ctx ctx) (the resourceId) of
                Inl reason \<Rightarrow> Inl (denial reason)
              | Inr resolution \<Rightarrow>
                  bindR (assignment_stage (fst proctor) (snd proctor) request (rc_roles ctx) (resolvedExamId resolution)) (\<lambda>_.
                  bindR (assignment_stage (fst teacher) (snd teacher) request (rc_roles ctx) (resolvedCourseId resolution)) (\<lambda>_.
                  assignment_stage (fst grader) (snd grader) request (rc_roles ctx) (resolvedExamId resolution))))))"

section \<open>Wiring\<close>

definition findActiveByTeacherAndCourse ::
  "RequestContext \<Rightarrow> ident \<Rightarrow> ident \<Rightarrow> access_tables \<Rightarrow> TeacherCourseAssignmentRow option" where
  "findActiveByTeacherAndCourse ctx teacherUserId courseId t =
     find (\<lambda>r. tc_organizationId r = rx_organizationId ctx \<and> tc_teacherUserId r = teacherUserId \<and>
       tc_courseId r = courseId \<and> tc_status r = EpisodeActive) (ac_teachers t)"

definition findActiveByGraderAndExam ::
  "RequestContext \<Rightarrow> ident \<Rightarrow> ident \<Rightarrow> access_tables \<Rightarrow> GraderExamAssignmentRow option" where
  "findActiveByGraderAndExam ctx graderUserId examId t =
     find (\<lambda>r. gx_organizationId r = rx_organizationId ctx \<and> gx_graderUserId r = graderUserId \<and>
       gx_examId r = examId \<and> gx_status r = EpisodeActive) (ac_graders t)"

definition for_actor :: "(RequestContext \<Rightarrow> string + bool) \<Rightarrow> GateRequest \<Rightarrow> string + bool" where
  "for_actor check request = (case gq_ctx request of None \<Rightarrow> Inr False | Some ctx \<Rightarrow> check (rc_ctx ctx))"

definition proctorAssignmentGate :: "query \<Rightarrow> assignment_gate" where
  "proctorAssignmentGate db request examId = for_actor (\<lambda>ctx.
     map_sum id (\<lambda>t. hasActiveAssignment ctx examId (rx_actorId ctx) (ac_proctors t)) db) request"

definition teacherAssignmentGate :: "query \<Rightarrow> assignment_gate" where
  "teacherAssignmentGate db request courseId = for_actor (\<lambda>ctx.
     map_sum id (\<lambda>t. findActiveByTeacherAndCourse ctx (rx_actorId ctx) courseId t \<noteq> None) db) request"

definition graderAssignmentGate :: "query \<Rightarrow> assignment_gate" where
  "graderAssignmentGate db request examId = for_actor (\<lambda>ctx.
     map_sum id (\<lambda>t. findActiveByGraderAndExam ctx (rx_actorId ctx) examId t \<noteq> None) db) request"

record ScopedOptions =
  so_proctorAccess :: bool
  so_teacherAccess :: bool
  so_graderAccess :: bool
  so_fromBody :: bool

text \<open>The tables each query of one request finds.\<close>

record request_queries =
  aq_resolver :: query
  aq_proctor :: query
  aq_teacher :: query
  aq_grader :: query

definition requireScopedCapability ::
  "string \<Rightarrow> ResourceType \<Rightarrow> string \<Rightarrow> ScopedOptions \<Rightarrow> request_queries \<Rightarrow> GateRequest \<Rightarrow> answer + unit" where
  "requireScopedCapability permission resolverKey resourceIdKey options db =
     buildScopedCapabilityPreHandler permission resolverKey resourceIdKey (so_fromBody options)
       (resolvers (aq_resolver db)) ctxAllows
       (so_proctorAccess options, if so_proctorAccess options then Some (proctorAssignmentGate (aq_proctor db)) else None)
       (so_teacherAccess options, if so_teacherAccess options then Some (teacherAssignmentGate (aq_teacher db)) else None)
       (so_graderAccess options, if so_graderAccess options then Some (graderAssignmentGate (aq_grader db)) else None)"

definition candidateContext :: "string \<Rightarrow> GateRequest \<Rightarrow> answer + unit" where
  "candidateContext permission request =
     (case gq_ctx request of
        None \<Rightarrow> Inl AUTH_REQUIRED
      | Some _ \<Rightarrow> guardR (ctxAllows request permission) PERMISSION_DENIED)"

section \<open>The ownership resolvers\<close>

text \<open>These three repeat the checks of \<open>check_chain\<close> on the attempt or the exam and add what they found out about the
  candidate. \<^verbatim>\<open>repoCtx\<close> keeps the actor and the organization.\<close>

definition attempt_profile :: "access_tables \<Rightarrow> ExamAttempt \<Rightarrow> CandidateProfileRow option" where
  "attempt_profile t a = find (\<lambda>p. cp_id p = at_candidateId a) (ac_profiles t)"

definition attempt_loaded :: "access_tables \<Rightarrow> ExamAttempt \<Rightarrow> LoadedAuthorizationChain" where
  "attempt_loaded t a = below_exam t RAttempt (at_id a) (at_organizationId a) (at_examId a)"

definition owned_attempt ::
  "RequestContext \<Rightarrow> ident \<Rightarrow> access_tables \<Rightarrow> (LoadedAuthorizationChain \<times> CandidateProfileRow option) option" where
  "owned_attempt ctx i t = map_option (\<lambda>a. (attempt_loaded t a, attempt_profile t a)) (attempt_row ctx i t)"

definition anchored_profile :: "RequestContext \<Rightarrow> CandidateProfileRow option \<Rightarrow> DenyReason + unit" where
  "anchored_profile ctx profile =
     (case profile of None \<Rightarrow> Inr () | Some p \<Rightarrow> guardR (cp_organizationId p = rx_organizationId ctx) OrganizationMismatch)"

text \<open>With the resolved scope, the user who owns the attempt.\<close>

definition resolveOwnAttemptScope :: "query \<Rightarrow> RequestContext \<Rightarrow> ident \<Rightarrow> DenyReason + ResolvedScope \<times> ident option" where
  "resolveOwnAttemptScope db ctx attemptId =
     resolve_row (map_sum id (owned_attempt ctx attemptId) db) (\<lambda>(loaded, profile).
     bindR (check_chain ctx ScopeOwnAttempt loaded) (\<lambda>r.
     bindR (anchored_profile ctx profile) (\<lambda>_. Inr (r, map_option cp_userId profile))))"

definition resolveScoreScope :: "query \<Rightarrow> RequestContext \<Rightarrow> ident \<Rightarrow> DenyReason + ResolvedScope \<times> ident option" where
  "resolveScoreScope db ctx attemptId =
     resolve_row (map_sum id (owned_attempt ctx attemptId) db) (\<lambda>(loaded, profile).
     bindR (check_chain ctx ScopeOwnScore loaded) (\<lambda>r. Inr (r, map_option cp_userId profile)))"

record ExamEligibilityOwnership =
  eo_candidateProfileId :: "ident option"
  eo_ownerUserId :: "ident option"
  eo_enrollmentId :: "ident option"

definition actor_profile :: "RequestContext \<Rightarrow> access_tables \<Rightarrow> CandidateProfileRow option" where
  "actor_profile ctx t =
     find (\<lambda>p. cp_organizationId p = rx_organizationId ctx \<and> cp_userId p = rx_actorId ctx) (ac_profiles t)"

definition actor_enrollment :: "RequestContext \<Rightarrow> ident \<Rightarrow> access_tables \<Rightarrow> (ident \<times> ExamEnrollment) option" where
  "actor_enrollment ctx examId t = Option.bind (actor_profile ctx t) (\<lambda>p.
     find (\<lambda>(org, e). org = rx_organizationId ctx \<and> en_examId e = examId \<and> en_candidateId e = cp_id p) (ac_enrollments t))"

definition eligibility_row ::
  "RequestContext \<Rightarrow> ident \<Rightarrow> access_tables \<Rightarrow>
     (LoadedAuthorizationChain \<times> CandidateProfileRow option \<times> (ident \<times> ExamEnrollment) option) option" where
  "eligibility_row ctx examId t =
     map_option (\<lambda>loaded. (loaded, actor_profile ctx t, actor_enrollment ctx examId t)) (exam_chain ctx examId t)"

definition resolveExamEligibilityScope ::
  "query \<Rightarrow> RequestContext \<Rightarrow> ident \<Rightarrow> DenyReason + ResolvedScope \<times> ExamEligibilityOwnership" where
  "resolveExamEligibilityScope db ctx examId =
     resolve_row (map_sum id (eligibility_row ctx examId) db) (\<lambda>(loaded, profile, enrollment).
     bindR (check_chain ctx ScopeOwnAttempt loaded) (\<lambda>r.
     bindR (anchored_profile ctx profile) (\<lambda>_.
     Inr (r, \<lparr>eo_candidateProfileId = map_option cp_id profile, eo_ownerUserId = map_option cp_userId profile,
              eo_enrollmentId = map_option (\<lambda>(_, e). en_id e) enrollment\<rparr>))))"

section \<open>The ownership gates\<close>

fun own_denial :: "DenyReason \<Rightarrow> answer" where
  "own_denial ResourceNotFound = RESOURCE_NOT_FOUND"
| "own_denial OrganizationMismatch = PERMISSION_DENIED"
| "own_denial BrokenParentChain = PERMISSION_DENIED"
| "own_denial ResolverError = AUTHZ_UNAVAILABLE"
| "own_denial OwnershipMismatch = AUTHZ_UNAVAILABLE"

text \<open>The common opening of the gates: an authenticated actor and the identifier of the route.\<close>

definition with_resource ::
  "GateRequest \<Rightarrow> string \<Rightarrow> (RuntimeRequestContext \<Rightarrow> ident \<Rightarrow> answer + 'a) \<Rightarrow> answer + 'a" where
  "with_resource request key gate =
     (case gq_ctx request of
        None \<Rightarrow> Inl AUTH_REQUIRED
      | Some ctx \<Rightarrow>
          (case map_of (gq_params request) key of
             None \<Rightarrow> Inl AUTHZ_UNAVAILABLE
           | Some i \<Rightarrow> bindR (guardR (i \<noteq> []) AUTHZ_UNAVAILABLE) (\<lambda>_. gate ctx i)))"

definition requireOwnAttempt :: "query \<Rightarrow> string \<Rightarrow> string \<Rightarrow> GateRequest \<Rightarrow> answer + unit" where
  "requireOwnAttempt db permission resourceIdKey request =
     with_resource request resourceIdKey (\<lambda>ctx attemptId.
     case resolveOwnAttemptScope db (rc_ctx ctx) attemptId of
       Inl reason \<Rightarrow> Inl (own_denial reason)
     | Inr (_, ownerUserId) \<Rightarrow>
         bindR (guardR (ctxAllows request permission) PERMISSION_DENIED) (\<lambda>_.
         guardR (ownerUserId = Some (rx_actorId (rc_ctx ctx))) RESOURCE_NOT_FOUND))"

datatype ScoreView = ViewAll | ViewOwn

definition buildScoreCapabilityPreHandler ::
  "query \<Rightarrow> assignment_gate option \<Rightarrow> GateRequest \<Rightarrow> answer + ScoreView" where
  "buildScoreCapabilityPreHandler db teacherCourseGate request =
     with_resource request ''attemptId'' (\<lambda>ctx attemptId.
     case resolveScoreScope db (rc_ctx ctx) attemptId of
       Inl reason \<Rightarrow> Inl (denial reason)
     | Inr (resolution, ownerUserId) \<Rightarrow>
         if ctxAllows request ''score.all.view'' then
           if ''Admin'' \<in> set (rc_roles ctx) then Inr ViewAll
           else (case teacherCourseGate of
                   None \<Rightarrow> Inl AUTHZ_UNAVAILABLE
                 | Some check \<Rightarrow>
                     (case find (\<lambda>n. fst n = RCourse) (rs_chain resolution) of
                        None \<Rightarrow> Inl AUTHZ_UNAVAILABLE
                      | Some n \<Rightarrow>
                          (case check request (snd n) of
                             Inl _ \<Rightarrow> Inl AUTHZ_UNAVAILABLE
                           | Inr assigned \<Rightarrow> bindR (guardR assigned RESOURCE_NOT_FOUND) (\<lambda>_. Inr ViewAll))))
         else if ctxAllows request ''score.own.view'' then
           bindR (guardR (ownerUserId = Some (rx_actorId (rc_ctx ctx))) RESOURCE_NOT_FOUND) (\<lambda>_. Inr ViewOwn)
         else Inl PERMISSION_DENIED)"

definition requireScoreCapability :: "query \<Rightarrow> query \<Rightarrow> GateRequest \<Rightarrow> answer + ScoreView" where
  "requireScoreCapability db gate_db = buildScoreCapabilityPreHandler db (Some (teacherAssignmentGate gate_db))"

datatype EligibilityDenialMode = DenyAsNotFound | DenyAsForbidden

fun eligibility_denied :: "EligibilityDenialMode \<Rightarrow> answer" where
  "eligibility_denied DenyAsNotFound = RESOURCE_NOT_FOUND"
| "eligibility_denied DenyAsForbidden = PERMISSION_DENIED"

definition requireExamEligibility ::
  "query \<Rightarrow> string \<Rightarrow> string \<Rightarrow> EligibilityDenialMode \<Rightarrow> GateRequest \<Rightarrow> answer + unit" where
  "requireExamEligibility db permission resourceIdKey denialMode request =
     with_resource request resourceIdKey (\<lambda>ctx examId.
     case resolveExamEligibilityScope db (rc_ctx ctx) examId of
       Inl reason \<Rightarrow> Inl (own_denial reason)
     | Inr (_, ownership) \<Rightarrow>
         bindR (guardR (ctxAllows request permission) PERMISSION_DENIED) (\<lambda>_.
         bindR (guardR (eo_candidateProfileId ownership \<noteq> None) (eligibility_denied denialMode)) (\<lambda>_.
         bindR (guardR (eo_ownerUserId ownership = Some (rx_actorId (rc_ctx ctx))) (eligibility_denied denialMode)) (\<lambda>_.
         guardR (eo_enrollmentId ownership \<noteq> None) (eligibility_denied denialMode)))))"

end
