(* ===== verification/Access_Laws.thy ===== *)
theory Access_Laws
  imports Access_Gates Samples
begin

text \<open>
  What the access gates decide. The tables are described by relations between their rows, under the unique keys the
  schema declares, and each gate is shown to let pass exactly the requests the relations allow: no failing query, broken
  chain or missing assignment opens a gate, and a refusal for want of an assignment or of ownership looks like a missing
  resource.
\<close>

section \<open>Rows in scope\<close>

definition access_keys :: "access_tables \<Rightarrow> bool" where
  "access_keys t \<longleftrightarrow> distinct (ac_organizations t) \<and> distinct (map cr_id (ac_courses t)) \<and> distinct (map ex_id (ac_exams t)) \<and>
     distinct (map at_id (ac_attempts t)) \<and> distinct (map inc_id (ac_incidents t)) \<and>
     distinct (map (\<lambda>(_, q). qn_id q) (ac_questions t)) \<and> distinct (map cp_id (ac_profiles t)) \<and>
     distinct (map (\<lambda>p. (cp_organizationId p, cp_userId p)) (ac_profiles t)) \<and>
     distinct (map (\<lambda>(org, e). (org, en_examId e, en_candidateId e)) (ac_enrollments t))"

text \<open>A course or an exam whose whole chain of parents lies in the organization.\<close>

definition anchored_course :: "access_tables \<Rightarrow> ident \<Rightarrow> ident \<Rightarrow> bool" where
  "anchored_course t org c \<longleftrightarrow>
     c \<noteq> [] \<and> org \<in> set (ac_organizations t) \<and> (\<exists>k\<in>set (ac_courses t). cr_id k = c \<and> cr_organizationId k = org)"

definition anchored_exam :: "access_tables \<Rightarrow> ident \<Rightarrow> ident \<Rightarrow> ident \<Rightarrow> bool" where
  "anchored_exam t org x c \<longleftrightarrow> x \<noteq> [] \<and> anchored_course t org c \<and>
     (\<exists>e\<in>set (ac_exams t). ex_id e = x \<and> ex_organizationId e = org \<and> ex_courseId e = c)"

text \<open>A resource in the organization, with the exam and the course it hangs on.\<close>

fun in_scope :: "access_tables \<Rightarrow> ident \<Rightarrow> ResourceType \<Rightarrow> ident \<Rightarrow> ident option \<Rightarrow> ident \<Rightarrow> bool" where
  "in_scope t org RAttempt i x c \<longleftrightarrow> (\<exists>a\<in>set (ac_attempts t). at_id a = i \<and> at_organizationId a = org \<and>
     x = Some (at_examId a) \<and> anchored_exam t org (at_examId a) c)"
| "in_scope t org RIncident i x c \<longleftrightarrow> (\<exists>a\<in>set (ac_incidents t). inc_id a = i \<and> inc_organizationId a = org \<and>
     x = Some (inc_examId a) \<and> anchored_exam t org (inc_examId a) c)"
| "in_scope t org RExam i x c \<longleftrightarrow> x = Some i \<and> anchored_exam t org i c"
| "in_scope t org RQuestion i x c \<longleftrightarrow> x = None \<and> (\<exists>q. (org, q) \<in> set (ac_questions t) \<and> qn_id q = i \<and> qn_courseId q = c) \<and>
     anchored_course t org c"
| "in_scope t org RCourse i x c \<longleftrightarrow> x = None \<and> i = c \<and> anchored_course t org c"
| "in_scope t org _ i x c \<longleftrightarrow> False"

lemma find_key:
  assumes "distinct (map k xs)" "\<And>x. x \<in> set xs \<Longrightarrow> Q x \<longleftrightarrow> P x \<and> k x = i"
  shows "find Q xs = Some x \<longleftrightarrow> x \<in> set xs \<and> P x \<and> k x = i"
  using assms by (induction xs) (auto simp: image_iff)

lemma parent_exam_iff [simp]:
  "access_keys t \<Longrightarrow> parent_exam t (Some x) = Some e \<longleftrightarrow> e \<in> set (ac_exams t) \<and> ex_id e = x"
  using find_key [of ex_id "ac_exams t" "\<lambda>e. ex_id e = x" "\<lambda>_. True" x e] by (simp add: parent_exam_def access_keys_def)

lemma parent_course_iff [simp]:
  "access_keys t \<Longrightarrow> parent_course t (Some c) = Some k \<longleftrightarrow> k \<in> set (ac_courses t) \<and> cr_id k = c"
  using find_key [of cr_id "ac_courses t" "\<lambda>e. cr_id e = c" "\<lambda>_. True" c k] by (simp add: parent_course_def access_keys_def)

lemma find_self [simp]: "find (\<lambda>i. i = k) xs = (if k \<in> set xs then Some k else None)"
  by (induction xs) auto

lemma parent_organization_simps [simp]:
  "parent_organization t None = None"
  "parent_organization t (Some k) = (if cr_organizationId k \<in> set (ac_organizations t) then Some (cr_organizationId k) else None)"
  by (simp_all add: parent_organization_def)

lemma attempt_row_iff [simp]:
  "access_keys t \<Longrightarrow> attempt_row ctx i t = Some a \<longleftrightarrow>
     a \<in> set (ac_attempts t) \<and> at_organizationId a = rx_organizationId ctx \<and> at_id a = i"
  unfolding attempt_row_def by (rule find_key) (auto simp: access_keys_def)

section \<open>Chains\<close>

lemma check_chain_iff:
  "check_chain ctx scope l = Inr r \<longleftrightarrow> (\<exists>chain. materializeChain (lc_chain l) = Some chain \<and>
     (\<forall>i\<in>set (lc_organizationIds l). i = Some (rx_organizationId ctx)) \<and>
     r = \<lparr>rs_scope = scope, rs_organizationId = lc_resourceOrganizationId l, rs_resourceId = lc_resourceId l, rs_chain = chain\<rparr>)"
  by (auto simp: check_chain_def cmd_iff list_all_iff split: option.splits)

lemma parent_exam_None [simp]: "parent_exam t (Some x) = None \<longleftrightarrow> x \<notin> ex_id ` set (ac_exams t)"
  by (auto simp: parent_exam_def find_None_iff)

lemma parent_course_None [simp]: "parent_course t (Some c) = None \<longleftrightarrow> c \<notin> cr_id ` set (ac_courses t)"
  by (auto simp: parent_course_def find_None_iff)

lemma no_parents [simp]: "parent_exam t None = None" "parent_course t None = None"
  by (simp_all add: parent_exam_def parent_course_def)

text \<open>The part of a chain above a course.\<close>

lemma anchored_course_iff:
  assumes "access_keys t" "k \<in> set (ac_courses t)"
  shows "anchored_course t org (cr_id k) \<longleftrightarrow> cr_id k \<noteq> [] \<and> cr_organizationId k = org \<and> org \<in> set (ac_organizations t)"
  using assms by (auto simp: anchored_course_def access_keys_def distinct_map dest: inj_onD)

lemma anchored_exam_iff:
  assumes "access_keys t" "e \<in> set (ac_exams t)"
  shows "anchored_exam t org (ex_id e) c \<longleftrightarrow>
    ex_id e \<noteq> [] \<and> ex_organizationId e = org \<and> ex_courseId e = c \<and> anchored_course t org c"
  using assms by (auto simp: anchored_exam_def access_keys_def distinct_map dest: inj_onD)

lemma anchored_D:
  "anchored_course t org c \<Longrightarrow> c \<in> cr_id ` set (ac_courses t)"
  "anchored_exam t org x c \<Longrightarrow> x \<in> ex_id ` set (ac_exams t)"
  by (auto simp: anchored_course_def anchored_exam_def)

lemma course_part:
  assumes "access_keys t"
  shows "(\<exists>k. parent_course t (Some c) = Some k \<and> k \<in> set (ac_courses t) \<and> cr_id k = c \<and> c \<noteq> [] \<and>
    cr_organizationId k = org \<and> org \<in> set (ac_organizations t)) \<longleftrightarrow> anchored_course t org c"
  using assms by (auto simp: anchored_course_def)

lemma below_exam_iff:
  assumes "access_keys t"
  shows "check_chain ctx scope (below_exam t kind i org x) = Inr r \<longleftrightarrow> (\<exists>c. i \<noteq> [] \<and> org = rx_organizationId ctx \<and>
    anchored_exam t org x c \<and> r = \<lparr>rs_scope = scope, rs_organizationId = org, rs_resourceId = i,
      rs_chain = [(kind, i), (RExam, x), (RCourse, c)]\<rparr>)"
proof (cases "parent_exam t (Some x)")
  case None
  then have "\<not> anchored_exam t org x c" for c using anchored_D(2) by force
  then show ?thesis
    by (simp add: check_chain_iff below_exam_def Let_def root_node_def linked_node_def None)
next
  case (Some e)
  then have e: "e \<in> set (ac_exams t)" "ex_id e = x" using assms by auto
  note exam = anchored_exam_iff [OF assms e(1), unfolded e(2)]
  show ?thesis
  proof (cases "parent_course t (Some (ex_courseId e))")
    case None
    then have "\<not> anchored_course t org (ex_courseId e)" using anchored_D(1) by force
    then show ?thesis
      by (auto simp: check_chain_iff below_exam_def Let_def root_node_def linked_node_def exam Some None)
  next
    case k: (Some k)
    then have course: "k \<in> set (ac_courses t)" "cr_id k = ex_courseId e" using assms by auto
    show ?thesis
      by (auto simp: check_chain_iff below_exam_def Let_def root_node_def linked_node_def exam Some k e(2)
          course(2) anchored_course_iff [OF assms course(1), unfolded course(2)])
  qed
qed

definition resolved_in :: "ScopeType \<Rightarrow> ident \<Rightarrow> ident \<Rightarrow> (ResourceType \<times> ident) list \<Rightarrow> ResolvedScope" where
  "resolved_in scope org i chain =
     \<lparr>rs_scope = scope, rs_organizationId = org, rs_resourceId = i, rs_chain = chain\<rparr>"

text \<open>A chain of one row and its course.\<close>

lemma above_course_iff:
  assumes "access_keys t"
  shows "check_chain ctx scope \<lparr>lc_resourceId = i, lc_resourceOrganizationId = org,
      lc_organizationIds = [Some org, map_option cr_organizationId (parent_course t (Some c)),
        parent_organization t (parent_course t (Some c))],
      lc_chain = [root_node kind i, linked_node RCourse (map_option cr_id (parent_course t (Some c))) (Some c)]\<rparr> = Inr r \<longleftrightarrow>
    i \<noteq> [] \<and> org = rx_organizationId ctx \<and> anchored_course t org c \<and> r = resolved_in scope org i [(kind, i), (RCourse, c)]"
proof (cases "parent_course t (Some c)")
  case None
  then have "\<not> anchored_course t org c" using anchored_D(1) by force
  then show ?thesis by (simp add: check_chain_iff root_node_def linked_node_def None)
next
  case (Some k)
  then have k: "k \<in> set (ac_courses t)" "cr_id k = c" using assms by auto
  show ?thesis
    by (auto simp: check_chain_iff root_node_def linked_node_def Some k(2) resolved_in_def
        anchored_course_iff [OF assms k(1), unfolded k(2)])
qed

lemma exam_chain_iff:
  assumes "access_keys t"
  shows "(\<exists>l. exam_chain ctx i t = Some l \<and> check_chain ctx scope l = Inr r) \<longleftrightarrow>
    (\<exists>c. anchored_exam t (rx_organizationId ctx) i c \<and>
       r = resolved_in scope (rx_organizationId ctx) i [(RExam, i), (RCourse, c)])"
proof -
  let ?org = "rx_organizationId ctx"
  have find: "find (\<lambda>e. ex_organizationId e = ?org \<and> ex_id e = i) (ac_exams t) = Some e \<longleftrightarrow>
      e \<in> set (ac_exams t) \<and> ex_organizationId e = ?org \<and> ex_id e = i" for e
    by (rule find_key) (use assms in \<open>auto simp: access_keys_def\<close>)
  have "(\<exists>l. exam_chain ctx i t = Some l \<and> check_chain ctx scope l = Inr r) \<longleftrightarrow>
      (\<exists>e. e \<in> set (ac_exams t) \<and> ex_organizationId e = ?org \<and> ex_id e = i \<and> i \<noteq> [] \<and>
        anchored_course t ?org (ex_courseId e) \<and> r = resolved_in scope ?org i [(RExam, i), (RCourse, ex_courseId e)])"
    by (auto simp: exam_chain_def find Let_def above_course_iff [OF assms])
  then show ?thesis by (auto simp: anchored_exam_def)
qed

lemma attempt_chain_iff:
  assumes "access_keys t"
  shows "(\<exists>l. attempt_chain ctx i t = Some l \<and> check_chain ctx scope l = Inr r) \<longleftrightarrow>
    (\<exists>a c. a \<in> set (ac_attempts t) \<and> at_id a = i \<and> at_organizationId a = rx_organizationId ctx \<and> i \<noteq> [] \<and>
       anchored_exam t (rx_organizationId ctx) (at_examId a) c \<and>
       r = resolved_in scope (rx_organizationId ctx) i [(RAttempt, i), (RExam, at_examId a), (RCourse, c)])"
  using assms by (auto simp: attempt_chain_def below_exam_iff resolved_in_def)

lemma incident_chain_iff:
  assumes "access_keys t"
  shows "(\<exists>l. incident_chain ctx i t = Some l \<and> check_chain ctx scope l = Inr r) \<longleftrightarrow>
    (\<exists>a c. a \<in> set (ac_incidents t) \<and> inc_id a = i \<and> inc_organizationId a = rx_organizationId ctx \<and> i \<noteq> [] \<and>
       anchored_exam t (rx_organizationId ctx) (inc_examId a) c \<and>
       r = resolved_in scope (rx_organizationId ctx) i [(RIncident, i), (RExam, inc_examId a), (RCourse, c)])"
proof -
  have find: "find (\<lambda>a. inc_organizationId a = rx_organizationId ctx \<and> inc_id a = i) (ac_incidents t) = Some a \<longleftrightarrow>
      a \<in> set (ac_incidents t) \<and> inc_organizationId a = rx_organizationId ctx \<and> inc_id a = i" for a
    by (rule find_key) (use assms in \<open>auto simp: access_keys_def\<close>)
  show ?thesis by (auto simp: incident_chain_def find below_exam_iff [OF assms] resolved_in_def)
qed

lemma course_chain_iff:
  assumes "access_keys t"
  shows "(\<exists>l. course_chain ctx i t = Some l \<and> check_chain ctx scope l = Inr r) \<longleftrightarrow>
    anchored_course t (rx_organizationId ctx) i \<and> r = resolved_in scope (rx_organizationId ctx) i [(RCourse, i)]"
proof (cases "find (\<lambda>k. cr_organizationId k = rx_organizationId ctx \<and> cr_id k = i) (ac_courses t)")
  case None
  then have "\<not> anchored_course t (rx_organizationId ctx) i" by (auto simp: find_None_iff anchored_course_def)
  then show ?thesis by (simp add: course_chain_def None)
next
  case (Some k)
  then have k: "k \<in> set (ac_courses t)" "cr_organizationId k = rx_organizationId ctx" "cr_id k = i"
    by (auto simp: find_Some_iff in_set_conv_nth)
  show ?thesis
    by (simp add: course_chain_def Some k check_chain_iff root_node_def resolved_in_def
        anchored_course_iff [OF assms k(1), unfolded k(3)])
qed

lemma question_chain_iff:
  assumes "access_keys t"
  shows "(\<exists>l. question_chain ctx i t = Some l \<and> check_chain ctx scope l = Inr r) \<longleftrightarrow>
    (\<exists>q. (rx_organizationId ctx, q) \<in> set (ac_questions t) \<and> qn_id q = i \<and> i \<noteq> [] \<and>
       anchored_course t (rx_organizationId ctx) (qn_courseId q) \<and>
       r = resolved_in scope (rx_organizationId ctx) i [(RQuestion, i), (RCourse, qn_courseId q)])"
proof -
  have find: "find (\<lambda>(org, q). org = rx_organizationId ctx \<and> qn_id q = i) (ac_questions t) = Some (org, q) \<longleftrightarrow>
      (org, q) \<in> set (ac_questions t) \<and> org = rx_organizationId ctx \<and> qn_id q = i" for org q
    using find_key [of "\<lambda>(_, q). qn_id q" "ac_questions t" "\<lambda>(org, q). org = rx_organizationId ctx \<and> qn_id q = i"
      "\<lambda>(org, _). org = rx_organizationId ctx" i "(org, q)"] assms by (auto simp: access_keys_def)
  show ?thesis by (auto simp: question_chain_def find Let_def above_course_iff [OF assms])
qed

lemma resolve_row_iff:
  "resolve_row (map_sum id f db) check = Inr r \<longleftrightarrow> (\<exists>t row. db = Inr t \<and> f t = Some row \<and> check row = Inr r)"
  by (cases db) (auto simp: resolve_row_def split: option.splits)

lemma resolveAuthorizationChain_iff:
  "resolveAuthorizationChain ctx scope (Inr row) = Inr r \<longleftrightarrow> (\<exists>l. row = Some l \<and> check_chain ctx scope l = Inr r)"
  by (auto simp: resolveAuthorizationChain_def resolve_row_def split: option.splits)

declare resolvedExamId.simps [simp del] resolvedCourseId.simps [simp del]

lemma resolved_targets [simp]:
  "x \<noteq> [] \<Longrightarrow> k \<noteq> RExam \<Longrightarrow> resolvedExamId (resolved_in scope org i [(k, i), (RExam, x), (RCourse, c)]) = Some x"
  "x \<noteq> [] \<Longrightarrow> resolvedExamId (resolved_in scope org i [(RExam, x), (RCourse, c)]) = Some x"
  "k \<noteq> RExam \<Longrightarrow> resolvedExamId (resolved_in ScopeCourse org i [(k, i), (RCourse, c)]) = None"
  "resolvedExamId (resolved_in ScopeCourse org i [(RCourse, c)]) = None"
  "c \<noteq> [] \<Longrightarrow> k \<noteq> RCourse \<Longrightarrow> resolvedCourseId (resolved_in scope org i [(k, i), (RExam, x), (RCourse, c)]) = Some c"
  "c \<noteq> [] \<Longrightarrow> k \<noteq> RCourse \<Longrightarrow> resolvedCourseId (resolved_in scope org i [(k, i), (RCourse, c)]) = Some c"
  "c \<noteq> [] \<Longrightarrow> resolvedCourseId (resolved_in scope org i [(RCourse, c)]) = Some c"
  by (simp_all add: resolvedExamId.simps resolvedCourseId.simps resolved_in_def)

text \<open>A registered resolver resolves exactly the resources in scope, to the exam and the course they hang on.\<close>

fun chain_of :: "ResourceType \<Rightarrow> ident \<Rightarrow> ident option \<Rightarrow> ident \<Rightarrow> (ResourceType \<times> ident) list" where
  "chain_of RExam i x c = [(RExam, i), (RCourse, c)]"
| "chain_of RCourse i x c = [(RCourse, i)]"
| "chain_of RQuestion i x c = [(RQuestion, i), (RCourse, c)]"
| "chain_of kind i x c = [(kind, i), (RExam, the x), (RCourse, c)]"

fun scope_of :: "ResourceType \<Rightarrow> ScopeType" where
  "scope_of RAttempt = ScopeAttempt"
| "scope_of RCourse = ScopeCourse"
| "scope_of RQuestion = ScopeCourse"
| "scope_of _ = ScopeExam"

lemma resolver_scope:
  assumes "resolvers (Inr t) key = Some resolve" "access_keys t" "i \<noteq> []"
  shows "resolve ctx i = Inr r \<longleftrightarrow> (\<exists>x c. in_scope t (rx_organizationId ctx) key i x c \<and>
    r = resolved_in (scope_of key) (rx_organizationId ctx) i (chain_of key i x c))"
  using assms(1,3)
  by (cases key) (fastforce simp: resolveAuthorizationChain_iff attempt_chain_iff [OF assms(2)] exam_chain_iff [OF assms(2)]
      incident_chain_iff [OF assms(2)] course_chain_iff [OF assms(2)] question_chain_iff [OF assms(2)])+

lemma anchored_some:
  "anchored_exam t org x c \<Longrightarrow> x \<noteq> [] \<and> c \<noteq> []" "anchored_course t org c \<Longrightarrow> c \<noteq> []"
  by (simp_all add: anchored_exam_def anchored_course_def)

lemma scope_targets:
  assumes "in_scope t org key i x c"
  shows "resolvedExamId (resolved_in (scope_of key) org i (chain_of key i x c)) = x"
    and "resolvedCourseId (resolved_in (scope_of key) org i (chain_of key i x c)) = Some c"
  using assms by (cases key; auto dest: anchored_some)+

lemma resolver_fails: "resolvers (Inl e) key = Some resolve \<Longrightarrow> resolve ctx i = Inl ResolverError"
  by (cases key) (auto simp: resolveAuthorizationChain_def resolve_row_def)

lemma resolver_iff:
  assumes "resolvers db key = Some resolve" "\<And>t. db = Inr t \<Longrightarrow> access_keys t" "i \<noteq> []"
  shows "(\<exists>r. resolve ctx i = Inr r \<and> resolvedExamId r = x \<and> resolvedCourseId r = y) \<longleftrightarrow>
    (\<exists>t c. db = Inr t \<and> y = Some c \<and> in_scope t (rx_organizationId ctx) key i x c)"
proof (cases db)
  case (Inl e)
  then show ?thesis using resolver_fails [of e key resolve] assms(1) by simp
next
  case (Inr t)
  have "resolve ctx i = Inr r \<longleftrightarrow> (\<exists>x c. in_scope t (rx_organizationId ctx) key i x c \<and>
      r = resolved_in (scope_of key) (rx_organizationId ctx) i (chain_of key i x c))" for r
    using resolver_scope [OF assms(1) [unfolded Inr] assms(2) [OF Inr] assms(3)] .
  then show ?thesis using scope_targets Inr by (metis Inr_inject)
qed

lemma resolver_decides:
  assumes "resolvers db key = Some resolve" "\<And>t. db = Inr t \<Longrightarrow> access_keys t" "i \<noteq> []"
  shows "(\<exists>r. resolve ctx i = Inr r \<and> Q (resolvedExamId r) (resolvedCourseId r)) \<longleftrightarrow>
    (\<exists>t x c. db = Inr t \<and> in_scope t (rx_organizationId ctx) key i x c \<and> Q x (Some c))"
proof -
  have "(\<exists>r. resolve ctx i = Inr r \<and> Q (resolvedExamId r) (resolvedCourseId r)) \<longleftrightarrow>
      (\<exists>x y. (\<exists>r. resolve ctx i = Inr r \<and> resolvedExamId r = x \<and> resolvedCourseId r = y) \<and> Q x y)" by blast
  moreover have "(\<exists>r. resolve ctx i = Inr r \<and> resolvedExamId r = x \<and> resolvedCourseId r = y) \<longleftrightarrow>
      (\<exists>t c. db = Inr t \<and> y = Some c \<and> in_scope t (rx_organizationId ctx) key i x c)" for x y
    by (rule resolver_iff) (use assms in auto)
  ultimately show ?thesis by auto
qed

section \<open>The scoped gate\<close>

definition proctors_exam :: "query \<Rightarrow> RequestContext \<Rightarrow> ident option \<Rightarrow> bool" where
  "proctors_exam db ctx x \<longleftrightarrow> (\<exists>t. db = Inr t \<and> (\<exists>a\<in>set (ps_assignments (ac_proctors t)).
     pa_organizationId a = rx_organizationId ctx \<and> x = Some (pa_examId a) \<and> pa_proctorUserId a = rx_actorId ctx \<and>
     pa_status a = EpisodeActive))"

definition grades_exam :: "query \<Rightarrow> RequestContext \<Rightarrow> ident option \<Rightarrow> bool" where
  "grades_exam db ctx x \<longleftrightarrow> (\<exists>t. db = Inr t \<and> (\<exists>a\<in>set (ac_graders t).
     gx_organizationId a = rx_organizationId ctx \<and> x = Some (gx_examId a) \<and> gx_graderUserId a = rx_actorId ctx \<and>
     gx_status a = EpisodeActive))"

definition teaches_course :: "query \<Rightarrow> RequestContext \<Rightarrow> ident \<Rightarrow> bool" where
  "teaches_course db ctx c \<longleftrightarrow> (\<exists>t. db = Inr t \<and> (\<exists>a\<in>set (ac_teachers t).
     tc_organizationId a = rx_organizationId ctx \<and> c = tc_courseId a \<and> tc_teacherUserId a = rx_actorId ctx \<and>
     tc_status a = EpisodeActive))"

text \<open>The assignments a route asks of an actor who is not an administrator.\<close>

definition assigned :: "ScopedOptions \<Rightarrow> request_queries \<Rightarrow> RequestContext \<Rightarrow> ident option \<Rightarrow> ident \<Rightarrow> bool" where
  "assigned options db ctx x c \<longleftrightarrow>
     (so_proctorAccess options \<longrightarrow> proctors_exam (aq_proctor db) ctx x) \<and>
     (so_teacherAccess options \<longrightarrow> teaches_course (aq_teacher db) ctx c) \<and>
     (so_graderAccess options \<longrightarrow> grades_exam (aq_grader db) ctx x)"

lemma gate_checks:
  assumes "gq_ctx request = Some rc"
  shows "proctorAssignmentGate db request x = Inr True \<longleftrightarrow> proctors_exam db (rc_ctx rc) (Some x)"
    and "graderAssignmentGate db request x = Inr True \<longleftrightarrow> grades_exam db (rc_ctx rc) (Some x)"
    and "teacherAssignmentGate db request c = Inr True \<longleftrightarrow> teaches_course db (rc_ctx rc) c"
  by (cases db; auto simp: proctorAssignmentGate_def for_actor_def assms proctors_exam_def hasActiveAssignment_def
      find_active_None_iff episode_of_def graderAssignmentGate_def findActiveByGraderAndExam_def grades_exam_def find_None_iff
      teacherAssignmentGate_def findActiveByTeacherAndCourse_def teaches_course_def)+

lemma assignment_stage_iff:
  "assignment_stage access (if access then Some check else None) request roles target = Inr () \<longleftrightarrow>
     (access \<longrightarrow> ''Admin'' \<in> set roles \<or> (\<not> falsy target \<and> check request (the target) = Inr True))"
  by (auto simp: assignment_stage_def split: sum.splits)

lemma not_falsy_iff: "\<not> falsy x \<longleftrightarrow> (\<exists>s. x = Some s \<and> s \<noteq> [])"
  by (cases x) auto

lemma in_scope_exam: "in_scope t org key i (Some x) c \<Longrightarrow> x \<noteq> []"
  by (cases key) (auto dest: anchored_some)

lemma in_scope_course: "in_scope t org key i x c \<Longrightarrow> c \<noteq> []"
  by (cases key) (auto dest: anchored_some)

lemma stages_iff:
  assumes "gq_ctx request = Some rc" "in_scope t (rx_organizationId (rc_ctx rc)) key i x c"
  shows "assignment_stage (so_proctorAccess opt) (if so_proctorAccess opt then Some (proctorAssignmentGate (aq_proctor db)) else None)
        request (rc_roles rc) x = Inr () \<and>
      assignment_stage (so_teacherAccess opt) (if so_teacherAccess opt then Some (teacherAssignmentGate (aq_teacher db)) else None)
        request (rc_roles rc) (Some c) = Inr () \<and>
      assignment_stage (so_graderAccess opt) (if so_graderAccess opt then Some (graderAssignmentGate (aq_grader db)) else None)
        request (rc_roles rc) x = Inr () \<longleftrightarrow>
    ''Admin'' \<in> set (rc_roles rc) \<or> assigned opt db (rc_ctx rc) x c"
proof -
  have exam: "\<not> falsy x \<and> P (the x) \<longleftrightarrow> (\<exists>e. x = Some e \<and> P e)" for P
    using assms(2) in_scope_exam by (cases x) auto
  have none: "\<not> proctors_exam d ctx None" "\<not> grades_exam d ctx None" for d ctx
    by (auto simp: proctors_exam_def grades_exam_def)
  have c: "c \<noteq> []" using in_scope_course [OF assms(2)] .
  have x: "x = Some e \<Longrightarrow> e \<noteq> []" for e using in_scope_exam assms(2) by blast
  show ?thesis
    unfolding assignment_stage_iff exam gate_checks [OF assms(1)] assigned_def using none c x
    by (cases x) auto
qed

lemma scoped_gate_stages:
  assumes "gq_ctx request = Some rc"
  shows "requireScopedCapability permission key idKey opt db request = Inr () \<longleftrightarrow> permission \<in> set (rc_capabilities rc) \<and>
    (\<exists>resolve i r. resolvers (aq_resolver db) key = Some resolve \<and>
       request_field (so_fromBody opt) idKey request = Some i \<and> i \<noteq> [] \<and> resolve (rc_ctx rc) i = Inr r \<and>
       assignment_stage (so_proctorAccess opt) (if so_proctorAccess opt then Some (proctorAssignmentGate (aq_proctor db)) else None)
         request (rc_roles rc) (resolvedExamId r) = Inr () \<and>
       assignment_stage (so_teacherAccess opt) (if so_teacherAccess opt then Some (teacherAssignmentGate (aq_teacher db)) else None)
         request (rc_roles rc) (resolvedCourseId r) = Inr () \<and>
       assignment_stage (so_graderAccess opt) (if so_graderAccess opt then Some (graderAssignmentGate (aq_grader db)) else None)
         request (rc_roles rc) (resolvedExamId r) = Inr ())"
  unfolding requireScopedCapability_def buildScopedCapabilityPreHandler_def
  by (auto simp: assms ctxAllows_def cmd_iff Let_def not_falsy_iff split: option.splits sum.splits simp del: falsy.simps)

lemma scoped_gate_iff:
  assumes "\<And>t. aq_resolver db = Inr t \<Longrightarrow> access_keys t"
  shows "requireScopedCapability permission key idKey opt db request = Inr () \<longleftrightarrow>
    (\<exists>rc i t x c. gq_ctx request = Some rc \<and> permission \<in> set (rc_capabilities rc) \<and>
       request_field (so_fromBody opt) idKey request = Some i \<and> i \<noteq> [] \<and> aq_resolver db = Inr t \<and>
       in_scope t (rx_organizationId (rc_ctx rc)) key i x c \<and>
       (''Admin'' \<in> set (rc_roles rc) \<or> assigned opt db (rc_ctx rc) x c))"
  (is "?lhs \<longleftrightarrow> ?rhs")
proof (cases "gq_ctx request")
  case None
  then show ?thesis by (simp add: requireScopedCapability_def buildScopedCapabilityPreHandler_def)
next
  case (Some rc)
  let ?org = "rx_organizationId (rc_ctx rc)"
  let ?stages = "\<lambda>x y.
    assignment_stage (so_proctorAccess opt) (if so_proctorAccess opt then Some (proctorAssignmentGate (aq_proctor db)) else None)
      request (rc_roles rc) x = Inr () \<and>
    assignment_stage (so_teacherAccess opt) (if so_teacherAccess opt then Some (teacherAssignmentGate (aq_teacher db)) else None)
      request (rc_roles rc) y = Inr () \<and>
    assignment_stage (so_graderAccess opt) (if so_graderAccess opt then Some (graderAssignmentGate (aq_grader db)) else None)
      request (rc_roles rc) x = Inr ()"
  have registered: "in_scope t org key i x c \<Longrightarrow> \<exists>f. resolvers (aq_resolver db) key = Some f" for t org i x c
    by (cases key) auto
  have allowed: "in_scope t ?org key i x c \<and> ?stages x (Some c) \<longleftrightarrow>
      in_scope t ?org key i x c \<and> (''Admin'' \<in> set (rc_roles rc) \<or> assigned opt db (rc_ctx rc) x c)" for t i x c
    using stages_iff [OF Some] by blast
  have "?lhs \<longleftrightarrow> permission \<in> set (rc_capabilities rc) \<and> (\<exists>f i. resolvers (aq_resolver db) key = Some f \<and>
      request_field (so_fromBody opt) idKey request = Some i \<and> i \<noteq> [] \<and>
      (\<exists>r. f (rc_ctx rc) i = Inr r \<and> ?stages (resolvedExamId r) (resolvedCourseId r)))"
    unfolding scoped_gate_stages [OF Some] by blast
  also have "\<dots> \<longleftrightarrow> permission \<in> set (rc_capabilities rc) \<and> (\<exists>f i. resolvers (aq_resolver db) key = Some f \<and>
      request_field (so_fromBody opt) idKey request = Some i \<and> i \<noteq> [] \<and>
      (\<exists>t x c. aq_resolver db = Inr t \<and> in_scope t ?org key i x c \<and> ?stages x (Some c)))"
    using resolver_decides [OF _ assms, where Q = ?stages and ctx = "rc_ctx rc"] by (intro conj_cong ex_cong1) auto
  also have "\<dots> \<longleftrightarrow> ?rhs" unfolding allowed using Some registered by auto
  finally show ?thesis .
qed

text \<open>C12: A scoped gate never fails open. A request passes exactly when its actor is authenticated and holds the
  capability, the resource is named and lies, with its exam, course and organization, in the actor's organization, and
  the actor is an administrator or holds every active assignment the route asks for on the exam or course the stored
  resource hangs on. A failing query, an unregistered resolver or a broken chain lets nobody pass.\<close>

theorem scoped_gate_exact:
  assumes "\<And>t. aq_resolver db = Inr t \<Longrightarrow> access_keys t"
  shows "requireScopedCapability permission key idKey opt db request = Inr () \<longleftrightarrow>
    (\<exists>rc i t x c. gq_ctx request = Some rc \<and> permission \<in> set (rc_capabilities rc) \<and>
       request_field (so_fromBody opt) idKey request = Some i \<and> i \<noteq> [] \<and> aq_resolver db = Inr t \<and>
       in_scope t (rx_organizationId (rc_ctx rc)) key i x c \<and>
       (''Admin'' \<in> set (rc_roles rc) \<or> assigned opt db (rc_ctx rc) x c))"
  using assms by (rule scoped_gate_iff)

text \<open>The referential integrity of the tables: every row hangs on parents of its own organization.\<close>

definition chains_intact :: "access_tables \<Rightarrow> bool" where
  "chains_intact t \<longleftrightarrow>
     (\<forall>k\<in>set (ac_courses t). anchored_course t (cr_organizationId k) (cr_id k)) \<and>
     (\<forall>e\<in>set (ac_exams t). anchored_exam t (ex_organizationId e) (ex_id e) (ex_courseId e)) \<and>
     (\<forall>a\<in>set (ac_attempts t). \<exists>c. anchored_exam t (at_organizationId a) (at_examId a) c) \<and>
     (\<forall>a\<in>set (ac_incidents t). \<exists>c. anchored_exam t (inc_organizationId a) (inc_examId a) c) \<and>
     (\<forall>(org, q)\<in>set (ac_questions t). anchored_course t org (qn_courseId q))"

lemma find_noneI: "(\<And>x. x \<in> set xs \<Longrightarrow> P x \<Longrightarrow> False) \<Longrightarrow> find P xs = None"
  by (auto simp: find_None_iff)

lemma resolve_missing [simp]: "resolveAuthorizationChain ctx scope (Inr None) = Inl ResourceNotFound"
  by (simp add: resolveAuthorizationChain_def resolve_row_def)

lemma resolver_denies:
  assumes "resolvers (Inr t) key = Some resolve" "access_keys t" "chains_intact t" "i \<noteq> []"
    and "resolve ctx i = Inl reason"
  shows "reason = ResourceNotFound \<and> (\<forall>x c. \<not> in_scope t (rx_organizationId ctx) key i x c)"
proof -
  have "\<not> in_scope t (rx_organizationId ctx) key i x c" for x c
    using resolver_scope [OF assms(1,2,4), of ctx "resolved_in (scope_of key) (rx_organizationId ctx) i (chain_of key i x c)"]
      assms(5) by auto
  then have out: "\<forall>x c. \<not> in_scope t (rx_organizationId ctx) key i x c" by blast
  have "resolve ctx i = Inl ResourceNotFound"
  proof (cases key)
    case RAttempt
    then have "attempt_row ctx i t = None" using out assms(2,3)
      by (cases "attempt_row ctx i t") (auto simp: chains_intact_def)
    then show ?thesis using assms(1) RAttempt by (auto simp: attempt_chain_def)
  next
    case RExam
    have "find (\<lambda>e. ex_organizationId e = rx_organizationId ctx \<and> ex_id e = i) (ac_exams t) = None"
    proof (rule find_noneI)
      fix e assume "e \<in> set (ac_exams t)" "ex_organizationId e = rx_organizationId ctx \<and> ex_id e = i"
      then have "anchored_exam t (rx_organizationId ctx) i (ex_courseId e)" using assms(3) unfolding chains_intact_def by metis
      then show False using out RExam by simp
    qed
    then show ?thesis using assms(1) RExam by (auto simp: exam_chain_def)
  next
    case RIncident
    have "find (\<lambda>a. inc_organizationId a = rx_organizationId ctx \<and> inc_id a = i) (ac_incidents t) = None"
    proof (rule find_noneI)
      fix a assume a: "a \<in> set (ac_incidents t)" "inc_organizationId a = rx_organizationId ctx \<and> inc_id a = i"
      then have "\<exists>c. anchored_exam t (rx_organizationId ctx) (inc_examId a) c" using assms(3) unfolding chains_intact_def by metis
      then show False using a out RIncident by auto
    qed
    then show ?thesis using assms(1) RIncident by (auto simp: incident_chain_def)
  next
    case RCourse
    have "find (\<lambda>k. cr_organizationId k = rx_organizationId ctx \<and> cr_id k = i) (ac_courses t) = None"
    proof (rule find_noneI)
      fix k assume "k \<in> set (ac_courses t)" "cr_organizationId k = rx_organizationId ctx \<and> cr_id k = i"
      then have "anchored_course t (rx_organizationId ctx) i" using assms(3) unfolding chains_intact_def by metis
      then show False using spec [OF spec [OF out, of None], of i] RCourse by simp
    qed
    then show ?thesis using assms(1) RCourse by (auto simp: course_chain_def)
  next
    case RQuestion
    have "find (\<lambda>(org, q). org = rx_organizationId ctx \<and> qn_id q = i) (ac_questions t) = None"
    proof (rule find_noneI)
      fix p assume p: "p \<in> set (ac_questions t)" "case p of (org, q) \<Rightarrow> org = rx_organizationId ctx \<and> qn_id q = i"
      then obtain q where q: "(rx_organizationId ctx, q) \<in> set (ac_questions t)" "qn_id q = i" by (cases p) auto
      then have "anchored_course t (rx_organizationId ctx) (qn_courseId q)" using assms(3) unfolding chains_intact_def by fast
      then show False using q out RQuestion by auto
    qed
    then show ?thesis using assms(1) RQuestion by (auto simp: question_chain_def)
  qed (use assms(1) in auto)
  then show ?thesis using assms(5) out by simp
qed

lemma gates_answer:
  "db = Inr t \<Longrightarrow> \<exists>b. proctorAssignmentGate db request x = Inr b"
  "db = Inr t \<Longrightarrow> \<exists>b. teacherAssignmentGate db request x = Inr b"
  "db = Inr t \<Longrightarrow> \<exists>b. graderAssignmentGate db request x = Inr b"
  by (auto simp: proctorAssignmentGate_def teacherAssignmentGate_def graderAssignmentGate_def for_actor_def split: option.splits)

text \<open>A route that is declared soundly: its resolver is registered, and exam assignments are asked only where the resource
  hangs on an exam.\<close>

definition sound_route :: "ResourceType \<Rightarrow> ScopedOptions \<Rightarrow> bool" where
  "sound_route key opt \<longleftrightarrow> key \<in> {RAttempt, RExam, RIncident} \<or>
     key \<in> {RCourse, RQuestion} \<and> \<not> (so_proctorAccess opt \<or> so_graderAccess opt)"

lemma scope_exam_known: "in_scope t org key i x c \<Longrightarrow> key \<in> {RAttempt, RExam, RIncident} \<Longrightarrow> \<not> falsy x"
  by (auto simp: anchored_exam_def)

lemma two_stages:
  "p \<in> {Inr (), Inl e} \<Longrightarrow> q \<in> {Inr (), Inl e} \<Longrightarrow> r \<in> {Inr (), Inl e} \<Longrightarrow>
     (p = Inr () \<and> q = Inr () \<and> r = Inr () \<longleftrightarrow> ok) \<Longrightarrow>
   bindR p (\<lambda>_. bindR q (\<lambda>_. r)) = (if ok then Inr () else Inl e)"
  by auto

text \<open>What the gate answers about a resource in scope when no assignment query fails.\<close>

lemma scoped_gate_in_scope:
  assumes "gq_ctx request = Some rc" "permission \<in> set (rc_capabilities rc)"
    and "request_field (so_fromBody opt) idKey request = Some i" "i \<noteq> []" "aq_resolver db = Inr t" "access_keys t"
    and scope: "in_scope t (rx_organizationId (rc_ctx rc)) key i x c"
    and "so_proctorAccess opt \<or> so_graderAccess opt \<Longrightarrow> x \<noteq> None" "so_proctorAccess opt \<Longrightarrow> \<exists>t. aq_proctor db = Inr t"
    and "so_teacherAccess opt \<Longrightarrow> \<exists>t. aq_teacher db = Inr t" "so_graderAccess opt \<Longrightarrow> \<exists>t. aq_grader db = Inr t"
  shows "requireScopedCapability permission key idKey opt db request =
    (if ''Admin'' \<in> set (rc_roles rc) \<or> assigned opt db (rc_ctx rc) x c then Inr () else Inl RESOURCE_NOT_FOUND)"
proof -
  let ?org = "rx_organizationId (rc_ctx rc)"
  obtain resolve where resolve: "resolvers (Inr t) key = Some resolve" using scope by (cases key) auto
  let ?r = "resolved_in (scope_of key) ?org i (chain_of key i x c)"
  have r: "resolve (rc_ctx rc) i = Inr ?r" using resolver_scope [OF resolve assms(6,4)] scope by blast
  note targets = scope_targets [OF scope]
  have exam: "so_proctorAccess opt \<Longrightarrow> \<not> falsy x" "so_graderAccess opt \<Longrightarrow> \<not> falsy x"
    using assms(8) in_scope_exam scope by (cases x; auto)+
  have given: "\<not> falsy (Some c)" "\<not> falsy (Some i)" using in_scope_course [OF scope] assms(4) by simp_all
  let ?p = "assignment_stage (so_proctorAccess opt) (if so_proctorAccess opt then Some (proctorAssignmentGate (aq_proctor db)) else None) request (rc_roles rc) x"
  let ?t = "assignment_stage (so_teacherAccess opt) (if so_teacherAccess opt then Some (teacherAssignmentGate (aq_teacher db)) else None) request (rc_roles rc) (Some c)"
  let ?g = "assignment_stage (so_graderAccess opt) (if so_graderAccess opt then Some (graderAssignmentGate (aq_grader db)) else None) request (rc_roles rc) x"
  have gate: "requireScopedCapability permission key idKey opt db request = bindR ?p (\<lambda>_. bindR ?t (\<lambda>_. ?g))"
    using assms(1-5) resolve r targets given
    by (simp add: requireScopedCapability_def buildScopedCapabilityPreHandler_def ctxAllows_def Let_def)
  have stage: "assignment_stage a (if a then Some check else None) request roles target \<in> {Inr (), Inl RESOURCE_NOT_FOUND}"
    if "a \<Longrightarrow> \<not> falsy target" "a \<Longrightarrow> \<exists>b. check request (the target) = Inr b" for a check roles target
    using that by (cases a) (auto simp: assignment_stage_def guardR_def split: if_splits)
  show ?thesis unfolding gate
  proof (rule two_stages)
    show "?p \<in> {Inr (), Inl RESOURCE_NOT_FOUND}" using exam(1) assms(9) gates_answer(1) by (intro stage) blast+
    show "?t \<in> {Inr (), Inl RESOURCE_NOT_FOUND}" using given(1) assms(10) gates_answer(2) by (intro stage) blast+
    show "?g \<in> {Inr (), Inl RESOURCE_NOT_FOUND}" using exam(2) assms(11) gates_answer(3) by (intro stage) blast+
    show "?p = Inr () \<and> ?t = Inr () \<and> ?g = Inr () \<longleftrightarrow> ''Admin'' \<in> set (rc_roles rc) \<or> assigned opt db (rc_ctx rc) x c"
      by (rule stages_iff [OF assms(1) scope])
  qed
qed

text \<open>C13: A refusal does not tell what exists. For an actor who holds the capability, on a soundly declared route over
  intact tables, a request that is not let through is answered with one and the same not-found answer, whether the
  resource does not exist, belongs to another organization, or hangs on an exam or a course the actor is not assigned to.\<close>

theorem scoped_gate_hides:
  assumes "gq_ctx request = Some rc" "permission \<in> set (rc_capabilities rc)" "sound_route key opt"
    and "request_field (so_fromBody opt) idKey request = Some i" "i \<noteq> []"
    and "aq_resolver db = Inr t" "access_keys t" "chains_intact t"
    and "aq_proctor db = Inr tp" "aq_teacher db = Inr tt" "aq_grader db = Inr tg"
  shows "requireScopedCapability permission key idKey opt db request =
    (if \<exists>x c. in_scope t (rx_organizationId (rc_ctx rc)) key i x c \<and>
        (''Admin'' \<in> set (rc_roles rc) \<or> assigned opt db (rc_ctx rc) x c)
     then Inr () else Inl RESOURCE_NOT_FOUND)"
proof -
  have keys: "access_keys t'" if "aq_resolver db = Inr t'" for t' using that assms(6,7) by simp
  obtain resolve where resolve: "resolvers (Inr t) key = Some resolve"
    using assms(3) by (auto simp: sound_route_def)
  have "requireScopedCapability permission key idKey opt db request \<in> {Inr (), Inl RESOURCE_NOT_FOUND}"
  proof (cases "resolve (rc_ctx rc) i")
    case (Inl reason)
    then show ?thesis using resolver_denies [OF resolve assms(7,8,5) Inl] assms resolve
      by (simp add: requireScopedCapability_def buildScopedCapabilityPreHandler_def ctxAllows_def Let_def)
  next
    case (Inr r)
    then obtain x c where scope: "in_scope t (rx_organizationId (rc_ctx rc)) key i x c"
      using resolver_scope [OF resolve assms(7,5), of "rc_ctx rc" r] by auto
    have "x \<noteq> None" if "so_proctorAccess opt \<or> so_graderAccess opt"
      using that assms(3) scope_exam_known [OF scope] by (cases x) (auto simp: sound_route_def)
    then show ?thesis
      using scoped_gate_in_scope [OF assms(1,2,4,5,6,7) scope] assms(9-11) by simp
  qed
  moreover have "requireScopedCapability permission key idKey opt db request = Inr () \<longleftrightarrow>
      (\<exists>x c. in_scope t (rx_organizationId (rc_ctx rc)) key i x c \<and>
        (''Admin'' \<in> set (rc_roles rc) \<or> assigned opt db (rc_ctx rc) x c))"
    by (subst scoped_gate_iff) (use keys assms(1,2,4,5,6) in auto)
  ultimately show ?thesis by auto
qed

text \<open>C14: A change of assignment counts at the next request. After an assignment or a revocation that is no replay, the
  proctor it names, not being an administrator, passes the gate of a proctor route about anything that hangs on the exam
  exactly when the command assigned; once revoked, the gate answers that the resource is not found.\<close>

theorem assignment_counts_at_once:
  assumes "run_proctor num dates uuid ctx cmd env s = Inr (result, s')" "pr_outcome result \<noteq> AssignmentReplayed"
    and "proctor_inv uuid s" "request_key cmd = (x, rx_actorId (rc_ctx rc))"
    and "rx_organizationId (rc_ctx rc) = rx_organizationId ctx" "gq_ctx request = Some rc"
    and "permission \<in> set (rc_capabilities rc)" "''Admin'' \<notin> set (rc_roles rc)"
    and "so_proctorAccess opt" "\<not> so_teacherAccess opt" "\<not> so_graderAccess opt"
    and "request_field (so_fromBody opt) idKey request = Some i" "i \<noteq> []"
    and "aq_resolver db = Inr t" "access_keys t" "in_scope t (rx_organizationId (rc_ctx rc)) key i (Some x) c"
    and "aq_proctor db = Inr tp" "ac_proctors tp = s'"
  shows "requireScopedCapability permission key idKey opt db request =
    (if grants cmd then Inr () else Inl RESOURCE_NOT_FOUND)"
proof -
  have "assigned opt db (rc_ctx rc) (Some x) c \<longleftrightarrow> hasActiveAssignment (rc_ctx rc) x (rx_actorId (rc_ctx rc)) s'"
    using assms(9-11,17,18) by (auto simp: assigned_def proctors_exam_def has_active_iff episode_key_def)
  also have "\<dots> \<longleftrightarrow> grants cmd" using run_effect [OF assms(1-3)] assms(4,5) by simp
  finally show ?thesis
    using scoped_gate_in_scope [OF assms(6,7,12-16)] assms(8,10,11,17) by simp
qed

section \<open>Ownership\<close>

text \<open>An attempt in the organization, and the profile of its candidate.\<close>

definition attempt_of :: "access_tables \<Rightarrow> ident \<Rightarrow> ident \<Rightarrow> ident \<Rightarrow> CandidateProfileRow option \<Rightarrow> bool" where
  "attempt_of t org i c profile \<longleftrightarrow> (\<exists>a\<in>set (ac_attempts t). at_id a = i \<and> at_organizationId a = org \<and>
     anchored_exam t org (at_examId a) c \<and>
     (case profile of Some p \<Rightarrow> p \<in> set (ac_profiles t) \<and> cp_id p = at_candidateId a
      | None \<Rightarrow> at_candidateId a \<notin> cp_id ` set (ac_profiles t)))"

lemma attempt_profile_iff:
  "access_keys t \<Longrightarrow> attempt_profile t a = profile \<longleftrightarrow>
     (case profile of Some p \<Rightarrow> p \<in> set (ac_profiles t) \<and> cp_id p = at_candidateId a
      | None \<Rightarrow> at_candidateId a \<notin> cp_id ` set (ac_profiles t))"
proof (cases profile)
  case None
  then show ?thesis by (auto simp: attempt_profile_def find_None_iff image_iff)
next
  case (Some p)
  assume "access_keys t"
  then show ?thesis using Some find_key [of cp_id "ac_profiles t" "\<lambda>p. cp_id p = at_candidateId a" "\<lambda>_. True" "at_candidateId a" p]
    by (simp add: attempt_profile_def access_keys_def)
qed

lemma owned_attempt_iff:
  assumes "access_keys t" "i \<noteq> []"
  shows "(\<exists>l. owned_attempt ctx i t = Some (l, profile) \<and> check_chain ctx scope l = Inr r) \<longleftrightarrow>
    (\<exists>c x. attempt_of t (rx_organizationId ctx) i c profile \<and> in_scope t (rx_organizationId ctx) RAttempt i (Some x) c \<and>
      r = resolved_in scope (rx_organizationId ctx) i [(RAttempt, i), (RExam, x), (RCourse, c)])"
proof -
  have one: "a = b" if "a \<in> set (ac_attempts t)" "b \<in> set (ac_attempts t)" "at_id a = at_id b" for a b
    using assms(1) that by (auto simp: access_keys_def distinct_map dest: inj_onD)
  have "(\<exists>l. owned_attempt ctx i t = Some (l, profile) \<and> check_chain ctx scope l = Inr r) \<longleftrightarrow>
      (\<exists>a c. a \<in> set (ac_attempts t) \<and> at_id a = i \<and> at_organizationId a = rx_organizationId ctx \<and>
        attempt_profile t a = profile \<and> anchored_exam t (rx_organizationId ctx) (at_examId a) c \<and>
        r = resolved_in scope (rx_organizationId ctx) i [(RAttempt, i), (RExam, at_examId a), (RCourse, c)])"
    using assms by (auto simp: owned_attempt_def attempt_loaded_def below_exam_iff resolved_in_def)
  also have "\<dots> \<longleftrightarrow> (\<exists>c x. attempt_of t (rx_organizationId ctx) i c profile \<and>
      in_scope t (rx_organizationId ctx) RAttempt i (Some x) c \<and>
      r = resolved_in scope (rx_organizationId ctx) i [(RAttempt, i), (RExam, x), (RCourse, c)])"
    unfolding attempt_profile_iff [OF assms(1)] attempt_of_def using one by (simp; blast)
  finally show ?thesis .
qed

text \<open>The profile belongs to the organization, or there is none.\<close>

definition profile_in :: "RequestContext \<Rightarrow> CandidateProfileRow option \<Rightarrow> bool" where
  "profile_in ctx profile \<longleftrightarrow> (\<forall>p. profile = Some p \<longrightarrow> cp_organizationId p = rx_organizationId ctx)"

lemma anchored_profile_iff [simp]: "anchored_profile ctx profile = Inr () \<longleftrightarrow> profile_in ctx profile"
  by (cases profile) (auto simp: anchored_profile_def profile_in_def)

lemma own_scope_iff:
  assumes "\<And>t. db = Inr t \<Longrightarrow> access_keys t" "i \<noteq> []"
  shows "(\<exists>r. resolveOwnAttemptScope db ctx i = Inr (r, owner)) \<longleftrightarrow>
    (\<exists>t c profile. db = Inr t \<and> attempt_of t (rx_organizationId ctx) i c profile \<and> profile_in ctx profile \<and>
       map_option cp_userId profile = owner)"
proof (cases db)
  case (Inl e)
  then show ?thesis by (simp add: resolveOwnAttemptScope_def resolve_row_def)
next
  case (Inr t)
  have keys: "access_keys t" using assms(1) [OF Inr] .
  have scope: "attempt_of t org i c profile \<Longrightarrow> \<exists>x. in_scope t org RAttempt i (Some x) c" for org c profile
    by (auto simp: attempt_of_def)
  have "(\<exists>r. resolveOwnAttemptScope db ctx i = Inr (r, owner)) \<longleftrightarrow>
      (\<exists>profile r. (\<exists>l. owned_attempt ctx i t = Some (l, profile) \<and> check_chain ctx ScopeOwnAttempt l = Inr r) \<and>
        profile_in ctx profile \<and> map_option cp_userId profile = owner)"
    unfolding resolveOwnAttemptScope_def resolve_row_iff by (auto simp: Inr cmd_iff)
  then show ?thesis using scope unfolding owned_attempt_iff [OF keys assms(2)]
    by (simp add: Inr del: in_scope.simps) metis
qed

text \<open>C15: Only its owner reaches an attempt. The own-attempt gate lets a request pass exactly when its actor is
  authenticated and holds the capability, and the named attempt lies with its exam, course and organization in the
  actor's organization and belongs to the candidate profile of the actor there. Over intact tables, a holder of the
  capability who is not let through always gets the answer of an attempt that does not exist.\<close>

theorem own_attempt_only_owner:
  assumes "\<And>t. db = Inr t \<Longrightarrow> access_keys t"
  shows "(requireOwnAttempt db permission idKey request = Inr () \<longleftrightarrow>
      (\<exists>rc i t c p. gq_ctx request = Some rc \<and> permission \<in> set (rc_capabilities rc) \<and>
         map_of (gq_params request) idKey = Some i \<and> i \<noteq> [] \<and> db = Inr t \<and>
         attempt_of t (rx_organizationId (rc_ctx rc)) i c (Some p) \<and>
         cp_organizationId p = rx_organizationId (rc_ctx rc) \<and> cp_userId p = rx_actorId (rc_ctx rc))) \<and>
    (\<forall>rc i t. gq_ctx request = Some rc \<longrightarrow> permission \<in> set (rc_capabilities rc) \<longrightarrow>
       map_of (gq_params request) idKey = Some i \<longrightarrow> i \<noteq> [] \<longrightarrow> db = Inr t \<longrightarrow> chains_intact t \<longrightarrow>
       (\<forall>c p. attempt_of t (rx_organizationId (rc_ctx rc)) i c (Some p) \<longrightarrow> cp_organizationId p = rx_organizationId (rc_ctx rc)) \<longrightarrow>
       requireOwnAttempt db permission idKey request \<noteq> Inr () \<longrightarrow>
       requireOwnAttempt db permission idKey request = Inl RESOURCE_NOT_FOUND)"
proof (intro conjI allI impI)
  have pass: "requireOwnAttempt db permission idKey request = Inr () \<longleftrightarrow> (\<exists>rc i. gq_ctx request = Some rc \<and>
      permission \<in> set (rc_capabilities rc) \<and> map_of (gq_params request) idKey = Some i \<and> i \<noteq> [] \<and>
      (\<exists>r. resolveOwnAttemptScope db (rc_ctx rc) i = Inr (r, Some (rx_actorId (rc_ctx rc)))))"
    by (auto simp: requireOwnAttempt_def with_resource_def cmd_iff ctxAllows_def split: option.splits sum.splits)
  have owner: "(\<exists>r. resolveOwnAttemptScope db (rc_ctx rc) i = Inr (r, Some (rx_actorId (rc_ctx rc)))) \<longleftrightarrow>
      (\<exists>t c p. db = Inr t \<and> attempt_of t (rx_organizationId (rc_ctx rc)) i c (Some p) \<and>
        cp_organizationId p = rx_organizationId (rc_ctx rc) \<and> cp_userId p = rx_actorId (rc_ctx rc))" if "i \<noteq> []" for rc i
    by (subst own_scope_iff [OF assms that]) (auto simp: profile_in_def)
  show "requireOwnAttempt db permission idKey request = Inr () \<longleftrightarrow>
      (\<exists>rc i t c p. gq_ctx request = Some rc \<and> permission \<in> set (rc_capabilities rc) \<and>
         map_of (gq_params request) idKey = Some i \<and> i \<noteq> [] \<and> db = Inr t \<and>
         attempt_of t (rx_organizationId (rc_ctx rc)) i c (Some p) \<and>
         cp_organizationId p = rx_organizationId (rc_ctx rc) \<and> cp_userId p = rx_actorId (rc_ctx rc))"
    unfolding pass using owner by blast
next
  fix rc i t
  assume request: "gq_ctx request = Some rc" "permission \<in> set (rc_capabilities rc)"
      "map_of (gq_params request) idKey = Some i" "i \<noteq> []" and db: "db = Inr t" and intact: "chains_intact t"
    and profiles: "\<forall>c p. attempt_of t (rx_organizationId (rc_ctx rc)) i c (Some p) \<longrightarrow>
        cp_organizationId p = rx_organizationId (rc_ctx rc)"
    and refused: "requireOwnAttempt db permission idKey request \<noteq> Inr ()"
  show "requireOwnAttempt db permission idKey request = Inl RESOURCE_NOT_FOUND"
  proof (cases "resolveOwnAttemptScope db (rc_ctx rc) i")
    case (Inr r)
    then show ?thesis using refused request
      by (auto simp: requireOwnAttempt_def with_resource_def ctxAllows_def guardR_def split: prod.splits if_splits)
  next
    case (Inl reason)
    have keys: "access_keys t" using assms db by simp
    have "attempt_row (rc_ctx rc) i t = None"
    proof (rule ccontr)
      assume "attempt_row (rc_ctx rc) i t \<noteq> None"
      then obtain a where "attempt_row (rc_ctx rc) i t = Some a" by blast
      then have a: "a \<in> set (ac_attempts t)" "at_organizationId a = rx_organizationId (rc_ctx rc)" "at_id a = i" using keys by simp_all
      then obtain c where "anchored_exam t (rx_organizationId (rc_ctx rc)) (at_examId a) c"
        using intact unfolding chains_intact_def by metis
      then have own: "attempt_of t (rx_organizationId (rc_ctx rc)) i c (attempt_profile t a)"
        using a attempt_profile_iff [OF keys, of a "attempt_profile t a"] by (auto simp: attempt_of_def)
      have "profile_in (rc_ctx rc) (attempt_profile t a)" using own profiles by (auto simp: profile_in_def)
      then show False using own_scope_iff [OF assms request(4)] own db Inl by (metis Inl_Inr_False)
    qed
    then show ?thesis using request
      by (simp add: requireOwnAttempt_def with_resource_def resolveOwnAttemptScope_def resolve_row_def owned_attempt_def db)
  qed
qed

section \<open>Results\<close>

lemma score_scope_iff:
  assumes "\<And>t. db = Inr t \<Longrightarrow> access_keys t" "i \<noteq> []"
  shows "(\<exists>r. resolveScoreScope db ctx i = Inr (r, owner) \<and> find (\<lambda>n. fst n = RCourse) (rs_chain r) = course) \<longleftrightarrow>
    (\<exists>t c profile. db = Inr t \<and> attempt_of t (rx_organizationId ctx) i c profile \<and>
       map_option cp_userId profile = owner \<and> course = Some (RCourse, c))"
proof (cases db)
  case (Inl e)
  then show ?thesis by (simp add: resolveScoreScope_def resolve_row_def)
next
  case (Inr t)
  have keys: "access_keys t" using assms(1) [OF Inr] .
  have scope: "attempt_of t org i c profile \<Longrightarrow> \<exists>x. in_scope t org RAttempt i (Some x) c" for org c profile
    by (auto simp: attempt_of_def)
  have chain: "find (\<lambda>n. fst n = RCourse) (rs_chain (resolved_in s org i [(RAttempt, i), (RExam, x), (RCourse, c)])) = Some (RCourse, c)"
    for s org x c by (simp add: resolved_in_def)
  have "(\<exists>r. resolveScoreScope db ctx i = Inr (r, owner) \<and> find (\<lambda>n. fst n = RCourse) (rs_chain r) = course) \<longleftrightarrow>
      (\<exists>profile r. (\<exists>l. owned_attempt ctx i t = Some (l, profile) \<and> check_chain ctx ScopeOwnScore l = Inr r) \<and>
        map_option cp_userId profile = owner \<and> find (\<lambda>n. fst n = RCourse) (rs_chain r) = course)"
    unfolding resolveScoreScope_def resolve_row_iff by (auto simp: Inr cmd_iff)
  then show ?thesis using scope unfolding owned_attempt_iff [OF keys assms(2)]
    by (simp add: Inr del: in_scope.simps) (metis chain)
qed

lemma score_scope_decides:
  assumes "\<And>t. db = Inr t \<Longrightarrow> access_keys t" "i \<noteq> []"
  shows "(\<exists>r owner. resolveScoreScope db ctx i = Inr (r, owner) \<and> Q owner (find (\<lambda>n. fst n = RCourse) (rs_chain r))) \<longleftrightarrow>
    (\<exists>t c profile. db = Inr t \<and> attempt_of t (rx_organizationId ctx) i c profile \<and>
       Q (map_option cp_userId profile) (Some (RCourse, c)))" (is "?lhs \<longleftrightarrow> ?rhs")
proof
  assume ?lhs
  then obtain r owner where r: "resolveScoreScope db ctx i = Inr (r, owner)" "Q owner (find (\<lambda>n. fst n = RCourse) (rs_chain r))"
    by blast
  have "\<exists>r'. resolveScoreScope db ctx i = Inr (r', owner) \<and>
      find (\<lambda>n. fst n = RCourse) (rs_chain r') = find (\<lambda>n. fst n = RCourse) (rs_chain r)" using r(1) by blast
  then have "\<exists>t c profile. db = Inr t \<and> attempt_of t (rx_organizationId ctx) i c profile \<and>
      map_option cp_userId profile = owner \<and> find (\<lambda>n. fst n = RCourse) (rs_chain r) = Some (RCourse, c)"
    by (subst (asm) score_scope_iff [OF assms])
  then show ?rhs using r(2) by metis
next
  assume ?rhs
  then obtain t c profile where a: "db = Inr t" "attempt_of t (rx_organizationId ctx) i c profile"
      "Q (map_option cp_userId profile) (Some (RCourse, c))" by blast
  then have "\<exists>r. resolveScoreScope db ctx i = Inr (r, map_option cp_userId profile) \<and>
      find (\<lambda>n. fst n = RCourse) (rs_chain r) = Some (RCourse, c)"
    by (subst score_scope_iff [OF assms]) auto
  then show ?lhs using a(3) by auto
qed

definition view_granted ::
  "query \<Rightarrow> GateRequest \<Rightarrow> RuntimeRequestContext \<Rightarrow> ScoreView \<Rightarrow> ident option \<Rightarrow> (ResourceType \<times> ident) option \<Rightarrow> bool" where
  "view_granted gate_db request rc view owner course \<longleftrightarrow>
     (if ''score.all.view'' \<in> set (rc_capabilities rc)
      then view = ViewAll \<and> (''Admin'' \<in> set (rc_roles rc) \<or>
        (\<exists>n. course = Some n \<and> teacherAssignmentGate gate_db request (snd n) = Inr True))
      else ''score.own.view'' \<in> set (rc_capabilities rc) \<and> view = ViewOwn \<and> owner = Some (rx_actorId (rc_ctx rc)))"

lemma score_gate_pass:
  assumes "gq_ctx request = Some rc" "map_of (gq_params request) ''attemptId'' = Some i" "i \<noteq> []"
  shows "requireScoreCapability db gate_db request = Inr view \<longleftrightarrow> (\<exists>r owner. resolveScoreScope db (rc_ctx rc) i = Inr (r, owner) \<and>
    view_granted gate_db request rc view owner (find (\<lambda>n. fst n = RCourse) (rs_chain r)))"
proof (cases "resolveScoreScope db (rc_ctx rc) i")
  case (Inr p)
  obtain r owner where p: "p = (r, owner)" by (cases p)
  show ?thesis
    by (auto simp: requireScoreCapability_def buildScoreCapabilityPreHandler_def with_resource_def assms ctxAllows_def Inr p
        view_granted_def guardR_def split: option.splits sum.splits if_splits)
qed (simp add: requireScoreCapability_def buildScoreCapabilityPreHandler_def with_resource_def assms)

lemma score_gate_needs:
  "requireScoreCapability db gate_db request = Inr view \<Longrightarrow> \<exists>rc i. gq_ctx request = Some rc \<and>
     map_of (gq_params request) ''attemptId'' = Some i \<and> i \<noteq> []"
  by (auto simp: requireScoreCapability_def buildScoreCapabilityPreHandler_def with_resource_def guardR_def
      split: option.splits if_splits)

text \<open>C16: Who sees a result, and which view. The result gate lets a request pass exactly when the attempt lies with its
  exam, course and organization in the actor's organization and the actor either holds the capability to see all results
  and is an administrator or teaches the course of the stored exam, and then sees the full view, or holds only the
  capability to see own results and owns the attempt, and then sees the own view.\<close>

theorem score_view_arbitrated:
  assumes "\<And>t. db = Inr t \<Longrightarrow> access_keys t"
  shows "requireScoreCapability db gate_db request = Inr view \<longleftrightarrow>
    (\<exists>rc i t c profile. gq_ctx request = Some rc \<and> map_of (gq_params request) ''attemptId'' = Some i \<and> i \<noteq> [] \<and> db = Inr t \<and>
       attempt_of t (rx_organizationId (rc_ctx rc)) i c profile \<and>
       (if ''score.all.view'' \<in> set (rc_capabilities rc)
        then view = ViewAll \<and> (''Admin'' \<in> set (rc_roles rc) \<or> teaches_course gate_db (rc_ctx rc) c)
        else ''score.own.view'' \<in> set (rc_capabilities rc) \<and> view = ViewOwn \<and>
          map_option cp_userId profile = Some (rx_actorId (rc_ctx rc))))"
proof -
  have "requireScoreCapability db gate_db request = Inr view \<longleftrightarrow> (\<exists>t c profile. db = Inr t \<and>
      attempt_of t (rx_organizationId (rc_ctx rc)) i c profile \<and>
      view_granted gate_db request rc view (map_option cp_userId profile) (Some (RCourse, c)))"
    if request: "gq_ctx request = Some rc" "map_of (gq_params request) ''attemptId'' = Some i" "i \<noteq> []" for rc i
    unfolding score_gate_pass [OF request] by (rule score_scope_decides) (use assms request in auto)
  moreover have "view_granted gate_db request rc view owner (Some (RCourse, c)) \<longleftrightarrow>
      (if ''score.all.view'' \<in> set (rc_capabilities rc)
       then view = ViewAll \<and> (''Admin'' \<in> set (rc_roles rc) \<or> teaches_course gate_db (rc_ctx rc) c)
       else ''score.own.view'' \<in> set (rc_capabilities rc) \<and> view = ViewOwn \<and> owner = Some (rx_actorId (rc_ctx rc)))"
    if "gq_ctx request = Some rc" for rc owner c
    using gate_checks(3) [OF that] by (simp add: view_granted_def)
  ultimately have granted: "requireScoreCapability db gate_db request = Inr view \<longleftrightarrow> (\<exists>t c profile. db = Inr t \<and>
      attempt_of t (rx_organizationId (rc_ctx rc)) i c profile \<and>
      (if ''score.all.view'' \<in> set (rc_capabilities rc)
       then view = ViewAll \<and> (''Admin'' \<in> set (rc_roles rc) \<or> teaches_course gate_db (rc_ctx rc) c)
       else ''score.own.view'' \<in> set (rc_capabilities rc) \<and> view = ViewOwn \<and>
         map_option cp_userId profile = Some (rx_actorId (rc_ctx rc))))"
    if "gq_ctx request = Some rc" "map_of (gq_params request) ''attemptId'' = Some i" "i \<noteq> []" for rc i
    using that by simp
  show ?thesis
  proof
    assume pass: "requireScoreCapability db gate_db request = Inr view"
    then obtain rc i where "gq_ctx request = Some rc" "map_of (gq_params request) ''attemptId'' = Some i" "i \<noteq> []"
      using score_gate_needs by blast
    then show "\<exists>rc i t c profile. gq_ctx request = Some rc \<and> map_of (gq_params request) ''attemptId'' = Some i \<and> i \<noteq> [] \<and> db = Inr t \<and>
       attempt_of t (rx_organizationId (rc_ctx rc)) i c profile \<and>
       (if ''score.all.view'' \<in> set (rc_capabilities rc)
        then view = ViewAll \<and> (''Admin'' \<in> set (rc_roles rc) \<or> teaches_course gate_db (rc_ctx rc) c)
        else ''score.own.view'' \<in> set (rc_capabilities rc) \<and> view = ViewOwn \<and>
          map_option cp_userId profile = Some (rx_actorId (rc_ctx rc)))"
      using granted pass by blast
  qed (use granted in blast)
qed

text \<open>An actor who owns an attempt and may see own results loses that view with a role that adds the capability to see all
  results without the course of the exam: the broader capability is tried alone.\<close>

lemma own_result_lost:
  assumes "gq_ctx request = Some rc" "map_of (gq_params request) ''attemptId'' = Some i" "i \<noteq> []" "db = Inr t" "access_keys t"
    and "attempt_of t (rx_organizationId (rc_ctx rc)) i c (Some p)" "cp_userId p = rx_actorId (rc_ctx rc)"
    and "''score.own.view'' \<in> set (rc_capabilities rc)" "''Admin'' \<notin> set (rc_roles rc)"
    and "gate_db = Inr t'" "\<not> teaches_course gate_db (rc_ctx rc) c"
  shows "requireScoreCapability db gate_db request =
    (if ''score.all.view'' \<in> set (rc_capabilities rc) then Inl RESOURCE_NOT_FOUND else Inr ViewOwn)"
proof -
  have "\<exists>r. resolveScoreScope db (rc_ctx rc) i = Inr (r, Some (rx_actorId (rc_ctx rc))) \<and>
      find (\<lambda>n. fst n = RCourse) (rs_chain r) = Some (RCourse, c)"
    by (subst score_scope_iff) (use assms in auto)
  then obtain r where r: "resolveScoreScope db (rc_ctx rc) i = Inr (r, Some (rx_actorId (rc_ctx rc)))"
      "find (\<lambda>n. fst n = RCourse) (rs_chain r) = Some (RCourse, c)" by blast
  obtain b where b: "teacherAssignmentGate gate_db request c = Inr b" using gates_answer(2) assms(10) by blast
  then have "\<not> b" using gate_checks(3) [OF assms(1), of gate_db c] assms(11) by simp
  with r b show ?thesis using assms(1-3,8,9)
    by (simp add: requireScoreCapability_def buildScoreCapabilityPreHandler_def with_resource_def ctxAllows_def)
qed

section \<open>Eligibility\<close>

text \<open>The enrollment of an actor's profile to an exam.\<close>

definition enrolled :: "access_tables \<Rightarrow> RequestContext \<Rightarrow> ident \<Rightarrow> bool" where
  "enrolled t ctx x \<longleftrightarrow> (\<exists>p\<in>set (ac_profiles t). cp_organizationId p = rx_organizationId ctx \<and> cp_userId p = rx_actorId ctx \<and>
     (\<exists>e. (rx_organizationId ctx, e) \<in> set (ac_enrollments t) \<and> en_examId e = x \<and> en_candidateId e = cp_id p))"

lemma actor_profile_iff:
  "access_keys t \<Longrightarrow> actor_profile ctx t = Some p \<longleftrightarrow>
     p \<in> set (ac_profiles t) \<and> cp_organizationId p = rx_organizationId ctx \<and> cp_userId p = rx_actorId ctx"
  using find_key [of "\<lambda>p. (cp_organizationId p, cp_userId p)" "ac_profiles t"
      "\<lambda>p. cp_organizationId p = rx_organizationId ctx \<and> cp_userId p = rx_actorId ctx" "\<lambda>_. True"
      "(rx_organizationId ctx, rx_actorId ctx)" p]
  by (auto simp: actor_profile_def access_keys_def)

lemma enrolled_iff:
  assumes "access_keys t"
  shows "enrolled t ctx x \<longleftrightarrow> actor_enrollment ctx x t \<noteq> None"
proof (cases "actor_profile ctx t")
  case None
  then have "\<not> enrolled t ctx x" using actor_profile_iff [OF assms, of ctx] by (auto simp: enrolled_def)
  then show ?thesis by (simp add: actor_enrollment_def None)
next
  case (Some p)
  have one: "q = p" if "q \<in> set (ac_profiles t)" "cp_organizationId q = rx_organizationId ctx" "cp_userId q = rx_actorId ctx" for q
    using that actor_profile_iff [OF assms, of ctx q] Some by simp
  have "p \<in> set (ac_profiles t)" "cp_organizationId p = rx_organizationId ctx" "cp_userId p = rx_actorId ctx"
    using Some actor_profile_iff [OF assms, of ctx p] by simp_all
  then have "enrolled t ctx x \<longleftrightarrow>
      (\<exists>e. (rx_organizationId ctx, e) \<in> set (ac_enrollments t) \<and> en_examId e = x \<and> en_candidateId e = cp_id p)"
    using one unfolding enrolled_def by blast
  then show ?thesis by (auto simp: actor_enrollment_def Some find_None_iff)
qed

lemma eligibility_scope:
  assumes "access_keys t" "anchored_exam t (rx_organizationId ctx) x c"
  shows "\<exists>r. resolveExamEligibilityScope (Inr t) ctx x = Inr (r, \<lparr>eo_candidateProfileId = map_option cp_id (actor_profile ctx t),
    eo_ownerUserId = map_option cp_userId (actor_profile ctx t),
    eo_enrollmentId = map_option (\<lambda>(_, e). en_id e) (actor_enrollment ctx x t)\<rparr>)"
proof -
  obtain l where "exam_chain ctx x t = Some l"
      "check_chain ctx ScopeOwnAttempt l = Inr (resolved_in ScopeOwnAttempt (rx_organizationId ctx) x [(RExam, x), (RCourse, c)])"
    using exam_chain_iff [OF assms(1), of ctx x ScopeOwnAttempt] assms(2) by blast
  moreover have "profile_in ctx (actor_profile ctx t)" using actor_profile_iff [OF assms(1), of ctx] by (auto simp: profile_in_def)
  then have "anchored_profile ctx (actor_profile ctx t) = Inr ()" by simp
  ultimately show ?thesis by (simp add: resolveExamEligibilityScope_def resolve_row_def eligibility_row_def del: anchored_profile_iff)
qed

text \<open>Only enrolled candidates reach an exam. When the named exam lies with its course and organization in the actor's
  organization, the eligibility gate lets a request pass exactly when the actor holds the capability and has a candidate
  profile there that is enrolled in the exam; a holder of the capability who is not enrolled gets the denial the route
  declares, another actor is forbidden. When it does not, nobody passes.\<close>

lemma exam_only_for_enrolled:
  assumes "gq_ctx request = Some rc" "map_of (gq_params request) idKey = Some x" "x \<noteq> []" "db = Inr t" "access_keys t"
  shows "(if \<exists>c. anchored_exam t (rx_organizationId (rc_ctx rc)) x c
    then requireExamEligibility db permission idKey mode request =
      (if permission \<notin> set (rc_capabilities rc) then Inl PERMISSION_DENIED
       else if enrolled t (rc_ctx rc) x then Inr () else Inl (eligibility_denied mode))
    else \<exists>ans. requireExamEligibility db permission idKey mode request = Inl ans)"
proof (cases "\<exists>c. anchored_exam t (rx_organizationId (rc_ctx rc)) x c")
  case True
  then obtain c where c: "anchored_exam t (rx_organizationId (rc_ctx rc)) x c" by blast
  obtain r where r: "resolveExamEligibilityScope (Inr t) (rc_ctx rc) x = Inr (r, \<lparr>eo_candidateProfileId = map_option cp_id (actor_profile (rc_ctx rc) t),
      eo_ownerUserId = map_option cp_userId (actor_profile (rc_ctx rc) t),
      eo_enrollmentId = map_option (\<lambda>(_, e). en_id e) (actor_enrollment (rc_ctx rc) x t)\<rparr>)"
    using eligibility_scope [OF assms(5) c] by blast
  have owner: "map_option cp_userId (actor_profile (rc_ctx rc) t) = Some (rx_actorId (rc_ctx rc))" if "actor_profile (rc_ctx rc) t \<noteq> None"
    using that actor_profile_iff [OF assms(5), of "rc_ctx rc"] by auto
  have profile: "actor_enrollment (rc_ctx rc) x t \<noteq> None \<Longrightarrow> actor_profile (rc_ctx rc) t \<noteq> None"
    by (auto simp: actor_enrollment_def bind_eq_Some_conv)
  have "requireExamEligibility db permission idKey mode request =
      (if permission \<notin> set (rc_capabilities rc) then Inl PERMISSION_DENIED
       else if enrolled t (rc_ctx rc) x then Inr () else Inl (eligibility_denied mode))"
    using assms(1-4) r owner profile unfolding enrolled_iff [OF assms(5)]
    by (auto simp: requireExamEligibility_def with_resource_def ctxAllows_def guardR_def)
  then show ?thesis using True by simp
next
  case False
  have "\<nexists>l r. exam_chain (rc_ctx rc) x t = Some l \<and> check_chain (rc_ctx rc) ScopeOwnAttempt l = Inr r"
    using exam_chain_iff [OF assms(5), of "rc_ctx rc" x ScopeOwnAttempt] False by blast
  then have "resolveExamEligibilityScope (Inr t) (rc_ctx rc) x \<noteq> Inr p" for p
    unfolding resolveExamEligibilityScope_def eligibility_row_def
    by (cases "exam_chain (rc_ctx rc) x t") (auto simp: resolve_row_def cmd_iff)
  then obtain reason where "resolveExamEligibilityScope (Inr t) (rc_ctx rc) x = Inl reason"
    by (cases "resolveExamEligibilityScope (Inr t) (rc_ctx rc) x") blast+
  then show ?thesis using False assms by (simp add: requireExamEligibility_def with_resource_def)
qed

section \<open>Sample requests\<close>

definition sample_tables :: "proctor_store \<Rightarrow> access_tables" where
  "sample_tables proctors = \<lparr>ac_organizations = [''o1''], ac_courses = [\<lparr>cr_id = ''c1'', cr_organizationId = ''o1''\<rparr>],
     ac_exams = [sample_exam], ac_attempts = [sample_attempt], ac_incidents = [], ac_questions = [],
     ac_profiles = [\<lparr>cp_id = ''u1'', cp_organizationId = ''o1'', cp_userId = ''u5''\<rparr>],
     ac_enrollments = [(''o1'', sample_enrollment)], ac_proctors = proctors, ac_teachers = [], ac_graders = []\<rparr>"

definition sample_actor :: "ident \<Rightarrow> string \<Rightarrow> RuntimeRequestContext" where
  "sample_actor user role = \<lparr>rc_ctx = \<lparr>rx_actorId = user, rx_organizationId = ''o1'', rx_role = role\<rparr>,
     rc_roles = [role], rc_capabilities = permissionsForRole role\<rparr>"

definition gate_request :: "RuntimeRequestContext \<Rightarrow> ident \<Rightarrow> GateRequest" where
  "gate_request rc i = \<lparr>gq_ctx = Some rc, gq_params = [(''attemptId'', i), (''examId'', i)], gq_body = None\<rparr>"

definition proctor_route_options :: ScopedOptions where
  "proctor_route_options = \<lparr>so_proctorAccess = True, so_teacherAccess = False, so_graderAccess = False, so_fromBody = False\<rparr>"

definition same_tables :: "access_tables \<Rightarrow> request_queries" where
  "same_tables t = \<lparr>aq_resolver = Inr t, aq_proctor = Inr t, aq_teacher = Inr t, aq_grader = Inr t\<rparr>"

lemma sample_tables_keys: "access_keys (sample_tables p)"
  by (simp add: access_keys_def sample_tables_def)

lemma sample_tables_intact: "chains_intact (sample_tables p)"
  by (simp add: chains_intact_def sample_tables_def anchored_exam_def anchored_course_def sample_exam_def sample_attempt_def)

lemma sample_attempt_scope: "in_scope (sample_tables p) ''o1'' RAttempt ''a1'' (Some ''e1'') ''c1''"
  by (simp add: sample_tables_def anchored_exam_def anchored_course_def sample_exam_def sample_attempt_def)

lemma scoped_gate_exact_witness:
  "requireScopedCapability ''attempt.timeline.view'' RAttempt ''attemptId'' proctor_route_options
     (same_tables (sample_tables after_assign)) (gate_request (sample_actor ''u7'' ''Proctor'') ''a1'') = Inr ()"
proof -
  let ?db = "same_tables (sample_tables after_assign)" and ?rc = "sample_actor ''u7'' ''Proctor''"
  have keys: "access_keys t" if "aq_resolver ?db = Inr t" for t
    using that sample_tables_keys by (auto simp: same_tables_def)
  have given: "assigned proctor_route_options ?db (rc_ctx ?rc) (Some ''e1'') ''c1''"
    unfolding assigned_def proctors_exam_def by (simp add: proctor_route_options_def same_tables_def sample_tables_def sample_actor_def) code_simp
  show ?thesis
    by (insert given sample_attempt_scope [of after_assign], rule iffD2 [OF scoped_gate_exact], erule keys,
        intro exI [of _ ?rc] exI [of _ "''a1''"] exI [of _ "sample_tables after_assign"] exI [of _ "Some ''e1''"] exI [of _ "''c1''"],
        simp add: gate_request_def sample_actor_def same_tables_def request_field_def proctor_route_options_def
        PROCTOR_PERMISSIONS_def del: in_scope.simps)
qed

lemma scoped_gate_hides_witness:
  "requireScopedCapability ''attempt.timeline.view'' RAttempt ''attemptId'' proctor_route_options
     (same_tables (sample_tables no_assignments)) (gate_request (sample_actor ''u7'' ''Proctor'') ''a1'') = Inl RESOURCE_NOT_FOUND"
proof -
  let ?db = "same_tables (sample_tables no_assignments)" and ?rc = "sample_actor ''u7'' ''Proctor''"
  have "\<not> assigned proctor_route_options ?db (rc_ctx ?rc) x c" for x c
    by (simp add: assigned_def proctors_exam_def proctor_route_options_def same_tables_def sample_tables_def no_assignments_def)
  then show ?thesis
    using scoped_gate_hides [of "gate_request ?rc ''a1''" ?rc "''attempt.timeline.view''" RAttempt proctor_route_options
        "''attemptId''" "''a1''" ?db "sample_tables no_assignments", OF _ _ _ _ _ _ sample_tables_keys sample_tables_intact]
    by (simp add: gate_request_def sample_actor_def same_tables_def request_field_def proctor_route_options_def
        PROCTOR_PERMISSIONS_def sound_route_def del: in_scope.simps)
qed

lemma assignment_counts_at_once_witness:
  "requireScopedCapability ''attempt.timeline.view'' RAttempt ''attemptId'' proctor_route_options
     (same_tables (sample_tables after_revoke)) (gate_request (sample_actor ''u7'' ''Proctor'') ''a1'') = Inl RESOURCE_NOT_FOUND"
proof -
  let ?rc = "sample_actor ''u7'' ''Proctor''" and ?t = "sample_tables after_revoke"
  have "pr_outcome (fst (projr (run_sample first_revoke 2 after_assign))) \<noteq> AssignmentReplayed" by code_simp
  note counts = assignment_counts_at_once [OF sample_runs(2) this sample_proctor_inv(1), of "''e1''" ?rc
      "gate_request ?rc ''a1''" "''attempt.timeline.view''" proctor_route_options "''attemptId''" "''a1''"
      "same_tables ?t" ?t RAttempt "''c1''" ?t, OF _ _ _ _ _ _ _ _ _ _ _ sample_tables_keys]
  show ?thesis
    using counts sample_attempt_scope [of after_revoke]
    by (simp add: first_revoke_def gate_request_def sample_actor_def same_tables_def request_field_def
        proctor_route_options_def PROCTOR_PERMISSIONS_def admin_ctx_def del: in_scope.simps)
      (simp add: sample_tables_def)
qed

lemma sample_own: "attempt_of (sample_tables p) ''o1'' ''a1'' ''c1'' (Some \<lparr>cp_id = ''u1'', cp_organizationId = ''o1'', cp_userId = ''u5''\<rparr>)"
  by (simp add: attempt_of_def sample_tables_def anchored_exam_def anchored_course_def sample_exam_def sample_attempt_def)

lemma own_attempt_only_owner_witness:
  "requireOwnAttempt (Inr (sample_tables no_assignments)) ''attempt.submit'' ''attemptId''
     (gate_request (sample_actor ''u5'' ''Candidate'') ''a1'') = Inr ()"
proof -
  let ?db = "Inr (sample_tables no_assignments) :: query"
  have keys: "access_keys t" if "?db = Inr t" for t using that sample_tables_keys by auto
  show ?thesis
    by (insert sample_own [of no_assignments], rule iffD2 [OF own_attempt_only_owner [THEN conjunct1]], erule keys,
        intro exI [of _ "sample_actor ''u5'' ''Candidate''"] exI [of _ "''a1''"] exI [of _ "sample_tables no_assignments"]
          exI [of _ "''c1''"] exI [of _ "\<lparr>cp_id = ''u1'', cp_organizationId = ''o1'', cp_userId = ''u5''\<rparr>"],
        simp add: gate_request_def sample_actor_def CANDIDATE_PERMISSIONS_def)
qed

lemma score_view_arbitrated_witness:
  "requireScoreCapability (Inr (sample_tables no_assignments)) (Inr (sample_tables no_assignments))
     (gate_request (sample_actor ''u5'' ''Candidate'') ''a1'') = Inr ViewOwn"
proof -
  let ?db = "Inr (sample_tables no_assignments) :: query" and ?rc = "sample_actor ''u5'' ''Candidate''"
  have keys: "access_keys t" if "?db = Inr t" for t using that sample_tables_keys by auto
  show ?thesis
    by (insert sample_own [of no_assignments], rule iffD2 [OF score_view_arbitrated], erule keys,
        intro exI [of _ ?rc] exI [of _ "''a1''"] exI [of _ "sample_tables no_assignments"] exI [of _ "''c1''"]
          exI [of _ "Some \<lparr>cp_id = ''u1'', cp_organizationId = ''o1'', cp_userId = ''u5''\<rparr>"],
        simp add: gate_request_def sample_actor_def CANDIDATE_PERMISSIONS_def)
qed

lemma exam_only_for_enrolled_witness:
  "requireExamEligibility (Inr (sample_tables no_assignments)) ''exam.take'' ''examId'' DenyAsForbidden
     (gate_request (sample_actor ''u5'' ''Candidate'') ''e1'') = Inr () \<and>
   requireExamEligibility (Inr (sample_tables no_assignments)) ''exam.take'' ''examId'' DenyAsForbidden
     (gate_request (sample_actor ''u6'' ''Candidate'') ''e1'') = Inl PERMISSION_DENIED"
proof -
  have exam: "anchored_exam (sample_tables no_assignments) ''o1'' ''e1'' ''c1''"
    by (simp add: sample_tables_def anchored_exam_def anchored_course_def sample_exam_def)
  have "enrolled (sample_tables no_assignments) (rc_ctx (sample_actor user ''Candidate'')) ''e1'' \<longleftrightarrow> user = ''u5''" for user
    by (auto simp: enrolled_def sample_tables_def sample_actor_def sample_enrollment_def)
  moreover have "''exam.take'' \<in> set (rc_capabilities (sample_actor user ''Candidate''))" for user
    by (simp add: sample_actor_def CANDIDATE_PERMISSIONS_def)
  moreover have "\<exists>c. anchored_exam (sample_tables no_assignments) (rx_organizationId (rc_ctx (sample_actor user ''Candidate''))) ''e1'' c" for user
    using exam by (auto simp: sample_actor_def)
  moreover have "gq_ctx (gate_request (sample_actor user ''Candidate'') ''e1'') = Some (sample_actor user ''Candidate'')"
      "map_of (gq_params (gate_request (sample_actor user ''Candidate'') ''e1'')) ''examId'' = Some ''e1''" for user
    by (simp_all add: gate_request_def)
  note exam_only_for_enrolled [OF this _ refl sample_tables_keys [of no_assignments],
      where permission = "''exam.take''" and mode = DenyAsForbidden]
  ultimately show ?thesis by (simp split: if_splits)
qed

end
