(* ===== verification/Spec2Isabelle.thy ===== *)
theory Spec2Isabelle
  imports Lifecycles Timing Grading_Engine Presentation Exam_Policy Answer_Protocol Grading Restore
    Admission Result_Visibility Attempt_Start Exam_Commands Operator_Grant Engine_Steps Rich_Canonical Content_Seams
    Operation_Recovery Access_Laws
begin

text \<open>
  \<^bold>\<open>A verification library for the exam engine.\<close>

  The repository is an online examination platform. Its decisions are taken by the engine
  (\<^verbatim>\<open>packages/exam-engine\<close>, with the pure rules of \<^verbatim>\<open>packages/domain\<close>) over tables that it reaches
  through repository ports (\<^verbatim>\<open>packages/db/src/repository\<close>). The life of an exam, in the order in which the
  parts of the engine act: an administrator publishes the exam, which freezes its paper; candidates may
  have to pass an admission queue; starting creates an attempt with a presentation of the paper and a
  snapshot of the interruption policy; answers are saved under a versioned, replayable protocol; a
  scanner marks silent attempts as disrupted and a candidate who returns is restored, possibly with
  compensated time; a submission or the deadline freezes the answers and materializes a grading
  workset; automatic and manual grading close the attempt and record the final result on the
  enrollment; the publication policy decides when the candidate sees it.

  \<^bold>\<open>Theories and what they model\<close> (sources under \<^verbatim>\<open>src/\<close>)

  \<^item> \<open>Prelude\<close>: values, the result monad and the command monad, the contracts as locales:
    \<open>row_table\<close> (what the engine relies on of a repository), \<open>status_machine\<close> (a table of allowed
    moves) and \<open>invariant_step\<close> (an invariant of a step relation), each interpreted on the model.
  \<^item> \<open>Domain\<close>: enumerations, rows and error classes of \<^verbatim>\<open>packages/domain/src\<close> (\<^verbatim>\<open>enums.ts\<close>, \<^verbatim>\<open>types.ts\<close>,
    \<^verbatim>\<open>errors.ts\<close>).
  \<^item> \<open>Lifecycles\<close>: the exam, enrollment and attempt state machines (\<^verbatim>\<open>examStateMachine.ts\<close>,
    \<^verbatim>\<open>enrollmentStateMachine.ts\<close>, \<^verbatim>\<open>attemptStateMachine.ts\<close>).
  \<^item> \<open>Timing\<close>: the deadline kernel (\<^verbatim>\<open>timer.ts\<close>).
  \<^item> \<open>Grading_Engine\<close>: objective grading (\<^verbatim>\<open>packages/domain/src/gradingEngine.ts\<close>).
  \<^item> \<open>Presentation\<close>: the shuffle of questions and options (\<^verbatim>\<open>attemptPresentation.ts\<close>).
  \<^item> \<open>Exam_Policy\<close>: the cross-field policy validator (\<^verbatim>\<open>examPolicy.ts\<close> of both packages).
  \<^item> \<open>Repositories\<close>: the store, one table per port with its unique indexes, and the lock seam
    (\<^verbatim>\<open>lockSeam.ts\<close>).
  \<^item> \<open>Answer_Identity\<close>, \<open>Answer_Protocol\<close>: the identity of answers and the save protocol
    (\<^verbatim>\<open>answerProtocol.ts\<close>).
  \<^item> \<open>Grading_Workset\<close>, \<open>Grading\<close>: the workset, its consistency check and aggregation, and the terminal
    closure with the automatic and the manual path (\<^verbatim>\<open>gradingWorkset.ts\<close>, \<^verbatim>\<open>grading.ts\<close>, \<^verbatim>\<open>manualGrading.ts\<close>).
  \<^item> \<open>Interruption_Policy\<close>: the compensation decision (\<^verbatim>\<open>interruptionPolicy.ts\<close>).
  \<^item> \<open>Attempt_Commands\<close>, \<open>Reconciliation\<close>, \<open>Restore\<close>, \<open>Attempt_Start\<close>: submission and disruption, deadline
    reconciliation, restoration, and start (\<^verbatim>\<open>attemptCommands.ts\<close>, \<^verbatim>\<open>deadlineReconciliation.ts\<close>,
    \<^verbatim>\<open>restoreInterruption.ts\<close>).
  \<^item> \<open>Admission\<close>: the admission queue (\<^verbatim>\<open>admissionCommands.ts\<close>, \<^verbatim>\<open>examAdmissionRepo.ts\<close>).
  \<^item> \<open>Result_Visibility\<close>: visibility of results and the candidate's summary
    (\<^verbatim>\<open>candidateResultVisibility.ts\<close>, \<^verbatim>\<open>candidateExamSummary.ts\<close>).
  \<^item> \<open>Rich_Content\<close>, \<open>Rich_Canonical\<close>: rich documents (\<^verbatim>\<open>packages/domain/src/content/contentDocument.ts\<close>): the
    grammar, the structural limits and the preflight, normalization, projection to text, structural
    equality; and the theory of the canonical form.
  \<^item> \<open>Content_Seams\<close>: the seams through which documents are written and read: the wire schema and
    canonicalization, the classifiers of persisted content (\<^verbatim>\<open>packages/contracts/src\<close>), the validation of
    answers, the resolution of question writes and the export view (\<^verbatim>\<open>apps/api/src\<close>).
  \<^item> \<open>Exam_Commands\<close>: the administrator's commands (\<^verbatim>\<open>examCommands.ts\<close>).
  \<^item> \<open>Operator_Grant\<close>: extra time granted by an operator (\<^verbatim>\<open>operatorGrant.ts\<close>).
  \<^item> \<open>Incident_Store\<close>, \<open>Incident_Commands\<close>: incidents, their events and links (\<^verbatim>\<open>incidentRepo.ts\<close>) and the
    commands on them (\<^verbatim>\<open>incidentCommands.ts\<close>, \<^verbatim>\<open>systemIncidentCommands.ts\<close>).
  \<^item> \<open>Incident_Changes\<close>, \<open>Incident_Laws\<close>: what an incident command may change, the invariant and the history of
    the incident tables, replay, and the scope of links.
  \<^item> \<open>Proctor_Assignment\<close>, \<open>Proctor_Laws\<close>: assignment of proctors to exams, its receipts and its paged listing
    (\<^verbatim>\<open>proctorAssignmentCommands.ts\<close>, \<^verbatim>\<open>proctorAssignmentRepo.ts\<close>), and the laws of the commands.
  \<^item> \<open>Operation_Recovery\<close>: transactions with retries (\<^verbatim>\<open>packages/db/src/types.ts\<close>) and the wrappers that recover a
    lost race (\<^verbatim>\<open>proctorAssignmentOperationRecovery.ts\<close>, \<^verbatim>\<open>incidentOperationRecovery.ts\<close>), under interference.
  \<^item> \<open>Authority\<close>: the permission catalogue, the role presets, the system actors (\<^verbatim>\<open>packages/authz/src\<close>) and the
    authority derived from role assignments (\<^verbatim>\<open>assignmentAuthority.ts\<close>).
  \<^item> \<open>Access_Gates\<close>, \<open>Access_Laws\<close>: the resource resolvers and the gates in front of the routes
    (\<^verbatim>\<open>apps/api/src/authz\<close>, \<^verbatim>\<open>apps/api/src/plugins/authz.ts\<close>), and whom they let pass.
  \<^item> \<open>Engine_Steps\<close>: the step relation of the composed engine and its invariants.
  \<^item> \<open>Samples\<close>: a small concrete installation on which the properties are instantiated.

  \<^bold>\<open>How state and operations correspond to the code\<close>

  \<^item> A command is a function from the store to an error or a result with the new store. It stands for one
    database transaction: a throw rolls back, so the error carries no store, and a history is a
    sequence of successful commands. Row locks order transactions and change no answer of a read.
  \<^item> A table is the list of its rows in insertion order, for one tenant. A violated unique index is an
    error. New identifiers come from a numbered supply \<open>uuid\<close>, of which the store counts the draws;
    where a property needs it, freshness is a hypothesis.
  \<^item> A \<^verbatim>\<open>Date\<close> is an integer number of milliseconds, a \<^verbatim>\<open>number\<close> a rational, null and undefined are \<open>None\<close>,
    a string is a list of 8-bit code units. The queue divides by configuration values and so
    calculates with infinities and not-a-number (\<open>xint\<close>).
  \<^item> A column of type \<^verbatim>\<open>uuid\<close> compares identifiers whatever the case of their digits and returns them in lower
    case (\<open>pg_uuid\<close>). The ledger of time adjustments is modelled so, because the grant command compares what it
    reads back with what the caller sent; identifiers the server draws have that form already.
  \<^item> Every guard, early return and error message of a command is a branch of its definition, in the order
    of the source.
  \<^item> Parameters stand for what is outside: \<open>lower\<close> (locale lower casing), \<open>num\<close> (printing of numbers),
    \<open>sha\<close> (the digest), \<open>uuid\<close>, the random source of the shuffle, \<open>grammar\<close> (the parse of the schema library),
    \<open>dates\<close> (parsing and printing of instants) and \<open>op_uuid\<close> (the UUID of an episode). The hypotheses on them
    are named predicates (\<open>num_ok\<close>, \<open>rng_ok\<close>, injectivity of the digest, the locale \<open>content_grammar\<close>), each
    with an instance.
  \<^item> The incident tables are a store of their own, scoped by organization. The lookups an incident command is
    given (exam, attempt, enrollment, adjustment, episode) are arguments, as in the code.
  \<^item> More contracts are locales: \<open>content_grammar\<close> (what the seams rely on of the schema library, interpreted on a
    strict parser), \<open>incident_operation\<close> (a command that first looks for its own event and leaves it behind,
    interpreted on nine commands), \<open>assignment_operation\<close> (the same for the two assignment commands).
  \<^item> Interference is an environment of transactions: the n-th transaction begun sees the store that others have
    committed by then, or is aborted by the database with an error object of its own. A gate runs its queries one
    by one; each fails or reads the tables as they stand at that moment.

  \<^bold>\<open>What is proved\<close>

  \<^item> Composition (this theory): the engine refines the attempt state machine and never changes what a
    submission froze, an enrollment never has two running attempts, and compensation stays within the
    cap of the attempt, along every history of commands of all components.
  \<^item> Start, queue and visibility: a start is admissible and exact and leaves time to submit; the queue
    admits by its schedule, beyond it only by members of one crowded millisecond (which does happen); a hidden result cannot be inferred from what the
    candidate is told or from whether a start is refused.
  \<^item> Exams: the commands refine the exam lifecycle, publication freezes a paper that can be graded, and
    the check on access settles on the status of the clock. The policy gate decides its specification.
  \<^item> Saves: consistency of any sequence of saves, replay of accepted saves, no lost update, and no save
    after the deadline.
  \<^item> Submission and interruption: freezing, idempotence, the early-submit guard, exact disruption, the
    deadline is enforced and an expired attempt is always closed, a restore resumes or closes and can be
    replayed, a compensation decision is within all its bounds. An operator's grant is exact and made once: a
    repetition is answered from the ledger after any history of the engine, or refused when it names an
    interruption or an incident with an upper-case digit.
  \<^item> Grading: objective grading by sets, totals, exact aggregation and its agreement with the engine,
    soundness and completeness of the workset check, exact closure, the score strategy, idempotence,
    progress of manual grading, and that grades go one way.
  \<^item> Rich content: normalization yields the canonical form and keeps the text, comparison decides equality of
    canonical documents, what the write seam accepts reads back unchanged and passes publication, plain
    text round-trips, the preflight ends and passes every legal document, and where the limits have a gap.
  \<^item> Incidents: the tables stay consistent and append-only along every sequence of commands, repeated commands
    are answered as replays (except severity changes, which conflict), at most one update is applied per
    version, links stay in scope, and the recognition of constraint violations ends on cyclic chains.
  \<^item> Proctors: episodes stay consistent and change only by one revocation, a command grants or withdraws exactly
    what it names, repetitions are answered with the original episode, and paging lists every episode once.
  \<^item> Interference: a route answers only what one of its own transactions committed on a receipt of its request, a
    lost race leaves a receipt or is decided by the committed operation, and at most twelve transactions begin.
  \<^item> Authority and access: an authority is the union of the presets of the active assignments and keeps duties
    separate; a gate lets pass exactly whom capability, stored resource chain and assignments allow, refuses the
    rest alike, and heeds a change of assignment at the next request; only the owner reaches an attempt.

  \<^bold>\<open>Loops and bounds.\<close> Every loop of the modelled code runs over a list and is structural recursion, with three
  exceptions: the retry loop of \<^verbatim>\<open>joinActive\<close>, which has its bound of three rounds as fuel (one round is
  shown to be enough in every state); the raw walk of the preflight, which terminates by the size of the
  values on its stack; and the walk along a chain of causes, by the number of errors not yet seen. The retries
  of a transaction are bounded by the source (four tries), and a wrapper runs at most three such loops. The pages
  of a listing are a recursive function whose measure is the number of rows after the cursor. All definitions
  are total.

  \<^bold>\<open>Not modelled.\<close> The web front end, the rest of the HTTP layer (parsing and serialization of requests, route
  metadata), authentication and the import of spreadsheets are input and output around the engine. Contention is
  modelled where the code handles it, in the recovery wrappers; elsewhere commands are atomic. The delays between
  retries, reporting and recovery queries of the repositories, and the health thresholds of the host are not
  reached. Columns that no modelled command reads (misconduct flags, audit fields, time stamps of rows) are left
  out of the records. In the incident and proctor tables, identifiers that a caller writes with upper-case digits
  are not told apart from other strings, as the database would.
\<close>

section \<open>Properties of the composed engine\<close>

text \<open>C1: The engine implements the attempt machine. Along every history of successful commands of all
  components, an attempt is never lost, keeps its identity, its exam, its enrollment, its paper, its
  start and its interruption policy, and its status has moved along the transition table of the
  attempt state machine only; once it is submitted or graded, its answers, the submitted snapshot, the
  time and the reason of the submission never change again.\<close>

theorem engine_refines_attempt_machine:
  assumes "(engine_step lower num sha uuid)\<^sup>*\<^sup>* s s'" and "find_attempt k s = Some a"
  shows "\<exists>b. find_attempt k s' = Some b \<and> attempt_step\<^sup>*\<^sup>* (at_status a) (at_status b) \<and>
    at_id b = at_id a \<and> at_examId b = at_examId a \<and> at_enrollmentId b = at_enrollmentId a \<and>
    at_candidateId b = at_candidateId a \<and> at_attemptNo b = at_attemptNo a \<and>
    at_questionSnapshot b = at_questionSnapshot a \<and> at_startedAt b = at_startedAt a \<and>
    at_interruptionTimingPolicySnapshot b = at_interruptionTimingPolicySnapshot a \<and>
    (at_status a = Submitted \<or> at_status a = Graded \<longrightarrow>
       (at_status b = Submitted \<or> at_status b = Graded) \<and> at_answers b = at_answers a \<and>
       at_submittedAnswers b = at_submittedAnswers a \<and> at_submittedAt b = at_submittedAt a \<and>
       at_submissionReason b = at_submissionReason a)"
proof -
  have "\<exists>b. find_attempt k s' = Some b \<and> attempt_evolves a b"
    by (rule attempt_history.reach_inv [OF assms(1)]) (simp add: assms(2))
  then obtain b where b: "find_attempt k s' = Some b" "attempt_evolves a b" by blast
  then have "attempt_frozen (at_status a) \<Longrightarrow> attempt_frozen (at_status b)"
    using frozen_step.reach_inv [of "at_status a" "at_status b"] by (simp add: attempt_evolves_def)
  with b show ?thesis by (auto simp: attempt_evolves_def attempt_frozen_def)
qed

text \<open>C2: One running attempt per enrollment. If no enrollment has two attempts that are in progress or
  disrupted, none ever gets them, whatever commands run: there is no unique index for this, it rests on
  the start command looking for a running attempt and on no other command ever reviving one.\<close>

theorem one_running_attempt:
  assumes "(engine_step lower num sha uuid)\<^sup>*\<^sup>* s s'" and "one_running s"
    and "find_attempt j s' = Some a" "find_attempt k s' = Some b" "running a" "running b"
    and "at_enrollmentId a = at_enrollmentId b"
  shows "j = k"
  using running_history.reach_inv [OF assms(1,2)] assms(3-7) unfolding one_running_def by blast

text \<open>C3: Compensation never exceeds the cap of the attempt. In every state that the commands reach from
  one in which the ledger is within the caps, the bounded-grace seconds entered for an attempt sum up
  to at most the per-attempt cap frozen on it at its start, over however many interruptions.\<close>

theorem compensation_within_cap:
  assumes "(engine_step lower num sha uuid)\<^sup>*\<^sup>* s s'" and "ledger_ok s"
    and "find_attempt k s' = Some a" "at_interruptionTimingPolicySnapshot a = Some p" "snapshot_ok p"
    and "tp_policy p = BoundedGrace"
  shows "of_int (sumBoundedGraceSeconds k s') \<le> the (tp_perAttemptAggregateCapSeconds p)"
proof -
  have "sumBoundedGraceSeconds k s' \<le> \<lfloor>the (tp_perAttemptAggregateCapSeconds p)\<rfloor>"
    using ledger_history.reach_inv [OF assms(1,2)] assms(3-6) unfolding ledger_ok_def within_cap_def by blast
  then show ?thesis by (simp add: le_floor_iff)
qed

section \<open>Instances\<close>

text \<open>The attempt of the sample is disrupted and restored.\<close>

definition sample_restored :: "RestoreInterruptionResult \<times> store" where
  "sample_restored = projr (restoreInterruptedAttempt id unary_num sample_uuid sample_repos sample_cap 150000
     sample_disrupted)"

lemma sample_history:
  "(engine_step id unary_num id sample_uuid)\<^sup>*\<^sup>* sample_store (snd sample_restored)"
proof -
  have "markDisrupted sample_uuid ''a1'' 100000 60 sample_store =
      Inr (fst (projr (markDisrupted sample_uuid ''a1'' 100000 60 sample_store)), sample_disrupted)"
    unfolding sample_disrupted_def by (rule run_result) code_simp
  then have "engine_step id unary_num id sample_uuid sample_store sample_disrupted"
    by (rule engine_step.disrupt)
  moreover have "restoreInterruptedAttempt id unary_num sample_uuid sample_repos sample_cap 150000 sample_disrupted =
      Inr (fst sample_restored, snd sample_restored)"
    unfolding sample_restored_def by (rule run_result) code_simp
  then have "engine_step id unary_num id sample_uuid sample_disrupted (snd sample_restored)"
    by (rule engine_step.restore)
  ultimately show ?thesis by (meson converse_rtranclp_into_rtranclp rtranclp.rtrancl_refl)
qed

lemma sample_found:
  "find_attempt ''a1'' (snd sample_restored) = Some (rr_attempt (fst sample_restored))"
  "at_interruptionTimingPolicySnapshot (rr_attempt (fst sample_restored)) = Some \<lparr>tp_policy = BoundedGrace,
     tp_perIncidentCapSeconds = Some 300, tp_perAttemptAggregateCapSeconds = Some 600\<rparr>"
  "running (rr_attempt (fst sample_restored))"
  by code_simp+

lemma sample_invariants: "one_running sample_store" "ledger_ok sample_store"
  by (auto simp: one_running_def ledger_ok_def within_cap_def sample_store_def find_attempt_def tbl_find_def
      sumBoundedGraceSeconds_def snapshot_ok_def split: if_splits)

theorem engine_refines_attempt_machine_witness:
  "attempt_step\<^sup>*\<^sup>* InProgress (at_status (rr_attempt (fst sample_restored)))"
proof -
  have "find_attempt ''a1'' sample_store = Some sample_attempt" "at_status sample_attempt = InProgress"
    by code_simp+
  then show ?thesis
    using engine_refines_attempt_machine [OF sample_history, of "''a1''" sample_attempt] sample_found(1) by auto
qed

theorem one_running_attempt_witness:
  "{j. \<exists>b. find_attempt j (snd sample_restored) = Some b \<and> running b \<and> at_enrollmentId b = ''n1''} = {''a1''}"
proof -
  have n: "at_enrollmentId (rr_attempt (fst sample_restored)) = ''n1''" by code_simp
  have "j = ''a1''"
    if "find_attempt j (snd sample_restored) = Some b" "running b" "at_enrollmentId b = ''n1''" for j b
    by (rule one_running_attempt [OF sample_history sample_invariants(1) that(1) sample_found(1) that(2)
        sample_found(3)]) (simp only: that(3) n)
  moreover have "\<exists>b. find_attempt ''a1'' (snd sample_restored) = Some b \<and> running b \<and>
      at_enrollmentId b = ''n1''"
    by (intro exI conjI, rule sample_found(1), rule sample_found(3), rule n)
  ultimately show ?thesis by blast
qed

theorem compensation_within_cap_witness:
  "of_int (sumBoundedGraceSeconds ''a1'' (snd sample_restored)) \<le> (600 :: jsnum)"
proof -
  have "snapshot_ok \<lparr>tp_policy = BoundedGrace, tp_perIncidentCapSeconds = Some 300,
      tp_perAttemptAggregateCapSeconds = Some 600\<rparr>"
    by (simp add: snapshot_ok_def)
  from compensation_within_cap [OF sample_history sample_invariants(2) sample_found(1,2) this] show ?thesis by simp
qed

end
